(* ===== verification/Prelude.thy ===== *)
theory Prelude
  imports Complex_Main "HOL-Library.Multiset" "HOL-Library.List_Lexorder" "HOL-Library.Char_ord"
begin

text \<open>
  Shared vocabulary of the development: the model's basic types, Python exceptions as values,
  JSON values as the payloads of the bus, Python's insertion-ordered dictionaries as
  association lists, and the small list operations several components repeat.
  Collections: \<open>pydict\<close> (dictionary laws) and \<open>exec_simps\<close> (equations that evaluate).
\<close>

named_theorems pydict
named_theorems exec_simps

section \<open>Basic types\<close>

text \<open>
  Python floats are modelled by exact rationals (every finite float is one), so sums, products and
  quotients are not rounded and there is no NaN. Timestamps are integers counted in microseconds, the
  resolution of \<open>datetime\<close>; \<open>seconds n\<close> is \<open>timedelta(seconds=n)\<close>. UUIDs and identifiers are the strings the code compares.
\<close>

type_synonym pyfloat = rat
type_synonym time = int
type_synonym uuid = string

definition seconds :: "int \<Rightarrow> time" where
  "seconds n = n * 1000000"

datatype exn =
    ValueError | KeyError | TypeError | RuntimeError | AttributeError | ImportError
  | ValidationError | CircuitOpenError | TimeoutError | InvalidSignature | HTTPException nat
  | OtherError string

type_synonym 'a result = "exn + 'a"

fun is_ok :: "'a result \<Rightarrow> bool" where
  "is_ok (Inl e) = False"
| "is_ok (Inr a) = True"

fun bind_result :: "'a result \<Rightarrow> ('a \<Rightarrow> 'b result) \<Rightarrow> 'b result" where
  "bind_result (Inl e) f = Inl e"
| "bind_result (Inr a) f = f a"

lemma bind_result_Inr_iff [simp]:
  "bind_result r f = Inr b \<longleftrightarrow> (\<exists>a. r = Inr a \<and> f a = Inr b)"
  by (cases r) auto

text \<open>Sequencing of stateful steps: an exception skips the rest and keeps the state reached.\<close>

fun seq_res :: "'a result \<times> 's \<Rightarrow> ('a \<Rightarrow> 's \<Rightarrow> 'b result \<times> 's) \<Rightarrow> 'b result \<times> 's" where
  "seq_res (Inl e, s) f = (Inl e, s)"
| "seq_res (Inr a, s) f = f a s"

lemma seq_res_rel:
  assumes "R s (snd x)" and "\<And>a t. R t (snd (f a t))" and "\<And>s t u. R s t \<Longrightarrow> R t u \<Longrightarrow> R s u"
  shows "R s (snd (seq_res x f))"
  using assms by (cases x; cases "fst x") auto

text \<open>JSON values, the payloads carried by the event bus.\<close>

datatype json =
    JNull
  | JBool bool
  | JInt int
  | JNum pyfloat
  | JStr string
  | JList "json list"
  | JObj "(string \<times> json) list"

definition jopt :: "('a \<Rightarrow> json) \<Rightarrow> 'a option \<Rightarrow> json" where
  "jopt f x = (case x of None \<Rightarrow> JNull | Some a \<Rightarrow> f a)"

lemma jopt_simps [simp, exec_simps]: "jopt f None = JNull" "jopt f (Some a) = f a"
  by (simp_all add: jopt_def)

fun jfield :: "json \<Rightarrow> string \<Rightarrow> json option" where
  "jfield (JObj kvs) k = map_of kvs k"
| "jfield _ k = None"

section \<open>Insertion-ordered dictionaries\<close>

text \<open>
  A Python \<open>dict\<close> (or \<open>OrderedDict\<close>) is an association list in insertion order with distinct keys.
  \<open>d[k] = v\<close> keeps the position of a present key and appends a new one.
\<close>

type_synonym ('k, 'v) pydict = "('k \<times> 'v) list"

definition keys :: "('k, 'v) pydict \<Rightarrow> 'k list" where
  "keys d = map fst d"

definition wf_dict :: "('k, 'v) pydict \<Rightarrow> bool" where
  "wf_dict d \<longleftrightarrow> distinct (map fst d)"

fun dict_put :: "'k \<Rightarrow> 'v \<Rightarrow> ('k, 'v) pydict \<Rightarrow> ('k, 'v) pydict" where
  "dict_put k v [] = [(k, v)]"
| "dict_put k v ((k', v') # d) = (if k = k' then (k, v) # d else (k', v') # dict_put k v d)"

definition dict_del :: "'k \<Rightarrow> ('k, 'v) pydict \<Rightarrow> ('k, 'v) pydict" where
  "dict_del k d = filter (\<lambda>p. fst p \<noteq> k) d"

definition dict_has :: "('k, 'v) pydict \<Rightarrow> 'k \<Rightarrow> bool" where
  "dict_has d k \<longleftrightarrow> k \<in> set (map fst d)"

text \<open>\<open>OrderedDict.move_to_end\<close> on a present key, and \<open>popitem(last=False)\<close> on a non-empty dict.\<close>

definition dict_move_to_end :: "'k \<Rightarrow> ('k, 'v) pydict \<Rightarrow> ('k, 'v) pydict" where
  "dict_move_to_end k d =
     (case map_of d k of None \<Rightarrow> d | Some v \<Rightarrow> dict_del k d @ [(k, v)])"

definition dict_popfirst :: "('k, 'v) pydict \<Rightarrow> ('k, 'v) pydict" where
  "dict_popfirst d = drop 1 d"

lemma dict_has_iff [pydict]: "dict_has d k \<longleftrightarrow> map_of d k \<noteq> None"
  by (simp add: dict_has_def map_of_eq_None_iff)

lemma map_of_dict_put [simp, pydict]: "map_of (dict_put k v d) = (map_of d)(k \<mapsto> v)"
  by (induction d) auto

lemma map_of_dict_del [simp, pydict]: "map_of (dict_del k d) = (map_of d)(k := None)"
  by (induction d) (auto simp: dict_del_def fun_eq_iff)

lemma dict_has_put [simp]: "dict_has (dict_put k v d) k' \<longleftrightarrow> k = k' \<or> dict_has d k'"
  by (auto simp: dict_has_iff)

lemma keys_dict_put: "map fst (dict_put k v d) =
    (if k \<in> fst ` set d then map fst d else map fst d @ [k])"
  by (induction d) force+

lemma wf_dict_Nil [simp, pydict]: "wf_dict []"
  by (simp add: wf_dict_def)

lemma wf_dict_put [simp, pydict]: "wf_dict d \<Longrightarrow> wf_dict (dict_put k v d)"
  by (auto simp: wf_dict_def keys_dict_put)

lemma wf_dict_filter [simp, pydict]: "wf_dict d \<Longrightarrow> wf_dict (filter P d)"
  by (induction d) (auto simp: wf_dict_def)

lemma wf_dict_del [simp, pydict]: "wf_dict d \<Longrightarrow> wf_dict (dict_del k d)"
  by (simp add: dict_del_def)

lemma map_of_filter_value:
  "wf_dict d \<Longrightarrow> map_of (filter (\<lambda>(k, v). P k v) d) k =
     (case map_of d k of None \<Rightarrow> None | Some v \<Rightarrow> if P k v then Some v else None)"
  by (induction d) (auto simp: wf_dict_def map_of_eq_None_iff split: option.splits)

lemma wf_dict_snoc: "wf_dict d \<Longrightarrow> map_of d k = None \<Longrightarrow> wf_dict (d @ [(k, v)])"
  by (auto simp: wf_dict_def map_of_eq_None_iff)

lemma wf_dict_move_to_end [simp, pydict]: "wf_dict d \<Longrightarrow> wf_dict (dict_move_to_end k d)"
  by (auto simp: dict_move_to_end_def intro!: wf_dict_snoc split: option.splits)

lemma map_of_move_to_end [simp, pydict]: "map_of (dict_move_to_end k d) = map_of d"
  by (auto simp: dict_move_to_end_def map_add_def fun_eq_iff split: option.splits)

lemma length_dict_del_le: "length (dict_del k d) \<le> length d"
  by (simp add: dict_del_def)

lemma filter_fst_neq_id: "k \<notin> fst ` set d \<Longrightarrow> filter (\<lambda>p. fst p \<noteq> k) d = d"
  by (induction d) auto

lemma length_dict_del_Some:
  "wf_dict d \<Longrightarrow> map_of d k = Some v \<Longrightarrow> Suc (length (dict_del k d)) = length d"
  by (induction d) (auto simp: wf_dict_def dict_del_def filter_fst_neq_id split: if_splits)

lemma length_dict_del_None: "map_of d k = None \<Longrightarrow> dict_del k d = d"
  by (simp add: dict_del_def map_of_eq_None_iff filter_fst_neq_id)

lemma length_move_to_end: "wf_dict d \<Longrightarrow> length (dict_move_to_end k d) = length d"
  by (auto simp: dict_move_to_end_def length_dict_del_Some split: option.splits)

lemma wf_dict_popfirst [simp, pydict]: "wf_dict d \<Longrightarrow> wf_dict (dict_popfirst d)"
  by (cases d) (auto simp: wf_dict_def dict_popfirst_def)

lemma map_of_map_values: "map_of (map (\<lambda>(k, v). (k, f k v)) d) k = map_option (f k) (map_of d k)"
  by (induction d) auto

lemma length_dict_put:
  "length (dict_put k v d) = (if dict_has d k then length d else Suc (length d))"
  by (induction d) (force simp: dict_has_def)+

section \<open>Appending without duplicates\<close>

text \<open>The idiom \<open>if x not in xs: xs.append(x)\<close> and its loop over a list.\<close>

definition append_new :: "'a \<Rightarrow> 'a list \<Rightarrow> 'a list" where
  "append_new x xs = (if x \<in> set xs then xs else xs @ [x])"

definition append_all_new :: "'a list \<Rightarrow> 'a list \<Rightarrow> 'a list" where
  "append_all_new ys xs = fold append_new ys xs"

lemma set_append_new [simp]: "set (append_new x xs) = insert x (set xs)"
  by (auto simp: append_new_def)

lemma distinct_append_new [simp]: "distinct (append_new x xs) = distinct xs"
  by (auto simp: append_new_def)

lemma set_append_all_new [simp]: "set (append_all_new ys xs) = set ys \<union> set xs"
  unfolding append_all_new_def by (induction ys arbitrary: xs) auto

lemma distinct_append_all_new [simp]: "distinct (append_all_new ys xs) = distinct xs"
  unfolding append_all_new_def by (induction ys arbitrary: xs) auto

lemma append_all_new_subset: "set ys \<subseteq> set xs \<Longrightarrow> append_all_new ys xs = xs"
  unfolding append_all_new_def by (induction ys arbitrary: xs) (auto simp: append_new_def)

section \<open>Bounded queues\<close>

text \<open>\<open>deque(maxlen=n).append(x)\<close>: the oldest entries are dropped from the left.\<close>

definition deque_append :: "nat \<Rightarrow> 'a \<Rightarrow> 'a list \<Rightarrow> 'a list" where
  "deque_append n x xs = (let ys = xs @ [x] in drop (length ys - n) ys)"

lemma length_deque_append: "length (deque_append n x xs) = min n (Suc (length xs))"
  by (simp add: deque_append_def Let_def)

lemma deque_append_room: "length xs < n \<Longrightarrow> deque_append n x xs = xs @ [x]"
  by (simp add: deque_append_def Let_def)

lemma set_deque_append: "set (deque_append n x xs) \<subseteq> insert x (set xs)"
  using set_drop_subset[of "length (xs @ [x]) - n" "xs @ [x]"]
  by (auto simp: deque_append_def Let_def)

lemma last_deque_append: "0 < n \<Longrightarrow> x \<in> set (deque_append n x xs)"
  by (simp add: deque_append_def Let_def Suc_diff_le drop_append)

section \<open>Clamping\<close>

text \<open>\<open>max(lo, min(hi, x))\<close>, the double clamp used for every score.\<close>

definition clamp :: "'a::linorder \<Rightarrow> 'a \<Rightarrow> 'a \<Rightarrow> 'a" where
  "clamp lo hi x = max lo (min hi x)"

lemma clamp_bounds: "lo \<le> hi \<Longrightarrow> lo \<le> clamp lo hi x \<and> clamp lo hi x \<le> hi"
  by (auto simp: clamp_def max_def min_def)

lemma clamp_id: "lo \<le> x \<Longrightarrow> x \<le> hi \<Longrightarrow> clamp lo hi x = x"
  by (auto simp: clamp_def max_def min_def)

lemma clamp_mono: "x \<le> y \<Longrightarrow> clamp lo hi x \<le> clamp lo hi y"
  by (auto simp: clamp_def max_def min_def)

section \<open>Formatting numbers\<close>

text \<open>\<open>str(n)\<close> for integers, and the fixed-point format \<open>{x:.kf}\<close> (round half to even).\<close>

fun show_nat :: "nat \<Rightarrow> string" where
  "show_nat n = (if n < 10 then [char_of (48 + n)] else show_nat (n div 10) @ [char_of (48 + n mod 10)])"

declare show_nat.simps [simp del]

definition show_int :: "int \<Rightarrow> string" where
  "show_int i = (if i < 0 then ''-'' else []) @ show_nat (nat \<bar>i\<bar>)"

definition round_half_even :: "rat \<Rightarrow> int" where
  "round_half_even x =
     (let f = \<lfloor>x\<rfloor>; r = x - of_int f
      in if r < 1/2 then f else if 1/2 < r then f + 1 else if even f then f else f + 1)"

lemma round_half_even_bounds:
  assumes "of_int a \<le> x" and "x \<le> of_int b"
  shows "a \<le> round_half_even x \<and> round_half_even x \<le> b"
proof -
  have "a \<le> \<lfloor>x\<rfloor>" using assms(1) by (simp add: le_floor_iff)
  moreover have "\<lfloor>x\<rfloor> \<le> b" using assms(2) floor_mono [of x "of_int b"] by simp
  moreover have "x = of_int \<lfloor>x\<rfloor>" if "\<lfloor>x\<rfloor> = b"
    using that assms(2) of_int_floor_le [of x] by simp
  ultimately show ?thesis
    by (cases "\<lfloor>x\<rfloor> = b") (auto simp: round_half_even_def Let_def)
qed

text \<open>\<open>round(x, 2)\<close>.\<close>

definition round2 :: "pyfloat \<Rightarrow> pyfloat" where
  "round2 x = of_int (round_half_even (x * 100)) / 100"

definition fixed_str :: "nat \<Rightarrow> rat \<Rightarrow> string" where
  "fixed_str k x =
     (let a = nat \<bar>round_half_even (x * 10 ^ k)\<bar>; frac = show_nat (a mod 10 ^ k)
      in (if x < 0 then ''-'' else []) @ show_nat (a div 10 ^ k)
         @ (if k = 0 then [] else ''.'' @ replicate (k - length frac) (CHR ''0'') @ frac))"

text \<open>\<open>sep.join(parts)\<close>.\<close>

fun join :: "string \<Rightarrow> string list \<Rightarrow> string" where
  "join sep [] = []"
| "join sep [x] = x"
| "join sep (x # y # zs) = x @ sep @ join sep (y # zs)"

section \<open>Trimming\<close>

text \<open>\<open>str.strip()\<close> on the white space of the Latin-1 range.\<close>

definition is_space :: "char \<Rightarrow> bool" where
  "is_space c \<longleftrightarrow> (of_char c :: nat) \<in> {9, 10, 11, 12, 13, 28, 29, 30, 31, 32, 133, 160}"

definition strip :: "string \<Rightarrow> string" where
  "strip s = rev (dropWhile is_space (rev (dropWhile is_space s)))"

section \<open>Searching and converting\<close>

text \<open>\<open>t in s\<close> on strings; \<open>str(v)\<close>, with \<open>other\<close> for the values whose text no property depends on; pydantic's
  check of a \<open>list[str]\<close>.\<close>

fun starts_with :: "string \<Rightarrow> string \<Rightarrow> bool" where
  "starts_with s [] = True"
| "starts_with [] (c # cs) = False"
| "starts_with (a # as) (c # cs) = (a = c \<and> starts_with as cs)"

fun contains :: "string \<Rightarrow> string \<Rightarrow> bool" where
  "contains [] t = (t = [])"
| "contains (a # as) t = (starts_with (a # as) t \<or> contains as t)"

fun py_str :: "(json \<Rightarrow> string) \<Rightarrow> json \<Rightarrow> string" where
  "py_str other (JStr s) = s"
| "py_str other JNull = ''None''"
| "py_str other (JInt n) = show_int n"
| "py_str other (JBool b) = (if b then ''True'' else ''False'')"
| "py_str other v = other v"

fun py_bool :: "json \<Rightarrow> bool" where
  "py_bool JNull = False"
| "py_bool (JBool b) = b"
| "py_bool (JInt n) = (n \<noteq> 0)"
| "py_bool (JNum x) = (x \<noteq> 0)"
| "py_bool (JStr s) = (s \<noteq> [])"
| "py_bool (JList js) = (js \<noteq> [])"
| "py_bool (JObj kvs) = (kvs \<noteq> [])"

fun str_items :: "json list \<Rightarrow> string list result" where
  "str_items [] = Inr []"
| "str_items (JStr s # js) = bind_result (str_items js) (\<lambda>ss. Inr (s # ss))"
| "str_items (_ # js) = Inl ValidationError"

fun str_list :: "json \<Rightarrow> string list result" where
  "str_list (JList js) = str_items js"
| "str_list _ = Inl ValidationError"

section \<open>Inserting under a unique key\<close>

definition insert_unique :: "('a \<Rightarrow> 'k) \<Rightarrow> 'a list \<Rightarrow> 'a list \<Rightarrow> 'a list option" where
  "insert_unique key new old = (if distinct (map key (old @ new)) then Some (old @ new) else None)"

section \<open>Query results\<close>

text \<open>
  \<open>ORDER BY key DESC\<close> (rows with equal keys, whose order SQL leaves open, keep table order) and
  \<open>OFFSET/LIMIT\<close>.
\<close>

definition sort_desc :: "('a \<Rightarrow> 'k::linorder) \<Rightarrow> 'a list \<Rightarrow> 'a list" where
  "sort_desc key xs = rev (sort_key key (rev xs))"

definition page_of :: "nat \<Rightarrow> nat \<Rightarrow> 'a list \<Rightarrow> 'a list" where
  "page_of offset limit xs = take limit (drop offset xs)"

lemma set_sort_desc [simp]: "set (sort_desc key xs) = set xs"
  by (simp add: sort_desc_def)

lemma length_sort_desc [simp]: "length (sort_desc key xs) = length xs"
  by (simp add: sort_desc_def)

lemma sort_desc_ascending:
  assumes "sorted_wrt (\<lambda>x y. key x < key y) xs"
  shows "sort_desc key xs = rev xs"
proof -
  have srt: "sorted (map key xs)"
    unfolding sorted_map by (rule sorted_wrt_mono_rel [OF _ assms]) auto
  have "distinct (map key xs)"
    using assms by (induction xs) (auto simp: less_le)
  then have "sort_key key (rev xs) = xs"
    by (intro sort_key_inj_key_eq) (auto simp: distinct_map srt)
  then show ?thesis by (simp add: sort_desc_def)
qed

end
