(* ===== verification/Schema.thy ===== *)
theory Schema
  imports Prelude
begin

text \<open>
  The canonical data models of \<open>core/schema.py\<close> that the modelled components share: events, alerts,
  decisions, forensic cases, incidents and snapshots. A pydantic model is a record with the same
  fields (prefixed by the model, since record fields are global); a \<open>Literal\<close> type is a datatype,
  ordered where the code orders it.
\<close>

section \<open>Severities\<close>

datatype severity = Low | Medium | High | Critical

text \<open>The \<open>_SEVERITY_ORDER\<close> table.\<close>

fun severity_ord :: "severity \<Rightarrow> int" where
  "severity_ord Low = 0"
| "severity_ord Medium = 1"
| "severity_ord High = 2"
| "severity_ord Critical = 3"

lemma severity_ord_inj [simp]: "severity_ord a = severity_ord b \<longleftrightarrow> a = b"
  by (cases a; cases b) auto

lemma severity_ord_bounds [simp]: "0 \<le> severity_ord a" "severity_ord a \<le> 3"
  by (cases a; simp)+

instantiation severity :: linorder
begin

definition less_eq_severity :: "severity \<Rightarrow> severity \<Rightarrow> bool" where
  "less_eq_severity a b \<longleftrightarrow> severity_ord a \<le> severity_ord b"

definition less_severity :: "severity \<Rightarrow> severity \<Rightarrow> bool" where
  "less_severity a b \<longleftrightarrow> severity_ord a < severity_ord b"

instance
  by standard (auto simp: less_eq_severity_def less_severity_def)

end

fun severity_str :: "severity \<Rightarrow> string" where
  "severity_str Low = ''low''"
| "severity_str Medium = ''medium''"
| "severity_str High = ''high''"
| "severity_str Critical = ''critical''"

section \<open>Events\<close>

record universal_event =
  ev_event_id :: uuid
  ev_timestamp_ns :: int
  ev_hostname :: string
  ev_agent_id :: uuid
  ev_category :: string
  ev_type :: string
  ev_severity :: string
  ev_collector :: string
  ev_os :: string
  ev_uid :: int
  ev_gid :: int
  ev_pid :: int
  ev_ppid :: int
  ev_process_name :: string
  ev_executable :: string
  ev_cmdline :: string
  ev_cwd :: string
  ev_session_id :: "int option"
  ev_resource :: string
  ev_result :: string
  ev_file_hash_before :: "string option"
  ev_file_hash_after :: "string option"
  ev_src_ip :: "string option"
  ev_src_port :: "int option"
  ev_dst_ip :: "string option"
  ev_dst_port :: "int option"
  ev_protocol :: "string option"
  ev_bytes_sent :: "int option"
  ev_bytes_recv :: "int option"
  ev_hash_chain :: string
  ev_signature :: "string option"
  ev_ml_score :: "pyfloat option"
  ev_risk_score :: "pyfloat option"
  ev_rule_match_ids :: "string list"
  ev_mitre_techniques :: "string list"
  ev_ti_tags :: "string list"
  ev_incident_chain_id :: "uuid option"
  ev_extra :: "(string, json) pydict"

text \<open>The \<open>Literal\<close> and range constraints pydantic checks when an event is built.\<close>

definition event_categories :: "string list" where
  "event_categories =
     [''file'', ''process'', ''network'', ''user'', ''device'', ''log'', ''audit'']"

definition event_severities :: "string list" where
  "event_severities = [''info'', ''low'', ''medium'', ''high'', ''critical'']"

definition event_oses :: "string list" where
  "event_oses = [''linux'', ''windows'', ''darwin'']"

definition valid_port :: "int option \<Rightarrow> bool" where
  "valid_port p \<longleftrightarrow> (case p of None \<Rightarrow> True | Some n \<Rightarrow> 0 \<le> n \<and> n \<le> 65535)"

definition valid_event :: "universal_event \<Rightarrow> bool" where
  "valid_event e \<longleftrightarrow> ev_category e \<in> set event_categories \<and> ev_severity e \<in> set event_severities
     \<and> ev_os e \<in> set event_oses \<and> valid_port (ev_src_port e) \<and> valid_port (ev_dst_port e)"

section \<open>Alerts\<close>

datatype alert_status = AOpen | AAcknowledged | AInvestigating | AResolved | AFalsePositive

datatype rule_type = Anomaly | Surveillance

record alert_note =
  an_note_id :: uuid
  an_created_at :: time
  an_updated_at :: "time option"
  an_author :: string
  an_content :: string

record alert =
  al_alert_id :: uuid
  al_created_at :: time
  al_updated_at :: time
  al_severity :: severity
  al_status :: alert_status
  al_rule_id :: "string option"
  al_rule_type :: rule_type
  al_ml_triggered :: bool
  al_ti_triggered :: bool
  al_entity_id :: string
  al_hostname :: string
  al_trigger_event_id :: uuid
  al_related_event_ids :: "uuid list"
  al_incident_chain_id :: "uuid option"
  al_title :: string
  al_description :: string
  al_mitre_techniques :: "string list"
  al_assigned_to :: "string option"
  al_notes :: "alert_note list"
  al_false_positive_count :: int
  al_dst_ip :: "string option"
  al_pid :: "int option"
  al_process_name :: string

section \<open>Decisions\<close>

datatype decision_type =
  ALERT | IGNORE | ESCALATE | INVESTIGATE | ISOLATE | REQUEST_HUMAN | COLLECT_MORE | NOTIFY

fun decision_type_str :: "decision_type \<Rightarrow> string" where
  "decision_type_str ALERT = ''ALERT''"
| "decision_type_str IGNORE = ''IGNORE''"
| "decision_type_str ESCALATE = ''ESCALATE''"
| "decision_type_str INVESTIGATE = ''INVESTIGATE''"
| "decision_type_str ISOLATE = ''ISOLATE''"
| "decision_type_str REQUEST_HUMAN = ''REQUEST_HUMAN''"
| "decision_type_str COLLECT_MORE = ''COLLECT_MORE''"
| "decision_type_str NOTIFY = ''NOTIFY''"

datatype human_outcome = Approved | Rejected

record decision =
  de_decision_id :: uuid
  de_created_at :: time
  de_decision_type :: decision_type
  de_decision_types :: "decision_type list"
  de_rule_score :: pyfloat
  de_ml_score :: pyfloat
  de_ti_score :: pyfloat
  de_correlation_depth :: int
  de_final_score :: pyfloat
  de_entity_id :: string
  de_trigger_alert_id :: "uuid option"
  de_incident_chain_id :: "uuid option"
  de_related_event_ids :: "uuid list"
  de_policy_version :: string
  de_explanation :: string
  de_requires_human :: bool
  de_human_decision :: "human_outcome option"
  de_human_operator :: "string option"
  de_human_note :: "string option"
  de_approved_at :: "time option"
  de_timeout_at :: "time option"
  de_prev_journal_hash :: string
  de_journal_hash :: string

section \<open>Forensic cases\<close>

record custody_entry =
  cu_timestamp :: time
  cu_operator :: string
  cu_action :: string
  cu_detail :: string
  cu_hash :: string

datatype evidence_type = EvEvent | EvFileHash | EvScreenshot | EvNote | EvExternal

record evidence_item =
  ei_evidence_id :: uuid
  ei_type :: evidence_type
  ei_content :: string
  ei_description :: "string option"
  ei_added_by :: string
  ei_added_at :: time
  ei_marked_as_evidence_at :: time

record case_note =
  cn_note_id :: uuid
  cn_case_id :: uuid
  cn_created_at :: time
  cn_updated_at :: "time option"
  cn_author :: string
  cn_content :: string

datatype case_status = COpen | CInProgress | CResolved | CArchived

record forensic_case =
  ca_case_id :: uuid
  ca_created_at :: time
  ca_updated_at :: time
  ca_title :: string
  ca_description :: string
  ca_severity :: severity
  ca_status :: case_status
  ca_tags :: "string list"
  ca_assigned_to :: "string option"
  ca_created_by :: string
  ca_event_ids :: "uuid list"
  ca_alert_ids :: "uuid list"
  ca_evidence :: "evidence_item list"
  ca_notes :: "case_note list"
  ca_custody_log :: "custody_entry list"

section \<open>Incidents\<close>

record incident_event =
  ie_alert_id :: uuid
  ie_timestamp :: time
  ie_severity :: severity
  ie_title :: string
  ie_hostname :: string
  ie_mitre_techniques :: "string list"

datatype incident_status = IOpen | IInvestigating | IResolved

record incident =
  in_incident_id :: uuid
  in_created_at :: time
  in_updated_at :: time
  in_hostname :: string
  in_severity :: severity
  in_status :: incident_status
  in_alert_ids :: "uuid list"
  in_timeline :: "incident_event list"
  in_mitre_tactics :: "string list"
  in_correlation_rule :: string
  in_timeframe_seconds :: int
  in_alert_count :: int

section \<open>Agent snapshots\<close>

record process_info =
  pr_pid :: int
  pr_ppid :: int
  pr_name :: string
  pr_exe :: string
  pr_cmdline :: string
  pr_uid :: int
  pr_status :: string

record connection_info =
  co_proto :: string
  co_local_addr :: string
  co_local_port :: int
  co_remote_addr :: string
  co_remote_port :: int
  co_state :: string
  co_pid :: int

record agent_snapshot =
  sn_snapshot_id :: uuid
  sn_agent_id :: uuid
  sn_hostname :: string
  sn_taken_at :: time
  sn_processes :: "process_info list"
  sn_connections :: "connection_info list"
  sn_case_id :: "uuid option"

end
