(* ===== verification/Hash_Chain.thy ===== *)
theory Hash_Chain
  imports Prelude
begin

text \<open>
  The contract of an append-only hash chain, shared by the decision journal (BLAKE3) and the custody
  log of a forensic case (BLAKE2b). The hash functions are third-party or library code, so the digest
  is a parameter; tamper evidence is stated as "equal final hashes mean equal contents, or the two
  chains exhibit a collision of the digest", which needs no assumption about the digest. A collision
  is explicit: it is found at one index of the two chains (the bare existence of a collision would
  say nothing, every digest has some).
\<close>

definition chain_collision :: "(string \<Rightarrow> 'c \<Rightarrow> string) \<Rightarrow> string \<Rightarrow> 'c list \<Rightarrow> 'c list \<Rightarrow> bool" where
  "chain_collision h p xs ys \<longleftrightarrow> (\<exists>i < min (length xs) (length ys).
     (foldl h p (take i xs), xs ! i) \<noteq> (foldl h p (take i ys), ys ! i)
     \<and> h (foldl h p (take i xs)) (xs ! i) = h (foldl h p (take i ys)) (ys ! i))"

lemma chain_collision_append:
  "chain_collision h p xs ys \<Longrightarrow> chain_collision h p (xs @ us) (ys @ vs)"
  unfolding chain_collision_def
  by (elim exE conjE, rename_tac i, rule_tac x = i in exI) (simp add: nth_append)

locale hash_chain =
  fixes digest :: "string \<Rightarrow> 'c \<Rightarrow> string"
    and content :: "'e \<Rightarrow> 'c"
    and hash_of :: "'e \<Rightarrow> string"
    and valid :: "string \<Rightarrow> 'e list \<Rightarrow> bool"
  assumes valid_Nil: "valid p []"
    and valid_Cons_tl: "valid p (e # es) \<Longrightarrow> valid (hash_of e) es"
    and valid_Cons_hash: "valid p (e # es) \<Longrightarrow> hash_of e = digest p (content e)"
begin

fun tip :: "string \<Rightarrow> 'e list \<Rightarrow> string" where
  "tip p [] = p"
| "tip p (e # es) = tip (hash_of e) es"

lemma tip_snoc: "tip p (es @ [e]) = hash_of e"
  by (induction es arbitrary: p) auto

lemma valid_butlast_hash: "valid p (es @ [e]) \<Longrightarrow> hash_of e = digest (tip p es) (content e)"
  by (induction es arbitrary: p) (auto dest: valid_Cons_hash valid_Cons_tl)

lemma tip_as_fold: "valid p es \<Longrightarrow> tip p es = foldl digest p (map content es)"
proof (induction es arbitrary: p)
  case (Cons e es)
  then show ?case using valid_Cons_hash [of p e es] valid_Cons_tl [of p e es] by simp
qed simp

lemma foldl_digest_collision:
  assumes "length xs = length ys" and "foldl digest p xs = foldl digest p ys"
  shows "xs = ys \<or> chain_collision digest p xs ys"
  using assms
proof (induction xs arbitrary: ys rule: rev_induct)
  case Nil
  then show ?case by simp
next
  case (snoc x xs)
  then obtain zs y where ys: "ys = zs @ [y]"
    by (metis append_is_Nil_conv length_0_conv not_Cons_self2 rev_exhaust)
  with snoc.prems have len: "length xs = length zs"
    and eq: "digest (foldl digest p xs) x = digest (foldl digest p zs) y"
    by auto
  show ?case
  proof (cases "(foldl digest p xs, x) = (foldl digest p zs, y)")
    case True
    with snoc.IH [OF len] ys show ?thesis by (auto intro: chain_collision_append)
  next
    case False
    then have "chain_collision digest p (xs @ [x]) ys"
      unfolding chain_collision_def ys using eq len by (intro exI [of _ "length xs"]) (auto simp: nth_append)
    then show ?thesis ..
  qed
qed

lemma tamper_evident:
  assumes "valid p es" and "valid p es'" and "length es = length es'" and "tip p es = tip p es'"
  shows "map content es = map content es' \<or> chain_collision digest p (map content es) (map content es')"
  using foldl_digest_collision [of "map content es" "map content es'" p] assms
  by (auto simp: tip_as_fold)

end

text \<open>Chains whose entries also carry the hash of their predecessor.\<close>

locale linked_chain = hash_chain digest content hash_of valid
  for digest :: "string \<Rightarrow> 'c \<Rightarrow> string" and content :: "'e \<Rightarrow> 'c" and hash_of :: "'e \<Rightarrow> string"
    and valid :: "string \<Rightarrow> 'e list \<Rightarrow> bool" +
  fixes prev_of :: "'e \<Rightarrow> string"
  assumes valid_Cons: "valid p (e # es) \<longleftrightarrow>
      prev_of e = p \<and> hash_of e = digest p (content e) \<and> valid (hash_of e) es"
begin

lemma valid_append: "valid p (es @ fs) \<longleftrightarrow> valid p es \<and> valid (tip p es) fs"
  by (induction es arbitrary: p) (auto simp: valid_Cons valid_Nil)

lemma valid_snoc:
  "valid p (es @ [e]) \<longleftrightarrow>
     valid p es \<and> prev_of e = tip p es \<and> hash_of e = digest (tip p es) (content e)"
  by (auto simp: valid_append valid_Cons valid_Nil)

text \<open>Dropping an entry from the middle of a valid chain breaks it, unless hashes repeat.\<close>

lemma removed_entry_detected:
  assumes "valid p (es @ e # f # fs)" and "hash_of e \<noteq> tip p es"
  shows "\<not> valid p (es @ f # fs)"
  using assms by (auto simp: valid_append valid_Cons)

lemma valid_nth:
  assumes "valid p es" and "i < length es"
  shows "prev_of (es ! i) = foldl digest p (take i (map content es))"
    "hash_of (es ! i) = digest (foldl digest p (take i (map content es))) (content (es ! i))"
proof -
  have "valid p (take i es @ es ! i # drop (Suc i) es)"
    using assms by (simp add: id_take_nth_drop [symmetric])
  then have "valid p (take i es)" "prev_of (es ! i) = tip p (take i es)"
    "hash_of (es ! i) = digest (tip p (take i es)) (content (es ! i))"
    by (auto simp: valid_append valid_Cons)
  then show "prev_of (es ! i) = foldl digest p (take i (map content es))"
    "hash_of (es ! i) = digest (foldl digest p (take i (map content es))) (content (es ! i))"
    by (simp_all add: tip_as_fold take_map)
qed

end

end
