(* ===== verification/Journal.thy ===== *)
theory Journal
  imports Schema Hash_Chain
begin

text \<open>
  \<open>decision/journal.py\<close>: the append-only BLAKE3 chain over committed decisions, with the rollback a
  failed persist needs and the verifier. BLAKE3 (a third-party package) is the parameter \<open>H\<close> from
  byte strings to hex digests; \<open>enc\<close> is the JSON encoder with sorted keys and \<open>isot\<close> the ISO text of a
  timestamp.
\<close>

definition genesis_hash :: string where
  "genesis_hash = replicate 64 (CHR ''0'')"

text \<open>\<open>[0-9a-f]{64}\<close> under \<open>fullmatch\<close>.\<close>

definition hash_re :: "string \<Rightarrow> bool" where
  "hash_re s \<longleftrightarrow> length s = 64 \<and> set s \<subseteq> set ''0123456789abcdef''"

record journal =
  jr_last_hash :: string
  jr_history :: "string list"

definition max_commit_history :: nat where
  "max_commit_history = 200"

definition new_journal :: "string \<Rightarrow> journal" where
  "new_journal h = \<lparr>jr_last_hash = h, jr_history = []\<rparr>"

definition commit ::
  "(string \<Rightarrow> string) \<Rightarrow> (json \<Rightarrow> string) \<Rightarrow> (string, json) pydict \<Rightarrow> journal \<Rightarrow> (string \<times> string) \<times> journal" where
  "commit H enc fs j =
     (let prev = jr_last_hash j;
          new_hash = H (prev @ enc (JObj fs))
      in ((prev, new_hash),
          j\<lparr>jr_last_hash := new_hash,
            jr_history := deque_append max_commit_history prev (jr_history j)\<rparr>))"

definition rollback :: "string \<Rightarrow> journal \<Rightarrow> journal result" where
  "rollback prev_hash j =
     (if \<not> hash_re prev_hash then Inl ValueError
      else if prev_hash \<notin> set (jr_history j) \<and> prev_hash \<noteq> genesis_hash then Inl ValueError
      else Inr (j\<lparr>jr_last_hash := prev_hash\<rparr>))"

definition decision_to_fields :: "(time \<Rightarrow> string) \<Rightarrow> decision \<Rightarrow> (string, json) pydict" where
  "decision_to_fields isot d =
     [(''decision_id'', JStr (de_decision_id d)),
      (''created_at'', JStr (isot (de_created_at d))),
      (''decision_type'', JStr (decision_type_str (de_decision_type d))),
      (''rule_score'', JNum (de_rule_score d)),
      (''ml_score'', JNum (de_ml_score d)),
      (''ti_score'', JNum (de_ti_score d)),
      (''correlation_depth'', JInt (de_correlation_depth d)),
      (''final_score'', JNum (de_final_score d)),
      (''entity_id'', JStr (de_entity_id d)),
      (''trigger_alert_id'', jopt JStr (de_trigger_alert_id d)),
      (''incident_chain_id'', jopt JStr (de_incident_chain_id d)),
      (''policy_version'', JStr (de_policy_version d)),
      (''explanation'', JStr (de_explanation d))]"

definition entry_digest ::
  "(string \<Rightarrow> string) \<Rightarrow> (json \<Rightarrow> string) \<Rightarrow> string \<Rightarrow> (string, json) pydict \<Rightarrow> string" where
  "entry_digest H enc prev fs = H (prev @ enc (JObj fs))"

text \<open>The loop of \<open>verify_chain\<close>: each index may be reported twice, once per failed check.\<close>

fun verify_loop ::
  "(string \<Rightarrow> string) \<Rightarrow> (json \<Rightarrow> string) \<Rightarrow> (time \<Rightarrow> string) \<Rightarrow> nat \<Rightarrow> string \<Rightarrow> decision list \<Rightarrow> nat list" where
  "verify_loop H enc isot i prev [] = []"
| "verify_loop H enc isot i prev (d # ds) =
     (if de_prev_journal_hash d \<noteq> prev then [i] else [])
     @ (if de_journal_hash d \<noteq> entry_digest H enc prev (decision_to_fields isot d) then [i] else [])
     @ verify_loop H enc isot (Suc i) (de_journal_hash d) ds"

definition verify_chain ::
  "(string \<Rightarrow> string) \<Rightarrow> (json \<Rightarrow> string) \<Rightarrow> (time \<Rightarrow> string) \<Rightarrow> decision list \<Rightarrow> string option \<Rightarrow> nat list" where
  "verify_chain H enc isot ds start_hash =
     sort (verify_loop H enc isot 0 (case start_hash of None \<Rightarrow> genesis_hash | Some h \<Rightarrow> h) ds)"

section \<open>Lemmas\<close>

lemma verify_chain_Nil_iff: "verify_chain H enc isot ds (Some p) = [] \<longleftrightarrow> verify_loop H enc isot 0 p ds = []"
  by (simp add: verify_chain_def) (metis set_empty set_sort)

lemma verify_loop_shift: "verify_loop H enc isot i p ds = [] \<longleftrightarrow> verify_loop H enc isot k p ds = []"
  by (induction ds arbitrary: i k p) auto

definition chain_valid ::
  "(string \<Rightarrow> string) \<Rightarrow> (json \<Rightarrow> string) \<Rightarrow> (time \<Rightarrow> string) \<Rightarrow> string \<Rightarrow> decision list \<Rightarrow> bool" where
  "chain_valid H enc isot p ds \<longleftrightarrow> verify_chain H enc isot ds (Some p) = []"

lemma chain_valid_Nil [simp]: "chain_valid H enc isot p []"
  by (simp add: chain_valid_def verify_chain_def)

lemma chain_valid_Cons:
  "chain_valid H enc isot p (d # ds) \<longleftrightarrow>
     de_prev_journal_hash d = p \<and> de_journal_hash d = entry_digest H enc p (decision_to_fields isot d)
     \<and> chain_valid H enc isot (de_journal_hash d) ds"
  by (auto simp: chain_valid_def verify_chain_Nil_iff verify_loop_shift [of _ _ _ "Suc 0" _ _ 0]
      split: if_splits)

interpretation jc: linked_chain "entry_digest H enc" "decision_to_fields isot" de_journal_hash
    "chain_valid H enc isot" de_prev_journal_hash
  for H enc isot
  by unfold_locales (auto simp: chain_valid_Cons)

lemma jr_commit [simp]:
  "fst (commit H enc fs j) = (jr_last_hash j, entry_digest H enc (jr_last_hash j) fs)"
  "jr_last_hash (snd (commit H enc fs j)) = entry_digest H enc (jr_last_hash j) fs"
  "jr_last_hash j \<in> set (jr_history (snd (commit H enc fs j)))"
  by (simp_all add: commit_def Let_def entry_digest_def last_deque_append max_commit_history_def)

text \<open>The bytes hashed for an entry; a collision of the chain is one of \<open>H\<close> or of the encoder.\<close>

definition hash_input :: "(json \<Rightarrow> string) \<Rightarrow> (time \<Rightarrow> string) \<Rightarrow> decision \<Rightarrow> string" where
  "hash_input enc isot d = de_prev_journal_hash d @ enc (JObj (decision_to_fields isot d))"

lemma chain_collision_inputs:
  assumes v: "chain_valid H enc isot p ds" "chain_valid H enc isot p ds'"
    and len: "\<And>x. length (H x) = 64" "length p = 64"
    and c: "chain_collision (entry_digest H enc) p (map (decision_to_fields isot) ds)
              (map (decision_to_fields isot) ds')"
  shows "\<exists>i < min (length ds) (length ds').
      hash_input enc isot (ds ! i) \<noteq> hash_input enc isot (ds' ! i)
        \<and> H (hash_input enc isot (ds ! i)) = H (hash_input enc isot (ds' ! i))
      \<or> decision_to_fields isot (ds ! i) \<noteq> decision_to_fields isot (ds' ! i)
        \<and> enc (JObj (decision_to_fields isot (ds ! i))) = enc (JObj (decision_to_fields isot (ds' ! i)))"
proof -
  let ?f = "decision_to_fields isot" and ?h = "entry_digest H enc"
  from c obtain i where i: "i < min (length ds) (length ds')"
    and ne: "(foldl ?h p (take i (map ?f ds)), ?f (ds ! i)) \<noteq> (foldl ?h p (take i (map ?f ds')), ?f (ds' ! i))"
    and eq: "?h (foldl ?h p (take i (map ?f ds))) (?f (ds ! i)) = ?h (foldl ?h p (take i (map ?f ds'))) (?f (ds' ! i))"
    unfolding chain_collision_def by auto
  have len64: "length (foldl ?h p xs) = 64" for xs
    using len by (cases xs rule: rev_cases) (auto simp: entry_digest_def)
  have prevs: "de_prev_journal_hash (ds ! i) = foldl ?h p (take i (map ?f ds))"
    "de_prev_journal_hash (ds' ! i) = foldl ?h p (take i (map ?f ds'))"
    using jc.valid_nth(1) v i by simp_all
  have "H (hash_input enc isot (ds ! i)) = H (hash_input enc isot (ds' ! i))"
    using eq by (simp add: hash_input_def prevs entry_digest_def)
  moreover have "?f (ds ! i) \<noteq> ?f (ds' ! i)
      \<and> enc (JObj (?f (ds ! i))) = enc (JObj (?f (ds' ! i)))"
    if "hash_input enc isot (ds ! i) = hash_input enc isot (ds' ! i)"
    using that ne len64 [of "take i (map ?f ds)"] len64 [of "take i (map ?f ds')"]
    by (auto simp: hash_input_def prevs)
  ultimately show ?thesis using i by blast
qed

lemma rollback_Inr: "hash_re p \<Longrightarrow> p \<in> set (jr_history j) \<Longrightarrow> rollback p j = Inr (j\<lparr>jr_last_hash := p\<rparr>)"
  by (simp add: rollback_def)

lemma hash_re_genesis [simp]: "hash_re genesis_hash"
  by (simp add: hash_re_def genesis_hash_def)

section \<open>Properties\<close>

text \<open>C3: the journal is tamper evident. Two decision sequences that both verify from the same
  start, have the same length and end in the same hash hash the same fields, or they exhibit at one
  index two different byte strings with the same BLAKE3 digest, or two dictionaries with the same
  JSON text.\<close>

theorem journal_tamper_evident:
  assumes "verify_chain H enc isot ds (Some p) = []" and "verify_chain H enc isot ds' (Some p) = []"
    and "length ds = length ds'" and "ds \<noteq> []"
    and "de_journal_hash (last ds) = de_journal_hash (last ds')"
    and "\<forall>x. length (H x) = 64" and "length p = 64"
  shows "map (decision_to_fields isot) ds = map (decision_to_fields isot) ds'
    \<or> (\<exists>i < length ds.
         hash_input enc isot (ds ! i) \<noteq> hash_input enc isot (ds' ! i)
           \<and> H (hash_input enc isot (ds ! i)) = H (hash_input enc isot (ds' ! i))
         \<or> decision_to_fields isot (ds ! i) \<noteq> decision_to_fields isot (ds' ! i)
           \<and> enc (JObj (decision_to_fields isot (ds ! i))) = enc (JObj (decision_to_fields isot (ds' ! i))))"
proof -
  have v: "chain_valid H enc isot p ds" "chain_valid H enc isot p ds'"
    using assms(1,2) by (simp_all add: chain_valid_def)
  have tip: "jc.tip p xs = de_journal_hash (last xs)" if "xs \<noteq> []" for xs
    using that by (cases xs rule: rev_cases) (auto simp: jc.tip_snoc)
  have "ds' \<noteq> []" using assms(3,4) by auto
  then have "jc.tip p ds = jc.tip p ds'"
    using assms(4,5) tip [of ds] tip [of ds'] by simp
  from jc.tamper_evident [OF v assms(3) this] show ?thesis
    using chain_collision_inputs [OF v] assms(3,6,7) by auto
qed

definition sample_decision :: "string \<Rightarrow> string \<Rightarrow> decision" where
  "sample_decision p h = \<lparr>de_decision_id = ''d1'', de_created_at = 0, de_decision_type = ALERT,
     de_decision_types = [], de_rule_score = 75, de_ml_score = 0, de_ti_score = 0,
     de_correlation_depth = 1, de_final_score = 31, de_entity_id = ''web1'', de_trigger_alert_id = None,
     de_incident_chain_id = None, de_related_event_ids = [], de_policy_version = ''v1.0'',
     de_explanation = [], de_requires_human = False, de_human_decision = None,
     de_human_operator = None, de_human_note = None, de_approved_at = None, de_timeout_at = None,
     de_prev_journal_hash = p, de_journal_hash = h\<rparr>"

theorem journal_tamper_evident_witness:
  "\<exists>d. verify_chain (\<lambda>_. genesis_hash) (\<lambda>_. ''x'') (\<lambda>_. ''t'') [d] (Some genesis_hash) = []
     \<and> map (decision_to_fields (\<lambda>_. ''t'')) [d] = map (decision_to_fields (\<lambda>_. ''t'')) [d]"
proof -
  let ?d = "sample_decision genesis_hash genesis_hash"
  have v: "verify_chain (\<lambda>_. genesis_hash) (\<lambda>_. ''x'') (\<lambda>_. ''t'') [?d] (Some genesis_hash) = []"
    by (simp add: verify_chain_def entry_digest_def sample_decision_def)
  from journal_tamper_evident [OF v v] have
    "map (decision_to_fields (\<lambda>_. ''t'')) [?d] = map (decision_to_fields (\<lambda>_. ''t'')) [?d]"
    by (simp add: genesis_hash_def)
  with v show ?thesis by blast
qed

text \<open>An entry removed from the middle of a verified journal is detected: the rest no longer
  verifies, unless the removed entry's hash equals its predecessor's.\<close>

lemma removed_decision_detected:
  assumes "verify_chain H enc isot (ds @ d # e # es) (Some p) = []"
    and "de_journal_hash d \<noteq> de_prev_journal_hash d"
  shows "verify_chain H enc isot (ds @ e # es) (Some p) \<noteq> []"
proof -
  have v: "chain_valid H enc isot p (ds @ d # e # es)"
    using assms(1) by (simp add: chain_valid_def)
  then have "de_prev_journal_hash d = jc.tip p ds"
    by (simp add: jc.valid_append jc.valid_Cons)
  with jc.removed_entry_detected [OF v] assms(2) show ?thesis
    by (simp add: chain_valid_def)
qed

end
