(* ===== verification/Decision_Engine.thy ===== *)
theory Decision_Engine
  imports Journal
begin

text \<open>
  \<open>decision/engine.py\<close>: the weighted risk score, the policy overrides, the risk matrix, the leader
  check and \<open>decide\<close>, which commits the decision's fields to the journal and builds the decision.
  Time, the fresh UUID, the ML score of an event and the text of a float (\<open>repr_f\<close>) are arguments.
\<close>

section \<open>Scores, overrides and the risk matrix\<close>

fun severity_score :: "severity \<Rightarrow> pyfloat" where
  "severity_score Low = 25"
| "severity_score Medium = 50"
| "severity_score High = 75"
| "severity_score Critical = 100"

definition max_correlation_depth :: int where
  "max_correlation_depth = 20"

record policy_overrides =
  po_whitelist :: "string list"
  po_denylist :: "string list"

definition overrides_apply :: "policy_overrides \<Rightarrow> string \<Rightarrow> pyfloat \<Rightarrow> pyfloat" where
  "overrides_apply po entity_id score =
     (if entity_id \<in> set (po_whitelist po) then 0
      else if entity_id \<in> set (po_denylist po) then 100
      else score)"

record weights =
  w_rule :: pyfloat
  w_ml :: pyfloat
  w_ti :: pyfloat
  w_depth :: pyfloat

definition new_scorer :: "pyfloat \<Rightarrow> pyfloat \<Rightarrow> pyfloat \<Rightarrow> pyfloat \<Rightarrow> weights result" where
  "new_scorer r m t d =
     (if \<not> list_all (\<lambda>w. 0 \<le> w \<and> w \<le> 1) [r, m, t, d] then Inl ValueError
      else if 1 / 1000 < \<bar>r + m + t + d - 1\<bar> then Inl ValueError
      else Inr \<lparr>w_rule = r, w_ml = m, w_ti = t, w_depth = d\<rparr>)"

definition depth_norm :: "int \<Rightarrow> pyfloat" where
  "depth_norm n = min (of_int n / of_int max_correlation_depth) 1 * 100"

definition compute :: "weights \<Rightarrow> pyfloat \<Rightarrow> pyfloat \<Rightarrow> pyfloat \<Rightarrow> int \<Rightarrow> pyfloat" where
  "compute w rule ml ti n =
     max 0 (min 100 (rule * w_rule w + ml * w_ml w + ti * w_ti w + depth_norm n * w_depth w))"

definition apply_risk_matrix :: "pyfloat \<Rightarrow> decision_type list" where
  "apply_risk_matrix score =
     (if score \<le> 20 then [IGNORE]
      else if score \<le> 40 then [ESCALATE]
      else if score \<le> 60 then [ALERT, INVESTIGATE]
      else if score \<le> 80 then [ALERT, ISOLATE]
      else [ALERT, ISOLATE, REQUEST_HUMAN])"

section \<open>The leader check\<close>

text \<open>
  The three replies of Redis (a service) are the arguments: \<open>SET key id NX EX\<close>, \<open>GET key\<close> and
  \<open>EXPIRE\<close>; an exception of any of them is \<open>Inl\<close>.
\<close>

record redis_replies =
  rr_set_nx :: "bool result"
  rr_get :: "string option result"
  rr_expire :: "unit result"

definition is_leader :: "bool \<Rightarrow> string \<Rightarrow> redis_replies \<Rightarrow> bool" where
  "is_leader has_redis_url server_id r =
     (if \<not> has_redis_url then True
      else case rr_set_nx r of
        Inl e \<Rightarrow> True
      | Inr True \<Rightarrow> True
      | Inr False \<Rightarrow>
          (case rr_get r of
             Inl e \<Rightarrow> True
           | Inr None \<Rightarrow> False
           | Inr (Some current) \<Rightarrow>
               (if current \<noteq> [] \<and> current = server_id
                then (case rr_expire r of Inl e \<Rightarrow> True | Inr u \<Rightarrow> True)
                else False)))"

section \<open>Deciding\<close>

record engine_cfg =
  eg_overrides :: policy_overrides
  eg_human_timeout :: int
  eg_policy_version :: string
  eg_weights :: weights
  eg_ml :: "(universal_event \<Rightarrow> pyfloat result) option"

definition build_explanation ::
  "(pyfloat \<Rightarrow> string) \<Rightarrow> weights \<Rightarrow> decision_type list \<Rightarrow> pyfloat \<Rightarrow> pyfloat \<Rightarrow> pyfloat \<Rightarrow> int \<Rightarrow> pyfloat \<Rightarrow> string"
where
  "build_explanation repr_f w types rule ml ti n final =
     ''Actions: '' @ join ''+'' (List.map decision_type_str types) @ ''. ''
     @ ''Score: '' @ fixed_str 1 final @ ''/100 ''
     @ ''(rule='' @ fixed_str 0 rule @ [CHR 0xD7] @ repr_f (w_rule w)
     @ '', ml='' @ fixed_str 0 ml @ [CHR 0xD7] @ repr_f (w_ml w)
     @ '', ti='' @ fixed_str 0 ti @ [CHR 0xD7] @ repr_f (w_ti w)
     @ '', depth='' @ show_int n @ [CHR 0xD7] @ repr_f (w_depth w) @ ''). ''"

definition ml_signal :: "engine_cfg \<Rightarrow> universal_event option \<Rightarrow> pyfloat result" where
  "ml_signal c ev =
     (case (eg_ml c, ev) of
        (Some score_fn, Some e) \<Rightarrow> bind_result (score_fn e) (\<lambda>s. Inr (max 0 (min 100 s)))
      | _ \<Rightarrow> Inr 0)"

definition ti_signal :: "alert option \<Rightarrow> pyfloat" where
  "ti_signal al = (case al of None \<Rightarrow> 0 | Some a \<Rightarrow> if al_ti_triggered a then 100 else 0)"

definition final_score :: "engine_cfg \<Rightarrow> incident \<Rightarrow> alert option \<Rightarrow> pyfloat \<Rightarrow> pyfloat" where
  "final_score c inc al ml =
     overrides_apply (eg_overrides c) (in_hostname inc)
       (compute (eg_weights c) (severity_score (in_severity inc)) ml (ti_signal al) (in_alert_count inc))"

text \<open>
  The dictionary that is hashed, and the pydantic constructor. The constructor rejects a missing
  journal hash: both fields are declared \<open>str\<close>.
\<close>

definition decision_fields ::
  "(time \<Rightarrow> string) \<Rightarrow> (pyfloat \<Rightarrow> string) \<Rightarrow> engine_cfg \<Rightarrow> uuid \<Rightarrow> time \<Rightarrow> incident \<Rightarrow> alert option \<Rightarrow> pyfloat
   \<Rightarrow> (string, json) pydict" where
  "decision_fields isot repr_f c new_id now inc al ml =
     (let rule = severity_score (in_severity inc);
          final = final_score c inc al ml;
          types = apply_risk_matrix final
      in [(''decision_id'', JStr new_id),
          (''created_at'', JStr (isot now)),
          (''decision_type'', JStr (decision_type_str (hd types))),
          (''rule_score'', JNum rule),
          (''ml_score'', JNum ml),
          (''ti_score'', JNum (ti_signal al)),
          (''correlation_depth'', JInt (in_alert_count inc)),
          (''final_score'', JNum final),
          (''entity_id'', JStr (in_hostname inc)),
          (''trigger_alert_id'', jopt (\<lambda>a. JStr (al_alert_id a)) al),
          (''incident_chain_id'', JStr (in_incident_id inc)),
          (''policy_version'', JStr (eg_policy_version c)),
          (''explanation'', JStr (build_explanation repr_f (eg_weights c) types rule ml (ti_signal al)
              (in_alert_count inc) final))])"

definition make_decision ::
  "(pyfloat \<Rightarrow> string) \<Rightarrow> engine_cfg \<Rightarrow> uuid \<Rightarrow> time \<Rightarrow> incident \<Rightarrow> alert option \<Rightarrow> pyfloat
   \<Rightarrow> string option \<Rightarrow> string option \<Rightarrow> decision result" where
  "make_decision repr_f c new_id now inc al ml prev_hash journal_hash =
     (case (prev_hash, journal_hash) of
        (Some p, Some h) \<Rightarrow>
          (let rule = severity_score (in_severity inc);
               final = final_score c inc al ml;
               types = apply_risk_matrix final;
               human = (REQUEST_HUMAN \<in> set types)
           in Inr \<lparr>de_decision_id = new_id,
                de_created_at = now,
                de_decision_type = hd types,
                de_decision_types = types,
                de_rule_score = rule,
                de_ml_score = ml,
                de_ti_score = ti_signal al,
                de_correlation_depth = in_alert_count inc,
                de_final_score = final,
                de_entity_id = in_hostname inc,
                de_trigger_alert_id = map_option al_alert_id al,
                de_incident_chain_id = Some (in_incident_id inc),
                de_related_event_ids = (case al of None \<Rightarrow> [] | Some a \<Rightarrow> al_related_event_ids a),
                de_policy_version = eg_policy_version c,
                de_explanation = build_explanation repr_f (eg_weights c) types rule ml (ti_signal al)
                  (in_alert_count inc) final,
                de_requires_human = human,
                de_human_decision = None,
                de_human_operator = None,
                de_human_note = None,
                de_approved_at = None,
                de_timeout_at = (if human then Some (now + seconds (eg_human_timeout c)) else None),
                de_prev_journal_hash = p,
                de_journal_hash = h\<rparr>)
      | _ \<Rightarrow> Inl ValidationError)"

definition decide ::
  "(string \<Rightarrow> string) \<Rightarrow> (json \<Rightarrow> string) \<Rightarrow> (time \<Rightarrow> string) \<Rightarrow> (pyfloat \<Rightarrow> string) \<Rightarrow> engine_cfg \<Rightarrow> bool
   \<Rightarrow> uuid \<Rightarrow> time \<Rightarrow> incident \<Rightarrow> alert option \<Rightarrow> universal_event option \<Rightarrow> journal
   \<Rightarrow> decision result \<times> journal" where
  "decide H enc isot repr_f c leader new_id now inc al ev j =
     (case ml_signal c ev of
        Inl e \<Rightarrow> (Inl e, j)
      | Inr ml \<Rightarrow>
          (if leader then
             (let ((prev, h), j') = commit H enc (decision_fields isot repr_f c new_id now inc al ml) j
              in case make_decision repr_f c new_id now inc al ml (Some prev) (Some h) of
                   Inr d \<Rightarrow> (Inr d, j')
                 | Inl e \<Rightarrow> (case rollback prev j' of Inl e' \<Rightarrow> (Inl e', j') | Inr j'' \<Rightarrow> (Inl e, j'')))
           else (make_decision repr_f c new_id now inc al ml None None, j)))"

section \<open>Lemmas\<close>

lemma compute_bounds: "0 \<le> compute w r m t n" "compute w r m t n \<le> 100"
  by (simp_all add: compute_def)

lemma overrides_bounds: "0 \<le> s \<Longrightarrow> s \<le> 100 \<Longrightarrow> 0 \<le> overrides_apply po e s \<and> overrides_apply po e s \<le> 100"
  by (simp add: overrides_apply_def)

lemma final_score_bounds: "0 \<le> final_score c inc al ml \<and> final_score c inc al ml \<le> 100"
  unfolding final_score_def by (intro overrides_bounds compute_bounds)

lemma new_scorer_Inr:
  "new_scorer r m t d = Inr w \<Longrightarrow>
     0 \<le> w_rule w \<and> 0 \<le> w_ml w \<and> 0 \<le> w_ti w \<and> 0 \<le> w_depth w
     \<and> \<bar>w_rule w + w_ml w + w_ti w + w_depth w - 1\<bar> \<le> 1 / 1000"
  by (auto simp: new_scorer_def split: if_splits)

lemma depth_norm_mono: "n \<le> n' \<Longrightarrow> depth_norm n \<le> depth_norm n'"
proof -
  assume "n \<le> n'"
  then have "(of_int n / 20 :: rat) \<le> of_int n' / 20" by (simp add: divide_right_mono)
  then show ?thesis by (simp add: depth_norm_def max_correlation_depth_def min_le_iff_disj)
qed

lemma apply_risk_matrix_hd: "hd (apply_risk_matrix s) \<noteq> REQUEST_HUMAN"
  by (simp add: apply_risk_matrix_def)

lemma risk_human_iff: "REQUEST_HUMAN \<in> set (apply_risk_matrix s) \<longleftrightarrow> 80 < s"
  by (auto simp: apply_risk_matrix_def)

lemma make_decision_Some:
  "\<exists>d. make_decision repr_f c i now inc al ml (Some p) (Some h) = Inr d"
  by (simp add: make_decision_def Let_def)

text \<open>The hashed dictionary is the one \<open>verify_chain\<close> recomputes from the decision.\<close>

lemma make_decision_fields:
  assumes "make_decision repr_f c i now inc al ml (Some p) (Some h) = Inr d"
  shows "decision_to_fields isot d = decision_fields isot repr_f c i now inc al ml"
    "de_prev_journal_hash d = p" "de_journal_hash d = h"
    "de_final_score d = final_score c inc al ml"
    "de_decision_types d = apply_risk_matrix (final_score c inc al ml)"
    "de_decision_type d = hd (apply_risk_matrix (final_score c inc al ml))"
    "de_requires_human d \<longleftrightarrow> 80 < final_score c inc al ml"
    "de_entity_id d = in_hostname inc" "de_decision_id d = i" "de_created_at d = now"
    "de_human_decision d = None"
    "de_timeout_at d = (if de_requires_human d then Some (now + seconds (eg_human_timeout c)) else None)"
  using assms
  by (auto simp: make_decision_def decision_to_fields_def decision_fields_def Let_def risk_human_iff
      jopt_def split: option.splits)

text \<open>On the leader, \<open>decide\<close> fails only when the ML engine raises, and then nothing is committed.\<close>

lemma decide_leader:
  "decide H enc isot repr_f c True i now inc al ev j =
     (case ml_signal c ev of Inl e \<Rightarrow> (Inl e, j)
      | Inr ml \<Rightarrow>
          (let fs = decision_fields isot repr_f c i now inc al ml;
               h = entry_digest H enc (jr_last_hash j) fs
           in (make_decision repr_f c i now inc al ml (Some (jr_last_hash j)) (Some h),
               snd (commit H enc fs j))))"
proof (cases "ml_signal c ev")
  case (Inr ml)
  obtain d where "make_decision repr_f c i now inc al ml (Some (jr_last_hash j))
      (Some (entry_digest H enc (jr_last_hash j) (decision_fields isot repr_f c i now inc al ml))) = Inr d"
    using make_decision_Some by blast
  with Inr show ?thesis
    by (auto simp: decide_def Let_def commit_def entry_digest_def)
qed (simp add: decide_def)

lemma decide_Inr:
  assumes "decide H enc isot repr_f c True i now inc al ev j = (Inr d, j')"
  shows "de_prev_journal_hash d = jr_last_hash j"
    "de_journal_hash d = entry_digest H enc (jr_last_hash j) (decision_to_fields isot d)"
    "jr_last_hash j' = de_journal_hash d"
    "jr_last_hash j \<in> set (jr_history j')"
    "0 \<le> de_final_score d" "de_final_score d \<le> 100"
    "de_requires_human d \<longleftrightarrow> 80 < de_final_score d"
    "de_decision_types d = apply_risk_matrix (de_final_score d)"
    "de_decision_type d = hd (de_decision_types d)"
    "de_decision_id d = i" "de_entity_id d = in_hostname inc" "de_human_decision d = None"
    "de_created_at d = now"
    "de_timeout_at d = (if de_requires_human d then Some (now + seconds (eg_human_timeout c)) else None)"
  using assms final_score_bounds
  by (auto simp: decide_leader Let_def make_decision_fields split: sum.splits)

lemma decide_Inl:
  "decide H enc isot repr_f c True i now inc al ev j = (Inl e, j') \<Longrightarrow> j' = j \<and> ml_signal c ev = Inl e"
  by (auto simp: decide_leader Let_def make_decision_def split: sum.splits)

section \<open>Properties\<close>

text \<open>C6: every decision the leader produces is the next link of the journal: it carries the journal's
  previous hash and the digest of exactly the fields \<open>verify_chain\<close> recomputes from it, the journal
  advances to that digest and remembers the old one for a rollback, its score lies in [0, 100], the
  actions are the risk matrix's, and a human is required exactly above 80.\<close>

theorem decide_links_decision:
  assumes "decide H enc isot repr_f c True new_id now inc al ev j = (Inr d, j')"
  shows "de_prev_journal_hash d = jr_last_hash j
    \<and> de_journal_hash d = entry_digest H enc (jr_last_hash j) (decision_to_fields isot d)
    \<and> jr_last_hash j' = de_journal_hash d \<and> jr_last_hash j \<in> set (jr_history j')
    \<and> 0 \<le> de_final_score d \<and> de_final_score d \<le> 100
    \<and> de_decision_types d = apply_risk_matrix (de_final_score d)
    \<and> (de_requires_human d \<longleftrightarrow> 80 < de_final_score d)
    \<and> (de_timeout_at d = None \<longleftrightarrow> \<not> de_requires_human d)"
  using decide_Inr [OF assms] by simp

definition sample_incident :: incident where
  "sample_incident = \<lparr>in_incident_id = ''i1'', in_created_at = 0, in_updated_at = 0,
     in_hostname = ''web1'', in_severity = Critical, in_status = IOpen, in_alert_ids = [''a1''],
     in_timeline = [], in_mitre_tactics = [], in_correlation_rule = ''same_host_timeframe'',
     in_timeframe_seconds = 300, in_alert_count = 20\<rparr>"

definition sample_cfg :: engine_cfg where
  "sample_cfg = \<lparr>eg_overrides = \<lparr>po_whitelist = [''safe''], po_denylist = [''web1'']\<rparr>,
     eg_human_timeout = 3600, eg_policy_version = ''v1.0'',
     eg_weights = \<lparr>w_rule = 4/10, w_ml = 3/10, w_ti = 2/10, w_depth = 1/10\<rparr>, eg_ml = None\<rparr>"

lemma decide_sample:
  "\<exists>d j'. decide H enc isot repr_f sample_cfg True ''d1'' 7 sample_incident None None (new_journal p)
     = (Inr d, j') \<and> de_requires_human d"
  by (simp add: decide_leader ml_signal_def sample_cfg_def make_decision_def Let_def final_score_def
      overrides_apply_def sample_incident_def apply_risk_matrix_def)

theorem decide_links_decision_witness:
  "\<exists>d j'. decide (\<lambda>_. genesis_hash) (\<lambda>_. ''x'') (\<lambda>_. ''t'') (\<lambda>_. ''f'') sample_cfg True ''d1'' 7
       sample_incident None None (new_journal genesis_hash) = (Inr d, j')
     \<and> de_prev_journal_hash d = genesis_hash"
proof -
  obtain d j' where d: "decide (\<lambda>_. genesis_hash) (\<lambda>_. ''x'') (\<lambda>_. ''t'') (\<lambda>_. ''f'') sample_cfg True
      ''d1'' 7 sample_incident None None (new_journal genesis_hash) = (Inr d, j')"
    using decide_sample by blast
  from decide_links_decision [OF d] have "de_prev_journal_hash d = genesis_hash"
    by (simp add: new_journal_def)
  with d show ?thesis by blast
qed

text \<open>With weights the scorer accepts, raising any signal or the correlation depth never lowers
  the score.\<close>

lemma score_monotone:
  assumes "new_scorer a b c d = Inr w"
    and "r \<le> r'" and "m \<le> m'" and "t \<le> t'" and "n \<le> n'"
  shows "compute w r m t n \<le> compute w r' m' t' n'"
proof -
  from new_scorer_Inr [OF assms(1)] have
    "r * w_rule w + m * w_ml w + t * w_ti w + depth_norm n * w_depth w
     \<le> r' * w_rule w + m' * w_ml w + t' * w_ti w + depth_norm n' * w_depth w"
    using assms(2-5) by (intro add_mono mult_right_mono depth_norm_mono) auto
  then show ?thesis by (simp add: compute_def max_def min_def)
qed

text \<open>A whitelisted host is always ignored, whatever the signals; a denylisted host that is not
  whitelisted always gets the full response, isolation and a human review.\<close>

theorem overrides_decide:
  assumes "decide H enc isot repr_f c True new_id now inc al ev j = (Inr d, j')"
  shows "(in_hostname inc \<in> set (po_whitelist (eg_overrides c)) \<longrightarrow> de_decision_types d = [IGNORE])
    \<and> (in_hostname inc \<in> set (po_denylist (eg_overrides c)) - set (po_whitelist (eg_overrides c)) \<longrightarrow>
        de_decision_types d = [ALERT, ISOLATE, REQUEST_HUMAN] \<and> de_requires_human d)"
  using assms
  by (auto simp: decide_leader Let_def make_decision_fields final_score_def overrides_apply_def
      apply_risk_matrix_def split: sum.splits)

theorem overrides_decide_witness:
  "\<exists>d j'. decide (\<lambda>_. genesis_hash) (\<lambda>_. ''x'') (\<lambda>_. ''t'') (\<lambda>_. ''f'') sample_cfg True ''d1'' 7
       sample_incident None None (new_journal genesis_hash) = (Inr d, j')
     \<and> de_decision_types d = [ALERT, ISOLATE, REQUEST_HUMAN]"
proof -
  obtain d j' where d: "decide (\<lambda>_. genesis_hash) (\<lambda>_. ''x'') (\<lambda>_. ''t'') (\<lambda>_. ''f'') sample_cfg True
      ''d1'' 7 sample_incident None None (new_journal genesis_hash) = (Inr d, j')"
    using decide_sample by blast
  from overrides_decide [OF d] have "de_decision_types d = [ALERT, ISOLATE, REQUEST_HUMAN]"
    by (simp add: sample_cfg_def sample_incident_def)
  with d show ?thesis by blast
qed

text \<open>A follower never produces a decision: the journal-less decision it builds is rejected by
  the schema, so every incident a follower handles ends in an error and no state change.\<close>

theorem follower_never_decides:
  "\<exists>e. decide H enc isot repr_f c False new_id now inc al ev j = (Inl e, j)"
  by (auto simp: decide_def make_decision_def split: sum.splits)

end
