(* ===== verification/Machines.thy ===== *)
theory Machines
  imports Prelude
begin

text \<open>
  Interfaces of the stateful components. \<open>machine\<close> is a deterministic machine with an invariant
  kept by every event, \<open>filtered_machine\<close> one kept by the events a predicate admits; \<open>monitored_machine\<close> adds
  a quantity that never decreases, and
  \<open>guarded_row\<close> is the contract of a conditional SQL UPDATE (the row changes only from the states the
  WHERE clause admits). Clients prove their lemmas once here; each component interprets the locale on
  its own step function.
\<close>

section \<open>Machines with an invariant\<close>

definition run :: "('e \<Rightarrow> 's \<Rightarrow> 's) \<Rightarrow> 's \<Rightarrow> 'e list \<Rightarrow> 's" where
  "run step s es = fold step es s"

lemma run_simps [simp, exec_simps]:
  "run step s [] = s"
  "run step s (e # es) = run step (step e s) es"
  by (simp_all add: run_def)

lemma run_append: "run step s (es @ fs) = run step (run step s es) fs"
  by (simp add: run_def)

locale machine =
  fixes step :: "'e \<Rightarrow> 's \<Rightarrow> 's"
    and init :: "'s \<Rightarrow> bool"
    and inv :: "'s \<Rightarrow> bool"
  assumes init_inv: "init s \<Longrightarrow> inv s"
    and step_inv: "inv s \<Longrightarrow> inv (step e s)"
begin

lemma run_inv: "inv s \<Longrightarrow> inv (run step s es)"
  by (induction es arbitrary: s) (auto intro: step_inv)

lemma reachable_inv: "init s \<Longrightarrow> inv (run step s es)"
  by (intro run_inv init_inv)

end

locale monitored_machine = machine step init inv
  for step :: "'e \<Rightarrow> 's \<Rightarrow> 's" and init :: "'s \<Rightarrow> bool" and inv :: "'s \<Rightarrow> bool" +
  fixes level :: "'s \<Rightarrow> 'o::preorder"
  assumes step_level: "inv s \<Longrightarrow> level s \<le> level (step e s)"
begin

lemma run_level: "inv s \<Longrightarrow> level s \<le> level (run step s es)"
proof (induction es arbitrary: s)
  case Nil
  then show ?case by simp
next
  case (Cons e es)
  then have "level s \<le> level (step e s)" "level (step e s) \<le> level (run step (step e s) es)"
    by (auto intro: step_level step_inv)
  then show ?case by (auto intro: order_trans)
qed

lemma run_level_later: "inv s \<Longrightarrow> level (run step s es) \<le> level (run step s (es @ fs))"
  by (simp add: run_append run_level run_inv)

end

section \<open>Machines under a restriction on the events\<close>

text \<open>The invariant is kept by the events that satisfy \<open>allowed\<close>, hence by every run of such events.\<close>

locale filtered_machine =
  fixes step :: "'e \<Rightarrow> 's \<Rightarrow> 's"
    and allowed :: "'e \<Rightarrow> bool"
    and inv :: "'s \<Rightarrow> bool"
  assumes allowed_inv: "inv s \<Longrightarrow> allowed e \<Longrightarrow> inv (step e s)"
begin

lemma run_allowed: "inv s \<Longrightarrow> list_all allowed es \<Longrightarrow> inv (run step s es)"
  by (induction es arbitrary: s) (auto intro: allowed_inv)

end

sublocale machine \<subseteq> free: filtered_machine step "\<lambda>_. True" inv
  by unfold_locales (rule step_inv)

section \<open>Conditional updates of a row\<close>

text \<open>
  \<open>cas\<close> is \<open>UPDATE ... WHERE id = k AND guard\<close>: it reports whether a row changed. \<open>look\<close> reads the
  row; \<open>may\<close> is the guard and \<open>eff\<close> the new row.
\<close>

locale guarded_row =
  fixes look :: "'t \<Rightarrow> 'k \<Rightarrow> 'r option"
    and cas :: "'a \<Rightarrow> 'k \<Rightarrow> 't \<Rightarrow> bool \<times> 't"
    and may :: "'a \<Rightarrow> 'r \<Rightarrow> bool"
    and eff :: "'a \<Rightarrow> 'r \<Rightarrow> 'r"
  assumes cas_hit: "look t k = Some r \<Longrightarrow> may a r \<Longrightarrow>
      fst (cas a k t) \<and> look (snd (cas a k t)) k = Some (eff a r)"
    and cas_miss: "(\<forall>r. look t k = Some r \<longrightarrow> \<not> may a r) \<Longrightarrow> cas a k t = (False, t)"
    and cas_other: "k' \<noteq> k \<Longrightarrow> look (snd (cas a k t)) k' = look t k'"
begin

lemma cas_True_iff: "fst (cas a k t) \<longleftrightarrow> (\<exists>r. look t k = Some r \<and> may a r)"
  using cas_hit cas_miss by (metis fst_conv)

lemma cas_look:
  "look (snd (cas a k t)) k =
     (case look t k of None \<Rightarrow> None | Some r \<Rightarrow> Some (if may a r then eff a r else r))"
proof (cases "\<exists>r. look t k = Some r \<and> may a r")
  case True
  then show ?thesis using cas_hit by fastforce
next
  case False
  then have "cas a k t = (False, t)" by (intro cas_miss) auto
  with False show ?thesis by (auto split: option.splits)
qed

lemma cas_keeps_rows: "look (snd (cas a k t)) k' = None \<longleftrightarrow> look t k' = None"
  by (cases "k' = k") (auto simp: cas_look cas_other split: option.splits)

text \<open>An update whose effect falsifies its own guard succeeds at most once in a row.\<close>

lemma cas_once:
  assumes "\<And>r. may a r \<Longrightarrow> \<not> may b (eff a r)" and "fst (cas a k t)"
  shows "\<not> fst (cas b k (snd (cas a k t)))"
  using assms by (auto simp: cas_True_iff cas_look)

text \<open>A row on which no guard holds is never changed again, whatever updates run.\<close>

lemma final_row:
  assumes "look t k = Some r" and "\<And>a. \<not> may a r"
  shows "look (fold (\<lambda>(a, k') t. snd (cas a k' t)) ops t) k = Some r"
  using assms(1)
proof (induction ops arbitrary: t)
  case Nil
  then show ?case by simp
next
  case (Cons op ops)
  obtain a k' where op: "op = (a, k')" by (cases op)
  have "look (snd (cas a k' t)) k = Some r"
    using Cons.prems assms(2) by (cases "k' = k") (auto simp: cas_look cas_other)
  then show ?case using Cons.IH op by simp
qed

end

end
