(* ===== verification/Decision_Repo.thy ===== *)
theory Decision_Repo
  imports Decision_Engine Machines
begin

text \<open>
  \<open>storage/repositories/decisions.py\<close> over the \<open>decisions\<close> table: rows in insertion order, keyed by
  their primary key. Timestamps are ISO texts in a row (\<open>isot\<close>/\<open>fromiso\<close> convert), the event-id list
  is its JSON value. The SQL engine's part is \<open>db_ok\<close>: whether a transaction commits.
\<close>

record decision_row =
  dr_decision_id :: string
  dr_created_at :: string
  dr_decision_type :: string
  dr_rule_score :: pyfloat
  dr_ml_score :: pyfloat
  dr_ti_score :: pyfloat
  dr_correlation_depth :: int
  dr_final_score :: pyfloat
  dr_entity_id :: string
  dr_trigger_alert_id :: "string option"
  dr_incident_chain_id :: "string option"
  dr_related_event_ids :: json
  dr_policy_version :: string
  dr_explanation :: string
  dr_requires_human :: bool
  dr_human_decision :: "string option"
  dr_human_operator :: "string option"
  dr_human_note :: "string option"
  dr_approved_at :: "string option"
  dr_timeout_at :: "string option"
  dr_prev_journal_hash :: string
  dr_journal_hash :: string

fun outcome_str :: "human_outcome \<Rightarrow> string" where
  "outcome_str Approved = ''approved''"
| "outcome_str Rejected = ''rejected''"

definition decision_to_row :: "(time \<Rightarrow> string) \<Rightarrow> decision \<Rightarrow> decision_row" where
  "decision_to_row isot d =
     \<lparr>dr_decision_id = de_decision_id d,
      dr_created_at = isot (de_created_at d),
      dr_decision_type = decision_type_str (de_decision_type d),
      dr_rule_score = de_rule_score d,
      dr_ml_score = de_ml_score d,
      dr_ti_score = de_ti_score d,
      dr_correlation_depth = de_correlation_depth d,
      dr_final_score = de_final_score d,
      dr_entity_id = de_entity_id d,
      dr_trigger_alert_id = de_trigger_alert_id d,
      dr_incident_chain_id = de_incident_chain_id d,
      dr_related_event_ids = JList (List.map JStr (de_related_event_ids d)),
      dr_policy_version = de_policy_version d,
      dr_explanation = de_explanation d,
      dr_requires_human = de_requires_human d,
      dr_human_decision = map_option outcome_str (de_human_decision d),
      dr_human_operator = de_human_operator d,
      dr_human_note = de_human_note d,
      dr_approved_at = map_option isot (de_approved_at d),
      dr_timeout_at = map_option isot (de_timeout_at d),
      dr_prev_journal_hash = de_prev_journal_hash d,
      dr_journal_hash = de_journal_hash d\<rparr>"

text \<open>Reading a row back: the \<open>Literal\<close> fields are validated, an empty text column reads as \<open>None\<close>.\<close>

definition all_decision_types :: "decision_type list" where
  "all_decision_types =
     [ALERT, IGNORE, ESCALATE, INVESTIGATE, ISOLATE, REQUEST_HUMAN, COLLECT_MORE, NOTIFY]"

definition parse_decision_type :: "string \<Rightarrow> decision_type option" where
  "parse_decision_type s = find (\<lambda>t. decision_type_str t = s) all_decision_types"

definition parse_outcome :: "string option \<Rightarrow> human_outcome option option" where
  "parse_outcome s =
     (case s of None \<Rightarrow> Some None
      | Some t \<Rightarrow> if t = ''approved'' then Some (Some Approved)
                  else if t = ''rejected'' then Some (Some Rejected) else None)"

definition truthy :: "string option \<Rightarrow> string option" where
  "truthy s = (case s of Some [] \<Rightarrow> None | _ \<Rightarrow> s)"

fun json_strings :: "json list \<Rightarrow> string list option" where
  "json_strings [] = Some []"
| "json_strings (JStr s # js) = map_option (\<lambda>ss. s # ss) (json_strings js)"
| "json_strings (_ # js) = None"

definition row_to_decision :: "(string \<Rightarrow> time) \<Rightarrow> decision_row \<Rightarrow> decision result" where
  "row_to_decision fromiso r =
     (case (parse_decision_type (dr_decision_type r), parse_outcome (dr_human_decision r),
            case dr_related_event_ids r of JList js \<Rightarrow> json_strings js | _ \<Rightarrow> None) of
        (Some ty, Some outcome, Some ids) \<Rightarrow>
          Inr \<lparr>de_decision_id = dr_decision_id r,
            de_created_at = fromiso (dr_created_at r),
            de_decision_type = ty,
            de_decision_types = [],
            de_rule_score = dr_rule_score r,
            de_ml_score = dr_ml_score r,
            de_ti_score = dr_ti_score r,
            de_correlation_depth = dr_correlation_depth r,
            de_final_score = dr_final_score r,
            de_entity_id = dr_entity_id r,
            de_trigger_alert_id = truthy (dr_trigger_alert_id r),
            de_incident_chain_id = truthy (dr_incident_chain_id r),
            de_related_event_ids = ids,
            de_policy_version = dr_policy_version r,
            de_explanation = dr_explanation r,
            de_requires_human = dr_requires_human r,
            de_human_decision = outcome,
            de_human_operator = dr_human_operator r,
            de_human_note = dr_human_note r,
            de_approved_at = map_option fromiso (truthy (dr_approved_at r)),
            de_timeout_at = map_option fromiso (truthy (dr_timeout_at r)),
            de_prev_journal_hash = dr_prev_journal_hash r,
            de_journal_hash = dr_journal_hash r\<rparr>
      | _ \<Rightarrow> Inl ValidationError)"

section \<open>The repository\<close>

type_synonym decision_table = "(string, decision_row) pydict"

definition repo_create ::
  "(time \<Rightarrow> string) \<Rightarrow> bool \<Rightarrow> decision \<Rightarrow> decision_table \<Rightarrow> unit result \<times> decision_table" where
  "repo_create isot db_ok d t =
     (if \<not> db_ok \<or> dict_has t (de_decision_id d) then (Inl (OtherError ''IntegrityError''), t)
      else (Inr (), t @ [(de_decision_id d, decision_to_row isot d)]))"

definition repo_get :: "(string \<Rightarrow> time) \<Rightarrow> uuid \<Rightarrow> decision_table \<Rightarrow> decision option result" where
  "repo_get fromiso i t =
     (case map_of t i of None \<Rightarrow> Inr None | Some r \<Rightarrow> bind_result (row_to_decision fromiso r) (\<lambda>d. Inr (Some d)))"

fun decisions_of :: "(string \<Rightarrow> time) \<Rightarrow> decision_row list \<Rightarrow> decision list result" where
  "decisions_of fromiso [] = Inr []"
| "decisions_of fromiso (r # rs) =
     bind_result (row_to_decision fromiso r) (\<lambda>d. bind_result (decisions_of fromiso rs) (\<lambda>ds. Inr (d # ds)))"

text \<open>The filters of \<open>list_decisions\<close>; a missing or empty text filter does not restrict.\<close>

record decision_filters =
  df_entity_id :: "string option"
  df_decision_type :: "string option"
  df_requires_human :: "bool option"

definition decision_matches :: "decision_filters \<Rightarrow> decision_row \<Rightarrow> bool" where
  "decision_matches f r \<longleftrightarrow>
     (case truthy (df_entity_id f) of None \<Rightarrow> True | Some e \<Rightarrow> dr_entity_id r = e)
     \<and> (case truthy (df_decision_type f) of None \<Rightarrow> True | Some y \<Rightarrow> dr_decision_type r = y)
     \<and> (case df_requires_human f of None \<Rightarrow> True | Some b \<Rightarrow> dr_requires_human r = b)"

definition list_decisions ::
  "(string \<Rightarrow> time) \<Rightarrow> decision_filters \<Rightarrow> nat \<Rightarrow> nat \<Rightarrow> decision_table \<Rightarrow> (decision list \<times> nat) result" where
  "list_decisions fromiso f offset limit t =
     (let rows = filter (decision_matches f) (List.map snd t)
      in bind_result (decisions_of fromiso (page_of offset limit (sort_desc dr_created_at rows)))
           (\<lambda>ds. Inr (ds, length rows)))"

record human_update =
  hu_outcome :: string
  hu_operator :: string
  hu_note :: string
  hu_approved_at :: string

definition undecided :: "human_update \<Rightarrow> decision_row \<Rightarrow> bool" where
  "undecided u r \<longleftrightarrow> dr_human_decision r = None"

definition set_human :: "human_update \<Rightarrow> decision_row \<Rightarrow> decision_row" where
  "set_human u r = r\<lparr>dr_human_decision := Some (hu_outcome u), dr_human_operator := Some (hu_operator u),
     dr_human_note := Some (hu_note u), dr_approved_at := Some (hu_approved_at u)\<rparr>"

definition update_human_decision :: "human_update \<Rightarrow> uuid \<Rightarrow> decision_table \<Rightarrow> bool \<times> decision_table" where
  "update_human_decision u i t =
     (case map_of t i of
        Some r \<Rightarrow> if undecided u r then (True, dict_put i (set_human u r) t) else (False, t)
      | None \<Rightarrow> (False, t))"

definition row_after :: "decision_row \<Rightarrow> decision_row \<Rightarrow> bool" where
  "row_after r s \<longleftrightarrow> dr_created_at s < dr_created_at r
     \<or> dr_created_at r = dr_created_at s \<and> dr_decision_id s < dr_decision_id r"

definition get_last_journal_hash :: "decision_table \<Rightarrow> string option" where
  "get_last_journal_hash t =
     map_option dr_journal_hash (fold (\<lambda>r best. case best of None \<Rightarrow> Some r | Some s \<Rightarrow> if row_after r s then Some r else Some s)
       (List.map snd t) None)"

definition get_pending :: "(string \<Rightarrow> time) \<Rightarrow> decision_table \<Rightarrow> decision list result" where
  "get_pending fromiso t =
     decisions_of fromiso (filter (\<lambda>r. dr_requires_human r \<and> dr_human_decision r = None) (List.map snd t))"

text \<open>Startup (\<open>main.py\<close>): the journal resumes from the last persisted hash.\<close>

definition restore_journal :: "decision_table \<Rightarrow> journal" where
  "restore_journal t =
     (case truthy (get_last_journal_hash t) of None \<Rightarrow> new_journal genesis_hash | Some h \<Rightarrow> new_journal h)"

section \<open>Lemmas\<close>

lemma parse_decision_type_str [simp]: "parse_decision_type (decision_type_str ty) = Some ty"
  by (cases ty) (simp_all add: parse_decision_type_def all_decision_types_def)

lemma parse_outcome_str [simp]: "parse_outcome (map_option outcome_str o') = Some o'"
  proof (cases o')
  case (Some a)
  then show ?thesis by (cases a) (simp_all add: parse_outcome_def)
qed (simp add: parse_outcome_def)

lemma json_strings_map [simp]: "json_strings (List.map JStr ss) = Some ss"
  by (induction ss) auto

lemma truthy_simps [simp]: "truthy None = None" "truthy (Some s) = (if s = [] then None else Some s)"
  by (simp_all add: truthy_def split: list.splits)

lemma row_roundtrip:
  assumes "\<And>x. fromiso (isot x) = x" and "\<And>x. isot x \<noteq> []"
    and "de_trigger_alert_id d \<noteq> Some []" and "de_incident_chain_id d \<noteq> Some []"
  shows "row_to_decision fromiso (decision_to_row isot d) = Inr (d\<lparr>de_decision_types := []\<rparr>)"
  using assms
  by (cases "de_trigger_alert_id d"; cases "de_incident_chain_id d"; cases "de_approved_at d";
      cases "de_timeout_at d") (auto simp: row_to_decision_def decision_to_row_def)

lemma fields_no_types [simp]: "decision_to_fields isot (d\<lparr>de_decision_types := x\<rparr>) = decision_to_fields isot d"
  by (simp add: decision_to_fields_def)

interpretation dec: guarded_row map_of update_human_decision undecided set_human
proof unfold_locales
  fix t :: decision_table and i :: string and r u
  assume "map_of t i = Some r" "undecided u r"
  then show "fst (update_human_decision u i t) \<and> map_of (snd (update_human_decision u i t)) i = Some (set_human u r)"
    by (simp add: update_human_decision_def)
next
  fix t :: decision_table and i :: string and u
  assume "\<forall>r. map_of t i = Some r \<longrightarrow> \<not> undecided u r"
  then show "update_human_decision u i t = (False, t)"
    by (auto simp: update_human_decision_def split: option.splits)
next
  fix t :: decision_table and i i' :: string and u
  assume "i' \<noteq> i"
  then show "map_of (snd (update_human_decision u i t)) i' = map_of t i'"
    by (auto simp: update_human_decision_def split: option.splits)
qed

lemma set_human_decides [simp]: "\<not> undecided v (set_human u r)"
  by (simp add: undecided_def set_human_def)

text \<open>The columns the chain is computed from.\<close>

definition core_of :: "decision_row \<Rightarrow> decision_row" where
  "core_of r = r\<lparr>dr_human_decision := None, dr_human_operator := None, dr_human_note := None,
     dr_approved_at := None\<rparr>"

lemma core_set_human [simp]: "core_of (set_human u r) = core_of r"
  by (simp add: core_of_def set_human_def)

lemma map_core_dict_put:
  "map_of t i = Some r \<Longrightarrow> core_of r' = core_of r \<Longrightarrow>
     List.map (\<lambda>(k, x). (k, core_of x)) (dict_put i r' t) = List.map (\<lambda>(k, x). (k, core_of x)) t"
  by (induction t) (auto split: if_splits)

lemma update_human_core:
  "List.map (\<lambda>(k, x). (k, core_of x)) (snd (update_human_decision u i t)) = List.map (\<lambda>(k, x). (k, core_of x)) t"
  by (auto simp: update_human_decision_def map_core_dict_put split: option.splits)

lemma last_hash_fold:
  assumes "sorted_wrt (\<lambda>r s. row_after s r) (r # rs)"
  shows "fold (\<lambda>r best. case best of None \<Rightarrow> Some r | Some s \<Rightarrow> if row_after r s then Some r else Some s)
     rs (Some r) = Some (last (r # rs))"
  using assms by (induction rs arbitrary: r) auto

lemma get_last_journal_hash_last:
  assumes "sorted_wrt (\<lambda>r s. row_after s r) (List.map snd t)" and "t \<noteq> []"
  shows "get_last_journal_hash t = Some (dr_journal_hash (snd (last t)))"
proof -
  obtain p ps where t: "t = p # ps" using assms(2) by (cases t) auto
  with assms(1) show ?thesis
    using last_hash_fold [of "snd p" "List.map snd ps"]
    by (simp add: get_last_journal_hash_def last_map)
qed

lemma decisions_of_snoc:
  "decisions_of fromiso (rs @ [r]) =
     bind_result (decisions_of fromiso rs) (\<lambda>ds. bind_result (row_to_decision fromiso r) (\<lambda>d. Inr (ds @ [d])))"
proof (induction rs)
  case Nil
  then show ?case by (cases "row_to_decision fromiso r") auto
next
  case (Cons a rs)
  then show ?case
    by (cases "row_to_decision fromiso a"; cases "decisions_of fromiso rs"; cases "row_to_decision fromiso r") auto
qed

lemma row_to_decision_hash: "row_to_decision fromiso r = Inr d \<Longrightarrow>
    de_journal_hash d = dr_journal_hash r \<and> de_prev_journal_hash d = dr_prev_journal_hash r"
  by (auto simp: row_to_decision_def split: option.splits json.splits)

lemma decisions_of_rev:
  "decisions_of fromiso rs = Inr ds \<Longrightarrow> decisions_of fromiso (rev rs) = Inr (rev ds)"
proof (induction rs arbitrary: ds)
  case (Cons r rs)
  then show ?case by (auto simp: decisions_of_snoc)
qed simp

lemma length_decisions_of: "decisions_of fromiso rs = Inr ds \<Longrightarrow> length ds = length rs"
  by (induction rs arbitrary: ds) auto

section \<open>Properties\<close>

text \<open>A decision written to the database reads back unchanged, except for the action set, which is
  not stored.\<close>

theorem decision_row_roundtrip:
  assumes "\<forall>x. fromiso (isot x) = x" and "\<forall>x. isot x \<noteq> []"
    and "de_trigger_alert_id d \<noteq> Some []" and "de_incident_chain_id d \<noteq> Some []"
    and "repo_create isot True d t = (Inr (), t')"
  shows "repo_get fromiso (de_decision_id d) t' = Inr (Some (d\<lparr>de_decision_types := []\<rparr>))"
proof -
  from assms(5) have "t' = t @ [(de_decision_id d, decision_to_row isot d)]" "map_of t (de_decision_id d) = None"
    by (auto simp: repo_create_def dict_has_iff split: if_splits)
  then show ?thesis
    using row_roundtrip [of fromiso isot d] assms(1-4) by (simp add: repo_get_def map_add_def)
qed

text \<open>A concrete text for instants, for the witnesses.\<close>

definition unary_iso :: "time \<Rightarrow> string" where
  "unary_iso x = (if 0 \<le> x then CHR ''+'' else CHR ''-'') # replicate (nat \<bar>x\<bar>) (CHR ''1'')"

definition unary_time :: "string \<Rightarrow> time" where
  "unary_time s = (if hd s = CHR ''+'' then int (length s) - 1 else 1 - int (length s))"

lemma unary_iso_inverse [simp]: "unary_time (unary_iso x) = x" "unary_iso x \<noteq> []"
  by (simp_all add: unary_time_def unary_iso_def)

theorem decision_row_roundtrip_witness:
  "\<exists>t'. repo_create unary_iso True (sample_decision ''p'' ''h'') [] = (Inr (), t')
     \<and> repo_get unary_time ''d1'' t' = Inr (Some (sample_decision ''p'' ''h''))"
proof -
  let ?d = "sample_decision ''p'' ''h''"
  obtain t' where c: "repo_create unary_iso True ?d [] = (Inr (), t')"
    by (simp add: repo_create_def dict_has_def)
  from decision_row_roundtrip [of unary_time unary_iso ?d "[]" t'] c
  have "repo_get unary_time ''d1'' t' = Inr (Some ?d)"
    by (simp add: sample_decision_def)
  with c show ?thesis by blast
qed

text \<open>The human outcome of a decision is recorded at most once: once an update of a row has
  succeeded, no later sequence of updates, on any decision, changes that row again.\<close>

lemma human_decided_once:
  assumes "update_human_decision u i t = (True, t')"
  shows "map_of (fold (\<lambda>(v, k) x. snd (update_human_decision v k x)) ops t') i = map_of t' i
    \<and> fst (update_human_decision v i (fold (\<lambda>(v, k) x. snd (update_human_decision v k x)) ops t')) = False"
proof -
  obtain r where r: "map_of t i = Some r" "undecided u r"
    using assms dec.cas_True_iff [of u i t] by auto
  then have t': "map_of t' i = Some (set_human u r)"
    using dec.cas_hit [of t i r u] assms by simp
  have *: "map_of (fold (\<lambda>(v, k) x. snd (update_human_decision v k x)) ops t') i = Some (set_human u r)"
    by (rule dec.final_row [OF t']) simp
  then show ?thesis using dec.cas_True_iff t' by auto
qed

text \<open>No sequence of human updates touches the columns of the journal: every row keeps its key, its
  order and all its columns but the four of the human outcome.\<close>

lemma human_updates_keep_core:
  "List.map (\<lambda>(k, r). (k, core_of r)) (fold (\<lambda>(v, k) x. snd (update_human_decision v k x)) ops t)
   = List.map (\<lambda>(k, r). (k, core_of r)) t"
  by (induction ops arbitrary: t) (auto simp: update_human_core)

text \<open>Restarting the server keeps the journal one chain. When the table's rows are ordered by
  creation and verify, the next decision made with the restored journal extends the verified
  sequence.\<close>

theorem restart_continues_chain:
  assumes "sorted_wrt (\<lambda>r s. row_after s r) (List.map snd t)"
    and "decisions_of fromiso (List.map snd t) = Inr ds"
    and "verify_chain H enc isot ds None = []" and "\<forall>d \<in> set ds. de_journal_hash d \<noteq> []"
    and "decide H enc isot repr_f c True i now inc al ev (restore_journal t) = (Inr d, j')"
  shows "verify_chain H enc isot (ds @ [d]) None = []"
proof -
  have none: "verify_chain H enc isot xs None = [] \<longleftrightarrow> chain_valid H enc isot genesis_hash xs" for xs
    by (simp add: chain_valid_def verify_chain_def)
  have tip: "jr_last_hash (restore_journal t) = jc.tip genesis_hash ds"
  proof (cases t rule: rev_cases)
    case Nil
    with assms(2) show ?thesis
      by (simp add: restore_journal_def get_last_journal_hash_def new_journal_def)
  next
    case (snoc ps p)
    then obtain xs e where ds: "ds = xs @ [e]" and e: "row_to_decision fromiso (snd p) = Inr e"
      using assms(2) by (auto simp: decisions_of_snoc)
    have "get_last_journal_hash t = Some (de_journal_hash e)"
      using get_last_journal_hash_last [OF assms(1)] snoc row_to_decision_hash [OF e] by simp
    with assms(4) ds show ?thesis
      by (simp add: restore_journal_def new_journal_def jc.tip_snoc)
  qed
  show ?thesis
    using assms(3) decide_Inr(1,2) [OF assms(5)] by (simp add: none jc.valid_snoc tip)
qed

theorem restart_continues_chain_witness:
  "\<exists>d j'. decide (\<lambda>_. genesis_hash) (\<lambda>_. ''x'') (\<lambda>_. ''t'') (\<lambda>_. ''f'') sample_cfg True ''d1'' 7
       sample_incident None None (restore_journal []) = (Inr d, j')
     \<and> verify_chain (\<lambda>_. genesis_hash) (\<lambda>_. ''x'') (\<lambda>_. ''t'') ([] @ [d]) None = []"
proof -
  obtain d j' where d: "decide (\<lambda>_. genesis_hash) (\<lambda>_. ''x'') (\<lambda>_. ''t'') (\<lambda>_. ''f'') sample_cfg True
      ''d1'' 7 sample_incident None None (restore_journal []) = (Inr d, j')"
    using decide_sample [of "\<lambda>_. genesis_hash" "\<lambda>_. ''x''" "\<lambda>_. ''t''" "\<lambda>_. ''f''" genesis_hash]
    by (auto simp: restore_journal_def get_last_journal_hash_def)
  from restart_continues_chain [of "[]" unary_time "[]", OF _ _ _ _ d] d show ?thesis
    by (auto simp: verify_chain_def)
qed

end
