(* ===== verification/Bus.thy ===== *)
theory Bus
  imports Prelude
begin

text \<open>
  What the publishers see of the event bus (\<open>bus/interface.py\<close>): \<open>publish(topic, message)\<close> either
  delivers the message or raises. The environment decides which attempts succeed (\<open>ok n\<close> for the
  n-th attempt); \<open>sent\<close> is the log of the delivered messages. Messages are JSON values: the bytes
  that \<open>json.dumps\<close> and \<open>json.loads\<close> carry between them are not modelled.
\<close>

record bus_log =
  attempts :: nat
  sent :: "(string \<times> json) list"

definition empty_bus :: bus_log where
  "empty_bus = \<lparr>attempts = 0, sent = []\<rparr>"

definition publish :: "(nat \<Rightarrow> bool) \<Rightarrow> string \<Rightarrow> json \<Rightarrow> bus_log \<Rightarrow> bool \<times> bus_log" where
  "publish ok topic msg b =
     (if ok (attempts b)
      then (True, b\<lparr>attempts := Suc (attempts b), sent := sent b @ [(topic, msg)]\<rparr>)
      else (False, b\<lparr>attempts := Suc (attempts b)\<rparr>))"

text \<open>The topics of the messages a step added to the log.\<close>

definition topics :: "bus_log \<Rightarrow> string list" where
  "topics b = map fst (sent b)"

lemma publish_sent: "sent (snd (publish ok t m b)) = sent b @ (if fst (publish ok t m b) then [(t, m)] else [])"
  by (simp add: publish_def)

lemma publish_fst: "fst (publish ok t m b) = ok (attempts b)"
  by (simp add: publish_def)

lemma publish_attempts [simp]: "attempts (snd (publish ok t m b)) = Suc (attempts b)"
  by (simp add: publish_def)

lemma publish_all_ok: "(\<And>n. ok n) \<Longrightarrow>
    publish ok t m b = (True, b\<lparr>attempts := Suc (attempts b), sent := sent b @ [(t, m)]\<rparr>)"
  by (simp add: publish_def)

text \<open>Whatever the environment does, a publish only ever adds messages on its own topic.\<close>

lemma publish_cases:
  obtains (sent) b' where "publish ok t m b = (True, b')" "sent b' = sent b @ [(t, m)]"
  | (failed) b' where "publish ok t m b = (False, b')" "sent b' = sent b"
  by (cases "ok (attempts b)") (auto simp: publish_def)

text \<open>A step that only adds messages satisfying \<open>P\<close> to the log.\<close>

definition emits :: "(string \<times> json \<Rightarrow> bool) \<Rightarrow> bus_log \<Rightarrow> bus_log \<Rightarrow> bool" where
  "emits P b b' \<longleftrightarrow> (\<exists>ms. sent b' = sent b @ ms \<and> (\<forall>m \<in> set ms. P m))"

lemma emits_refl [simp, intro]: "emits P b b"
  by (simp add: emits_def)

lemma emits_trans: "emits P a b \<Longrightarrow> emits P b c \<Longrightarrow> emits P a c"
  unfolding emits_def by fastforce

lemma emits_publish [intro]: "P (t, m) \<Longrightarrow> emits P b (snd (publish ok t m b))"
  by (auto simp: emits_def publish_def)

lemma emits_weaken: "emits P b b' \<Longrightarrow> (\<And>m. P m \<Longrightarrow> Q m) \<Longrightarrow> emits Q b b'"
  unfolding emits_def by blast

lemma emits_new: "emits P b b' \<Longrightarrow> m \<in> set (sent b') \<Longrightarrow> m \<in> set (sent b) \<or> P m"
  unfolding emits_def by auto

end
