(* ===== verification/Executor.thy ===== *)
theory Executor
  imports Decision_Engine Bus
begin

text \<open>
  \<open>decision/action_executor.py\<close>: the side effects of a decision. The environment is a record: whether
  each publish succeeds, the fresh command ids, the \<open>ipaddress\<close> parser with the six predicates the code
  asks of an address, and the ISO text of a time.
\<close>

record ip_flags =
  ip_loopback :: bool
  ip_link_local :: bool
  ip_unspecified :: bool
  ip_private :: bool
  ip_multicast :: bool
  ip_reserved :: bool

record exec_env =
  xe_ok :: "nat \<Rightarrow> bool"
  xe_ids :: "nat \<Rightarrow> uuid"
  xe_ip :: "string \<Rightarrow> ip_flags option"
  xe_iso :: "time \<Rightarrow> string"
  xe_has_repo :: bool

record exec_state =
  ex_bus :: bus_log
  ex_ids :: nat

definition topic_completed :: string where
  "topic_completed = ''decisions:completed''"

definition topic_pending :: string where
  "topic_pending = ''decisions:pending''"

text \<open>\<open>^[a-zA-Z0-9._-]{1,253}$\<close> under \<open>match\<close>: \<open>$\<close> also matches before a final newline.\<close>

definition safe_char :: "char \<Rightarrow> bool" where
  "safe_char c \<longleftrightarrow> c \<in> set ''abcdefghijklmnopqrstuvwxyzABCDEFGHIJKLMNOPQRSTUVWXYZ0123456789._-''"

definition safe_core :: "string \<Rightarrow> bool" where
  "safe_core s \<longleftrightarrow> 1 \<le> length s \<and> length s \<le> 253 \<and> list_all safe_char s"

definition safe_id_re :: "string \<Rightarrow> bool" where
  "safe_id_re s \<longleftrightarrow> safe_core s \<or> (s \<noteq> [] \<and> last s = CHR 0x0A \<and> safe_core (butlast s))"

definition validate_entity_id :: "string \<Rightarrow> string result" where
  "validate_entity_id eid = (if safe_id_re eid then Inr eid else Inl ValueError)"

section \<open>Publishing\<close>

definition put :: "exec_env \<Rightarrow> string \<Rightarrow> json \<Rightarrow> exec_state \<Rightarrow> bool \<times> exec_state" where
  "put env topic msg s =
     (let (done, b) = publish (xe_ok env) topic msg (ex_bus s) in (done, s\<lparr>ex_bus := b\<rparr>))"

definition decision_message :: "exec_env \<Rightarrow> decision \<Rightarrow> json" where
  "decision_message env d =
     JObj [(''decision_id'', JStr (de_decision_id d)),
           (''decision_type'', JStr (decision_type_str (de_decision_type d))),
           (''entity_id'', JStr (de_entity_id d)),
           (''requires_human'', JBool (de_requires_human d)),
           (''trigger_alert_id'', jopt JStr (de_trigger_alert_id d)),
           (''incident_chain_id'', jopt JStr (de_incident_chain_id d)),
           (''explanation'', JStr (de_explanation d)),
           (''created_at'', JStr (xe_iso env (de_created_at d)))]"

definition publish_decision :: "exec_env \<Rightarrow> string \<Rightarrow> decision \<Rightarrow> exec_state \<Rightarrow> exec_state" where
  "publish_decision env topic d s = snd (put env topic (decision_message env d) s)"

definition command_message :: "uuid \<Rightarrow> string \<Rightarrow> json \<Rightarrow> json" where
  "command_message cid ctype payload =
     JObj [(''command_id'', JStr cid), (''command_type'', JStr ctype), (''payload'', payload)]"

definition send_command ::
  "exec_env \<Rightarrow> string \<Rightarrow> string \<Rightarrow> json \<Rightarrow> exec_state \<Rightarrow> uuid option result \<times> exec_state" where
  "send_command env cn ctype payload s =
     (case validate_entity_id cn of
        Inl e \<Rightarrow> (Inl e, s)
      | Inr _ \<Rightarrow>
          (let cid = xe_ids env (ex_ids s);
               (done, s') = put env (''commands:'' @ cn) (command_message cid ctype payload)
                              (s\<lparr>ex_ids := Suc (ex_ids s)\<rparr>)
           in (Inr (if done then Some cid else None), s')))"

section \<open>Actions\<close>

definition extract_dst_ip :: "alert option \<Rightarrow> string option" where
  "extract_dst_ip al = (case al of None \<Rightarrow> None | Some a \<Rightarrow> al_dst_ip a)"

definition extract_process :: "alert option \<Rightarrow> int option \<times> string" where
  "extract_process al = (case al of None \<Rightarrow> (None, []) | Some a \<Rightarrow> (al_pid a, al_process_name a))"

definition ip_refused :: "ip_flags \<Rightarrow> bool" where
  "ip_refused f \<longleftrightarrow> ip_loopback f \<or> ip_link_local f \<or> ip_unspecified f \<or> ip_private f
     \<or> ip_multicast f \<or> ip_reserved f"

definition block_payload :: "string \<Rightarrow> decision \<Rightarrow> json" where
  "block_payload ip d = JObj [(''ip'', JStr ip), (''decision_id'', JStr (de_decision_id d))]"

definition emit_block_ip_command ::
  "exec_env \<Rightarrow> decision \<Rightarrow> alert option \<Rightarrow> exec_state \<Rightarrow> uuid option result \<times> exec_state" where
  "emit_block_ip_command env d al s =
     (case extract_dst_ip al of
        None \<Rightarrow> (Inr None, s)
      | Some ip \<Rightarrow>
          (if ip = [] then (Inr None, s)
           else case xe_ip env ip of
             None \<Rightarrow> (Inr None, s)
           | Some f \<Rightarrow>
               (if ip_refused f then (Inr None, s)
                else send_command env (de_entity_id d) ''BLOCK_IP'' (block_payload ip d) s)))"

definition kill_payload :: "int \<Rightarrow> string \<Rightarrow> decision \<Rightarrow> json" where
  "kill_payload pid name d =
     JObj [(''pid'', JInt pid), (''process_name'', JStr name), (''decision_id'', JStr (de_decision_id d))]"

definition emit_kill_process_command ::
  "exec_env \<Rightarrow> decision \<Rightarrow> alert option \<Rightarrow> exec_state \<Rightarrow> uuid option result \<times> exec_state" where
  "emit_kill_process_command env d al s =
     (case extract_process al of
        (None, _) \<Rightarrow> (Inr None, s)
      | (Some pid, name) \<Rightarrow> send_command env (de_entity_id d) ''KILL_PROCESS'' (kill_payload pid name d) s)"

definition request_forensic_snapshot :: "exec_env \<Rightarrow> decision \<Rightarrow> exec_state \<Rightarrow> unit result \<times> exec_state" where
  "request_forensic_snapshot env d s =
     (Inr (), snd (put env ''forensics:snapshot:request''
        (JObj [(''decision_id'', JStr (de_decision_id d)),
               (''entity_id'', JStr (de_entity_id d)),
               (''incident_chain_id'', jopt JStr (de_incident_chain_id d))]) s))"

definition request_additional_collection :: "exec_env \<Rightarrow> decision \<Rightarrow> exec_state \<Rightarrow> unit result \<times> exec_state" where
  "request_additional_collection env d s =
     (case validate_entity_id (de_entity_id d) of
        Inl e \<Rightarrow> (Inl e, s)
      | Inr eid \<Rightarrow>
          (Inr (), snd (put env (''policy:push:'' @ eid)
             (JObj [(''command'', JStr ''collect_more''),
                    (''decision_id'', JStr (de_decision_id d)),
                    (''reason'', JStr (de_explanation d))]) s)))"

definition emit_notification :: "exec_env \<Rightarrow> decision \<Rightarrow> exec_state \<Rightarrow> unit result \<times> exec_state" where
  "emit_notification env d s =
     (Inr (), snd (put env ''notifications:pending''
        (JObj [(''decision_id'', JStr (de_decision_id d)),
               (''entity_id'', JStr (de_entity_id d)),
               (''final_score'', JNum (de_final_score d)),
               (''explanation'', JStr (de_explanation d)),
               (''created_at'', JStr (xe_iso env (de_created_at d)))]) s))"

text \<open>
  The ISOLATE step. With a repository the code imports \<open>ResponseAction\<close> from \<open>oseye.storage.models\<close>
  once a command was sent; that module defines no such name, so the import raises.
\<close>

definition isolate_step :: "exec_env \<Rightarrow> decision \<Rightarrow> alert option \<Rightarrow> exec_state \<Rightarrow> unit result \<times> exec_state" where
  "isolate_step env d al s =
     seq_res (emit_block_ip_command env d al s) (\<lambda>cid s'.
       case cid of
         None \<Rightarrow> (Inr (), s')
       | Some c \<Rightarrow> if c \<noteq> [] \<and> xe_has_repo env then (Inl ImportError, s') else (Inr (), s'))"

definition effective_types :: "decision \<Rightarrow> decision_type list" where
  "effective_types d = (if de_decision_types d \<noteq> [] then de_decision_types d else [de_decision_type d])"

definition step_if :: "bool \<Rightarrow> ('s \<Rightarrow> unit result \<times> 's) \<Rightarrow> 's \<Rightarrow> unit result \<times> 's" where
  "step_if b f s = (if b then f s else (Inr (), s))"

definition execute :: "exec_env \<Rightarrow> decision \<Rightarrow> alert option \<Rightarrow> exec_state \<Rightarrow> unit result \<times> exec_state" where
  "execute env d al s =
     (if de_decision_type d = IGNORE then (Inr (), s)
      else
        let s1 = publish_decision env
                   (if de_decision_type d \<in> {REQUEST_HUMAN, ESCALATE} then topic_pending else topic_completed) d s;
            types = set (effective_types d)
        in seq_res (step_if (ISOLATE \<in> types) (isolate_step env d al) s1) (\<lambda>_ s2.
           seq_res (step_if (INVESTIGATE \<in> types) (request_forensic_snapshot env d) s2) (\<lambda>_ s3.
           seq_res (step_if (COLLECT_MORE \<in> types) (request_additional_collection env d) s3) (\<lambda>_ s4.
           step_if (NOTIFY \<in> types) (emit_notification env d) s4))))"

definition execute_after_approval ::
  "exec_env \<Rightarrow> decision \<Rightarrow> alert option \<Rightarrow> exec_state \<Rightarrow> unit result \<times> exec_state" where
  "execute_after_approval env d al s =
     (if de_requires_human d \<and> de_human_decision d \<noteq> Some Approved then (Inr (), s)
      else if \<not> de_requires_human d then (Inr (), s)
      else seq_res (emit_kill_process_command env d al s) (\<lambda>_ s'. (Inr (), s')))"

definition rollback_type :: "string \<Rightarrow> string option" where
  "rollback_type ctype =
     (if ctype = ''BLOCK_IP'' then Some ''UNBLOCK_IP''
      else if ctype = ''QUARANTINE_FILE'' then Some ''RESTORE_FILE'' else None)"

definition emit_rollback ::
  "exec_env \<Rightarrow> string \<Rightarrow> uuid \<Rightarrow> string \<Rightarrow> json \<Rightarrow> exec_state \<Rightarrow> unit result \<times> exec_state" where
  "emit_rollback env cn cid ctype payload s =
     (case rollback_type ctype of
        None \<Rightarrow> (Inr (), s)
      | Some rt \<Rightarrow> seq_res (send_command env cn rt payload s) (\<lambda>_ s'. (Inr (), s')))"

section \<open>Lemmas\<close>

text \<open>What a step may add to the bus, lifted to executor states.\<close>

definition ex_emits :: "(string \<times> json \<Rightarrow> bool) \<Rightarrow> exec_state \<Rightarrow> exec_state \<Rightarrow> bool" where
  "ex_emits P s s' \<longleftrightarrow> emits P (ex_bus s) (ex_bus s')"

lemma ex_emits_refl [simp, intro]: "ex_emits P s s"
  by (simp add: ex_emits_def)

lemma ex_emits_trans: "ex_emits P s t \<Longrightarrow> ex_emits P t u \<Longrightarrow> ex_emits P s u"
  unfolding ex_emits_def by (rule emits_trans)

lemma ex_emits_seq:
  "ex_emits P s (snd x) \<Longrightarrow> (\<And>a t. ex_emits P t (snd (f a t))) \<Longrightarrow> ex_emits P s (snd (seq_res x f))"
  by (rule seq_res_rel [where R = "ex_emits P"]) (auto intro: ex_emits_trans)

lemma ex_emits_step_if: "(b \<Longrightarrow> ex_emits P s (snd (f s))) \<Longrightarrow> ex_emits P s (snd (step_if b f s))"
  by (simp add: step_if_def)

lemma ex_emits_put: "P (t, m) \<Longrightarrow> ex_emits P s (snd (put env t m s))"
  by (auto simp: ex_emits_def put_def split_def Let_def)

lemma ex_emits_ids [simp]: "ex_emits P (s\<lparr>ex_ids := n\<rparr>) s' = ex_emits P s s'"
  by (simp add: ex_emits_def)

lemma ex_emits_send:
  assumes "\<And>cid. P (''commands:'' @ cn, command_message cid ct p)"
  shows "ex_emits P s (snd (send_command env cn ct p s))"
proof (cases "validate_entity_id cn")
  case (Inr x)
  then show ?thesis
    using ex_emits_put [of P, OF assms, where s = "s\<lparr>ex_ids := Suc (ex_ids s)\<rparr>" and env = env]
    by (simp add: send_command_def Let_def split_def)
qed (simp add: send_command_def)

lemmas exec_fields = command_message_def block_payload_def kill_payload_def decision_message_def

text \<open>The only errors a step can raise.\<close>

lemma send_command_errors: "fst (send_command env cn ct p s) = Inl e \<Longrightarrow> e = ValueError \<and> \<not> safe_id_re cn"
  by (auto simp: send_command_def validate_entity_id_def Let_def split_def split: if_splits)

lemma block_ip_Inl: "fst (emit_block_ip_command env d al s) = Inl e \<Longrightarrow> e = ValueError \<and> \<not> safe_id_re (de_entity_id d)"
  using send_command_errors by (fastforce simp: emit_block_ip_command_def split: option.splits if_splits)

lemma seq_res_Inl:
  "fst (seq_res x f) = Inl e \<longleftrightarrow> fst x = Inl e \<or> (\<exists>a s. x = (Inr a, s) \<and> fst (f a s) = Inl e)"
  by (cases x; cases "fst x") auto

lemma isolate_Inl:
  "fst (isolate_step env d al s) = Inl e \<Longrightarrow>
     e = ValueError \<and> \<not> safe_id_re (de_entity_id d) \<or> e = ImportError \<and> xe_has_repo env"
  using block_ip_Inl by (fastforce simp: isolate_step_def seq_res_Inl split: option.splits if_splits)

lemma collect_Inl: "fst (request_additional_collection env d s) = Inl e \<Longrightarrow>
    e = ValueError \<and> \<not> safe_id_re (de_entity_id d)"
  by (auto simp: request_additional_collection_def validate_entity_id_def split: if_splits)

section \<open>Properties\<close>

text \<open>A message the automatic path may put on the bus: anything but an agent command, or a BLOCK_IP
  command to the decision's own agent, for the alert's destination address, which is public.\<close>

definition public_address :: "ip_flags \<Rightarrow> bool" where
  "public_address f \<longleftrightarrow> \<not> ip_private f \<and> \<not> ip_loopback f \<and> \<not> ip_link_local f \<and> \<not> ip_multicast f
     \<and> \<not> ip_reserved f \<and> \<not> ip_unspecified f"

lemma not_refused: "\<not> ip_refused f \<Longrightarrow> public_address f"
  by (simp add: ip_refused_def public_address_def)

definition legit_command :: "exec_env \<Rightarrow> decision \<Rightarrow> alert option \<Rightarrow> string \<times> json \<Rightarrow> bool" where
  "legit_command env d al m \<longleftrightarrow>
     jfield (snd m) ''command_type'' = None
     \<or> (\<exists>ip f. m = (''commands:'' @ de_entity_id d, snd m)
         \<and> jfield (snd m) ''command_type'' = Some (JStr ''BLOCK_IP'')
         \<and> jfield (snd m) ''payload'' = Some (block_payload ip d)
         \<and> ISOLATE \<in> set (effective_types d) \<and> safe_id_re (de_entity_id d)
         \<and> extract_dst_ip al = Some ip \<and> xe_ip env ip = Some f \<and> public_address f)"

lemma isolate_legit:
  assumes "ISOLATE \<in> set (effective_types d)"
  shows "ex_emits (legit_command env d al) s (snd (isolate_step env d al s))"
  unfolding isolate_step_def
proof (rule ex_emits_seq)
  show "ex_emits (legit_command env d al) s (snd (emit_block_ip_command env d al s))"
  proof (cases "\<exists>ip f. extract_dst_ip al = Some ip \<and> ip \<noteq> [] \<and> xe_ip env ip = Some f \<and> \<not> ip_refused f
      \<and> safe_id_re (de_entity_id d)")
    case True
    then obtain ip f where ip: "extract_dst_ip al = Some ip" "ip \<noteq> []" "xe_ip env ip = Some f"
      "\<not> ip_refused f" "safe_id_re (de_entity_id d)" by blast
    have "legit_command env d al (''commands:'' @ de_entity_id d, command_message cid ''BLOCK_IP'' (block_payload ip d))" for cid
      unfolding legit_command_def using ip assms
      by (intro disjI2 exI [of _ ip] exI [of _ f]) (simp add: command_message_def not_refused)
    with ip show ?thesis by (simp add: emit_block_ip_command_def ex_emits_send)
  next
    case False
    then show ?thesis
      by (auto simp: emit_block_ip_command_def send_command_def validate_entity_id_def split: option.splits)
  qed
qed (auto split: option.splits)

lemma no_command_legit: "jfield (snd m) ''command_type'' = None \<Longrightarrow> legit_command env d al m"
  by (simp add: legit_command_def)

lemma publish_decision_legit: "ex_emits (legit_command env d al) s (snd (put env' t (decision_message env' d) s))"
  by (intro ex_emits_put no_command_legit) (simp add: decision_message_def)

lemma snapshot_legit: "ex_emits (legit_command env d al) s (snd (request_forensic_snapshot env d s))"
  by (simp add: request_forensic_snapshot_def ex_emits_put no_command_legit)

lemma notify_legit: "ex_emits (legit_command env d al) s (snd (emit_notification env d s))"
  by (simp add: emit_notification_def ex_emits_put no_command_legit)

lemma collect_legit: "ex_emits (legit_command env d al) s (snd (request_additional_collection env d s))"
  by (cases "validate_entity_id (de_entity_id d)")
    (simp_all add: request_additional_collection_def ex_emits_put no_command_legit)

lemma execute_legit: "ex_emits (legit_command env d al) s (snd (execute env d al s))"
proof -
  let ?P = "legit_command env d al"
  have rest: "ex_emits ?P t (snd (
      seq_res (step_if (ISOLATE \<in> set (effective_types d)) (isolate_step env d al) t) (\<lambda>_ s2.
      seq_res (step_if (INVESTIGATE \<in> set (effective_types d)) (request_forensic_snapshot env d) s2) (\<lambda>_ s3.
      seq_res (step_if (COLLECT_MORE \<in> set (effective_types d)) (request_additional_collection env d) s3) (\<lambda>_ s4.
      step_if (NOTIFY \<in> set (effective_types d)) (emit_notification env d) s4)))))" for t
    by (intro ex_emits_seq ex_emits_step_if isolate_legit snapshot_legit collect_legit notify_legit) assumption
  show ?thesis
    unfolding execute_def Let_def publish_decision_def
    using ex_emits_trans [OF publish_decision_legit rest] by simp
qed

text \<open>C2: whatever the bus does, executing a decision adds to it no agent command other than a
  BLOCK_IP to the decision's agent for the alert's destination address, and only when that address is
  neither loopback, link-local, unspecified, private, multicast nor reserved and the decision asks for
  isolation. In particular KILL_PROCESS is never sent automatically.\<close>

theorem execute_only_blocks_public_ips:
  "\<exists>ms. sent (ex_bus (snd (execute env d al s))) = sent (ex_bus s) @ ms
     \<and> list_all (legit_command env d al) ms"
  using execute_legit [of env d al s] by (simp add: ex_emits_def emits_def list_all_iff)

text \<open>C11: after an approval the executor acts only on a decision that required a human and that was
  approved; then it sends at most one command, the KILL_PROCESS of the alert's process to the
  decision's agent.\<close>

theorem kill_only_after_approval:
  "(de_requires_human d \<and> de_human_decision d = Some Approved
      \<or> execute_after_approval env d al s = (Inr (), s))
   \<and> (sent (ex_bus (snd (execute_after_approval env d al s))) = sent (ex_bus s)
      \<or> (\<exists>a pid. al = Some a \<and> al_pid a = Some pid \<and> safe_id_re (de_entity_id d)
          \<and> sent (ex_bus (snd (execute_after_approval env d al s))) =
              sent (ex_bus s) @ [(''commands:'' @ de_entity_id d,
                command_message (xe_ids env (ex_ids s)) ''KILL_PROCESS''
                  (kill_payload pid (al_process_name a) d))]))"
proof (cases "\<exists>a pid. al = Some a \<and> al_pid a = Some pid \<and> safe_id_re (de_entity_id d)")
  case True
  then obtain a pid where al: "al = Some a" "al_pid a = Some pid" "safe_id_re (de_entity_id d)" by blast
  then show ?thesis
    by (auto simp: execute_after_approval_def emit_kill_process_command_def extract_process_def
        send_command_def validate_entity_id_def put_def publish_def Let_def)
next
  case False
  then have "sent (ex_bus (snd (emit_kill_process_command env d al s))) = sent (ex_bus s)"
    by (auto simp: emit_kill_process_command_def extract_process_def send_command_def
        validate_entity_id_def split: option.splits)
  then show ?thesis
    by (cases "emit_kill_process_command env d al s"; cases "fst (emit_kill_process_command env d al s)")
      (auto simp: execute_after_approval_def)
qed

text \<open>A failing bus never makes an execution fail. The only errors are a refused entity id, when
  a topic has to be built from it, and the broken import once a command was sent with a repository
  configured.\<close>

lemma execute_errors:
  "fst (execute env d al s) = Inl e \<Longrightarrow>
     (e = ValueError \<and> \<not> safe_id_re (de_entity_id d)
        \<and> {ISOLATE, COLLECT_MORE} \<inter> set (effective_types d) \<noteq> {})
     \<or> (e = ImportError \<and> xe_has_repo env \<and> ISOLATE \<in> set (effective_types d))"
  by (auto simp: execute_def Let_def seq_res_Inl step_if_def request_forensic_snapshot_def
      emit_notification_def dest: isolate_Inl collect_Inl split: if_splits)

definition sample_env :: exec_env where
  "sample_env = \<lparr>xe_ok = \<lambda>_. True, xe_ids = \<lambda>_. ''c1'',
     xe_ip = \<lambda>_. Some \<lparr>ip_loopback = False, ip_link_local = False, ip_unspecified = False,
       ip_private = False, ip_multicast = False, ip_reserved = False\<rparr>,
     xe_iso = \<lambda>_. ''t'', xe_has_repo = True\<rparr>"

definition sample_alert :: alert where
  "sample_alert = \<lparr>al_alert_id = ''a1'', al_created_at = 0, al_updated_at = 0, al_severity = High,
     al_status = AOpen, al_rule_id = None, al_rule_type = Anomaly, al_ml_triggered = False,
     al_ti_triggered = False, al_entity_id = ''web1'', al_hostname = ''web1'',
     al_trigger_event_id = ''e1'', al_related_event_ids = [], al_incident_chain_id = None,
     al_title = ''t'', al_description = [], al_mitre_techniques = [], al_assigned_to = None,
     al_notes = [], al_false_positive_count = 0, al_dst_ip = Some ''203.0.113.7'', al_pid = Some 42,
     al_process_name = ''sh''\<rparr>"

definition isolating_decision :: decision where
  "isolating_decision = (sample_decision ''p'' ''h'')\<lparr>de_decision_types := [ALERT, ISOLATE]\<rparr>"

definition idle_executor :: exec_state where
  "idle_executor = \<lparr>ex_bus = empty_bus, ex_ids = 0\<rparr>"

text \<open>With a repository configured, an isolation of a public address always ends in the import error,
  after the BLOCK_IP command has left.\<close>

lemma isolate_with_repo_raises:
  "fst (execute sample_env isolating_decision (Some sample_alert) idle_executor) = Inl ImportError"
  "topics (ex_bus (snd (execute sample_env isolating_decision (Some sample_alert) idle_executor)))
     = [''decisions:completed'', ''commands:web1'']"
  by (simp_all add: execute_def Let_def isolating_decision_def sample_decision_def effective_types_def
      publish_decision_def put_def publish_def sample_env_def idle_executor_def empty_bus_def step_if_def
      isolate_step_def emit_block_ip_command_def extract_dst_ip_def sample_alert_def ip_refused_def
      send_command_def validate_entity_id_def safe_id_re_def safe_core_def safe_char_def
      topic_completed_def topics_def)

lemma isolate_not_pending: "ex_emits (\<lambda>m. fst m \<noteq> topic_pending) s (snd (isolate_step env d al s))"
  unfolding isolate_step_def
  by (intro ex_emits_seq)
    (auto simp: emit_block_ip_command_def topic_pending_def intro!: ex_emits_send split: option.splits)

text \<open>A decision made by the engine that requires a human is never announced on
  \<open>decisions:pending\<close>: its type is ALERT (REQUEST_HUMAN is never the first action of the matrix), so
  executing it announces it on \<open>decisions:completed\<close>, and nothing it sends goes to
  \<open>decisions:pending\<close>.\<close>

theorem human_review_announced_as_completed:
  assumes "decide H enc isot repr_f c True i now inc al ev j = (Inr d, j')"
    and "de_requires_human d" and "xe_ok env (attempts (ex_bus s))"
  shows "\<exists>ms. sent (ex_bus (snd (execute env d a s))) =
      sent (ex_bus s) @ (topic_completed, decision_message env d) # ms
    \<and> topic_pending \<notin> fst ` set ms"
proof -
  have types: "de_decision_types d = [ALERT, ISOLATE, REQUEST_HUMAN]" "de_decision_type d = ALERT"
    using decide_Inr(7,8,9) [OF assms(1)] assms(2) by (simp_all add: apply_risk_matrix_def)
  let ?s1 = "snd (put env topic_completed (decision_message env d) s)"
  have "execute env d a s = seq_res (isolate_step env d a ?s1) (\<lambda>_ t. (Inr (), t))"
    by (simp add: execute_def types effective_types_def step_if_def Let_def publish_decision_def)
  moreover have "snd (seq_res (isolate_step env d a ?s1) (\<lambda>_ t. (Inr (), t))) = snd (isolate_step env d a ?s1)"
    by (cases "isolate_step env d a ?s1"; cases "fst (isolate_step env d a ?s1)") auto
  moreover have "sent (ex_bus ?s1) = sent (ex_bus s) @ [(topic_completed, decision_message env d)]"
    using assms(3) by (simp add: put_def publish_def)
  ultimately show ?thesis
    using isolate_not_pending [of ?s1 env d a] by (fastforce simp: ex_emits_def emits_def)
qed

theorem human_review_announced_as_completed_witness:
  "\<exists>d j'. decide (\<lambda>_. genesis_hash) (\<lambda>_. ''x'') (\<lambda>_. ''t'') (\<lambda>_. ''f'') sample_cfg True ''d1'' 7
       sample_incident None None (new_journal genesis_hash) = (Inr d, j')
     \<and> topic_completed \<in> set (topics (ex_bus (snd (execute sample_env d None idle_executor))))"
proof -
  obtain d j' where d: "decide (\<lambda>_. genesis_hash) (\<lambda>_. ''x'') (\<lambda>_. ''t'') (\<lambda>_. ''f'') sample_cfg True
      ''d1'' 7 sample_incident None None (new_journal genesis_hash) = (Inr d, j')" "de_requires_human d"
    using decide_sample by blast
  from human_review_announced_as_completed [OF d, of sample_env idle_executor None]
  have "topic_completed \<in> set (topics (ex_bus (snd (execute sample_env d None idle_executor))))"
    by (auto simp: sample_env_def topics_def)
  with d show ?thesis by blast
qed

end
