(* ===== verification/Human_Queue.thy ===== *)
theory Human_Queue
  imports Decision_Repo Executor
begin

text \<open>
  \<open>decision/human_queue.py\<close>: approvals, rejections and the timeout sweep over the decisions table, and
  the routes of \<open>api/routers/decisions.py\<close> above it. \<open>update_decision\<close> awaits between its read and its
  conditional update; the two tables it sees are separate arguments, so other tasks may act between
  them.
\<close>

record queue_env =
  qe_iso :: "time \<Rightarrow> string"
  qe_fromiso :: "string \<Rightarrow> time"
  qe_alert :: "uuid \<Rightarrow> alert option result"
  qe_exec :: exec_env

definition sanitise_operator :: "string \<Rightarrow> string" where
  "sanitise_operator op = take 200 (strip op)"

definition sanitise_note :: "string \<Rightarrow> string" where
  "sanitise_note note = take 2000 (strip note)"

definition update_decision ::
  "queue_env \<Rightarrow> time \<Rightarrow> uuid \<Rightarrow> human_outcome \<Rightarrow> string \<Rightarrow> string \<Rightarrow> decision_table \<Rightarrow> decision_table
   \<Rightarrow> decision option result \<times> decision_table" where
  "update_decision q now i outcome op note t_read t_write =
     (case repo_get (qe_fromiso q) i t_read of
        Inl e \<Rightarrow> (Inl e, t_write)
      | Inr None \<Rightarrow> (Inr None, t_write)
      | Inr (Some d) \<Rightarrow>
          (if de_human_decision d \<noteq> None then (Inr None, t_write)
           else
             let (updated, t') = update_human_decision
                   \<lparr>hu_outcome = outcome_str outcome, hu_operator = op, hu_note = note,
                    hu_approved_at = qe_iso q now\<rparr> i t_write
             in if \<not> updated then (Inr None, t')
                else (Inr (Some (d\<lparr>de_human_decision := Some outcome, de_human_operator := Some op,
                       de_human_note := Some note, de_approved_at := Some now\<rparr>)), t')))"

text \<open>The alert lookup and the commands of an approval; their exceptions are logged and dropped.\<close>

definition post_approval :: "queue_env \<Rightarrow> decision \<Rightarrow> exec_state \<Rightarrow> exec_state" where
  "post_approval q d s =
     (case (case de_trigger_alert_id d of None \<Rightarrow> Inr None | Some a \<Rightarrow> qe_alert q a) of
        Inl e \<Rightarrow> s
      | Inr al \<Rightarrow> snd (execute_after_approval (qe_exec q) d al s))"

definition approve ::
  "queue_env \<Rightarrow> time \<Rightarrow> uuid \<Rightarrow> string \<Rightarrow> string \<Rightarrow> decision_table \<Rightarrow> decision_table \<times> exec_state
   \<Rightarrow> decision option result \<times> (decision_table \<times> exec_state)" where
  "approve q now i operator note t_read st =
     (case update_decision q now i Approved (sanitise_operator operator) (sanitise_note note) t_read (fst st) of
        (Inr (Some d), t') \<Rightarrow> (Inr (Some d), (t', post_approval q d (snd st)))
      | (r, t') \<Rightarrow> (r, (t', snd st)))"

definition reject ::
  "queue_env \<Rightarrow> time \<Rightarrow> uuid \<Rightarrow> string \<Rightarrow> string \<Rightarrow> decision_table \<Rightarrow> decision_table
   \<Rightarrow> decision option result \<times> decision_table" where
  "reject q now i operator note t_read t_write =
     update_decision q now i Rejected (sanitise_operator operator) (sanitise_note note) t_read t_write"

text \<open>The timeout sweep.\<close>

definition due :: "time \<Rightarrow> decision \<Rightarrow> bool" where
  "due now d \<longleftrightarrow> (case de_timeout_at d of None \<Rightarrow> False | Some x \<Rightarrow> x \<le> now)"

definition expiry_note :: string where
  "expiry_note = ''Auto-expired: timeout reached''"

fun expire_loop :: "queue_env \<Rightarrow> time \<Rightarrow> decision list \<Rightarrow> decision_table \<Rightarrow> unit result \<times> decision_table" where
  "expire_loop q now [] t = (Inr (), t)"
| "expire_loop q now (d # ds) t =
     (if due now d
      then seq_res (update_decision q now (de_decision_id d) Rejected ''system'' expiry_note t t)
             (\<lambda>_ t'. expire_loop q now ds t')
      else expire_loop q now ds t)"

definition expire_timeout :: "queue_env \<Rightarrow> time \<Rightarrow> decision_table \<Rightarrow> unit result \<times> decision_table" where
  "expire_timeout q now t =
     (case get_pending (qe_fromiso q) t of Inl e \<Rightarrow> (Inl e, t) | Inr ds \<Rightarrow> expire_loop q now ds t)"

section \<open>The routes\<close>

definition not_found :: "'a option result \<times> 's \<Rightarrow> 'a result \<times> 's" where
  "not_found rs = (case fst rs of Inl e \<Rightarrow> Inl e | Inr None \<Rightarrow> Inl (HTTPException 404) | Inr (Some a) \<Rightarrow> Inr a, snd rs)"

definition approve_route ::
  "queue_env \<Rightarrow> time \<Rightarrow> uuid \<Rightarrow> string \<Rightarrow> string \<Rightarrow> decision_table \<times> exec_state
   \<Rightarrow> decision result \<times> (decision_table \<times> exec_state)" where
  "approve_route q now i operator note st = not_found (approve q now i operator note (fst st) st)"

definition reject_route ::
  "queue_env \<Rightarrow> time \<Rightarrow> uuid \<Rightarrow> string \<Rightarrow> string \<Rightarrow> decision_table \<Rightarrow> decision result \<times> decision_table" where
  "reject_route q now i operator note t = not_found (reject q now i operator note t t)"

definition get_decision_route :: "queue_env \<Rightarrow> uuid \<Rightarrow> decision_table \<Rightarrow> decision result" where
  "get_decision_route q i t = fst (not_found (repo_get (qe_fromiso q) i t, t))"

definition list_decisions_route ::
  "queue_env \<Rightarrow> decision_filters \<Rightarrow> int \<Rightarrow> int \<Rightarrow> decision_table \<Rightarrow> (decision list \<times> nat) result" where
  "list_decisions_route q f page page_size t =
     (if page < 1 then Inl (HTTPException 422)
      else if \<not> (1 \<le> page_size \<and> page_size \<le> 200) then Inl (HTTPException 422)
      else list_decisions (qe_fromiso q) f (nat ((page - 1) * page_size)) (nat page_size) t)"

definition list_pending_route :: "queue_env \<Rightarrow> nat \<Rightarrow> nat \<Rightarrow> decision_table \<Rightarrow> decision list result" where
  "list_pending_route q limit offset t =
     bind_result (get_pending (qe_fromiso q) t) (\<lambda>ds. Inr (page_of offset limit ds))"

record verify_report =
  vr_intact :: bool
  vr_checked :: nat
  vr_broken :: "nat list"

definition verify_journal_integrity ::
  "(string \<Rightarrow> string) \<Rightarrow> (json \<Rightarrow> string) \<Rightarrow> queue_env \<Rightarrow> nat \<Rightarrow> decision_table \<Rightarrow> verify_report result" where
  "verify_journal_integrity H enc q limit t =
     bind_result (list_decisions (qe_fromiso q) \<lparr>df_entity_id = None, df_decision_type = None, df_requires_human = None\<rparr> 0 limit t)
       (\<lambda>(ds, _).
          let broken = verify_chain H enc (qe_iso q) ds None
          in Inr \<lparr>vr_intact = (length broken = 0), vr_checked = length ds, vr_broken = broken\<rparr>)"

section \<open>Lemmas\<close>

lemma update_decision_cases:
  "update_decision q now i oc op note t_read t_write = (Inr (Some d'), t') \<longleftrightarrow>
     (\<exists>d. repo_get (qe_fromiso q) i t_read = Inr (Some d) \<and> de_human_decision d = None
        \<and> update_human_decision \<lparr>hu_outcome = outcome_str oc, hu_operator = op, hu_note = note,
             hu_approved_at = qe_iso q now\<rparr> i t_write = (True, t')
        \<and> d' = d\<lparr>de_human_decision := Some oc, de_human_operator := Some op, de_human_note := Some note,
             de_approved_at := Some now\<rparr>)"
  by (auto simp: update_decision_def Let_def split_def prod_eq_iff split: sum.splits option.splits if_splits)

lemma row_undecided_iff: "row_to_decision fi r = Inr d \<Longrightarrow> de_human_decision d = None \<longleftrightarrow> dr_human_decision r = None"
  by (auto simp: row_to_decision_def parse_outcome_def split: option.splits json.splits if_splits)

lemma row_to_decision_id: "row_to_decision fi r = Inr d \<Longrightarrow> de_decision_id d = dr_decision_id r"
  by (auto simp: row_to_decision_def split: option.splits json.splits)

lemma update_pending:
  assumes "map_of t i = Some r" and "row_to_decision (qe_fromiso q) r = Inr d" and "dr_human_decision r = None"
  shows "\<exists>d'. update_decision q now i oc op note t t =
     (Inr (Some d'), dict_put i (set_human \<lparr>hu_outcome = outcome_str oc, hu_operator = op, hu_note = note,
        hu_approved_at = qe_iso q now\<rparr> r) t)"
  using assms row_undecided_iff [OF assms(2)]
  by (simp add: update_decision_def repo_get_def update_human_decision_def undecided_def)

definition table_wf :: "decision_table \<Rightarrow> bool" where
  "table_wf t \<longleftrightarrow> wf_dict t \<and> (\<forall>(k, r) \<in> set t. dr_decision_id r = k)"

definition expired_row :: "queue_env \<Rightarrow> time \<Rightarrow> decision_row \<Rightarrow> decision_row" where
  "expired_row q now r = set_human \<lparr>hu_outcome = ''rejected'', hu_operator = ''system'',
     hu_note = expiry_note, hu_approved_at = qe_iso q now\<rparr> r"

lemma expired_row_idem [simp]: "expired_row q now (expired_row q now r) = expired_row q now r"
  by (simp add: expired_row_def set_human_def)

lemma expire_loop_rows:
  assumes "distinct (List.map de_decision_id ds)"
    and "\<And>d. d \<in> set ds \<Longrightarrow> \<exists>r. map_of t (de_decision_id d) = Some r
           \<and> row_to_decision (qe_fromiso q) r = Inr d \<and> dr_human_decision r = None"
  shows "fst (expire_loop q now ds t) = Inr () \<and>
     map_of (snd (expire_loop q now ds t)) i =
       (if \<exists>d \<in> set ds. de_decision_id d = i \<and> due now d
        then map_option (expired_row q now) (map_of t i) else map_of t i)"
  using assms
proof (induction ds arbitrary: t)
  case Nil
  then show ?case by simp
next
  case (Cons d ds)
  from Cons.prems(2) [of d] obtain r where r: "map_of t (de_decision_id d) = Some r"
    "row_to_decision (qe_fromiso q) r = Inr d" "dr_human_decision r = None" by auto
  have ids: "de_decision_id d \<notin> de_decision_id ` set ds" using Cons.prems(1) by simp
  show ?case
  proof (cases "due now d")
    case True
    let ?t = "dict_put (de_decision_id d) (expired_row q now r) t"
    obtain d' where "update_decision q now (de_decision_id d) Rejected
        ''system'' expiry_note t t = (Inr (Some d'), ?t)"
      using update_pending [OF r, of now Rejected "''system''" expiry_note] by (auto simp: expired_row_def)
    moreover have "fst (expire_loop q now ds ?t) = Inr () \<and> map_of (snd (expire_loop q now ds ?t)) i =
       (if \<exists>d \<in> set ds. de_decision_id d = i \<and> due now d
        then map_option (expired_row q now) (map_of ?t i) else map_of ?t i)"
    proof (rule Cons.IH)
      fix e assume e: "e \<in> set ds"
      with ids have "de_decision_id e \<noteq> de_decision_id d" by (metis imageI)
      with Cons.prems(2) [of e] e show "\<exists>r. map_of ?t (de_decision_id e) = Some r
           \<and> row_to_decision (qe_fromiso q) r = Inr e \<and> dr_human_decision r = None" by simp
    qed (use Cons.prems in simp)
    ultimately show ?thesis using True r ids by auto
  next
    case False
    with Cons.IH [of t] Cons.prems show ?thesis by auto
  qed
qed

lemma decisions_of_mem:
  "decisions_of fi rs = Inr ds \<Longrightarrow> d \<in> set ds \<Longrightarrow> \<exists>r \<in> set rs. row_to_decision fi r = Inr d"
  by (induction rs arbitrary: ds) auto

lemma decisions_of_mem':
  "decisions_of fi rs = Inr ds \<Longrightarrow> r \<in> set rs \<Longrightarrow> \<exists>d \<in> set ds. row_to_decision fi r = Inr d"
  by (induction rs arbitrary: ds) auto

lemma decisions_of_ids:
  "decisions_of fi rs = Inr ds \<Longrightarrow> List.map de_decision_id ds = List.map dr_decision_id rs"
  by (induction rs arbitrary: ds) (auto dest: row_to_decision_id)

lemma table_wf_lookup: "table_wf t \<Longrightarrow> r \<in> snd ` set t \<Longrightarrow> map_of t (dr_decision_id r) = Some r"
  by (auto simp: table_wf_def wf_dict_def)

lemma table_wf_ids: "table_wf t \<Longrightarrow> distinct (List.map dr_decision_id (filter P (List.map snd t)))"
proof -
  assume "table_wf t"
  then have "List.map dr_decision_id (List.map snd t) = List.map fst t" "distinct (List.map fst t)"
    by (auto simp: table_wf_def wf_dict_def)
  then show ?thesis by (metis distinct_map_filter)
qed

section \<open>Properties\<close>

text \<open>C18: an approval or a rejection that was recorded is final, however the calls interleave: once an
  approval or a rejection of a decision has succeeded, no later approval, even one that read the row
  before, succeeds or sends a command.\<close>

theorem decided_is_final:
  assumes "update_decision q now i oc op note t_read t_write = (Inr (Some d), t1)"
    and "t2 = fold (\<lambda>(v, k) x. snd (update_human_decision v k x)) ops t1"
  shows "\<not> (\<exists>d'. fst (approve q now' i op' note' t_stale (t2, s)) = Inr (Some d'))
    \<and> snd (approve q now' i op' note' t_stale (t2, s)) = (t2, s)"
proof -
  from assms(1) obtain u where u: "update_human_decision u i t_write = (True, t1)"
    unfolding update_decision_cases by blast
  then obtain r where r: "map_of t1 i = Some (set_human u r)"
    using dec.cas_True_iff [of u i t_write] dec.cas_hit [of t_write i _ u] by auto
  then have "map_of t2 i = Some (set_human u r)"
    unfolding assms(2) by (rule dec.final_row) simp
  then have miss: "update_human_decision v i t2 = (False, t2)" for v
    by (intro dec.cas_miss) auto
  show ?thesis
    by (auto simp: approve_def update_decision_def miss split: sum.splits option.splits if_splits)
qed

definition sample_queue :: queue_env where
  "sample_queue = \<lparr>qe_iso = unary_iso, qe_fromiso = unary_time, qe_alert = \<lambda>_. Inr (Some sample_alert),
     qe_exec = sample_env\<rparr>"

definition pending_decision :: decision where
  "pending_decision = (sample_decision ''p'' ''h'')\<lparr>de_requires_human := True, de_timeout_at := Some 5,
     de_trigger_alert_id := Some ''a1''\<rparr>"

definition pending_table :: decision_table where
  "pending_table = [(''d1'', decision_to_row unary_iso pending_decision)]"

lemma pending_row: "row_to_decision unary_time (decision_to_row unary_iso pending_decision) = Inr pending_decision"
  by (subst row_roundtrip) (simp_all add: pending_decision_def sample_decision_def)

lemma pending_undecided: "dr_human_decision (decision_to_row unary_iso pending_decision) = None"
  by (simp add: decision_to_row_def pending_decision_def sample_decision_def)

lemma pending_update:
  "\<exists>d t1. update_decision sample_queue now ''d1'' oc op note pending_table pending_table = (Inr (Some d), t1)"
  using update_pending [of pending_table "''d1''" _ sample_queue pending_decision now oc op "note"]
    pending_row pending_undecided
  by (fastforce simp: pending_table_def sample_queue_def)

theorem decided_is_final_witness:
  "\<exists>d t1. update_decision sample_queue 3 ''d1'' Rejected ''op'' [] pending_table pending_table = (Inr (Some d), t1)
     \<and> snd (approve sample_queue 4 ''d1'' ''op2'' [] pending_table (t1, idle_executor)) = (t1, idle_executor)"
proof -
  obtain d t1 where u: "update_decision sample_queue 3 ''d1'' Rejected ''op'' [] pending_table pending_table
      = (Inr (Some d), t1)"
    using pending_update by blast
  with decided_is_final [OF u, of t1 "[]"] show ?thesis by auto
qed

text \<open>The timeout sweep rejects exactly the pending decisions whose deadline has passed, in the name
  of the system, and leaves every other row alone; it never fails once the pending rows are read.\<close>

theorem sweep_expires_due:
  assumes "table_wf t" and "get_pending (qe_fromiso q) t = Inr ds"
  shows "fst (expire_timeout q now t) = Inr ()
    \<and> map_of (snd (expire_timeout q now t)) i =
        (case map_of t i of None \<Rightarrow> None
         | Some r \<Rightarrow> Some (if dr_requires_human r \<and> dr_human_decision r = None
               \<and> (\<exists>d. row_to_decision (qe_fromiso q) r = Inr d \<and> due now d)
             then expired_row q now r else r))"
proof -
  let ?rs = "filter (\<lambda>r. dr_requires_human r \<and> dr_human_decision r = None) (List.map snd t)"
  have ds: "decisions_of (qe_fromiso q) ?rs = Inr ds"
    using assms(2) by (simp add: get_pending_def)
  have rows: "\<exists>r. map_of t (de_decision_id d) = Some r \<and> row_to_decision (qe_fromiso q) r = Inr d
      \<and> dr_human_decision r = None" if "d \<in> set ds" for d
    using decisions_of_mem [OF ds that] table_wf_lookup [OF assms(1)] row_to_decision_id
    by (fastforce simp: image_iff)
  have "distinct (List.map de_decision_id ds)"
    unfolding decisions_of_ids [OF ds] by (rule table_wf_ids [OF assms(1)])
  note loop = expire_loop_rows [OF this rows, where now = now and i = i]
  have "(\<exists>d \<in> set ds. de_decision_id d = i \<and> due now d) \<longleftrightarrow>
      dr_requires_human r \<and> dr_human_decision r = None
      \<and> (\<exists>d. row_to_decision (qe_fromiso q) r = Inr d \<and> due now d)"
    if r: "map_of t i = Some r" for r
  proof
    assume "\<exists>d \<in> set ds. de_decision_id d = i \<and> due now d"
    then obtain d where d: "d \<in> set ds" "de_decision_id d = i" "due now d" by blast
    then obtain r' where "r' \<in> set ?rs" "row_to_decision (qe_fromiso q) r' = Inr d"
      using decisions_of_mem [OF ds] by blast
    moreover from this have "map_of t i = Some r'"
      using table_wf_lookup [OF assms(1), of r'] row_to_decision_id d(2) by fastforce
    ultimately show "dr_requires_human r \<and> dr_human_decision r = None
      \<and> (\<exists>d. row_to_decision (qe_fromiso q) r = Inr d \<and> due now d)"
      using r d(3) by auto
  next
    assume *: "dr_requires_human r \<and> dr_human_decision r = None
      \<and> (\<exists>d. row_to_decision (qe_fromiso q) r = Inr d \<and> due now d)"
    have mem: "(i, r) \<in> set t" using r by (rule map_of_SomeD)
    with * have "r \<in> set ?rs" by force
    from decisions_of_mem' [OF ds this] * obtain d where
      "d \<in> set ds" "row_to_decision (qe_fromiso q) r = Inr d" "due now d" by auto
    moreover have "dr_decision_id r = i" using mem assms(1) by (auto simp: table_wf_def)
    ultimately show "\<exists>d \<in> set ds. de_decision_id d = i \<and> due now d"
      using row_to_decision_id by blast
  qed
  then show ?thesis
    using loop assms(2) by (auto simp: expire_timeout_def split: option.splits)
qed

theorem sweep_expires_due_witness:
  "map_of (snd (expire_timeout sample_queue 6 pending_table)) ''d1''
     = Some (expired_row sample_queue 6 (decision_to_row unary_iso pending_decision))"
proof -
  have "get_pending unary_time pending_table = Inr [pending_decision]"
    using pending_row pending_undecided
    by (simp add: get_pending_def pending_table_def)
      (simp add: decision_to_row_def pending_decision_def)
  moreover have "table_wf pending_table"
    by (simp add: table_wf_def pending_table_def wf_dict_def decision_to_row_def pending_decision_def sample_decision_def)
  moreover have "dr_requires_human (decision_to_row unary_iso pending_decision)" "due 6 pending_decision"
    by (simp_all add: decision_to_row_def pending_decision_def due_def)
  ultimately show ?thesis
    using sweep_expires_due [of pending_table sample_queue "[pending_decision]" 6 "''d1''"] pending_row pending_undecided
    by (simp add: sample_queue_def pending_table_def)
qed

text \<open>The integrity endpoint raises a false alarm on every intact journal of two or more
  decisions: it verifies the newest-first page of the table from the genesis hash, so the first
  decision it checks is reported broken.\<close>

theorem verify_endpoint_false_alarm:
  assumes "sorted_wrt (\<lambda>r s. dr_created_at r < dr_created_at s) (List.map snd t)"
    and "decisions_of (qe_fromiso q) (List.map snd t) = Inr ds"
    and "verify_chain H enc (qe_iso q) ds None = []"
    and "2 \<le> length t" and "length t \<le> limit" and "de_prev_journal_hash (last ds) \<noteq> genesis_hash"
  shows "\<exists>rep. verify_journal_integrity H enc q limit t = Inr rep \<and> \<not> vr_intact rep \<and> 0 \<in> set (vr_broken rep)"
proof -
  have "sort_desc dr_created_at (List.map snd t) = rev (List.map snd t)"
    by (rule sort_desc_ascending [OF assms(1)])
  moreover have "ds \<noteq> []" using length_decisions_of [OF assms(2)] assms(4) by auto
  then obtain xs d where d: "ds = xs @ [d]" by (cases ds rule: rev_cases) auto
  then have "0 \<in> set (verify_chain H enc (qe_iso q) (rev ds) None)"
    using assms(6) by (simp add: verify_chain_def set_insort_key)
  moreover have "(\<lambda>r. decision_matches \<lparr>df_entity_id = None, df_decision_type = None, df_requires_human = None\<rparr> r) = (\<lambda>_. True)"
    by (simp add: decision_matches_def fun_eq_iff)
  ultimately show ?thesis
    using decisions_of_rev [OF assms(2)] assms(5)
    by (auto simp: verify_journal_integrity_def list_decisions_def page_of_def Let_def rev_map)
qed

definition two_decisions :: "decision list" where
  "two_decisions = [sample_decision genesis_hash ''h1'',
     (sample_decision ''h1'' ''h2'')\<lparr>de_decision_id := ''d2'', de_created_at := 1\<rparr>]"

theorem verify_endpoint_false_alarm_witness:
  "\<exists>H rep. verify_chain H (\<lambda>_. ''x'') unary_iso two_decisions None = []
     \<and> verify_journal_integrity H (\<lambda>_. ''x'') sample_queue 1000
         (List.map (\<lambda>d. (de_decision_id d, decision_to_row unary_iso d)) two_decisions) = Inr rep
     \<and> \<not> vr_intact rep"
proof -
  let ?H = "\<lambda>s. if s = genesis_hash @ ''x'' then ''h1'' else ''h2''"
  let ?t = "List.map (\<lambda>d. (de_decision_id d, decision_to_row unary_iso d)) two_decisions"
  have ne: "''h1x'' \<noteq> genesis_hash @ ''x''"
  proof
    assume "''h1x'' = genesis_hash @ ''x''"
    from arg_cong [OF this, of length] show False by (simp add: genesis_hash_def)
  qed
  have v: "verify_chain ?H (\<lambda>_. ''x'') unary_iso two_decisions None = []"
    using ne by (simp add: verify_chain_def two_decisions_def entry_digest_def sample_decision_def)
  have rows: "List.map snd ?t = List.map (decision_to_row unary_iso) two_decisions" by simp
  have "decisions_of unary_time (List.map snd ?t) = Inr two_decisions"
    unfolding rows two_decisions_def
    by (simp add: row_roundtrip) (simp add: sample_decision_def row_roundtrip)
  moreover have "sorted_wrt (\<lambda>r s. dr_created_at r < dr_created_at s) (List.map snd ?t)"
    by (simp add: two_decisions_def decision_to_row_def unary_iso_def sample_decision_def)
  moreover have "de_prev_journal_hash (last two_decisions) \<noteq> genesis_hash"
  proof
    assume "de_prev_journal_hash (last two_decisions) = genesis_hash"
    from arg_cong [OF this, of length] show False
      by (simp add: genesis_hash_def two_decisions_def sample_decision_def)
  qed
  ultimately have "\<exists>rep. verify_journal_integrity ?H (\<lambda>_. ''x'') sample_queue 1000 ?t = Inr rep \<and> \<not> vr_intact rep \<and> 0 \<in> set (vr_broken rep)"
    using v by (intro verify_endpoint_false_alarm [where ds = two_decisions])
      (simp_all add: sample_queue_def two_decisions_def)
  with v show ?thesis by blast
qed

end
