(* ===== verification/Decision_Worker.thy ===== *)
theory Decision_Worker
  imports Human_Queue
begin

text \<open>
  \<open>workers/decision_worker.py\<close>: one message of \<open>analysis:correlated\<close> through loading, deciding,
  persisting (with the journal rollback), broadcasting and executing. What the repositories, the
  clock, the leader election and the database answer during one message is the record
  \<open>message_env\<close>; the worker's own state, its journal, the table it writes and the bus are the record
  \<open>worker_state\<close>. The result \<open>Inl\<close> is an exception that leaves the handler and ends the worker.
\<close>

record worker_cfg =
  wc_hash :: "string \<Rightarrow> string"
  wc_enc :: "json \<Rightarrow> string"
  wc_repr :: "pyfloat \<Rightarrow> string"
  wc_engine :: engine_cfg
  wc_exec :: exec_env
  wc_parse_uuid :: "string \<Rightarrow> uuid option"
  wc_str :: "json \<Rightarrow> string"
  wc_has_ws :: bool

record message_env =
  me_incident :: "uuid \<Rightarrow> incident option result"
  me_alert :: "uuid \<Rightarrow> alert option result"
  me_event :: "(uuid \<Rightarrow> universal_event option result) option"
  me_leader :: bool
  me_new_id :: uuid
  me_now :: time
  me_db_ok :: bool
  me_ws_ok :: bool

record worker_state =
  wk_journal :: journal
  wk_table :: decision_table
  wk_exec :: exec_state
  wk_ws :: "json list"
  wk_processed :: nat
  wk_decisions :: nat

fun is_obj :: "json \<Rightarrow> bool" where
  "is_obj (JObj kvs) = True"
| "is_obj _ = False"

definition load_alert :: "worker_cfg \<Rightarrow> message_env \<Rightarrow> json \<Rightarrow> alert option" where
  "load_alert c m payload =
     (let raw = (case jfield payload ''trigger_alert_id'' of Some v \<Rightarrow> v | None \<Rightarrow> JNull);
          s = (if raw = JNull then [] else py_str (wc_str c) raw)
      in if s = [] then None
         else case wc_parse_uuid c s of
                None \<Rightarrow> None
              | Some i \<Rightarrow> (case me_alert m i of Inl e \<Rightarrow> None | Inr al \<Rightarrow> al))"

definition load_event :: "message_env \<Rightarrow> alert option \<Rightarrow> universal_event option" where
  "load_event m al =
     (case (me_event m, al) of
        (Some get, Some a) \<Rightarrow> (case get (al_trigger_event_id a) of Inl e \<Rightarrow> None | Inr ev \<Rightarrow> ev)
      | _ \<Rightarrow> None)"

text \<open>The WebSocket payload. A decision has neither a \<open>hostname\<close> nor a \<open>risk_score\<close> attribute, so the
  \<open>getattr\<close> defaults always apply.\<close>

definition ws_message :: "worker_cfg \<Rightarrow> decision \<Rightarrow> json" where
  "ws_message c d =
     JObj [(''decision_id'', JStr (de_decision_id d)),
           (''decision_type'', JStr (decision_type_str (de_decision_type d))),
           (''risk_score'', JNull),
           (''hostname'', JStr ''unknown''),
           (''created_at'', JStr (xe_iso (wc_exec c) (de_created_at d)))]"

definition persist ::
  "worker_cfg \<Rightarrow> message_env \<Rightarrow> decision \<Rightarrow> worker_state \<Rightarrow> unit result \<times> worker_state" where
  "persist c m d s =
     (case repo_create (xe_iso (wc_exec c)) (me_db_ok m) d (wk_table s) of
        (Inl e, t') \<Rightarrow>
          (case rollback (de_prev_journal_hash d) (wk_journal s) of
             Inl e' \<Rightarrow> (Inl e', s)
           | Inr j' \<Rightarrow> (Inr (), s\<lparr>wk_journal := j'\<rparr>))
      | (Inr u, t') \<Rightarrow>
          (let s1 = s\<lparr>wk_table := t', wk_decisions := Suc (wk_decisions s)\<rparr>;
               s2 = (if wc_has_ws c \<and> me_ws_ok m then s1\<lparr>wk_ws := wk_ws s1 @ [ws_message c d]\<rparr> else s1)
           in (Inr (), s2\<lparr>wk_exec := snd (execute (wc_exec c) d None (wk_exec s2))\<rparr>)))"

definition handle_incident ::
  "worker_cfg \<Rightarrow> message_env \<Rightarrow> json \<Rightarrow> incident \<Rightarrow> worker_state \<Rightarrow> unit result \<times> worker_state" where
  "handle_incident c m payload inc s =
     (let al = load_alert c m payload;
          ev = load_event m al;
          s1 = s\<lparr>wk_processed := Suc (wk_processed s)\<rparr>;
          (r, j') = decide (wc_hash c) (wc_enc c) (xe_iso (wc_exec c)) (wc_repr c) (wc_engine c)
                      (me_leader m) (me_new_id m) (me_now m) inc al ev (wk_journal s1);
          s2 = s1\<lparr>wk_journal := j'\<rparr>
      in case r of Inl e \<Rightarrow> (Inr (), s2) | Inr d \<Rightarrow> persist c m d s2)"

definition process :: "worker_cfg \<Rightarrow> message_env \<Rightarrow> json \<Rightarrow> worker_state \<Rightarrow> unit result \<times> worker_state" where
  "process c m payload s =
     (if \<not> is_obj payload then (Inl AttributeError, s)
      else
        let idstr = (case jfield payload ''incident_id'' of None \<Rightarrow> [] | Some v \<Rightarrow> py_str (wc_str c) v)
        in if idstr = [] then (Inr (), s)
        else case wc_parse_uuid c idstr of
          None \<Rightarrow> (Inr (), s)
        | Some i \<Rightarrow>
          (case me_incident m i of
             Inl e \<Rightarrow> (Inr (), s)
           | Inr None \<Rightarrow> (Inr (), s)
           | Inr (Some inc) \<Rightarrow> handle_incident c m payload inc s))"

section \<open>The chain of the stored rows\<close>

text \<open>The hashed fields, read from the columns of a row: what an auditor of the table recomputes.\<close>

definition row_fields :: "decision_row \<Rightarrow> (string, json) pydict" where
  "row_fields r =
     [(''decision_id'', JStr (dr_decision_id r)),
      (''created_at'', JStr (dr_created_at r)),
      (''decision_type'', JStr (dr_decision_type r)),
      (''rule_score'', JNum (dr_rule_score r)),
      (''ml_score'', JNum (dr_ml_score r)),
      (''ti_score'', JNum (dr_ti_score r)),
      (''correlation_depth'', JInt (dr_correlation_depth r)),
      (''final_score'', JNum (dr_final_score r)),
      (''entity_id'', JStr (dr_entity_id r)),
      (''trigger_alert_id'', jopt JStr (dr_trigger_alert_id r)),
      (''incident_chain_id'', jopt JStr (dr_incident_chain_id r)),
      (''policy_version'', JStr (dr_policy_version r)),
      (''explanation'', JStr (dr_explanation r))]"

lemma row_fields_of [simp]: "row_fields (decision_to_row isot d) = decision_to_fields isot d"
  by (simp add: row_fields_def decision_to_row_def decision_to_fields_def)

lemma row_hashes:
  "dr_prev_journal_hash (decision_to_row isot d) = de_prev_journal_hash d"
  "dr_journal_hash (decision_to_row isot d) = de_journal_hash d"
  by (simp_all add: decision_to_row_def)

fun rows_valid :: "(string \<Rightarrow> string) \<Rightarrow> (json \<Rightarrow> string) \<Rightarrow> string \<Rightarrow> decision_row list \<Rightarrow> bool" where
  "rows_valid H enc p [] = True"
| "rows_valid H enc p (r # rs) \<longleftrightarrow> dr_prev_journal_hash r = p
     \<and> dr_journal_hash r = entry_digest H enc p (row_fields r) \<and> rows_valid H enc (dr_journal_hash r) rs"

interpretation rc: linked_chain "entry_digest H enc" row_fields dr_journal_hash "rows_valid H enc"
    dr_prev_journal_hash
  for H enc
  by unfold_locales auto

section \<open>The invariant of the worker\<close>

text \<open>
  With a digest of 64 hex digits (BLAKE3's), the table is one verified chain from genesis and the
  in-memory journal stands at its end; every stored decision was counted.
\<close>

definition worker_inv :: "worker_cfg \<Rightarrow> worker_state \<Rightarrow> bool" where
  "worker_inv c s \<longleftrightarrow>
     ((\<forall>x. hash_re (wc_hash c x)) \<longrightarrow>
        rows_valid (wc_hash c) (wc_enc c) genesis_hash (List.map snd (wk_table s))
        \<and> jr_last_hash (wk_journal s) = rc.tip genesis_hash (List.map snd (wk_table s))
        \<and> hash_re (jr_last_hash (wk_journal s)))
     \<and> wf_dict (wk_table s)
     \<and> wk_decisions s = length (wk_table s) \<and> wk_decisions s \<le> wk_processed s"

definition idle_worker :: worker_state where
  "idle_worker = \<lparr>wk_journal = new_journal genesis_hash, wk_table = [], wk_exec = idle_executor,
     wk_ws = [], wk_processed = 0, wk_decisions = 0\<rparr>"

definition worker_step :: "worker_cfg \<Rightarrow> message_env \<times> json \<Rightarrow> worker_state \<Rightarrow> worker_state" where
  "worker_step c mp s = snd (process c (fst mp) (snd mp) s)"

lemma decide_follower: "snd (decide H enc isot repr_f c False i now inc al ev j) = j"
  by (auto simp: decide_def split: sum.splits)

lemma decide_Inr_leader: "decide H enc isot repr_f c leader i now inc al ev j = (Inr d, j') \<Longrightarrow> leader"
  by (auto simp: decide_def make_decision_def split: sum.splits if_splits)

lemma decide_Inl_keeps:
  assumes "decide H enc isot repr_f c leader i now inc al ev j = (Inl e, j')"
  shows "j' = j"
  using assms decide_Inl [of H enc isot repr_f c i now inc al ev j e j']
    decide_follower [of H enc isot repr_f c i now inc al ev j]
  by (cases leader) auto

text \<open>Persisting a decision that links to the journal's old end keeps the invariant.\<close>

lemma persist_inv:
  assumes inv: "worker_inv c s" and d: "de_prev_journal_hash d = jr_last_hash (wk_journal s)"
    "de_journal_hash d = entry_digest (wc_hash c) (wc_enc c) (jr_last_hash (wk_journal s))
       (decision_to_fields (xe_iso (wc_exec c)) d)"
    and j: "jr_last_hash j' = de_journal_hash d" "jr_last_hash (wk_journal s) \<in> set (jr_history j')"
  shows "worker_inv c (snd (persist c m d (s\<lparr>wk_processed := Suc (wk_processed s), wk_journal := j'\<rparr>)))"
    and "(\<forall>x. hash_re (wc_hash c x)) \<Longrightarrow>
      fst (persist c m d (s\<lparr>wk_processed := Suc (wk_processed s), wk_journal := j'\<rparr>)) = Inr ()"
proof -
  let ?s = "s\<lparr>wk_processed := Suc (wk_processed s), wk_journal := j'\<rparr>"
  have "worker_inv c (snd (persist c m d ?s)) \<and>
      ((\<forall>x. hash_re (wc_hash c x)) \<longrightarrow> fst (persist c m d ?s) = Inr ())"
  proof (cases "me_db_ok m \<and> \<not> dict_has (wk_table s) (de_decision_id d)")
    case True
    then show ?thesis
      using inv d j
      by (auto simp: persist_def repo_create_def Let_def worker_inv_def rc.valid_snoc rc.tip_snoc
          row_hashes dict_has_iff entry_digest_def intro: wf_dict_snoc)
  next
    case False
    then have "repo_create (xe_iso (wc_exec c)) (me_db_ok m) d (wk_table s) = (Inl (OtherError ''IntegrityError''), wk_table s)"
      by (auto simp: repo_create_def)
    then show ?thesis
      using inv d(1) j(2) rollback_Inr [of "jr_last_hash (wk_journal s)" j']
      by (auto simp: persist_def worker_inv_def split: sum.splits)
  qed
  then show "worker_inv c (snd (persist c m d ?s))"
    and "(\<forall>x. hash_re (wc_hash c x)) \<Longrightarrow> fst (persist c m d ?s) = Inr ()" by auto
qed

lemma worker_inv_processed:
  "worker_inv c s \<Longrightarrow> worker_inv c (s\<lparr>wk_processed := Suc (wk_processed s)\<rparr>)"
  by (auto simp: worker_inv_def)

lemma handle_incident_inv:
  assumes inv: "worker_inv c s"
  shows "worker_inv c (snd (handle_incident c m p inc s))
    \<and> ((\<forall>x. hash_re (wc_hash c x)) \<longrightarrow> fst (handle_incident c m p inc s) = Inr ())"
proof -
  obtain r j' where dec: "decide (wc_hash c) (wc_enc c) (xe_iso (wc_exec c)) (wc_repr c) (wc_engine c)
      (me_leader m) (me_new_id m) (me_now m) inc (load_alert c m p) (load_event m (load_alert c m p))
      (wk_journal s) = (r, j')" by (metis surj_pair)
  show ?thesis
  proof (cases r)
    case (Inl e)
    with decide_Inl_keeps dec have "j' = wk_journal s" by blast
    with Inl dec worker_inv_processed [OF inv] show ?thesis
      by (simp add: handle_incident_def Let_def)
  next
    case (Inr d)
    with dec decide_Inr_leader have "me_leader m" by blast
    note D = decide_Inr(1-4) [OF dec [unfolded Inr, unfolded \<open>me_leader m\<close> [THEN eqTrueI]]]
    from persist_inv [OF inv D] Inr dec show ?thesis
      by (simp add: handle_incident_def Let_def)
  qed
qed

lemma process_inv:
  assumes "worker_inv c s"
  shows "worker_inv c (snd (process c m p s))
    \<and> ((\<forall>x. hash_re (wc_hash c x)) \<and> is_obj p \<longrightarrow> fst (process c m p s) = Inr ())"
  using assms handle_incident_inv [OF assms]
  by (auto simp: process_def Let_def split: option.splits sum.splits)

lemma idle_worker_inv: "worker_inv c idle_worker"
  by (simp add: worker_inv_def idle_worker_def new_journal_def wf_dict_def)

interpretation dw: machine "worker_step c" "\<lambda>s. s = idle_worker" "worker_inv c"
  for c
  by unfold_locales (auto simp: worker_step_def idle_worker_inv process_inv)

section \<open>Properties\<close>

text \<open>C1: whatever messages arrive and whichever loads, scores, leader checks and database writes fail,
  the decisions table of the worker stays one verified hash chain from genesis, the in-memory journal
  stands at its end (a failed write is rolled back), and every stored decision was counted. BLAKE3 is
  any function to 64 hexadecimal digits.\<close>

theorem worker_journal_consistent:
  assumes "\<forall>x. hash_re (wc_hash c x)"
  shows "let s = run (worker_step c) idle_worker msgs
    in rows_valid (wc_hash c) (wc_enc c) genesis_hash (List.map snd (wk_table s))
      \<and> jr_last_hash (wk_journal s) = (if wk_table s = [] then genesis_hash
           else dr_journal_hash (snd (last (wk_table s))))
      \<and> wf_dict (wk_table s) \<and> wk_decisions s = length (wk_table s) \<and> wk_decisions s \<le> wk_processed s"
proof -
  let ?s = "run (worker_step c) idle_worker msgs"
  have inv: "worker_inv c ?s" by (rule dw.reachable_inv) simp
  have "rc.tip genesis_hash (List.map snd (wk_table ?s)) = (if wk_table ?s = [] then genesis_hash
      else dr_journal_hash (snd (last (wk_table ?s))))"
    by (cases "wk_table ?s" rule: rev_cases) (auto simp: rc.tip_snoc)
  with inv assms show ?thesis by (simp add: worker_inv_def Let_def)
qed

definition sample_worker_cfg :: worker_cfg where
  "sample_worker_cfg = \<lparr>wc_hash = \<lambda>_. genesis_hash, wc_enc = \<lambda>_. [], wc_repr = \<lambda>_. [],
     wc_engine = sample_cfg, wc_exec = sample_env, wc_parse_uuid = Some, wc_str = \<lambda>_. [], wc_has_ws = True\<rparr>"

definition sample_message :: "uuid \<Rightarrow> bool \<Rightarrow> message_env \<times> json" where
  "sample_message i db_ok = (\<lparr>me_incident = \<lambda>_. Inr (Some sample_incident), me_alert = \<lambda>_. Inr (Some sample_alert),
     me_event = None, me_leader = True, me_new_id = i, me_now = 7, me_db_ok = db_ok, me_ws_ok = True\<rparr>,
     JObj [(''incident_id'', JStr ''i1''), (''trigger_alert_id'', JStr ''a1'')])"

theorem worker_journal_consistent_witness:
  "let s = run (worker_step sample_worker_cfg) idle_worker
             [sample_message ''d1'' True, sample_message ''d2'' False, sample_message ''d3'' True]
   in rows_valid (wc_hash sample_worker_cfg) (wc_enc sample_worker_cfg) genesis_hash (List.map snd (wk_table s))
     \<and> wk_decisions s = length (wk_table s)"
  using worker_journal_consistent [of sample_worker_cfg
      "[sample_message ''d1'' True, sample_message ''d2'' False, sample_message ''d3'' True]"]
  by (simp add: sample_worker_cfg_def Let_def)

text \<open>A rollback never fails: no message that is a JSON object, from any state the worker reaches,
  ends the worker with an exception. Any other JSON value does.\<close>

theorem worker_survives_objects:
  assumes "\<forall>x. hash_re (wc_hash c x)"
  shows "fst (process c m p (run (worker_step c) idle_worker msgs)) =
    (if is_obj p then Inr () else Inl AttributeError)"
proof -
  have "worker_inv c (run (worker_step c) idle_worker msgs)" by (rule dw.reachable_inv) simp
  with process_inv [of c _ m p] assms show ?thesis
    by (cases "is_obj p") (simp_all add: process_def [of c m p])
qed

theorem worker_survives_objects_witness:
  "fst (process sample_worker_cfg (fst (sample_message ''d1'' False)) (snd (sample_message ''d1'' False))
     (run (worker_step sample_worker_cfg) idle_worker [sample_message ''d1'' True])) = Inr ()"
  using worker_survives_objects [of sample_worker_cfg "fst (sample_message ''d1'' False)"
      "snd (sample_message ''d1'' False)" "[sample_message ''d1'' True]"]
  by (simp add: sample_worker_cfg_def sample_message_def)

definition no_commands :: "worker_state \<Rightarrow> bool" where
  "no_commands s \<longleftrightarrow> (\<forall>m \<in> set (sent (ex_bus (wk_exec s))). jfield (snd m) ''command_type'' = None)"

lemma execute_without_alert:
  assumes "m \<in> set (sent (ex_bus (snd (execute env d None s))))"
  shows "m \<in> set (sent (ex_bus s)) \<or> jfield (snd m) ''command_type'' = None"
  using emits_new [OF execute_legit [of env d None s, unfolded ex_emits_def] assms]
  by (auto simp: legit_command_def extract_dst_ip_def)

lemma process_no_commands: "no_commands s \<Longrightarrow> no_commands (snd (process c m p s))"
  by (auto simp: process_def handle_incident_def persist_def no_commands_def Let_def
      split: option.splits sum.splits prod.splits dest!: execute_without_alert)

interpretation dwc: machine "worker_step c" "\<lambda>s. s = idle_worker" no_commands
  for c
proof unfold_locales
  show "no_commands s" if "s = idle_worker" for s
    using that by (simp add: no_commands_def idle_worker_def idle_executor_def empty_bus_def)
  show "no_commands (worker_step c e s)" if "no_commands s" for e s
    using process_no_commands [OF that] by (simp add: worker_step_def)
qed

text \<open>The pipeline never blocks an address by itself: the worker executes every decision without
  its alert, so no command message is ever put on the bus, whatever isolation is decided.\<close>

theorem worker_never_sends_commands:
  "filter (\<lambda>m. jfield (snd m) ''command_type'' \<noteq> None)
     (sent (ex_bus (wk_exec (run (worker_step c) idle_worker msgs)))) = []"
  using dwc.reachable_inv [of idle_worker c msgs] by (auto simp: no_commands_def filter_empty_conv)

end
