(* ===== verification/Linkers.thy ===== *)
theory Linkers
  imports Schema
begin

text \<open>
  \<open>correlation/linkers\<close>: the four strategies that score how well an alert fits an open incident. The
  current time is an argument; sets of MITRE techniques are the sets of the lists' elements.
\<close>

section \<open>String tests\<close>

text \<open>\<open>f" {w} " in f" {title} "\<close>.\<close>

definition has_word :: "string \<Rightarrow> string \<Rightarrow> bool" where
  "has_word w title = contains ('' '' @ title @ '' '') ('' '' @ w @ '' '')"

text \<open>\<open>pathlib.Path(s).name\<close> on POSIX: the last component, ignoring empty and "." components.\<close>

fun split_slash :: "string \<Rightarrow> string \<Rightarrow> string list" where
  "split_slash acc [] = [rev acc]"
| "split_slash acc (c # cs) = (if c = CHR ''/'' then rev acc # split_slash [] cs else split_slash (c # acc) cs)"

definition path_name :: "string \<Rightarrow> string" where
  "path_name s = (case filter (\<lambda>p. p \<noteq> [] \<and> p \<noteq> ''.'') (split_slash [] s) of [] \<Rightarrow> [] | ps \<Rightarrow> last ps)"

section \<open>The linkers\<close>

datatype linker =
    SameHost int
  | Temporal int
  | PidLineage int
  | UserActivity int

fun linker_timeframe :: "linker \<Rightarrow> int" where
  "linker_timeframe (SameHost tf) = tf"
| "linker_timeframe (Temporal tf) = tf"
| "linker_timeframe (PidLineage tf) = tf"
| "linker_timeframe (UserActivity tf) = tf"

fun linker_name :: "linker \<Rightarrow> string" where
  "linker_name (SameHost _) = ''same_host_timeframe''"
| "linker_name (Temporal _) = ''temporal_proximity''"
| "linker_name (PidLineage _) = ''pid_lineage''"
| "linker_name (UserActivity _) = ''user_activity''"

definition overlap :: "string list \<Rightarrow> string list \<Rightarrow> pyfloat" where
  "overlap techs tactics = of_nat (card (set techs \<inter> set tactics)) / of_nat (card (set techs))"

definition same_host_score :: "int \<Rightarrow> time \<Rightarrow> alert \<Rightarrow> incident \<Rightarrow> pyfloat" where
  "same_host_score tf now al inc =
     (if severity_ord (al_severity al) < severity_ord Medium then 0
      else if al_hostname al \<noteq> in_hostname inc then 0
      else if in_updated_at inc < now - seconds tf then 0
      else if al_mitre_techniques al \<noteq> []
           then 1/2 + 1/2 * overlap (al_mitre_techniques al) (in_mitre_tactics inc)
           else 1/2)"

definition kill_chain_sequences :: "string list list" where
  "kill_chain_sequences =
     [[''T1003'', ''T1041'', ''T1048''], [''T1059'', ''T1053'', ''T1548''],
      [''T1046'', ''T1021'', ''T1570''], [''T1070'', ''T1071'', ''T1105'']]"

definition kill_chain_hit :: "string list \<Rightarrow> string list \<Rightarrow> string list \<Rightarrow> bool" where
  "kill_chain_hit techs tactics sq \<longleftrightarrow>
     2 \<le> card (set sq \<inter> (set techs \<union> set tactics)) \<and> set techs \<inter> set sq \<noteq> {}"

definition temporal_score :: "int \<Rightarrow> time \<Rightarrow> alert \<Rightarrow> incident \<Rightarrow> pyfloat" where
  "temporal_score tf now al inc =
     (if severity_ord (al_severity al) < severity_ord Medium then 0
      else if al_hostname al \<noteq> in_hostname inc then 0
      else if in_created_at inc < now - seconds tf then 0
      else
        let techs = al_mitre_techniques al; tactics = in_mitre_tactics inc;
            base = (if techs \<noteq> [] then min (55/100 + 30/100 * overlap techs tactics) (55/100 + 30/100)
                    else 55/100)
        in if list_ex (kill_chain_hit techs tactics) kill_chain_sequences
           then min 1 (base + 15/100) else base)"

definition pid_lineage_score :: "int \<Rightarrow> time \<Rightarrow> alert \<Rightarrow> incident \<Rightarrow> pyfloat" where
  "pid_lineage_score tf now al inc =
     (if al_hostname al \<noteq> in_hostname inc then 0
      else if in_created_at inc < now - seconds tf then 0
      else
        let base = (if al_entity_id al \<noteq> []
                      \<and> list_ex (\<lambda>e. has_word (al_entity_id al) (ie_title e) \<or> ie_title e = al_entity_id al)
                          (in_timeline inc)
                    then 6/10 else 0)
        in if base = 0 then 0
           else if al_mitre_techniques al \<noteq> []
           then min 1 (base + 3/10 * overlap (al_mitre_techniques al) (in_mitre_tactics inc))
           else base)"

definition privesc_names :: "string list" where
  "privesc_names = [''sudo'', ''su'', ''pkexec'', ''doas'', ''newgrp'', ''runuser'']"

definition user_activity_score :: "int \<Rightarrow> time \<Rightarrow> alert \<Rightarrow> incident \<Rightarrow> pyfloat" where
  "user_activity_score tf now al inc =
     (if al_hostname al \<noteq> in_hostname inc then 0
      else if in_created_at inc < now - seconds tf then 0
      else if al_process_name al = [] then 0
      else
        let proc = path_name (al_process_name al)
        in if length proc < 2 \<or> CHR '' '' \<in> set proc then 0
           else if \<not> list_ex (\<lambda>e. has_word proc (ie_title e) \<or> ie_title e = proc
                     \<or> starts_with (ie_title e) (proc @ '' '')) (in_timeline inc) then 0
           else
             let base = 1/2 + (if al_process_name al \<in> set privesc_names then 15/100 else 0)
             in if al_mitre_techniques al \<noteq> []
                then min 1 (base + 35/100 * overlap (al_mitre_techniques al) (in_mitre_tactics inc))
                else base)"

fun linker_score :: "linker \<Rightarrow> time \<Rightarrow> alert \<Rightarrow> incident \<Rightarrow> pyfloat" where
  "linker_score (SameHost tf) now al inc = same_host_score tf now al inc"
| "linker_score (Temporal tf) now al inc = temporal_score tf now al inc"
| "linker_score (PidLineage tf) now al inc = pid_lineage_score tf now al inc"
| "linker_score (UserActivity tf) now al inc = user_activity_score tf now al inc"

text \<open>\<open>max_severity\<close> is a method of \<open>SameHostLinker\<close> only.\<close>

definition max_severity :: "severity \<Rightarrow> severity \<Rightarrow> severity" where
  "max_severity current new = (if severity_ord new \<le> severity_ord current then current else new)"

fun linker_max_severity :: "linker \<Rightarrow> severity \<Rightarrow> severity \<Rightarrow> severity result" where
  "linker_max_severity (SameHost _) current new = Inr (max_severity current new)"
| "linker_max_severity _ current new = Inl AttributeError"

section \<open>Lemmas\<close>

lemma overlap_bounds: "techs \<noteq> [] \<Longrightarrow> 0 \<le> overlap techs tactics \<and> overlap techs tactics \<le> 1"
proof -
  assume "techs \<noteq> []"
  have "card (set techs \<inter> set tactics) \<le> card (set techs)" by (intro card_mono) auto
  with \<open>techs \<noteq> []\<close> show ?thesis by (simp add: overlap_def card_gt_0_iff)
qed

lemma max_severity_max: "max_severity a b = max a b"
  by (auto simp: max_severity_def max_def less_eq_severity_def)

lemma same_host_bounds: "0 \<le> same_host_score tf now al inc \<and> same_host_score tf now al inc \<le> 1"
  using overlap_bounds [of "al_mitre_techniques al" "in_mitre_tactics inc"]
  by (cases "al_mitre_techniques al = []") (auto simp: same_host_score_def min_def)

lemma temporal_bounds: "0 \<le> temporal_score tf now al inc \<and> temporal_score tf now al inc \<le> 1"
  using overlap_bounds [of "al_mitre_techniques al" "in_mitre_tactics inc"]
  by (cases "al_mitre_techniques al = []") (auto simp: temporal_score_def min_def Let_def)

lemma pid_lineage_bounds: "0 \<le> pid_lineage_score tf now al inc \<and> pid_lineage_score tf now al inc \<le> 1"
  using overlap_bounds [of "al_mitre_techniques al" "in_mitre_tactics inc"]
  by (cases "al_mitre_techniques al = []") (auto simp: pid_lineage_score_def min_def Let_def)

lemma user_activity_bounds: "0 \<le> user_activity_score tf now al inc \<and> user_activity_score tf now al inc \<le> 1"
  using overlap_bounds [of "al_mitre_techniques al" "in_mitre_tactics inc"]
  by (cases "al_mitre_techniques al = []") (auto simp: user_activity_score_def min_def Let_def)

lemma linker_bounds: "0 \<le> linker_score l now al inc \<and> linker_score l now al inc \<le> 1"
  using same_host_bounds temporal_bounds pid_lineage_bounds user_activity_bounds by (cases l) auto

text \<open>Within its window and on the same host the temporal linker beats the plain host linker's base.\<close>

lemma temporal_lower:
  assumes "severity_ord Medium \<le> severity_ord (al_severity al)" and "al_hostname al = in_hostname inc"
    and "now - seconds tf \<le> in_created_at inc"
  shows "55/100 \<le> temporal_score tf now al inc"
  using assms overlap_bounds [of "al_mitre_techniques al" "in_mitre_tactics inc"]
  by (cases "al_mitre_techniques al = []") (auto simp: temporal_score_def min_def Let_def)

end
