(* ===== verification/Incident_Repo.thy ===== *)
theory Incident_Repo
  imports Schema Machines
begin

text \<open>
  \<open>storage/repositories/incidents.py\<close>: the incidents table and the incident_alerts table, whose
  alert_id column is unique. Rows keep typed values (the ISO and JSON texts of the columns stand for
  them; UTC ISO texts order like the instants). A transaction that raises leaves both tables as they
  were.
\<close>

record incident_row =
  ir_incident_id :: uuid
  ir_created_at :: time
  ir_updated_at :: time
  ir_hostname :: string
  ir_severity :: severity
  ir_status :: incident_status
  ir_mitre_tactics :: "string list"
  ir_correlation_rule :: string
  ir_timeframe_seconds :: int
  ir_alert_count :: int
  ir_alert_ids :: "uuid list"

record incident_alert_row =
  ia_incident_id :: uuid
  ia_alert_id :: uuid
  ia_added_at :: time
  ia_severity :: severity
  ia_title :: string
  ia_hostname :: string
  ia_mitre_techniques :: "string list"

record incident_db =
  idb_incidents :: "(uuid, incident_row) pydict"
  idb_alerts :: "incident_alert_row list"

definition integrity_error :: exn where
  "integrity_error = OtherError ''IntegrityError''"

definition event_of_row :: "incident_alert_row \<Rightarrow> incident_event" where
  "event_of_row r = \<lparr>ie_alert_id = ia_alert_id r, ie_timestamp = ia_added_at r, ie_severity = ia_severity r,
     ie_title = ia_title r, ie_hostname = ia_hostname r, ie_mitre_techniques = ia_mitre_techniques r\<rparr>"

definition row_of_event :: "uuid \<Rightarrow> incident_event \<Rightarrow> incident_alert_row" where
  "row_of_event i e = \<lparr>ia_incident_id = i, ia_alert_id = ie_alert_id e, ia_added_at = ie_timestamp e,
     ia_severity = ie_severity e, ia_title = ie_title e, ia_hostname = ie_hostname e,
     ia_mitre_techniques = ie_mitre_techniques e\<rparr>"

definition to_domain :: "incident_row \<Rightarrow> incident_alert_row list \<Rightarrow> incident" where
  "to_domain r alerts =
     \<lparr>in_incident_id = ir_incident_id r, in_created_at = ir_created_at r, in_updated_at = ir_updated_at r,
      in_hostname = ir_hostname r, in_severity = ir_severity r, in_status = ir_status r,
      in_alert_ids = ir_alert_ids r,
      in_timeline = List.map event_of_row (sort_key ia_added_at alerts),
      in_mitre_tactics = ir_mitre_tactics r, in_correlation_rule = ir_correlation_rule r,
      in_timeframe_seconds = ir_timeframe_seconds r, in_alert_count = ir_alert_count r\<rparr>"

definition to_row :: "incident \<Rightarrow> incident_row" where
  "to_row i =
     \<lparr>ir_incident_id = in_incident_id i, ir_created_at = in_created_at i, ir_updated_at = in_updated_at i,
      ir_hostname = in_hostname i, ir_severity = in_severity i, ir_status = in_status i,
      ir_mitre_tactics = in_mitre_tactics i, ir_correlation_rule = in_correlation_rule i,
      ir_timeframe_seconds = in_timeframe_seconds i, ir_alert_count = in_alert_count i,
      ir_alert_ids = in_alert_ids i\<rparr>"

definition load_alerts :: "uuid \<Rightarrow> incident_db \<Rightarrow> incident_alert_row list" where
  "load_alerts i db = filter (\<lambda>a. ia_incident_id a = i) (idb_alerts db)"

definition insert_alerts :: "incident_alert_row list \<Rightarrow> incident_alert_row list \<Rightarrow> incident_alert_row list option" where
  "insert_alerts new old =
     (if distinct (List.map ia_alert_id (old @ new)) then Some (old @ new) else None)"

definition incident_create :: "incident \<Rightarrow> incident_db \<Rightarrow> unit result \<times> incident_db" where
  "incident_create inc db =
     (if dict_has (idb_incidents db) (in_incident_id inc) then (Inl integrity_error, db)
      else case insert_alerts (List.map (row_of_event (in_incident_id inc)) (in_timeline inc)) (idb_alerts db) of
        None \<Rightarrow> (Inl integrity_error, db)
      | Some alerts \<Rightarrow>
          (Inr (), \<lparr>idb_incidents = idb_incidents db @ [(in_incident_id inc, to_row inc)], idb_alerts = alerts\<rparr>))"

definition incident_get :: "uuid \<Rightarrow> incident_db \<Rightarrow> incident option" where
  "incident_get i db = map_option (\<lambda>r. to_domain r (load_alerts i db)) (map_of (idb_incidents db) i)"

definition update_row :: "incident \<Rightarrow> incident_row \<Rightarrow> incident_row" where
  "update_row inc r =
     r\<lparr>ir_updated_at := in_updated_at inc, ir_hostname := in_hostname inc, ir_severity := in_severity inc,
       ir_status := in_status inc, ir_mitre_tactics := in_mitre_tactics inc,
       ir_correlation_rule := in_correlation_rule inc, ir_timeframe_seconds := in_timeframe_seconds inc,
       ir_alert_count := in_alert_count inc, ir_alert_ids := in_alert_ids inc\<rparr>"

definition incident_update :: "incident \<Rightarrow> incident_db \<Rightarrow> unit result \<times> incident_db" where
  "incident_update inc db =
     (case map_of (idb_incidents db) (in_incident_id inc) of
        None \<Rightarrow> (Inl ValueError, db)
      | Some r \<Rightarrow>
          (Inr (), db\<lparr>idb_incidents := dict_put (in_incident_id inc) (update_row inc r) (idb_incidents db)\<rparr>))"

definition add_alert :: "uuid \<Rightarrow> incident_event \<Rightarrow> incident_db \<Rightarrow> unit result \<times> incident_db" where
  "add_alert i e db =
     (case insert_alerts [row_of_event i e] (idb_alerts db) of
        None \<Rightarrow> (Inl integrity_error, db)
      | Some alerts \<Rightarrow>
          (case map_of (idb_incidents db) i of
             None \<Rightarrow> (Inl ValueError, db)
           | Some r \<Rightarrow>
               (let ids = append_new (ie_alert_id e) (ir_alert_ids r)
                in (Inr (), db\<lparr>idb_alerts := alerts,
                      idb_incidents := dict_put i (r\<lparr>ir_alert_ids := ids, ir_alert_count := int (length ids)\<rparr>)
                        (idb_incidents db)\<rparr>))))"

definition open_rows :: "string \<Rightarrow> time \<Rightarrow> incident_db \<Rightarrow> incident_row list" where
  "open_rows h since db =
     sort_desc ir_created_at (filter (\<lambda>r. ir_hostname r = h \<and> ir_status r = IOpen \<and> since \<le> ir_created_at r)
       (List.map snd (idb_incidents db)))"

definition find_open_for_host :: "string \<Rightarrow> time \<Rightarrow> incident_db \<Rightarrow> incident option" where
  "find_open_for_host h since db =
     (case open_rows h since db of [] \<Rightarrow> None | r # _ \<Rightarrow> Some (to_domain r (load_alerts (ir_incident_id r) db)))"

definition find_open_incidents_for_host :: "string \<Rightarrow> time \<Rightarrow> incident_db \<Rightarrow> incident list" where
  "find_open_incidents_for_host h since db =
     List.map (\<lambda>r. to_domain r (load_alerts (ir_incident_id r) db)) (take 20 (open_rows h since db))"

definition list_incidents ::
  "string option \<Rightarrow> incident_status option \<Rightarrow> nat \<Rightarrow> nat \<Rightarrow> incident_db \<Rightarrow> incident list \<times> nat" where
  "list_incidents h st page page_size db =
     (let rows = filter (\<lambda>r. (case h of None \<Rightarrow> True | Some x \<Rightarrow> ir_hostname r = x)
                          \<and> (case st of None \<Rightarrow> True | Some x \<Rightarrow> ir_status r = x)) (List.map snd (idb_incidents db));
          shown = page_of ((page - 1) * page_size) page_size (sort_desc ir_created_at rows)
      in (List.map (\<lambda>r. to_domain r (load_alerts (ir_incident_id r) db)) shown, length rows))"

definition stale :: "time \<Rightarrow> incident_row \<Rightarrow> bool" where
  "stale cutoff r \<longleftrightarrow> ir_status r = IOpen \<and> ir_updated_at r < cutoff"

definition close_stale :: "time \<Rightarrow> incident_db \<Rightarrow> nat \<times> incident_db" where
  "close_stale cutoff db =
     (length (filter (stale cutoff) (List.map snd (idb_incidents db))),
      db\<lparr>idb_incidents := List.map (\<lambda>(k, r). (k, if stale cutoff r then r\<lparr>ir_status := IResolved\<rparr> else r))
           (idb_incidents db)\<rparr>)"

lemma to_domain_sel [simp]:
  "in_incident_id (to_domain r as) = ir_incident_id r" "in_hostname (to_domain r as) = ir_hostname r"
  "in_severity (to_domain r as) = ir_severity r" "in_status (to_domain r as) = ir_status r"
  "in_alert_ids (to_domain r as) = ir_alert_ids r" "in_alert_count (to_domain r as) = ir_alert_count r"
  "in_created_at (to_domain r as) = ir_created_at r" "in_updated_at (to_domain r as) = ir_updated_at r"
  "in_mitre_tactics (to_domain r as) = ir_mitre_tactics r"
  by (simp_all add: to_domain_def)

section \<open>The invariant of the two tables\<close>

text \<open>Each incident has an alert, lists exactly its rows of incident_alerts, in order, and counts them; every alert row
  belongs to an incident and an alert belongs to at most one.\<close>

definition row_ok :: "incident_db \<Rightarrow> uuid \<times> incident_row \<Rightarrow> bool" where
  "row_ok db kr \<longleftrightarrow> ir_incident_id (snd kr) = fst kr
     \<and> ir_alert_ids (snd kr) = List.map ia_alert_id (load_alerts (fst kr) db)
     \<and> ir_alert_count (snd kr) = int (length (ir_alert_ids (snd kr))) \<and> ir_alert_ids (snd kr) \<noteq> []"

definition incident_inv :: "incident_db \<Rightarrow> bool" where
  "incident_inv db \<longleftrightarrow> wf_dict (idb_incidents db) \<and> distinct (List.map ia_alert_id (idb_alerts db))
     \<and> (\<forall>kr \<in> set (idb_incidents db). row_ok db kr)
     \<and> (\<forall>a \<in> set (idb_alerts db). dict_has (idb_incidents db) (ia_incident_id a))"

definition empty_incidents :: incident_db where
  "empty_incidents = \<lparr>idb_incidents = [], idb_alerts = []\<rparr>"

lemma incident_inv_empty [simp]: "incident_inv empty_incidents"
  by (simp add: incident_inv_def empty_incidents_def)

lemma incident_row_ok:
  "incident_inv db \<Longrightarrow> map_of (idb_incidents db) k = Some r \<Longrightarrow> row_ok db (k, r)"
  by (auto simp: incident_inv_def dest: map_of_SomeD)

lemma set_dict_put:
  "wf_dict d \<Longrightarrow> kr \<in> set (dict_put k v d) \<Longrightarrow> kr = (k, v) \<or> kr \<in> set d \<and> fst kr \<noteq> k"
  by (induction d) (force simp: wf_dict_def split: if_splits)+

lemma alert_ids_of_incident: "row_ok db (k, r) \<Longrightarrow> set (ir_alert_ids r) \<subseteq> ia_alert_id ` set (idb_alerts db)"
  by (auto simp: row_ok_def load_alerts_def)

text \<open>A stored row may be replaced by one with the same ids and count.\<close>

lemma incident_inv_put:
  assumes inv: "incident_inv db" and r: "row_ok db (k, r)" and k: "dict_has (idb_incidents db) k"
  shows "incident_inv (db\<lparr>idb_incidents := dict_put k r (idb_incidents db)\<rparr>)"
proof -
  have "row_ok (db\<lparr>idb_incidents := dict_put k r (idb_incidents db)\<rparr>) kr"
    if "kr \<in> set (dict_put k r (idb_incidents db))" for kr
    using set_dict_put [OF _ that] inv r by (auto simp: incident_inv_def row_ok_def load_alerts_def)
  then show ?thesis using inv k by (auto simp: incident_inv_def)
qed

lemma incident_inv_update:
  assumes inv: "incident_inv db" and "in_alert_ids inc = List.map ia_alert_id (load_alerts (in_incident_id inc) db)"
    and "in_alert_count inc = int (length (in_alert_ids inc))" and "in_alert_ids inc \<noteq> []"
  shows "incident_inv (snd (incident_update inc db))"
proof (cases "map_of (idb_incidents db) (in_incident_id inc)")
  case (Some r)
  with incident_row_ok [OF inv Some] assms show ?thesis
    by (auto simp: incident_update_def dict_has_iff intro!: incident_inv_put)
      (auto simp: row_ok_def update_row_def)
qed (simp add: incident_update_def inv)

lemma add_alert_inv:
  assumes inv: "incident_inv db"
  shows "incident_inv (snd (add_alert i e db))"
proof (cases "distinct (List.map ia_alert_id (idb_alerts db @ [row_of_event i e])) \<and> dict_has (idb_incidents db) i")
  case True
  then obtain r where r: "map_of (idb_incidents db) i = Some r" by (auto simp: dict_has_iff)
  have new: "ie_alert_id e \<notin> ia_alert_id ` set (idb_alerts db)"
    using True by (auto simp: row_of_event_def)
  have ro: "row_ok db (i, r)" by (rule incident_row_ok [OF inv r])
  let ?ids = "append_new (ie_alert_id e) (ir_alert_ids r)"
  let ?r = "r\<lparr>ir_alert_ids := ?ids, ir_alert_count := int (length ?ids)\<rparr>"
  let ?db = "db\<lparr>idb_alerts := idb_alerts db @ [row_of_event i e], idb_incidents := dict_put i ?r (idb_incidents db)\<rparr>"
  have ids: "?ids = ir_alert_ids r @ [ie_alert_id e]"
    using new alert_ids_of_incident [OF ro] by (auto simp: append_new_def)
  have "row_ok ?db kr" if "kr \<in> set (dict_put i ?r (idb_incidents db))" for kr
    using set_dict_put [OF _ that] inv ro
    by (auto simp: incident_inv_def row_ok_def load_alerts_def ids row_of_event_def)
  then have "incident_inv ?db"
    using inv True by (auto simp: incident_inv_def row_of_event_def)
  then show ?thesis using True r by (simp add: add_alert_def insert_alerts_def Let_def)
next
  case False
  then have "snd (add_alert i e db) = db"
    by (auto simp: add_alert_def insert_alerts_def dict_has_iff Let_def split: option.splits)
  with inv show ?thesis by simp
qed

lemma incident_create_inv:
  assumes inv: "incident_inv db" and "in_alert_ids inc = List.map ie_alert_id (in_timeline inc)"
    and "in_alert_count inc = int (length (in_alert_ids inc))" and "in_alert_ids inc \<noteq> []"
  shows "incident_inv (snd (incident_create inc db))"
proof -
  let ?new = "List.map (row_of_event (in_incident_id inc)) (in_timeline inc)"
  let ?db = "\<lparr>idb_incidents = idb_incidents db @ [(in_incident_id inc, to_row inc)], idb_alerts = idb_alerts db @ ?new\<rparr>"
  have "incident_inv ?db"
    if fresh: "\<not> dict_has (idb_incidents db) (in_incident_id inc)"
      and dist: "distinct (List.map ia_alert_id (idb_alerts db @ ?new))"
  proof -
    have none: "filter (\<lambda>a. ia_incident_id a = in_incident_id inc) (idb_alerts db) = []"
      using inv fresh by (auto simp: incident_inv_def filter_empty_conv)
    have own: "filter (\<lambda>a. ia_incident_id a = k) ?new = (if k = in_incident_id inc then ?new else [])" for k
      by (simp add: filter_map o_def row_of_event_def)
    have "row_ok ?db kr" if "kr \<in> set (idb_incidents ?db)" for kr
    proof (cases "kr \<in> set (idb_incidents db)")
      case True
      then have "fst kr \<noteq> in_incident_id inc" using fresh by (force simp: dict_has_def)
      with True inv show ?thesis
        by (auto simp: incident_inv_def row_ok_def load_alerts_def own)
    next
      case False
      with that have "kr = (in_incident_id inc, to_row inc)" by simp
      then show ?thesis using assms(2-4)
        by (simp add: row_ok_def load_alerts_def none own to_row_def o_def row_of_event_def)
    qed
    then show ?thesis
      using inv fresh dist
      by (auto simp: incident_inv_def dict_has_iff row_of_event_def intro!: wf_dict_snoc)
  qed
  with inv show ?thesis
    by (auto simp: incident_create_def insert_alerts_def)
qed

lemma close_stale_inv: "incident_inv db \<Longrightarrow> incident_inv (snd (close_stale cutoff db))"
  by (auto simp: close_stale_def incident_inv_def wf_dict_def row_ok_def load_alerts_def dict_has_def
      comp_def case_prod_beta image_image)

text \<open>No operation loses an alert link.\<close>

lemma alerts_grow:
  "length (idb_alerts db) \<le> length (idb_alerts (snd (incident_create inc db)))"
  "length (idb_alerts db) \<le> length (idb_alerts (snd (incident_update inc db)))"
  "length (idb_alerts db) \<le> length (idb_alerts (snd (add_alert i e db)))"
  "length (idb_alerts db) \<le> length (idb_alerts (snd (close_stale cutoff db)))"
  by (auto simp: incident_create_def incident_update_def add_alert_def close_stale_def insert_alerts_def
      Let_def split: option.splits)

end
