(* ===== verification/Correlation.thy ===== *)
theory Correlation
  imports Linkers Incident_Repo Bus
begin

text \<open>
  \<open>correlation/engine.py\<close> and \<open>workers/correlation_worker.py\<close>: an alert joins the open incident of its
  host that some linker scores highest, or opens a new one; new incidents are announced to the
  decision worker. The code reads the clock several times while handling one alert; here the readings
  are one instant.
\<close>

section \<open>The engine\<close>

record correlation_cfg =
  cc_linkers :: "linker list"
  cc_min_severity :: severity
  cc_auto_close :: int

definition new_correlation :: "linker list \<Rightarrow> severity \<Rightarrow> int \<Rightarrow> correlation_cfg result" where
  "new_correlation ls sev secs =
     (if ls = [] then Inl ValueError
      else Inr \<lparr>cc_linkers = ls, cc_min_severity = sev, cc_auto_close = secs\<rparr>)"

definition max_timeframe :: "correlation_cfg \<Rightarrow> int" where
  "max_timeframe c = (case List.map linker_timeframe (cc_linkers c) of [] \<Rightarrow> 0 | x # xs \<Rightarrow> fold max xs x)"

definition event_of_alert :: "alert \<Rightarrow> incident_event" where
  "event_of_alert al = \<lparr>ie_alert_id = al_alert_id al, ie_timestamp = al_created_at al,
     ie_severity = al_severity al, ie_title = al_title al, ie_hostname = al_hostname al,
     ie_mitre_techniques = al_mitre_techniques al\<rparr>"

text \<open>The double loop over candidates and linkers keeps the first pair with the highest score.\<close>

type_synonym best = "pyfloat \<times> (incident \<times> linker) option"

definition better :: "time \<Rightarrow> alert \<Rightarrow> incident \<times> linker \<Rightarrow> best \<Rightarrow> best" where
  "better now al p b =
     (let score = linker_score (snd p) now al (fst p) in if fst b < score then (score, Some p) else b)"

definition best_match :: "correlation_cfg \<Rightarrow> time \<Rightarrow> alert \<Rightarrow> incident list \<Rightarrow> best" where
  "best_match c now al candidates =
     fold (better now al) (concat (List.map (\<lambda>i. List.map (Pair i) (cc_linkers c)) candidates)) (-1, None)"

definition link_incident :: "time \<Rightarrow> alert \<Rightarrow> severity \<Rightarrow> incident \<Rightarrow> incident" where
  "link_incident now al sev i =
     i\<lparr>in_severity := sev, in_updated_at := now, in_alert_count := in_alert_count i + 1,
       in_alert_ids := append_new (al_alert_id al) (in_alert_ids i),
       in_mitre_tactics := append_all_new (al_mitre_techniques al) (in_mitre_tactics i)\<rparr>"

definition new_incident :: "correlation_cfg \<Rightarrow> time \<Rightarrow> uuid \<Rightarrow> alert \<Rightarrow> incident" where
  "new_incident c now new_id al =
     \<lparr>in_incident_id = new_id, in_created_at = now, in_updated_at = now, in_hostname = al_hostname al,
      in_severity = al_severity al, in_status = IOpen, in_alert_ids = [al_alert_id al],
      in_timeline = [event_of_alert al], in_mitre_tactics = al_mitre_techniques al,
      in_correlation_rule = ''same_host_timeframe'', in_timeframe_seconds = max_timeframe c,
      in_alert_count = 1\<rparr>"

definition join_incident ::
  "time \<Rightarrow> alert \<Rightarrow> incident \<Rightarrow> linker \<Rightarrow> incident_db \<Rightarrow> incident option result \<times> incident_db" where
  "join_incident now al i l db =
     seq_res (add_alert (in_incident_id i) (event_of_alert al) db) (\<lambda>_ db1.
       case linker_max_severity l (in_severity i) (al_severity al) of
         Inl e \<Rightarrow> (Inl e, db1)
       | Inr sev \<Rightarrow>
           (let i' = link_incident now al sev i
            in seq_res (incident_update i' db1) (\<lambda>_ db2. (Inr (Some i'), db2))))"

definition candidates_for :: "correlation_cfg \<Rightarrow> time \<Rightarrow> alert \<Rightarrow> incident_db \<Rightarrow> incident list" where
  "candidates_for c now al db =
     take 50 (find_open_incidents_for_host (al_hostname al) (now - seconds (max_timeframe c)) db)"

definition process_alert ::
  "correlation_cfg \<Rightarrow> time \<Rightarrow> uuid \<Rightarrow> alert \<Rightarrow> incident_db \<Rightarrow> incident option result \<times> incident_db" where
  "process_alert c now new_id al db =
     (if severity_ord (al_severity al) < severity_ord (cc_min_severity c) then (Inr None, db)
      else
        case best_match c now al (candidates_for c now al db) of
          (score, best) \<Rightarrow>
            (case (if 0 < score then best else None) of
               Some (i, l) \<Rightarrow> join_incident now al i l db
             | None \<Rightarrow>
                 (let i = new_incident c now new_id al
                  in seq_res (incident_create i db) (\<lambda>_ db1. (Inr (Some i), db1)))))"

definition close_stale_incidents :: "correlation_cfg \<Rightarrow> time \<Rightarrow> incident_db \<Rightarrow> nat \<times> incident_db" where
  "close_stale_incidents c now db =
     (if cc_auto_close c \<le> 0 then (0, db) else close_stale (now - seconds (cc_auto_close c)) db)"

section \<open>The worker\<close>

text \<open>
  The alerts table belongs to another repository; the worker needs \<open>get\<close> (its reply is an argument)
  and \<open>update\<close>, whose success is one. \<open>cw_alerts\<close> logs the chain ids it stamps.
\<close>

record corr_worker =
  cw_db :: incident_db
  cw_stamped :: "(uuid \<times> uuid) list"
  cw_bus :: bus_log
  cw_processed :: nat
  cw_correlated :: nat

record corr_env =
  ce_alert :: "uuid \<Rightarrow> alert option result"
  ce_parse_uuid :: "string \<Rightarrow> uuid option"
  ce_update_ok :: bool
  ce_bus_ok :: "nat \<Rightarrow> bool"
  ce_now :: time
  ce_new_id :: uuid

definition severity_before :: "alert \<Rightarrow> incident_db \<Rightarrow> severity option" where
  "severity_before al db =
     (case al_incident_chain_id al of None \<Rightarrow> None | Some i \<Rightarrow> map_option in_severity (incident_get i db))"

definition should_notify :: "severity option \<Rightarrow> incident \<Rightarrow> bool" where
  "should_notify before inc \<longleftrightarrow> in_alert_count inc = 1
     \<or> (case before of None \<Rightarrow> False | Some b \<Rightarrow> severity_ord b < severity_ord (in_severity inc))"

definition announce :: "corr_env \<Rightarrow> string \<Rightarrow> incident \<Rightarrow> corr_worker \<Rightarrow> corr_worker" where
  "announce env idstr inc w =
     w\<lparr>cw_bus := snd (publish (ce_bus_ok env) ''analysis:correlated''
        (JObj [(''incident_id'', JStr (in_incident_id inc)), (''trigger_alert_id'', JStr idstr)]) (cw_bus w))\<rparr>"

definition correlate :: "correlation_cfg \<Rightarrow> corr_env \<Rightarrow> string \<Rightarrow> alert \<Rightarrow> corr_worker \<Rightarrow> corr_worker" where
  "correlate c env idstr al w0 =
     (let w = w0\<lparr>cw_processed := Suc (cw_processed w0)\<rparr>;
          before = severity_before al (cw_db w);
          (r, db') = process_alert c (ce_now env) (ce_new_id env) al (cw_db w);
          w1 = w\<lparr>cw_db := db'\<rparr>
      in case r of
           Inl e \<Rightarrow> w1
         | Inr None \<Rightarrow> w1
         | Inr (Some inc) \<Rightarrow>
             (let w2 = w1\<lparr>cw_correlated := Suc (cw_correlated w1)\<rparr>;
                  stamp = (al_incident_chain_id al \<noteq> Some (in_incident_id inc))
              in if stamp \<and> \<not> ce_update_ok env then w2
                 else
                   let w3 = (if stamp then w2\<lparr>cw_stamped := cw_stamped w2 @ [(al_alert_id al, in_incident_id inc)]\<rparr>
                             else w2)
                   in if should_notify before inc then announce env idstr inc w3 else w3))"

definition corr_process :: "correlation_cfg \<Rightarrow> corr_env \<Rightarrow> string \<Rightarrow> corr_worker \<Rightarrow> corr_worker" where
  "corr_process c env idstr w =
     (if idstr = [] then w
      else case ce_parse_uuid env idstr of
        None \<Rightarrow> w
      | Some i \<Rightarrow>
          (case ce_alert env i of
             Inl e \<Rightarrow> w
           | Inr None \<Rightarrow> w
           | Inr (Some al) \<Rightarrow> correlate c env idstr al w))"

section \<open>Lemmas\<close>

lemma fold_better_ge: "fst b \<le> fst (fold (better now al) ps b)"
  by (induction ps arbitrary: b) (auto simp: better_def Let_def intro: order_trans [OF less_imp_le])

lemma fold_better_upper:
  "p \<in> set ps \<Longrightarrow> linker_score (snd p) now al (fst p) \<le> fst (fold (better now al) ps b)"
proof (induction ps arbitrary: b)
  case (Cons q ps)
  show ?case
  proof (cases "p = q")
    case True
    have "linker_score (snd p) now al (fst p) \<le> fst (better now al q b)"
      using True by (auto simp: better_def Let_def)
    also have "\<dots> \<le> fst (fold (better now al) ps (better now al q b))" by (rule fold_better_ge)
    finally show ?thesis by simp
  next
    case False
    with Cons show ?thesis by simp
  qed
qed simp

text \<open>The result of the loop: the start value, or a pair of the list carrying the returned score.\<close>

lemma fold_better_cases:
  "fold (better now al) ps b = b \<or>
   (\<exists>p \<in> set ps. fold (better now al) ps b = (linker_score (snd p) now al (fst p), Some p))"
proof (induction ps arbitrary: b)
  case (Cons q ps)
  show ?case
    using Cons [of "better now al q b"] by (auto simp: better_def Let_def split: if_splits)
qed simp

lemma best_match_pairs:
  assumes "best_match c now al is = (score, Some (i, l))"
  shows "i \<in> set is \<and> l \<in> set (cc_linkers c) \<and> score = linker_score l now al i"
  using fold_better_cases [of now al "concat (List.map (\<lambda>i. List.map (Pair i) (cc_linkers c)) is)" "(-1, None)"] assms
  unfolding best_match_def by fastforce

lemma best_match_upper:
  assumes "i \<in> set is" and "l \<in> set (cc_linkers c)"
  shows "linker_score l now al i \<le> fst (best_match c now al is)"
proof -
  have "(i, l) \<in> set (concat (List.map (\<lambda>i. List.map (Pair i) (cc_linkers c)) is))" using assms by auto
  from fold_better_upper [OF this, of now al "(-1, None)"] show ?thesis by (simp add: best_match_def)
qed

lemma candidate_row:
  assumes "incident_inv db" and "i \<in> set (candidates_for c now al db)"
  obtains r where "map_of (idb_incidents db) (in_incident_id i) = Some r"
    "i = to_domain r (load_alerts (in_incident_id i) db)" "in_hostname i = al_hostname al" "in_status i = IOpen"
proof -
  from assms(2) obtain r where r: "r \<in> set (open_rows (al_hostname al) (now - seconds (max_timeframe c)) db)"
    "i = to_domain r (load_alerts (ir_incident_id r) db)"
    by (auto simp: candidates_for_def find_open_incidents_for_host_def dest!: in_set_takeD)
  then obtain k where k: "(k, r) \<in> set (idb_incidents db)" by (auto simp: open_rows_def)
  with assms(1) have "ir_incident_id r = k" "map_of (idb_incidents db) k = Some r"
    by (auto simp: incident_inv_def row_ok_def wf_dict_def)
  with r that [of r] show thesis by (auto simp: open_rows_def)
qed

lemma seq_res_snd: "snd (seq_res x f) = (case fst x of Inl e \<Rightarrow> snd x | Inr a \<Rightarrow> snd (f a (snd x)))"
  by (cases x; cases "fst x") auto

lemma seq_res_fst: "fst (seq_res x f) = (case fst x of Inl e \<Rightarrow> Inl e | Inr a \<Rightarrow> fst (f a (snd x)))"
  by (cases x; cases "fst x") auto

lemma add_alert_Inr:
  assumes "add_alert i e db = (Inr (), db')" and "map_of (idb_incidents db) i = Some r"
  shows "ie_alert_id e \<notin> ia_alert_id ` set (idb_alerts db)"
    "load_alerts i db' = load_alerts i db @ [row_of_event i e]"
    "dict_has (idb_incidents db') i"
  using assms
  by (auto simp: add_alert_def insert_alerts_def load_alerts_def row_of_event_def Let_def split: if_splits)

lemma join_incident_inv:
  assumes inv: "incident_inv db" and i: "i \<in> set (candidates_for c now al db)"
  shows "incident_inv (snd (join_incident now al i l db))"
proof -
  obtain r where r: "map_of (idb_incidents db) (in_incident_id i) = Some r"
    "i = to_domain r (load_alerts (in_incident_id i) db)"
    by (rule candidate_row [OF inv i])
  have ok: "row_ok db (in_incident_id i, r)" by (rule incident_row_ok [OF inv r(1)])
  let ?x = "add_alert (in_incident_id i) (event_of_alert al) db"
  have inv1: "incident_inv (snd ?x)" by (rule add_alert_inv [OF inv])
  show ?thesis
  proof (cases "fst ?x")
    case (Inl e)
    then show ?thesis using inv1 by (simp add: join_incident_def seq_res_snd)
  next
    case (Inr u)
    then have a: "?x = (Inr (), snd ?x)" by (simp add: prod_eq_iff)
    note A = add_alert_Inr [OF a r(1)]
    have ids: "in_alert_ids i = List.map ia_alert_id (load_alerts (in_incident_id i) db)"
      "in_alert_count i = int (length (in_alert_ids i))"
      using ok arg_cong [OF r(2), of in_alert_ids] arg_cong [OF r(2), of in_alert_count]
      by (simp_all add: row_ok_def)
    have "al_alert_id al \<notin> set (in_alert_ids i)"
      using A(1) unfolding ids by (auto simp: load_alerts_def event_of_alert_def)
    then have "incident_inv (snd (incident_update (link_incident now al sev i) (snd ?x)))" for sev
      using A(2) ids
      by (intro incident_inv_update [OF inv1])
        (simp_all add: link_incident_def append_new_def row_of_event_def event_of_alert_def)
    then show ?thesis
      using inv1 Inr by (auto simp: join_incident_def seq_res_snd Let_def split: sum.splits)
  qed
qed

lemma process_alert_inv:
  assumes inv: "incident_inv db"
  shows "incident_inv (snd (process_alert c now new_id al db))"
proof -
  obtain score best where b: "best_match c now al (candidates_for c now al db) = (score, best)"
    by (cases "best_match c now al (candidates_for c now al db)")
  have create: "incident_inv (snd (incident_create (new_incident c now new_id al) db))"
    by (rule incident_create_inv [OF inv]) (simp_all add: new_incident_def event_of_alert_def)
  have join: "incident_inv (snd (join_incident now al i l db))" if "best = Some (i, l)" for i l
    using best_match_pairs b that by (intro join_incident_inv [OF inv]) blast
  show ?thesis
    using inv create join b
    by (auto simp: process_alert_def seq_res_snd Let_def split: option.splits sum.splits)
qed

text \<open>The worker's inputs: a message with what its environment answers, or the periodic sweep.\<close>

datatype corr_op = Message corr_env string | Sweep time

fun corr_step :: "correlation_cfg \<Rightarrow> corr_op \<Rightarrow> corr_worker \<Rightarrow> corr_worker" where
  "corr_step c (Message env idstr) w = corr_process c env idstr w"
| "corr_step c (Sweep now) w = w\<lparr>cw_db := snd (close_stale_incidents c now (cw_db w))\<rparr>"

definition idle_correlator :: corr_worker where
  "idle_correlator = \<lparr>cw_db = empty_incidents, cw_stamped = [], cw_bus = empty_bus, cw_processed = 0,
     cw_correlated = 0\<rparr>"

definition corr_inv :: "corr_worker \<Rightarrow> bool" where
  "corr_inv w \<longleftrightarrow> incident_inv (cw_db w) \<and> cw_correlated w \<le> cw_processed w"

definition links :: "corr_worker \<Rightarrow> nat" where
  "links w = length (idb_alerts (cw_db w))"

lemma correlate_db: "cw_db (correlate c env idstr al w) =
    snd (process_alert c (ce_now env) (ce_new_id env) al (cw_db w))"
  by (auto simp: correlate_def announce_def Let_def split: sum.splits option.splits prod.splits)

lemma correlate_counts:
  "cw_correlated w \<le> cw_processed w \<Longrightarrow>
     cw_correlated (correlate c env idstr al w) \<le> cw_processed (correlate c env idstr al w)"
  by (auto simp: correlate_def announce_def Let_def split: sum.splits option.splits prod.splits)

lemma correlate_inv: "corr_inv w \<Longrightarrow> corr_inv (correlate c env idstr al w)"
  by (simp add: corr_inv_def correlate_db process_alert_inv correlate_counts)

lemma join_links: "length (idb_alerts db) \<le> length (idb_alerts (snd (join_incident now al i l db)))"
  using alerts_grow(3) [of db "in_incident_id i" "event_of_alert al"]
  by (auto simp: join_incident_def seq_res_snd Let_def split: sum.splits intro: order_trans [OF _ alerts_grow(2)])

lemma process_alert_links: "length (idb_alerts db) \<le> length (idb_alerts (snd (process_alert c now i al db)))"
  by (auto simp: process_alert_def seq_res_snd Let_def alerts_grow join_links split: sum.splits option.splits prod.splits)

interpretation cw: monitored_machine "corr_step c" "\<lambda>w. w = idle_correlator" corr_inv links
  for c
proof unfold_locales
  show "corr_inv w" if "w = idle_correlator" for w
    using that by (simp add: corr_inv_def idle_correlator_def)
  show "corr_inv (corr_step c e w)" if "corr_inv w" for e w
    using that correlate_inv [OF that]
    by (cases e) (auto simp: corr_process_def close_stale_incidents_def corr_inv_def close_stale_inv
        split: option.splits sum.splits)
  show "links w \<le> links (corr_step c e w)" if "corr_inv w" for e w
    by (cases e) (auto simp: corr_process_def close_stale_incidents_def links_def alerts_grow correlate_db
        process_alert_links split: option.splits sum.splits)
qed

lemma join_Inr:
  assumes "incident_inv db" and "i \<in> set (candidates_for c now al db)"
    and "join_incident now al i l db = (Inr (Some i'), db')"
  shows "al_alert_id al \<notin> ia_alert_id ` set (idb_alerts db) \<and> 2 \<le> in_alert_count i'"
proof -
  obtain r where r: "map_of (idb_incidents db) (in_incident_id i) = Some r"
    "i = to_domain r (load_alerts (in_incident_id i) db)"
    by (rule candidate_row [OF assms(1,2)])
  have "row_ok db (in_incident_id i, r)" by (rule incident_row_ok [OF assms(1) r(1)])
  then have "1 \<le> in_alert_count i"
    using arg_cong [OF r(2), of in_alert_count] by (cases "ir_alert_ids r") (auto simp: row_ok_def)
  moreover from assms(3) obtain db1 where a: "add_alert (in_incident_id i) (event_of_alert al) db = (Inr (), db1)"
    by (cases "add_alert (in_incident_id i) (event_of_alert al) db"; cases "fst (add_alert (in_incident_id i) (event_of_alert al) db)")
      (auto simp: join_incident_def)
  moreover have "in_alert_count i' = in_alert_count i + 1"
    using assms(3)
    by (cases "add_alert (in_incident_id i) (event_of_alert al) db"; cases l; cases "fst (add_alert (in_incident_id i) (event_of_alert al) db)")
      (auto simp: join_incident_def Let_def link_incident_def incident_update_def split: option.splits)
  ultimately show ?thesis
    using add_alert_Inr(1) [OF a r(1)] by (simp add: event_of_alert_def)
qed

lemma create_Inr:
  assumes "incident_create (new_incident c now new_id al) db = (Inr (), db')"
  shows "\<not> dict_has (idb_incidents db) new_id \<and> dict_has (idb_incidents db') new_id
    \<and> al_alert_id al \<notin> ia_alert_id ` set (idb_alerts db)"
  using assms
  by (auto simp: incident_create_def insert_alerts_def new_incident_def dict_has_def row_of_event_def
      event_of_alert_def split: if_splits)

lemma process_alert_Some:
  assumes "incident_inv db" and "process_alert c now new_id al db = (Inr (Some inc), db')"
  shows "al_alert_id al \<notin> ia_alert_id ` set (idb_alerts db)
    \<and> (2 \<le> in_alert_count inc \<or> \<not> dict_has (idb_incidents db) new_id \<and> dict_has (idb_incidents db') new_id
         \<and> in_incident_id inc = new_id \<and> in_alert_count inc = 1)"
proof -
  obtain score best where b: "best_match c now al (candidates_for c now al db) = (score, best)"
    by (cases "best_match c now al (candidates_for c now al db)")
  show ?thesis
  proof (cases "if 0 < score then best else None")
    case None
    with assms(2) b obtain u where "incident_create (new_incident c now new_id al) db = (Inr u, db')"
      "inc = new_incident c now new_id al"
      by (cases "incident_create (new_incident c now new_id al) db";
          cases "fst (incident_create (new_incident c now new_id al) db)")
        (auto simp: process_alert_def Let_def split: if_splits)
    then show ?thesis using create_Inr by (auto simp: new_incident_def)
  next
    case (Some p)
    then obtain i l where p: "p = (i, l)" "best = Some (i, l)" by (cases p) (auto split: if_splits)
    with assms(2) b Some have "join_incident now al i l db = (Inr (Some inc), db')"
      by (auto simp: process_alert_def split: if_splits)
    moreover have "i \<in> set (candidates_for c now al db)" using best_match_pairs b p by blast
    ultimately show ?thesis using join_Inr [OF assms(1)] by blast
  qed
qed

section \<open>Properties\<close>

text \<open>C17: whatever alerts and sweeps the correlation worker handles, in any order and with any failures,
  every incident lists exactly its alerts, counts them and has at least one, no alert belongs to two
  incidents, and no link is ever lost.\<close>

theorem incidents_consistent:
  "incident_inv (cw_db (run (corr_step c) idle_correlator ops))
   \<and> links (run (corr_step c) idle_correlator ops) \<le> links (run (corr_step c) idle_correlator (ops @ ops'))"
  using cw.reachable_inv [of idle_correlator c ops] cw.run_level_later [of idle_correlator c ops ops']
    cw.init_inv [of idle_correlator]
  by (simp add: corr_inv_def)

text \<open>Every linker scores within [0, 1], and the match the engine chooses is a pair of an open
  incident of the alert's host and a configured linker whose score no other pair exceeds.\<close>

theorem best_match_is_maximal:
  assumes "incident_inv db"
    and "best_match c now al (candidates_for c now al db) = (score, Some (i, l))"
  shows "in_hostname i = al_hostname al \<and> in_status i = IOpen \<and> l \<in> set (cc_linkers c)
    \<and> score = linker_score l now al i \<and> 0 \<le> score \<and> score \<le> 1
    \<and> (\<forall>i' \<in> set (candidates_for c now al db). \<forall>l' \<in> set (cc_linkers c). linker_score l' now al i' \<le> score)"
proof -
  from best_match_pairs [OF assms(2)] have p: "i \<in> set (candidates_for c now al db)"
    "l \<in> set (cc_linkers c)" "score = linker_score l now al i" by auto
  show ?thesis
    using candidate_row [OF assms(1) p(1)] p linker_bounds best_match_upper assms(2)
    by (metis fst_conv)
qed

definition deployed :: "int \<Rightarrow> correlation_cfg" where
  "deployed w = \<lparr>cc_linkers = [SameHost w, Temporal 60, PidLineage w, UserActivity (w * 2)],
     cc_min_severity = Medium, cc_auto_close = 1800\<rparr>"

definition alert_on :: "string \<Rightarrow> uuid \<Rightarrow> alert" where
  "alert_on h i = \<lparr>al_alert_id = i, al_created_at = 0, al_updated_at = 0, al_severity = High,
     al_status = AOpen, al_rule_id = None, al_rule_type = Anomaly, al_ml_triggered = False,
     al_ti_triggered = False, al_entity_id = [], al_hostname = h, al_trigger_event_id = ''e1'',
     al_related_event_ids = [], al_incident_chain_id = None, al_title = ''t'', al_description = [],
     al_mitre_techniques = [], al_assigned_to = None, al_notes = [], al_false_positive_count = 0,
     al_dst_ip = None, al_pid = None, al_process_name = []\<rparr>"

definition first_db :: incident_db where
  "first_db = snd (process_alert (deployed 300) 0 ''i1'' (alert_on ''web1'' ''a1'') empty_incidents)"

lemma first_db_inv: "incident_inv first_db"
  unfolding first_db_def by (intro process_alert_inv) simp

lemma first_candidates:
  "candidates_for (deployed 300) 1 (alert_on ''web1'' ''a2'') first_db =
     [new_incident (deployed 300) 0 ''i1'' (alert_on ''web1'' ''a1'')]"
  by (simp add: first_db_def candidates_for_def find_open_incidents_for_host_def open_rows_def
      process_alert_def deployed_def alert_on_def best_match_def empty_incidents_def incident_create_def
      new_incident_def insert_alerts_def dict_has_def to_row_def max_timeframe_def seconds_def
      sort_desc_def to_domain_def load_alerts_def row_of_event_def event_of_alert_def event_of_row_def)

lemma first_best:
  "\<exists>i. best_match (deployed 300) 1 (alert_on ''web1'' ''a2'')
     (candidates_for (deployed 300) 1 (alert_on ''web1'' ''a2'') first_db) = (55/100, Some (i, Temporal 60))"
  unfolding first_candidates
  by (simp add: best_match_def deployed_def better_def same_host_score_def temporal_score_def
      pid_lineage_score_def user_activity_score_def alert_on_def new_incident_def seconds_def
      kill_chain_sequences_def kill_chain_hit_def Let_def)

theorem best_match_is_maximal_witness:
  "\<exists>i l. best_match (deployed 300) 1 (alert_on ''web1'' ''a2'')
     (candidates_for (deployed 300) 1 (alert_on ''web1'' ''a2'') first_db) = (55/100, Some (i, l))
   \<and> in_hostname i = ''web1''"
proof -
  obtain i where b: "best_match (deployed 300) 1 (alert_on ''web1'' ''a2'')
     (candidates_for (deployed 300) 1 (alert_on ''web1'' ''a2'') first_db) = (55/100, Some (i, Temporal 60))"
    using first_best by blast
  with best_match_is_maximal [OF first_db_inv b] show ?thesis by (auto simp: alert_on_def)
qed

text \<open>With the linkers the server deploys, an alert without MITRE techniques that arrives on a host
  within a minute of the creation of one of its open incidents is never correlated: the temporal
  linker wins the comparison, it has no \<open>max_severity\<close>, and the exception leaves the alert recorded
  in an incident whose severity and techniques were not updated.\<close>

theorem deployed_linkers_break_fast_alerts:
  assumes inv: "incident_inv db" and sev: "Medium \<le> al_severity al" and "al_mitre_techniques al = []"
    and i: "i \<in> set (candidates_for (deployed w) now al db)" "now - seconds 60 \<le> in_created_at i"
    and fresh: "al_alert_id al \<notin> ia_alert_id ` set (idb_alerts db)"
  shows "\<exists>j \<in> set (candidates_for (deployed w) now al db).
     process_alert (deployed w) now new_id al db
       = (Inl AttributeError, snd (add_alert (in_incident_id j) (event_of_alert al) db))
     \<and> fst (add_alert (in_incident_id j) (event_of_alert al) db) = Inr ()"
proof -
  let ?cs = "candidates_for (deployed w) now al db"
  obtain score best where b: "best_match (deployed w) now al ?cs = (score, best)"
    by (cases "best_match (deployed w) now al ?cs")
  have sev': "severity_ord Medium \<le> severity_ord (al_severity al)"
    using sev by (simp add: less_eq_severity_def)
  have "in_hostname i = al_hostname al" by (rule candidate_row [OF inv i(1)])
  then have "55/100 \<le> linker_score (Temporal 60) now al i"
    using temporal_lower sev' i(2) by simp
  moreover have "linker_score (Temporal 60) now al i \<le> score"
    using best_match_upper [OF i(1), of "Temporal 60" "deployed w" now al] b by (simp add: deployed_def)
  ultimately have score: "55/100 \<le> score" by simp
  then have "best \<noteq> None"
    using fold_better_cases [of now al "concat (List.map (\<lambda>i. List.map (Pair i) (cc_linkers (deployed w))) ?cs)"
        "(-1, None)"] b
    by (auto simp: best_match_def)
  then obtain j l where j: "best = Some (j, l)" by auto
  note p = best_match_pairs [OF b [unfolded j]]
  have "l \<noteq> SameHost tf" for tf
    using p score assms(3) by (auto simp: same_host_score_def split: if_splits)
  then have ms: "linker_max_severity l x y = Inl AttributeError" for x y by (cases l) auto
  obtain r where r: "map_of (idb_incidents db) (in_incident_id j) = Some r"
    using candidate_row [OF inv] p by metis
  have "fst (add_alert (in_incident_id j) (event_of_alert al) db) = Inr ()"
    using fresh r inv
    by (auto simp: add_alert_def insert_alerts_def row_of_event_def event_of_alert_def Let_def incident_inv_def)
  moreover from this have "join_incident now al j l db
      = (Inl AttributeError, snd (add_alert (in_incident_id j) (event_of_alert al) db))"
    by (simp add: join_incident_def prod_eq_iff seq_res_fst seq_res_snd ms)
  moreover have "process_alert (deployed w) now new_id al db = join_incident now al j l db"
  proof -
    have "\<not> severity_ord (al_severity al) < severity_ord (cc_min_severity (deployed w))"
      using sev' by (simp add: deployed_def)
    then show ?thesis unfolding process_alert_def b using score j by simp
  qed
  ultimately show ?thesis using p by auto
qed

theorem deployed_linkers_break_fast_alerts_witness:
  "\<exists>j::incident. process_alert (deployed 300) 1 ''i2'' (alert_on ''web1'' ''a2'') first_db
     = (Inl AttributeError, snd (add_alert (in_incident_id j) (event_of_alert (alert_on ''web1'' ''a2'')) first_db))"
proof -
  let ?i = "new_incident (deployed 300) 0 ''i1'' (alert_on ''web1'' ''a1'')"
  have alerts: "List.map ia_alert_id (idb_alerts first_db) = [''a1'']"
    by (simp add: first_db_def candidates_for_def find_open_incidents_for_host_def open_rows_def
      process_alert_def deployed_def alert_on_def best_match_def empty_incidents_def incident_create_def
      new_incident_def insert_alerts_def dict_has_def row_of_event_def event_of_alert_def sort_desc_def Let_def)
  from arg_cong [OF this, of set] have fresh: "al_alert_id (alert_on ''web1'' ''a2'') \<notin> ia_alert_id ` set (idb_alerts first_db)"
    by (simp add: alert_on_def)
  have al: "Medium \<le> al_severity (alert_on ''web1'' ''a2'')" "al_mitre_techniques (alert_on ''web1'' ''a2'') = []"
    by (simp_all add: alert_on_def less_eq_severity_def)
  have i: "?i \<in> set (candidates_for (deployed 300) 1 (alert_on ''web1'' ''a2'') first_db)"
    "1 - seconds 60 \<le> in_created_at ?i"
    by (simp_all add: first_candidates) (simp add: new_incident_def seconds_def)
  from deployed_linkers_break_fast_alerts [OF first_db_inv al i fresh, of "''i2''"] show ?thesis
    by blast
qed

text \<open>A correlation is announced only when it opened an incident: an alert whose chain id was set
  only by an earlier recorded correlation never triggers the decision pipeline again, so the
  severity-escalation branch is dead.\<close>

theorem only_new_incidents_announced:
  assumes "incident_inv (cw_db w)"
    and "al_incident_chain_id al = None \<or> al_alert_id al \<in> ia_alert_id ` set (idb_alerts (cw_db w))"
    and "cw_bus (correlate c env idstr al w) \<noteq> cw_bus w"
  shows "\<not> dict_has (idb_incidents (cw_db w)) (ce_new_id env)
    \<and> dict_has (idb_incidents (cw_db (correlate c env idstr al w))) (ce_new_id env)"
proof -
  obtain r db' where p: "process_alert c (ce_now env) (ce_new_id env) al (cw_db w) = (r, db')"
    by (cases "process_alert c (ce_now env) (ce_new_id env) al (cw_db w)")
  from assms(3) p obtain inc where r: "r = Inr (Some inc)"
    and notify: "should_notify (severity_before al (cw_db w)) inc"
    by (auto simp: correlate_def Let_def split: sum.splits option.splits if_splits)
  from process_alert_Some [OF assms(1) p [unfolded r]] assms(2)
  have "severity_before al (cw_db w) = None" by (auto simp: severity_before_def)
  with notify process_alert_Some [OF assms(1) p [unfolded r]] p show ?thesis
    by (auto simp: should_notify_def correlate_db)
qed

definition first_env :: corr_env where
  "first_env = \<lparr>ce_alert = \<lambda>_. Inr (Some (alert_on ''web1'' ''a1'')), ce_parse_uuid = Some, ce_update_ok = True,
     ce_bus_ok = \<lambda>_. True, ce_now = 0, ce_new_id = ''i1''\<rparr>"

theorem only_new_incidents_announced_witness:
  "dict_has (idb_incidents (cw_db (correlate (deployed 300) first_env ''a1'' (alert_on ''web1'' ''a1'') idle_correlator))) ''i1''"
proof -
  have "cw_bus (correlate (deployed 300) first_env ''a1'' (alert_on ''web1'' ''a1'') idle_correlator)
      \<noteq> cw_bus idle_correlator"
    by (simp add: correlate_def process_alert_def candidates_for_def find_open_incidents_for_host_def
      open_rows_def deployed_def alert_on_def best_match_def empty_incidents_def incident_create_def
      new_incident_def insert_alerts_def dict_has_def sort_desc_def idle_correlator_def first_env_def
      should_notify_def announce_def publish_def empty_bus_def row_of_event_def event_of_alert_def Let_def)
  from only_new_incidents_announced [OF _ _ this] show ?thesis
    by (simp add: idle_correlator_def alert_on_def first_env_def)
qed

end
