(* ===== verification/TI_Cache.thy ===== *)
theory TI_Cache
  imports Machines
begin

text \<open>
  \<open>threat_intel/models.py\<close> and \<open>threat_intel/cache.py\<close>: reports, the in-memory cache with lazy expiry
  and least-recently-used eviction, and the contract a cache-aside client needs of it.
\<close>

record ti_report =
  rp_indicator :: string
  rp_indicator_type :: string
  rp_score :: pyfloat
  rp_malicious :: bool
  rp_provider :: string
  rp_tags :: "string list"
  rp_last_seen :: "time option"
  rp_raw :: "(string, json) pydict"
  rp_cached_at :: time

text \<open>The \<open>Literal\<close> and range constraints of the model, checked when a report is built.\<close>

definition valid_report :: "ti_report \<Rightarrow> bool" where
  "valid_report r \<longleftrightarrow> rp_indicator_type r \<in> {''ip'', ''hash''} \<and> 0 \<le> rp_score r \<and> rp_score r \<le> 100"

definition make_report :: "ti_report \<Rightarrow> ti_report result" where
  "make_report r = (if valid_report r then Inr r else Inl ValidationError)"

record aggregated_report =
  ag_indicator :: string
  ag_indicator_type :: string
  ag_max_score :: pyfloat
  ag_malicious :: bool
  ag_providers :: "string list"
  ag_tags :: "string list"
  ag_reports :: "ti_report list"
  ag_queried_at :: time
  ag_unavailable :: bool

section \<open>The in-memory cache\<close>

type_synonym ti_store = "(string, time \<times> ti_report) pydict"

definition max_size :: nat where
  "max_size = 10000"

definition cache_key :: "string \<Rightarrow> string \<Rightarrow> string" where
  "cache_key ty ind = ty @ '':'' @ ind"

definition cache_get :: "time \<Rightarrow> string \<Rightarrow> ti_store \<Rightarrow> ti_report option \<times> ti_store" where
  "cache_get now key s =
     (case map_of s key of
        None \<Rightarrow> (None, s)
      | Some (expires_at, report) \<Rightarrow>
          if expires_at < now then (None, dict_del key s) else (Some report, dict_move_to_end key s))"

definition cache_set :: "time \<Rightarrow> string \<Rightarrow> ti_report \<Rightarrow> time \<Rightarrow> ti_store \<Rightarrow> ti_store" where
  "cache_set now key report ttl s =
     (let s1 = (if dict_has s key then dict_del key s
                else if max_size \<le> length s then dict_popfirst s else s)
      in dict_put key (now + ttl, report) s1)"

definition cache_close :: "ti_store \<Rightarrow> ti_store" where
  "cache_close s = []"

section \<open>The contract of a cache\<close>

text \<open>
  What a client may rely on: a hit is an unexpired entry of its key, storing makes the key a hit until
  it expires, and every other key keeps its entry or loses it.
\<close>

locale ti_cache =
  fixes look :: "'s \<Rightarrow> 'k \<Rightarrow> (time \<times> 'r) option"
    and get :: "time \<Rightarrow> 'k \<Rightarrow> 's \<Rightarrow> 'r option \<times> 's"
    and store :: "time \<Rightarrow> 'k \<Rightarrow> 'r \<Rightarrow> time \<Rightarrow> 's \<Rightarrow> 's"
    and ok :: "'s \<Rightarrow> bool"
  assumes get_result: "ok s \<Longrightarrow> fst (get now k s) =
      (case look s k of Some (e, r) \<Rightarrow> if e < now then None else Some r | None \<Rightarrow> None)"
    and get_keeps: "ok s \<Longrightarrow> look (snd (get now k s)) k' = look s k' \<or>
      (look (snd (get now k s)) k' = None \<and> (\<exists>e r. look s k' = Some (e, r) \<and> e < now))"
    and get_ok: "ok s \<Longrightarrow> ok (snd (get now k s))"
    and store_look: "ok s \<Longrightarrow> look (store now k r ttl s) k = Some (now + ttl, r)"
    and store_keeps: "ok s \<Longrightarrow> k' \<noteq> k \<Longrightarrow>
      look (store now k r ttl s) k' = look s k' \<or> look (store now k r ttl s) k' = None"
    and store_ok: "ok s \<Longrightarrow> ok (store now k r ttl s)"
begin

lemma get_after_store:
  "ok s \<Longrightarrow> t \<le> now + ttl \<Longrightarrow> fst (get t k (store now k r ttl s)) = Some r"
  by (simp add: get_result store_ok store_look)

text \<open>Every entry satisfies what all stored reports satisfied.\<close>

definition all_entries :: "('k \<Rightarrow> 'r \<Rightarrow> bool) \<Rightarrow> 's \<Rightarrow> bool" where
  "all_entries P s \<longleftrightarrow> (\<forall>k e r. look s k = Some (e, r) \<longrightarrow> P k r)"

lemma all_entries_get: "ok s \<Longrightarrow> all_entries P s \<Longrightarrow> all_entries P (snd (get now k s))"
  unfolding all_entries_def using get_keeps by (metis option.distinct(1))

lemma all_entries_store: "ok s \<Longrightarrow> all_entries P s \<Longrightarrow> P k r \<Longrightarrow> all_entries P (store now k r ttl s)"
  unfolding all_entries_def
  by (metis option.distinct(1) option.inject prod.inject store_keeps store_look)

lemma hit_sound: "ok s \<Longrightarrow> all_entries P s \<Longrightarrow> fst (get now k s) = Some r \<Longrightarrow> P k r"
  by (auto simp: get_result all_entries_def split: option.splits if_splits)

end

section \<open>The in-memory cache keeps the contract\<close>

definition cache_ok :: "ti_store \<Rightarrow> bool" where
  "cache_ok s \<longleftrightarrow> wf_dict s \<and> length s \<le> max_size"

lemma map_of_popfirst: "wf_dict d \<Longrightarrow> map_of (dict_popfirst d) k = map_of d k \<or> map_of (dict_popfirst d) k = None"
  by (cases d) (auto simp: dict_popfirst_def wf_dict_def map_of_eq_None_iff)

lemma cache_get_ok: "cache_ok s \<Longrightarrow> cache_ok (snd (cache_get now k s))"
  using length_dict_del_le [of k s]
  by (auto simp: cache_ok_def cache_get_def length_move_to_end split: option.splits)

lemma cache_set_ok: "cache_ok s \<Longrightarrow> cache_ok (cache_set now k r ttl s)"
proof (cases "dict_has s k")
  case True
  assume ok: "cache_ok s"
  from True obtain v where "map_of s k = Some v" by (auto simp: dict_has_iff)
  with ok have "Suc (length (dict_del k s)) \<le> max_size"
    using length_dict_del_Some [of s k v] by (simp add: cache_ok_def)
  with True ok show ?thesis
    by (auto simp: cache_ok_def cache_set_def Let_def length_dict_put)
next
  case False
  assume "cache_ok s"
  with False show ?thesis
    by (auto simp: cache_ok_def cache_set_def Let_def length_dict_put dict_popfirst_def max_size_def
        intro: wf_dict_put wf_dict_popfirst [unfolded dict_popfirst_def One_nat_def])
qed

interpretation mem: ti_cache "map_of :: ti_store \<Rightarrow> _" cache_get cache_set cache_ok
proof unfold_locales
  fix s :: ti_store and now ttl :: time and k k' :: string and r :: ti_report
  assume ok: "cache_ok s"
  show "fst (cache_get now k s) =
      (case map_of s k of Some (e, r) \<Rightarrow> if e < now then None else Some r | None \<Rightarrow> None)"
    by (auto simp: cache_get_def split: option.splits)
  show "map_of (snd (cache_get now k s)) k' = map_of s k' \<or>
      (map_of (snd (cache_get now k s)) k' = None \<and> (\<exists>e r. map_of s k' = Some (e, r) \<and> e < now))"
    by (auto simp: cache_get_def split: option.splits)
  show "cache_ok (snd (cache_get now k s))" by (rule cache_get_ok [OF ok])
  show "map_of (cache_set now k r ttl s) k = Some (now + ttl, r)"
    by (simp add: cache_set_def Let_def)
  show "cache_ok (cache_set now k r ttl s)" by (rule cache_set_ok [OF ok])
  show "map_of (cache_set now k r ttl s) k' = map_of s k' \<or> map_of (cache_set now k r ttl s) k' = None"
    if "k' \<noteq> k"
    using that map_of_popfirst [of s k'] ok by (auto simp: cache_set_def Let_def cache_ok_def)
qed

text \<open>The two indicator types never share a key.\<close>

lemma cache_key_inj:
  "ty \<in> {''ip'', ''hash''} \<Longrightarrow> ty' \<in> {''ip'', ''hash''} \<Longrightarrow>
     cache_key ty i = cache_key ty' i' \<longleftrightarrow> ty = ty' \<and> i = i'"
  by (auto simp: cache_key_def)

section \<open>Eviction\<close>

text \<open>The evicted entry of a full cache is the least recently used one: the first in the order in
  which keys were last stored or hit.\<close>

lemma cache_set_evicts_first:
  assumes "cache_ok s" and "length s = max_size" and "\<not> dict_has s k"
  shows "keys (cache_set now k r ttl s) = tl (keys s) @ [k]"
proof -
  have "k \<notin> fst ` set (drop 1 s)"
    using assms(3) by (auto simp: dict_has_def dest: in_set_dropD)
  then show ?thesis
    using assms by (simp add: cache_set_def keys_def keys_dict_put dict_popfirst_def drop_Suc map_tl)
qed

end
