(* ===== verification/Breaker.thy ===== *)
theory Breaker
  imports Machines
begin

text \<open>
  \<open>threat_intel/breaker.py\<close>, \<open>threat_intel/retry.py\<close> and the providers that combine them. A breaker call
  awaits the protected coroutine outside its lock, so calls overlap: a call is its two critical
  sections, \<open>enter\<close> and \<open>leave\<close>, and concurrent calls are interleavings of these steps.
\<close>

section \<open>The circuit breaker\<close>

datatype circuit = Closed | Open | HalfOpen

record breaker =
  br_fail_max :: nat
  br_reset :: time
  br_state :: circuit
  br_failures :: nat
  br_opened_at :: time
  br_probe :: bool

definition new_breaker :: "nat \<Rightarrow> time \<Rightarrow> breaker" where
  "new_breaker fail_max reset = \<lparr>br_fail_max = fail_max, br_reset = reset, br_state = Closed,
     br_failures = 0, br_opened_at = 0, br_probe = False\<rparr>"

definition enter :: "time \<Rightarrow> breaker \<Rightarrow> unit result \<times> breaker" where
  "enter now b =
     (if br_state b = Open \<and> \<not> br_reset b \<le> now - br_opened_at b then (Inl CircuitOpenError, b)
      else
        let b1 = (if br_state b = Open then b\<lparr>br_state := HalfOpen\<rparr> else b)
        in if br_state b1 = HalfOpen
           then if br_probe b1 then (Inl CircuitOpenError, b1) else (Inr (), b1\<lparr>br_probe := True\<rparr>)
           else (Inr (), b1))"

datatype call_end = Returned | Raised | Cancelled

definition after_failure :: "time \<Rightarrow> breaker \<Rightarrow> breaker" where
  "after_failure now b =
     (let b1 = b\<lparr>br_failures := Suc (br_failures b)\<rparr>;
          b2 = (if br_state b1 = HalfOpen \<or> br_fail_max b1 \<le> br_failures b1
                then (if br_state b1 \<noteq> Open then b1\<lparr>br_opened_at := now\<rparr> else b1)\<lparr>br_state := Open\<rparr>
                else b1)
      in b2\<lparr>br_probe := False\<rparr>)"

definition after_success :: "breaker \<Rightarrow> breaker" where
  "after_success b = b\<lparr>br_state := Closed, br_failures := 0, br_probe := False\<rparr>"

definition release :: "breaker \<Rightarrow> breaker" where
  "release b = (if br_state b = HalfOpen then b\<lparr>br_probe := False\<rparr> else b)"

fun leave :: "call_end \<Rightarrow> time \<Rightarrow> breaker \<Rightarrow> breaker" where
  "leave Raised now b = release (after_failure now b)"
| "leave Returned now b = release (after_success b)"
| "leave Cancelled now b = release b"

text \<open>A call that nothing overlaps.\<close>

definition call :: "time \<Rightarrow> time \<Rightarrow> ('a result) option \<Rightarrow> breaker \<Rightarrow> ('a result) option \<times> breaker" where
  "call now later body b =
     (case enter now b of
        (Inl e, b') \<Rightarrow> (Some (Inl e), b')
      | (Inr _, b') \<Rightarrow>
          (body, leave (case body of None \<Rightarrow> Cancelled | Some (Inl e) \<Rightarrow> Raised | Some (Inr a) \<Rightarrow> Returned) later b'))"

datatype breaker_op = Enter time | Leave call_end time

fun breaker_step :: "breaker_op \<Rightarrow> breaker \<Rightarrow> breaker" where
  "breaker_step (Enter now) b = snd (enter now b)"
| "breaker_step (Leave r now) b = leave r now b"

section \<open>Retries\<close>

text \<open>What one attempt of the HTTP call does: a value, an HTTP status error, a transient network error,
  or any other exception.\<close>

datatype 'a attempt = Value 'a | Status nat | Network | Other

text \<open>The loop, with the number of calls made; the delays between attempts are not modelled. \<open>fn k\<close> is the
  outcome of the k-th attempt.\<close>

function retry_loop :: "(nat \<Rightarrow> 'a attempt) \<Rightarrow> nat \<Rightarrow> nat \<Rightarrow> 'a option \<times> nat" where
  "retry_loop fn attempts k =
     (if attempts < k then (None, k - 1)
      else case fn k of
        Value a \<Rightarrow> (Some a, k)
      | Status code \<Rightarrow>
          (if code < 500 then (None, k) else if k = attempts then (None, k) else retry_loop fn attempts (Suc k))
      | Network \<Rightarrow> (if k = attempts then (None, k) else retry_loop fn attempts (Suc k))
      | Other \<Rightarrow> (None, k))"
  by pat_completeness auto
termination
  by (relation "measure (\<lambda>(fn, attempts, k). Suc attempts - k)") auto

declare retry_loop.simps [simp del]

definition retry_async :: "nat \<Rightarrow> (nat \<Rightarrow> 'a attempt) \<Rightarrow> 'a option \<times> nat" where
  "retry_async attempts fn = retry_loop fn attempts 1"

definition transient :: "'a attempt \<Rightarrow> bool" where
  "transient r = (case r of Status code \<Rightarrow> 500 \<le> code | Network \<Rightarrow> True | _ \<Rightarrow> False)"

section \<open>A provider lookup\<close>

text \<open>
  The shape both remote providers share (\<open>AbuseIPDBProvider.lookup_ip\<close>,
  \<open>VirusTotalProvider._lookup_with_retry\<close>): without an API key nothing is asked; otherwise one breaker
  call around three attempts, every exception turned into \<open>None\<close>. \<open>cancelled\<close> says that the caller's
  timeout cancelled the call, which the inner \<open>None\<close> reports.
\<close>

record 'a lookup_env =
  lk_now :: time
  lk_later :: time
  lk_fn :: "nat \<Rightarrow> 'a attempt"
  lk_cancelled :: bool

definition provider_lookup :: "string \<Rightarrow> 'a option lookup_env \<Rightarrow> breaker \<Rightarrow> 'a option option \<times> breaker" where
  "provider_lookup api_key env b =
     (if api_key = [] then (Some None, b)
      else
        let body = (if lk_cancelled env then None else Some (Inr (fst (retry_async 3 (lk_fn env)))));
            (r, b') = call (lk_now env) (lk_later env) body b
        in (case r of
              None \<Rightarrow> None
            | Some (Inl e) \<Rightarrow> Some None
            | Some (Inr None) \<Rightarrow> Some None
            | Some (Inr (Some x)) \<Rightarrow> Some x, b'))"

section \<open>Lemmas\<close>

lemma release_simps [simp]:
  "br_state (release b) = br_state b" "br_failures (release b) = br_failures b"
  "br_fail_max (release b) = br_fail_max b" "br_opened_at (release b) = br_opened_at b"
  "br_reset (release b) = br_reset b"
  by (simp_all add: release_def)

lemma leave_consts [simp]:
  "br_fail_max (leave r now b) = br_fail_max b" "br_reset (leave r now b) = br_reset b"
  by (cases r; simp add: after_failure_def after_success_def Let_def)+

lemma enter_consts [simp]:
  "br_fail_max (snd (enter now b)) = br_fail_max b" "br_reset (snd (enter now b)) = br_reset b"
  "br_failures (snd (enter now b)) = br_failures b" "br_opened_at (snd (enter now b)) = br_opened_at b"
  by (auto simp: enter_def Let_def)






lemma enter_closed: "br_state b = Closed \<Longrightarrow> enter now b = (Inr (), b)"
  by (simp add: enter_def)







lemma retry_loop_result:
  "k \<le> attempts \<Longrightarrow> retry_loop fn attempts k = (res, n) \<Longrightarrow>
     k \<le> n \<and> n \<le> attempts \<and> (\<forall>j. k \<le> j \<and> j < n \<longrightarrow> transient (fn j))
     \<and> res = (case fn n of Value a \<Rightarrow> Some a | _ \<Rightarrow> None)
     \<and> (transient (fn n) \<longrightarrow> n = attempts)"
proof (induction fn attempts k rule: retry_loop.induct)
  case (1 fn attempts k)
  show ?case
  proof (cases "transient (fn k) \<and> k < attempts")
    case True
    then have step: "retry_loop fn attempts k = retry_loop fn attempts (Suc k)"
      by (subst retry_loop.simps) (auto simp: transient_def split: attempt.splits)
    have "Suc k \<le> n \<and> n \<le> attempts \<and> (\<forall>j. Suc k \<le> j \<and> j < n \<longrightarrow> transient (fn j))
     \<and> res = (case fn n of Value a \<Rightarrow> Some a | _ \<Rightarrow> None) \<and> (transient (fn n) \<longrightarrow> n = attempts)"
    proof (cases "fn k")
      case (Status code)
      with True "1.IH"(1) "1.prems" step show ?thesis by (auto simp: transient_def)
    next
      case Network
      with True "1.IH"(2) "1.prems" step show ?thesis by auto
    qed (use True in \<open>auto simp: transient_def\<close>)
    moreover have "transient (fn j)" if "k \<le> j" "\<forall>j. Suc k \<le> j \<and> j < n \<longrightarrow> transient (fn j)" "j < n" for j
      using that True by (cases "j = k") auto
    ultimately show ?thesis by auto
  next
    case False
    then have "n = k \<and> res = (case fn k of Value a \<Rightarrow> Some a | _ \<Rightarrow> None)"
      using "1.prems" by (subst (asm) retry_loop.simps) (auto simp: transient_def split: attempt.splits if_splits)
    with False "1.prems"(1) show ?thesis by auto
  qed
qed

text \<open>A closed breaker around \<open>retry_async\<close> never sees a failure.\<close>

definition healthy :: "breaker \<Rightarrow> bool" where
  "healthy b \<longleftrightarrow> br_state b = Closed \<and> br_failures b = 0 \<and> \<not> br_probe b"

lemma provider_lookup_healthy: "healthy b \<Longrightarrow> healthy (snd (provider_lookup key env b))"
  by (auto simp: provider_lookup_def call_def enter_closed healthy_def after_success_def release_def Let_def)

interpretation pv: machine "\<lambda>(key, env) b. snd (provider_lookup key env b)" "\<lambda>b. \<exists>n t. b = new_breaker n t" healthy
proof unfold_locales
  show "healthy b" if "\<exists>n t. b = new_breaker n t" for b
    using that by (auto simp: healthy_def new_breaker_def)
qed (auto intro: provider_lookup_healthy)

section \<open>Properties\<close>



text \<open>A late success: the circuit that opened at 100 is closed at 110 by a call that began before.\<close>

lemma late_success_closes:
  "fst (enter 120 (run breaker_step (new_breaker 1 60) [Enter 90, Enter 95, Leave Raised 100, Leave Returned 110])) = Inr ()"
  by (simp add: new_breaker_def enter_def after_failure_def after_success_def release_def)

text \<open>The promise of one probe at a time fails: a call that started before the circuit opened can
  end, cancelled, while a probe is in flight, and frees the probe's slot, so a second probe is let in.\<close>

theorem two_probes_in_flight:
  "let b = run breaker_step (new_breaker 1 60)
             [Enter 0, Enter 0, Leave Raised 1, Enter 61, Leave Cancelled 62]
   in br_state b = HalfOpen \<and> fst (enter 63 b) = Inr ()"
  by (simp add: new_breaker_def enter_def after_failure_def release_def)

text \<open>A retried call makes between one and \<open>attempts\<close> calls, stops at the first one that is not a
  transient failure, returns that call's value, and gives up only at the last attempt.\<close>

lemma retry_bounded:
  assumes "0 < attempts" and "retry_async attempts fn = (res, n)"
  shows "1 \<le> n \<and> n \<le> attempts \<and> (\<forall>j. 1 \<le> j \<and> j < n \<longrightarrow> transient (fn j))
    \<and> res = (case fn n of Value a \<Rightarrow> Some a | _ \<Rightarrow> None) \<and> (transient (fn n) \<longrightarrow> n = attempts)"
  using retry_loop_result [of 1 attempts fn res n] assms by (simp add: retry_async_def)

text \<open>The circuit breaker of a provider never opens. The retry helper turns every exception into
  \<open>None\<close> before the breaker sees it, so after any sequence of lookups, whatever the remote service
  does and whichever are cancelled, the circuit is closed with no failure counted.\<close>

theorem provider_circuit_never_opens:
  "healthy (run (\<lambda>(key, env) b. snd (provider_lookup key env b)) (new_breaker fail_max reset) lookups)"
  by (rule pv.reachable_inv) blast

end
