(* ===== verification/TI_Client.thy ===== *)
theory TI_Client
  imports TI_Cache Breaker Bus
begin

text \<open>
  \<open>threat_intel/client.py\<close>, the parsing of the two remote providers, and \<open>workers/ti_worker.py\<close>: a
  validated indicator is answered from the cache or by all providers, aggregated and cached.
\<close>

section \<open>Validation\<close>

text \<open>The \<open>ipaddress\<close> parser is a parameter; \<open>ta_mapped\<close> is the IPv4 address an IPv4-mapped IPv6 address
  carries.\<close>

record addr_flags =
  af_private :: bool
  af_loopback :: bool
  af_link_local :: bool
  af_multicast :: bool

record ti_addr =
  ta_flags :: addr_flags
  ta_mapped :: "addr_flags option"

definition hex_char :: "char \<Rightarrow> bool" where
  "hex_char c \<longleftrightarrow> c \<in> set ''0123456789abcdefABCDEF''"

definition is_hash :: "string \<Rightarrow> bool" where
  "is_hash s \<longleftrightarrow> s \<noteq> [] \<and> list_all hex_char s \<and> length s \<in> {32, 40, 64}"

definition non_public :: "addr_flags \<Rightarrow> bool" where
  "non_public f \<longleftrightarrow> af_private f \<or> af_loopback f \<or> af_link_local f \<or> af_multicast f"

definition validate_indicator :: "(string \<Rightarrow> ti_addr option) \<Rightarrow> string \<Rightarrow> string \<Rightarrow> unit result" where
  "validate_indicator ip ind ty =
     (if ind = [] \<or> 256 < length ind then Inl ValueError
      else if ty = ''ip'' then
        (case ip ind of
           None \<Rightarrow> Inl ValueError
         | Some a \<Rightarrow>
             (let f = (case ta_mapped a of None \<Rightarrow> ta_flags a | Some m \<Rightarrow> m)
              in if non_public f then Inl ValueError else Inr ()))
      else if ty = ''hash'' then (if \<not> is_hash ind then Inl ValueError else Inr ())
      else Inr ())"

section \<open>Aggregation\<close>

definition aggregate ::
  "string \<Rightarrow> string \<Rightarrow> time \<Rightarrow> ti_report list \<Rightarrow> bool \<Rightarrow> aggregated_report" where
  "aggregate ind ty now reports unavailable =
     \<lparr>ag_indicator = ind, ag_indicator_type = ty,
      ag_max_score = fold (\<lambda>r m. if m < rp_score r then rp_score r else m) reports 0,
      ag_malicious = fold (\<lambda>r b. if rp_malicious r then True else b) reports False,
      ag_providers = List.map rp_provider reports,
      ag_tags = fold (\<lambda>r ts. append_all_new (rp_tags r) ts) reports [],
      ag_reports = reports, ag_queried_at = now, ag_unavailable = unavailable\<rparr>"

text \<open>The stub written to the cache, and reading it back: \<open>float\<close>, \<open>bool\<close> and the list validation on the
  values found in the raw dictionary.\<close>

definition aggregated_provider :: string where
  "aggregated_provider = ''_aggregated''"

definition stub_of :: "aggregated_report \<Rightarrow> ti_report" where
  "stub_of a = \<lparr>rp_indicator = ag_indicator a, rp_indicator_type = ag_indicator_type a,
     rp_score = ag_max_score a, rp_malicious = ag_malicious a, rp_provider = aggregated_provider,
     rp_tags = ag_tags a, rp_last_seen = None,
     rp_raw = [(''max_score'', JNum (ag_max_score a)), (''malicious'', JBool (ag_malicious a)),
       (''providers'', JList (List.map JStr (ag_providers a))), (''tags'', JList (List.map JStr (ag_tags a))),
       (''ti_unavailable'', JBool (ag_unavailable a))],
     rp_cached_at = ag_queried_at a\<rparr>"

fun py_float :: "json \<Rightarrow> pyfloat result" where
  "py_float (JNum x) = Inr x"
| "py_float (JInt n) = Inr (of_int n)"
| "py_float (JBool b) = Inr (if b then 1 else 0)"
| "py_float _ = Inl TypeError"

definition raw_get :: "ti_report \<Rightarrow> string \<Rightarrow> json \<Rightarrow> json" where
  "raw_get r k dflt = (case map_of (rp_raw r) k of None \<Rightarrow> dflt | Some v \<Rightarrow> v)"

definition from_stub :: "ti_report \<Rightarrow> aggregated_report result" where
  "from_stub c =
     bind_result (py_float (raw_get c ''max_score'' (JNum (rp_score c)))) (\<lambda>score.
     bind_result (str_list (raw_get c ''providers'' (JList []))) (\<lambda>provs.
     bind_result (str_list (raw_get c ''tags'' (JList (List.map JStr (rp_tags c))))) (\<lambda>tags.
       Inr \<lparr>ag_indicator = rp_indicator c, ag_indicator_type = rp_indicator_type c,
         ag_max_score = score, ag_malicious = py_bool (raw_get c ''malicious'' (JBool (rp_malicious c))),
         ag_providers = provs, ag_tags = tags, ag_reports = [], ag_queried_at = rp_cached_at c,
         ag_unavailable = py_bool (raw_get c ''ti_unavailable'' (JBool False))\<rparr>)))"

section \<open>The lookup\<close>

text \<open>
  What the providers answer during one lookup: \<open>None\<close> when the common timeout fires, otherwise per
  provider an exception or an optional report.
\<close>

record ti_env =
  te_ip :: "string \<Rightarrow> ti_addr option"
  te_answers :: "(ti_report option result) list option"
  te_now :: time

record ti_client =
  tc_providers :: nat
  tc_ttl :: int

definition short_unavailable_ttl :: int where
  "short_unavailable_ttl = 60"

definition reports_of :: "(ti_report option result) list option \<Rightarrow> ti_report list" where
  "reports_of answers =
     (case answers of None \<Rightarrow> [] | Some rs \<Rightarrow> List.map_filter (\<lambda>r. case r of Inr x \<Rightarrow> x | Inl e \<Rightarrow> None) rs)"

definition error_count :: "(ti_report option result) list option \<Rightarrow> nat" where
  "error_count answers =
     (case answers of None \<Rightarrow> 0 | Some rs \<Rightarrow> length (filter (\<lambda>r. \<not> is_ok r) rs))"

definition no_results :: "(ti_report option result) list option \<Rightarrow> bool" where
  "no_results answers \<longleftrightarrow> (case answers of None \<Rightarrow> True | Some rs \<Rightarrow> rs = [])"

definition query ::
  "ti_client \<Rightarrow> ti_env \<Rightarrow> string \<Rightarrow> string \<Rightarrow> ti_store \<Rightarrow> aggregated_report result \<times> ti_store" where
  "query c env ind ty s =
     (let reports = reports_of (te_answers env);
          unavailable = (0 < tc_providers c \<and> reports = []
            \<and> (0 < error_count (te_answers env) \<or> no_results (te_answers env)));
          a = aggregate ind ty (te_now env) reports unavailable
      in case make_report (stub_of a) of
           Inl e \<Rightarrow> (Inl e, s)
         | Inr stub \<Rightarrow>
             (Inr a, cache_set (te_now env) (cache_key ty ind) stub
                (seconds (if ag_unavailable a then short_unavailable_ttl else tc_ttl c)) s))"

definition lookup ::
  "ti_client \<Rightarrow> ti_env \<Rightarrow> string \<Rightarrow> string \<Rightarrow> ti_store \<Rightarrow> aggregated_report result \<times> ti_store" where
  "lookup c env ind ty s =
     (case validate_indicator (te_ip env) ind ty of
        Inl e \<Rightarrow> (Inl e, s)
      | Inr _ \<Rightarrow>
          (case cache_get (te_now env) (cache_key ty ind) s of
             (Some cached, s1) \<Rightarrow>
               (if rp_provider cached = aggregated_provider then (from_stub cached, s1)
                else query c env ind ty s1)
           | (None, s1) \<Rightarrow> query c env ind ty s1))"

text \<open>\<open>lookup_alert_indicators\<close>: an alert has no \<open>src_ip\<close> attribute, so only \<open>dst_ip\<close> counts.\<close>

definition lookup_alert_indicators ::
  "ti_client \<Rightarrow> ti_env \<Rightarrow> string option \<Rightarrow> ti_store \<Rightarrow> aggregated_report option result \<times> ti_store" where
  "lookup_alert_indicators c env dst_ip s =
     (case dst_ip of
        None \<Rightarrow> (Inr None, s)
      | Some ip \<Rightarrow> if ip = [] then (Inr None, s)
                   else seq_res (lookup c env ip ''ip'' s) (\<lambda>a s'. (Inr (Some a), s')))"

section \<open>Parsing the providers' answers\<close>

text \<open>VirusTotal: the share of engines with a verdict that flag the indicator, in percent.\<close>

definition vt_score :: "int \<Rightarrow> int \<Rightarrow> int \<Rightarrow> pyfloat" where
  "vt_score malicious suspicious harmless =
     (let total = malicious + suspicious + harmless
      in if total = 0 then 0 else (of_int malicious + of_int suspicious * (1/2)) / of_int total * 100)"

definition vt_threshold :: pyfloat where
  "vt_threshold = 10"

fun vt_tags :: "string list \<Rightarrow> string list \<Rightarrow> string list" where
  "vt_tags [] tags = tags"
| "vt_tags (label # ls) tags =
     (if label \<noteq> [] \<and> label \<notin> set tags
      then (if 10 \<le> length (tags @ [label]) then tags @ [label] else vt_tags ls (tags @ [label]))
      else vt_tags ls tags)"

definition vt_report ::
  "time \<Rightarrow> string \<Rightarrow> string \<Rightarrow> int \<Rightarrow> int \<Rightarrow> int \<Rightarrow> string list \<Rightarrow> int option \<Rightarrow> (string, json) pydict \<Rightarrow> ti_report result" where
  "vt_report now ind ty malicious suspicious harmless labels date raw =
     (let score = vt_score malicious suspicious harmless
      in make_report \<lparr>rp_indicator = ind, rp_indicator_type = ty, rp_score = min score 100,
           rp_malicious = (vt_threshold \<le> score), rp_provider = ''virustotal'', rp_tags = vt_tags labels [],
           rp_last_seen = (case date of None \<Rightarrow> None | Some d \<Rightarrow> if d = 0 then None else Some (seconds d)),
           rp_raw = raw, rp_cached_at = now\<rparr>)"

text \<open>AbuseIPDB: the categories are a set, whose iteration order \<open>order\<close> the language leaves open.\<close>

definition category_map :: "(int \<times> string) list" where
  "category_map = [(18, ''brute-force''), (22, ''ssh''), (14, ''port-scan''), (20, ''exploited''), (21, ''web-attack'')]"

definition abuse_report ::
  "(int set \<Rightarrow> int list) \<Rightarrow> time \<Rightarrow> string \<Rightarrow> pyfloat \<Rightarrow> bool \<Rightarrow> int list \<Rightarrow> time option \<Rightarrow> (string, json) pydict \<Rightarrow> ti_report result" where
  "abuse_report order now ip confidence whitelisted categories last_seen raw =
     make_report \<lparr>rp_indicator = ip, rp_indicator_type = ''ip'', rp_score = confidence,
       rp_malicious = (0 < confidence \<and> \<not> whitelisted), rp_provider = ''abuseipdb'',
       rp_tags = List.map_filter (map_of category_map) (order (set categories)),
       rp_last_seen = last_seen, rp_raw = raw, rp_cached_at = now\<rparr>"

section \<open>The worker\<close>

text \<open>Each lookup of one message sees its own environment; \<open>skip\<close> is what the worker's own address test
  says.\<close>

record ti_totals =
  tt_score :: pyfloat
  tt_malicious :: bool
  tt_tags :: "string list"

definition merge_report :: "aggregated_report \<Rightarrow> ti_totals \<Rightarrow> ti_totals" where
  "merge_report a t =
     \<lparr>tt_score = (if tt_score t < ag_max_score a then ag_max_score a else tt_score t),
      tt_malicious = (ag_malicious a \<or> tt_malicious t),
      tt_tags = append_all_new (ag_tags a) (tt_tags t)\<rparr>"

definition worker_skips_ip :: "(string \<Rightarrow> ti_addr option) \<Rightarrow> string \<Rightarrow> bool" where
  "worker_skips_ip ip s =
     (case ip s of None \<Rightarrow> True | Some a \<Rightarrow>
        af_private (ta_flags a) \<or> af_loopback (ta_flags a) \<or> af_link_local (ta_flags a))"

fun enrich_loop ::
  "ti_client \<Rightarrow> string \<Rightarrow> (ti_env \<times> string) list \<Rightarrow> ti_totals \<times> ti_store \<Rightarrow> ti_totals \<times> ti_store" where
  "enrich_loop c ty [] ts = ts"
| "enrich_loop c ty ((env, ind) # is) (t, s) =
     (if ty = ''ip'' \<and> worker_skips_ip (te_ip env) ind then enrich_loop c ty is (t, s)
      else case lookup c env ind ty s of
        (Inl e, s1) \<Rightarrow> enrich_loop c ty is (t, s1)
      | (Inr a, s1) \<Rightarrow> enrich_loop c ty is (merge_report a t, s1))"

record ti_worker =
  tw_cache :: ti_store
  tw_bus :: bus_log
  tw_flagged :: "string list"
  tw_processed :: nat
  tw_malicious :: nat

definition enriched_message :: "string \<Rightarrow> ti_totals \<Rightarrow> json" where
  "enriched_message alert_id t =
     JObj [(''alert_id'', JStr alert_id), (''ti_score'', JNum (tt_score t)),
           (''malicious'', JBool (tt_malicious t)), (''tags'', JList (List.map JStr (tt_tags t)))]"

definition ti_process ::
  "ti_client \<Rightarrow> (nat \<Rightarrow> bool) \<Rightarrow> (string \<Rightarrow> bool) \<Rightarrow> string \<Rightarrow> (ti_env \<times> string) list \<Rightarrow> (ti_env \<times> string) list
   \<Rightarrow> ti_worker \<Rightarrow> ti_worker" where
  "ti_process c bus_ok flag_ok alert_id ips hashes w =
     (if alert_id = [] then w
      else
        let (t, s) = enrich_loop c ''hash'' hashes
              (enrich_loop c ''ip'' ips (\<lparr>tt_score = 0, tt_malicious = False, tt_tags = []\<rparr>, tw_cache w))
        in w\<lparr>tw_cache := s,
             tw_processed := Suc (tw_processed w),
             tw_malicious := (if tt_malicious t then Suc (tw_malicious w) else tw_malicious w),
             tw_flagged := (if tt_malicious t \<and> flag_ok alert_id then tw_flagged w @ [alert_id] else tw_flagged w),
             tw_bus := snd (publish bus_ok ''alerts:enriched'' (enriched_message alert_id t) (tw_bus w))\<rparr>)"

section \<open>Lemmas\<close>

lemma str_items_map [simp]: "str_items (List.map JStr ss) = Inr ss"
  by (induction ss) auto

lemma from_stub_of: "from_stub (stub_of a) = Inr (a\<lparr>ag_reports := []\<rparr>)"
  by (simp add: from_stub_def stub_of_def raw_get_def)

lemma max_fold: "m \<le> fold (\<lambda>r m. if m < rp_score r then rp_score r else m) rs m
    \<and> (\<forall>r \<in> set rs. rp_score r \<le> fold (\<lambda>r m. if m < rp_score r then rp_score r else m) rs m)"
proof (induction rs arbitrary: m)
  case (Cons r rs)
  show ?case using Cons [of m] Cons [of "rp_score r"] by (auto intro: order_trans)
qed simp

lemma max_fold_mem: "fold (\<lambda>r m. if m < rp_score r then rp_score r else m) rs m \<in> insert m (rp_score ` set rs)"
proof (induction rs arbitrary: m)
  case (Cons r rs)
  show ?case using Cons [of m] Cons [of "rp_score r"] by auto
qed simp

lemma any_fold: "fold (\<lambda>r b. if rp_malicious r then True else b) rs b \<longleftrightarrow> b \<or> (\<exists>r \<in> set rs. rp_malicious r)"
  by (induction rs arbitrary: b) auto

lemma tags_fold: "set (fold (\<lambda>r ts. append_all_new (rp_tags r) ts) rs ts) = (\<Union>r \<in> set rs. set (rp_tags r)) \<union> set ts
    \<and> (distinct ts \<longrightarrow> distinct (fold (\<lambda>r ts. append_all_new (rp_tags r) ts) rs ts))"
  by (induction rs arbitrary: ts) auto

lemma aggregate_score_bounds:
  "list_all valid_report reports \<Longrightarrow>
     0 \<le> ag_max_score (aggregate ind ty now reports u) \<and> ag_max_score (aggregate ind ty now reports u) \<le> 100"
  using max_fold_mem [of reports 0] max_fold [of 0 reports]
  by (auto simp: aggregate_def list_all_iff valid_report_def)

lemma stub_valid:
  "list_all valid_report reports \<Longrightarrow> ty \<in> {''ip'', ''hash''} \<Longrightarrow>
     make_report (stub_of (aggregate ind ty now reports u)) = Inr (stub_of (aggregate ind ty now reports u))"
  using aggregate_score_bounds [of reports ind ty now u]
  by (auto simp: make_report_def valid_report_def stub_of_def aggregate_def)

lemma vt_score_nonneg_le:
  assumes "0 \<le> m" "0 \<le> s" "0 \<le> h"
  shows "0 \<le> vt_score m s h \<and> vt_score m s h \<le> 100"
proof (cases "m + s + h = 0")
  case False
  with assms have pos: "(0::rat) < of_int (m + s + h)" by (simp only: of_int_0_less_iff)
  have "(of_int m + of_int s * (1/2) :: rat) \<le> of_int (m + s + h)"
    using assms by (simp add: field_simps)
  define x :: rat where "x = (of_int m + of_int s * (1/2)) / of_int (m + s + h)"
  then have "x \<le> 1" using pos \<open>_ \<le> of_int (m + s + h)\<close> by simp
  moreover have "0 \<le> x" unfolding x_def using assms pos by (intro divide_nonneg_pos) simp_all
  moreover have "vt_score m s h = x * 100" using False by (simp only: vt_score_def Let_def x_def if_False)
  ultimately show ?thesis by simp
qed (simp add: vt_score_def)

text \<open>Every cached entry is the stub of an aggregate, under the key of its indicator.\<close>

definition entry_ok :: "string \<Rightarrow> ti_report \<Rightarrow> bool" where
  "entry_ok key r \<longleftrightarrow> (\<exists>a. r = stub_of a) \<and> valid_report r
     \<and> key = cache_key (rp_indicator_type r) (rp_indicator r)"

definition store_inv :: "ti_store \<Rightarrow> bool" where
  "store_inv s \<longleftrightarrow> cache_ok s \<and> mem.all_entries entry_ok s"

lemma store_inv_empty: "store_inv []"
  by (simp add: store_inv_def cache_ok_def mem.all_entries_def)

definition good_answers :: "(ti_report option result) list option \<Rightarrow> bool" where
  "good_answers ans \<longleftrightarrow> list_all valid_report (reports_of ans)"

lemma query_result:
  assumes "good_answers (te_answers env)" and "ty \<in> {''ip'', ''hash''}"
  shows "\<exists>u. fst (query c env ind ty s) = Inr (aggregate ind ty (te_now env) (reports_of (te_answers env)) u)
    \<and> snd (query c env ind ty s) = cache_set (te_now env) (cache_key ty ind)
        (stub_of (aggregate ind ty (te_now env) (reports_of (te_answers env)) u))
        (seconds (if u then short_unavailable_ttl else tc_ttl c)) s"
proof -
  have "ag_unavailable (aggregate ind ty now rs u) = u" for now rs u by (simp add: aggregate_def)
  then show ?thesis
    using stub_valid [of "reports_of (te_answers env)" ty ind "te_now env"] assms
    by (auto simp: query_def Let_def good_answers_def)
qed

lemma query_inv:
  assumes "store_inv s" and "good_answers (te_answers env)" and "ty \<in> {''ip'', ''hash''}"
  shows "store_inv (snd (query c env ind ty s))"
proof -
  obtain u where q: "snd (query c env ind ty s) = cache_set (te_now env) (cache_key ty ind)
        (stub_of (aggregate ind ty (te_now env) (reports_of (te_answers env)) u))
        (seconds (if u then short_unavailable_ttl else tc_ttl c)) s"
    using query_result [OF assms(2,3)] by blast
  let ?a = "aggregate ind ty (te_now env) (reports_of (te_answers env)) u"
  have "valid_report (stub_of ?a)"
    using stub_valid [of "reports_of (te_answers env)" ty ind "te_now env" u] assms(2,3)
    by (auto simp: make_report_def good_answers_def split: if_splits)
  then have "entry_ok (cache_key ty ind) (stub_of ?a)"
    by (auto simp: entry_ok_def) (simp add: stub_of_def aggregate_def)
  then show ?thesis
    using assms(1) unfolding q store_inv_def by (auto intro: mem.all_entries_store cache_set_ok)
qed

lemma get_inv: "store_inv s \<Longrightarrow> store_inv (snd (cache_get now k s))"
  unfolding store_inv_def by (auto intro: mem.all_entries_get cache_get_ok)

lemma get_hit: "store_inv s \<Longrightarrow> fst (cache_get now k s) = Some r \<Longrightarrow> entry_ok k r"
  unfolding store_inv_def by (auto intro: mem.hit_sound)

section \<open>Properties\<close>

text \<open>The cache never answers for another indicator: starting from a cache that holds only what
  lookups stored, every successful lookup returns a report about the indicator and the type asked
  for, with a score in [0, 100], and leaves such a cache of bounded size.\<close>

theorem lookup_answers_the_question:
  assumes "store_inv s" and "good_answers (te_answers env)" and "ty \<in> {''ip'', ''hash''}"
    and "lookup c env ind ty s = (Inr a, s')"
  shows "ag_indicator a = ind \<and> ag_indicator_type a = ty \<and> 0 \<le> ag_max_score a \<and> ag_max_score a \<le> 100
    \<and> store_inv s' \<and> length s' \<le> max_size"
proof -
  from assms(4) have v: "validate_indicator (te_ip env) ind ty = Inr ()"
    by (auto simp: lookup_def split: sum.splits)
  obtain hit s1 where g: "cache_get (te_now env) (cache_key ty ind) s = (hit, s1)"
    by (cases "cache_get (te_now env) (cache_key ty ind) s")
  have inv1: "store_inv s1" using get_inv [OF assms(1), of "te_now env" "cache_key ty ind"] g by simp
  have q: "ag_indicator a = ind \<and> ag_indicator_type a = ty \<and> 0 \<le> ag_max_score a \<and> ag_max_score a \<le> 100
      \<and> store_inv s'" if "query c env ind ty s1 = (Inr a, s')"
  proof -
    obtain u where "a = aggregate ind ty (te_now env) (reports_of (te_answers env)) u"
      using query_result [OF assms(2,3), of c ind s1] \<open>query c env ind ty s1 = (Inr a, s')\<close> by auto
    then show ?thesis
      using query_inv [OF inv1 assms(2,3), of c ind] that
        aggregate_score_bounds [of "reports_of (te_answers env)" ind ty "te_now env" u] assms(2)
      by (simp add: aggregate_def good_answers_def)
  qed
  have "ag_indicator a = ind \<and> ag_indicator_type a = ty \<and> 0 \<le> ag_max_score a \<and> ag_max_score a \<le> 100
      \<and> store_inv s'"
  proof (cases hit)
    case None
    then show ?thesis using assms(4) v g q by (simp add: lookup_def)
  next
    case (Some r)
    then have "entry_ok (cache_key ty ind) r"
      using get_hit [OF assms(1), of "te_now env" "cache_key ty ind"] g by simp
    then obtain b where b: "r = stub_of b" "valid_report (stub_of b)"
      "cache_key ty ind = cache_key (ag_indicator_type b) (ag_indicator b)"
      by (auto simp: entry_ok_def stub_of_def)
    then have "ty = ag_indicator_type b" "ind = ag_indicator b" "0 \<le> ag_max_score b" "ag_max_score b \<le> 100"
      using assms(3) cache_key_inj [of ty "ag_indicator_type b" ind "ag_indicator b"]
      by (auto simp: valid_report_def stub_of_def)
    moreover have "rp_provider r = aggregated_provider" by (simp add: b(1) stub_of_def)
    ultimately show ?thesis
      using assms(4) v g Some inv1 by (auto simp: lookup_def b(1) from_stub_of)
  qed
  then show ?thesis by (auto simp: store_inv_def cache_ok_def)
qed

definition sample_ti_env :: ti_env where
  "sample_ti_env = \<lparr>te_ip = \<lambda>_. Some \<lparr>ta_flags = \<lparr>af_private = False, af_loopback = False,
       af_link_local = False, af_multicast = False\<rparr>, ta_mapped = None\<rparr>,
     te_answers = Some [Inr None], te_now = 0\<rparr>"

lemma sample_lookup:
  "\<exists>a s. lookup \<lparr>tc_providers = 1, tc_ttl = 3600\<rparr> sample_ti_env ''203.0.113.7'' ''ip'' [] = (Inr a, s)"
  by (simp add: lookup_def validate_indicator_def sample_ti_env_def non_public_def cache_get_def query_def
      reports_of_def List.map_filter_def aggregate_def stub_of_def make_report_def valid_report_def Let_def)

theorem lookup_answers_the_question_witness:
  "\<exists>a s. lookup \<lparr>tc_providers = 1, tc_ttl = 3600\<rparr> sample_ti_env ''203.0.113.7'' ''ip'' [] = (Inr a, s)
     \<and> ag_indicator a = ''203.0.113.7''"
proof -
  obtain a s where l: "lookup \<lparr>tc_providers = 1, tc_ttl = 3600\<rparr> sample_ti_env ''203.0.113.7'' ''ip'' [] = (Inr a, s)"
    using sample_lookup by blast
  from lookup_answers_the_question [OF store_inv_empty _ _ l] l show ?thesis
    by (auto simp: good_answers_def sample_ti_env_def reports_of_def List.map_filter_def)
qed

text \<open>A lookup answered by the providers is repeated from the cache: until its time to live ends,
  asking again gives the same aggregate, without the individual reports, whatever the providers
  would answer then.\<close>

theorem repeated_lookup_cached:
  assumes "store_inv s" and "good_answers (te_answers env)" and "ty \<in> {''ip'', ''hash''}"
    and "lookup c env ind ty s = (Inr a, s')" and "fst (cache_get (te_now env) (cache_key ty ind) s) = None"
    and "te_ip env' = te_ip env"
    and "te_now env' \<le> te_now env + seconds (if ag_unavailable a then short_unavailable_ttl else tc_ttl c)"
  shows "fst (lookup c env' ind ty s') = Inr (a\<lparr>ag_reports := []\<rparr>)"
proof -
  from assms(4) have v: "validate_indicator (te_ip env) ind ty = Inr ()"
    by (auto simp: lookup_def split: sum.splits)
  obtain s1 where g: "cache_get (te_now env) (cache_key ty ind) s = (None, s1)"
    using assms(5) by (cases "cache_get (te_now env) (cache_key ty ind) s") auto
  then have ok: "cache_ok s1"
    using cache_get_ok [of s "te_now env" "cache_key ty ind"] assms(1) by (simp add: store_inv_def)
  from assms(4) v g have "query c env ind ty s1 = (Inr a, s')" by (simp add: lookup_def)
  with query_result [OF assms(2,3), of c ind s1] obtain u where
    a: "a = aggregate ind ty (te_now env) (reports_of (te_answers env)) u"
    and s': "s' = cache_set (te_now env) (cache_key ty ind) (stub_of a)
      (seconds (if u then short_unavailable_ttl else tc_ttl c)) s1" by auto
  have "fst (cache_get (te_now env') (cache_key ty ind) s') = Some (stub_of a)"
    unfolding s' using assms(7) a by (intro mem.get_after_store [OF ok]) (simp add: aggregate_def)
  then obtain s2 where "cache_get (te_now env') (cache_key ty ind) s' = (Some (stub_of a), s2)"
    by (cases "cache_get (te_now env') (cache_key ty ind) s'") auto
  then show ?thesis
    using v assms(6) by (simp add: lookup_def from_stub_of) (simp add: stub_of_def)
qed

theorem repeated_lookup_cached_witness:
  "\<exists>a s. lookup \<lparr>tc_providers = 1, tc_ttl = 3600\<rparr> sample_ti_env ''203.0.113.7'' ''ip'' [] = (Inr a, s)
     \<and> fst (lookup \<lparr>tc_providers = 1, tc_ttl = 3600\<rparr> (sample_ti_env\<lparr>te_answers := None\<rparr>) ''203.0.113.7'' ''ip'' s)
         = Inr (a\<lparr>ag_reports := []\<rparr>)"
proof -
  obtain a s where l: "lookup \<lparr>tc_providers = 1, tc_ttl = 3600\<rparr> sample_ti_env ''203.0.113.7'' ''ip'' [] = (Inr a, s)"
    using sample_lookup by blast
  have "fst (lookup \<lparr>tc_providers = 1, tc_ttl = 3600\<rparr> (sample_ti_env\<lparr>te_answers := None\<rparr>) ''203.0.113.7'' ''ip'' s)
      = Inr (a\<lparr>ag_reports := []\<rparr>)"
    by (rule repeated_lookup_cached [OF store_inv_empty _ _ l])
      (auto simp: good_answers_def sample_ti_env_def reports_of_def List.map_filter_def cache_get_def
        seconds_def short_unavailable_ttl_def)
  with l show ?thesis by blast
qed

text \<open>An outage of the providers is cached as a clean verdict for the full time to live. A remote
  provider turns every failure into "no report" (never into an error), and when that is all the
  providers say, the aggregate claims to be available and is stored for \<open>tc_ttl\<close>, not for the short
  time meant for unavailable results.\<close>

theorem outage_cached_as_clean:
  assumes "ty \<in> {''ip'', ''hash''}" and "0 < tc_providers c" and "api_key \<noteq> []"
    and "\<And>k. lk_fn call_env k \<in> {Status 503, Network, Other}" and "\<not> lk_cancelled call_env"
    and "te_answers env = Some (replicate (tc_providers c)
           (Inr (the (fst (provider_lookup api_key call_env (new_breaker 5 reset))))))"
  shows "\<exists>a. query c env ind ty s = (Inr a, cache_set (te_now env) (cache_key ty ind) (stub_of a) (seconds (tc_ttl c)) s)
    \<and> \<not> ag_unavailable a \<and> ag_max_score a = 0 \<and> \<not> ag_malicious a"
proof -
  obtain r n where r: "retry_async 3 (lk_fn call_env) = (r, n)" by (cases "retry_async 3 (lk_fn call_env)")
  then have "r = (case lk_fn call_env n of Value a \<Rightarrow> Some a | _ \<Rightarrow> None)"
    using retry_loop_result [of 1 3 "lk_fn call_env" r n] by (simp add: retry_async_def)
  with assms(4) [of n] have "r = None" by auto
  with r assms(3,5) have "fst (provider_lookup api_key call_env (new_breaker 5 reset)) = Some None"
    by (simp add: provider_lookup_def call_def enter_def new_breaker_def Let_def)
  with assms(6) have ans: "te_answers env = Some (replicate (tc_providers c) (Inr None))" by simp
  have none: "List.map_filter (\<lambda>r. case r of Inr x \<Rightarrow> x | Inl e \<Rightarrow> None) (replicate k (Inr None)) = []" for k
    by (induction k) (simp_all add: List.map_filter_simps)
  have "reports_of (te_answers env) = []"
    unfolding ans reports_of_def by (simp add: none)
  moreover have "error_count (te_answers env) = 0" "\<not> no_results (te_answers env)"
    using ans assms(2) by (auto simp: error_count_def no_results_def filter_replicate)
  ultimately show ?thesis
    using assms(1)
    by (auto simp: query_def Let_def aggregate_def stub_of_def make_report_def valid_report_def)
qed

theorem outage_cached_as_clean_witness:
  "\<exists>a. query \<lparr>tc_providers = 1, tc_ttl = 3600\<rparr> sample_ti_env ''203.0.113.7'' ''ip'' [] =
       (Inr a, cache_set 0 (cache_key ''ip'' ''203.0.113.7'') (stub_of a) (seconds 3600) [])
     \<and> \<not> ag_unavailable a"
proof -
  let ?call = "\<lparr>lk_now = 0, lk_later = 1, lk_fn = \<lambda>_. Network, lk_cancelled = False\<rparr> :: ti_report option lookup_env"
  have "\<exists>a. query \<lparr>tc_providers = 1, tc_ttl = 3600\<rparr> sample_ti_env ''203.0.113.7'' ''ip'' [] =
       (Inr a, cache_set (te_now sample_ti_env) (cache_key ''ip'' ''203.0.113.7'') (stub_of a)
          (seconds (tc_ttl \<lparr>tc_providers = 1, tc_ttl = 3600\<rparr>)) [])
     \<and> \<not> ag_unavailable a \<and> ag_max_score a = 0 \<and> \<not> ag_malicious a"
    by (rule outage_cached_as_clean [where api_key = "''k''" and call_env = ?call and reset = 60])
      (simp_all add: sample_ti_env_def provider_lookup_def call_def enter_def new_breaker_def Let_def
        retry_async_def retry_loop.simps)
  then show ?thesis by (auto simp: sample_ti_env_def)
qed

end
