(* ===== verification/Response_Actions.thy ===== *)
theory Response_Actions
  imports Executor Machines
begin

text \<open>
  \<open>storage/repositories/response_actions.py\<close>, the rollback route of
  \<open>api/routers/response_actions.py\<close> and \<open>ReportActions\<close> of \<open>ingest/grpc_service.py\<close>: the life of a
  response action from the command sent to an agent to its report and its rollback.
\<close>

section \<open>The repository\<close>

datatype action_status = PendingReport | Executed | Failed | RolledBack

fun action_status_str :: "action_status \<Rightarrow> string" where
  "action_status_str PendingReport = ''pending_report''"
| "action_status_str Executed = ''executed''"
| "action_status_str Failed = ''failed''"
| "action_status_str RolledBack = ''rolled_back''"

record action_row =
  ra_command_id :: string
  ra_decision_id :: string
  ra_agent_cn :: string
  ra_command_type :: string
  ra_payload :: string
  ra_status :: action_status
  ra_created_at :: time
  ra_executed_at :: "time option"
  ra_rolled_back_at :: "time option"
  ra_error :: "string option"

type_synonym action_table = "(string, action_row) pydict"

definition action_create ::
  "time \<Rightarrow> string \<Rightarrow> string \<Rightarrow> string \<Rightarrow> string \<Rightarrow> string \<Rightarrow> action_table \<Rightarrow> action_row result \<times> action_table" where
  "action_create now cid did cn ctype payload t =
     (if dict_has t cid then (Inl (OtherError ''IntegrityError''), t)
      else
        let row = \<lparr>ra_command_id = cid, ra_decision_id = did, ra_agent_cn = cn, ra_command_type = ctype,
              ra_payload = payload, ra_status = PendingReport, ra_created_at = now, ra_executed_at = None,
              ra_rolled_back_at = None, ra_error = None\<rparr>
        in (Inr row, t @ [(cid, row)]))"

definition action_list ::
  "string option \<Rightarrow> string option \<Rightarrow> nat \<Rightarrow> nat \<Rightarrow> action_table \<Rightarrow> action_row list" where
  "action_list cn st limit offset t =
     page_of offset limit (sort_desc ra_created_at (filter (\<lambda>r.
         (case cn of None \<Rightarrow> True | Some c \<Rightarrow> c = [] \<or> ra_agent_cn r = c)
       \<and> (case st of None \<Rightarrow> True | Some s \<Rightarrow> s = [] \<or> action_status_str (ra_status r) = s))
       (List.map snd t)))"

text \<open>The three guarded updates: \<open>UPDATE ... WHERE command_id = k AND status = s\<close>.\<close>

datatype transition = MarkExecuted time | MarkFailed string | MarkRolledBack time

fun allowed :: "transition \<Rightarrow> action_row \<Rightarrow> bool" where
  "allowed (MarkExecuted now) r \<longleftrightarrow> ra_status r = PendingReport"
| "allowed (MarkFailed err) r \<longleftrightarrow> ra_status r = PendingReport"
| "allowed (MarkRolledBack now) r \<longleftrightarrow> ra_status r = Executed"

fun apply_transition :: "transition \<Rightarrow> action_row \<Rightarrow> action_row" where
  "apply_transition (MarkExecuted now) r = r\<lparr>ra_status := Executed, ra_executed_at := Some now\<rparr>"
| "apply_transition (MarkFailed err) r = r\<lparr>ra_status := Failed, ra_error := Some err\<rparr>"
| "apply_transition (MarkRolledBack now) r = r\<lparr>ra_status := RolledBack, ra_rolled_back_at := Some now\<rparr>"

definition mark :: "transition \<Rightarrow> string \<Rightarrow> action_table \<Rightarrow> bool \<times> action_table" where
  "mark tr cid t =
     (case map_of t cid of
        Some r \<Rightarrow> if allowed tr r then (True, dict_put cid (apply_transition tr r) t) else (False, t)
      | None \<Rightarrow> (False, t))"

definition mark_executed :: "time \<Rightarrow> string \<Rightarrow> action_table \<Rightarrow> bool \<times> action_table" where
  "mark_executed now = mark (MarkExecuted now)"

definition mark_failed :: "string \<Rightarrow> string \<Rightarrow> action_table \<Rightarrow> bool \<times> action_table" where
  "mark_failed err = mark (MarkFailed err)"

definition atomic_mark_rolled_back :: "time \<Rightarrow> string \<Rightarrow> action_table \<Rightarrow> bool \<times> action_table" where
  "atomic_mark_rolled_back now = mark (MarkRolledBack now)"

text \<open>The unguarded variant, which no caller uses.\<close>

definition mark_rolled_back :: "time \<Rightarrow> string \<Rightarrow> action_table \<Rightarrow> action_table" where
  "mark_rolled_back now cid t =
     (case map_of t cid of None \<Rightarrow> t | Some r \<Rightarrow> dict_put cid (apply_transition (MarkRolledBack now) r) t)"

section \<open>The rollback route\<close>

definition non_reversible :: "string list" where
  "non_reversible = [''KILL_PROCESS'']"

definition rollback_action ::
  "exec_env \<Rightarrow> (string \<Rightarrow> json option) \<Rightarrow> time \<Rightarrow> string \<Rightarrow> action_table \<times> exec_state
   \<Rightarrow> unit result \<times> (action_table \<times> exec_state)" where
  "rollback_action env loads now cid st =
     (case map_of (fst st) cid of
        None \<Rightarrow> (Inl (HTTPException 404), st)
      | Some row \<Rightarrow>
          (if ra_command_type row \<in> set non_reversible then (Inl (HTTPException 422), st)
           else
             let payload = (if ra_payload row = [] then JObj []
                            else case loads (ra_payload row) of None \<Rightarrow> JObj [] | Some v \<Rightarrow> v);
                 (done, t') = atomic_mark_rolled_back now cid (fst st)
             in if \<not> done then (Inl (HTTPException 409), (t', snd st))
                else case emit_rollback env (ra_agent_cn row) cid (ra_command_type row) payload (snd st) of
                  (r, s') \<Rightarrow> (r, (t', s'))))"

definition get_response_action :: "string \<Rightarrow> action_table \<Rightarrow> action_row result" where
  "get_response_action cid t = (case map_of t cid of None \<Rightarrow> Inl (HTTPException 404) | Some r \<Rightarrow> Inr r)"

section \<open>Reports of the agents\<close>

record action_report =
  ar_command_id :: string
  ar_status :: string
  ar_error :: string

record report_state =
  rs_actions :: action_table
  rs_pinged :: "string list"
  rs_accepted :: nat

text \<open>\<open>pings\<close> are the command ids with a waiting ping; \<open>fetch_ok\<close> and \<open>write_ok\<close> say whether the two
  database round trips succeed.\<close>

definition report_step ::
  "string \<Rightarrow> string list \<Rightarrow> time \<Rightarrow> action_report \<times> bool \<times> bool \<Rightarrow> report_state \<Rightarrow> report_state" where
  "report_step cn pings now rep s0 =
     (case rep of (rp, fetch_ok, write_ok) \<Rightarrow>
        let cid = ar_command_id rp;
            s = (if cid \<in> set pings then s0\<lparr>rs_pinged := rs_pinged s0 @ [cid]\<rparr> else s0)
        in if \<not> fetch_ok then s
           else case map_of (rs_actions s) cid of
             None \<Rightarrow> s
           | Some row \<Rightarrow>
               (if ra_agent_cn row \<noteq> cn then s
                else
                  let t = rs_actions s;
                      t' = (if \<not> write_ok then t
                            else if ar_status rp = ''executed'' then snd (mark_executed now cid t)
                            else if ar_status rp = ''failed'' then snd (mark_failed (ar_error rp) cid t)
                            else if ar_status rp = ''rolled_back'' then snd (atomic_mark_rolled_back now cid t)
                            else t)
                  in s\<lparr>rs_actions := t', rs_accepted := Suc (rs_accepted s)\<rparr>))"

definition report_actions ::
  "string \<Rightarrow> string list \<Rightarrow> time \<Rightarrow> (action_report \<times> bool \<times> bool) list \<Rightarrow> action_table \<Rightarrow> report_state" where
  "report_actions cn pings now reports t =
     fold (report_step cn pings now) reports \<lparr>rs_actions = t, rs_pinged = [], rs_accepted = 0\<rparr>"

section \<open>Lemmas\<close>

interpretation act: guarded_row map_of mark allowed apply_transition
proof unfold_locales
  fix t :: action_table and k :: string and r tr
  assume "map_of t k = Some r" "allowed tr r"
  then show "fst (mark tr k t) \<and> map_of (snd (mark tr k t)) k = Some (apply_transition tr r)"
    by (simp add: mark_def)
next
  fix t :: action_table and k :: string and tr
  assume "\<forall>r. map_of t k = Some r \<longrightarrow> \<not> allowed tr r"
  then show "mark tr k t = (False, t)" by (auto simp: mark_def split: option.splits)
next
  fix t :: action_table and k k' :: string and tr
  assume "k' \<noteq> k"
  then show "map_of (snd (mark tr k t)) k' = map_of t k'" by (auto simp: mark_def split: option.splits)
qed

text \<open>The order of the statuses: a row only moves forward, and only its status columns change.\<close>

fun status_rank :: "action_status \<Rightarrow> nat" where
  "status_rank PendingReport = 0"
| "status_rank Executed = 1"
| "status_rank Failed = 2"
| "status_rank RolledBack = 2"

definition forward :: "action_row \<Rightarrow> action_row \<Rightarrow> bool" where
  "forward r r' \<longleftrightarrow> ra_command_id r' = ra_command_id r \<and> ra_decision_id r' = ra_decision_id r
     \<and> ra_agent_cn r' = ra_agent_cn r \<and> ra_command_type r' = ra_command_type r
     \<and> ra_payload r' = ra_payload r \<and> ra_created_at r' = ra_created_at r
     \<and> (r' = r \<or> status_rank (ra_status r) < status_rank (ra_status r'))
     \<and> (ra_status r' = RolledBack \<longrightarrow> ra_status r \<in> {PendingReport, Executed, RolledBack})"

lemma forward_refl [simp]: "forward r r"
  by (cases "ra_status r") (auto simp: forward_def)

lemma forward_trans: "forward a b \<Longrightarrow> forward b c \<Longrightarrow> forward a c"
  by (cases "ra_status a"; cases "ra_status b"; cases "ra_status c") (auto simp: forward_def)

lemma apply_forward: "allowed tr r \<Longrightarrow> forward r (apply_transition tr r)"
  by (cases tr) (auto simp: forward_def)

lemma mark_forward: "map_of t k = Some r \<Longrightarrow> \<exists>r'. map_of (snd (mark tr k' t)) k = Some r' \<and> forward r r'"
  by (cases "k = k'") (auto simp: act.cas_look act.cas_other intro: apply_forward)

lemma apply_not_allowed: "allowed tr r \<Longrightarrow> \<not> allowed tr (apply_transition tr r)"
  by (cases tr) auto

lemma report_step_actions:
  "rs_actions (report_step cn pings now rep s) = rs_actions s
   \<or> (\<exists>tr. rs_actions (report_step cn pings now rep s)
        = snd (mark tr (ar_command_id (fst rep)) (rs_actions s))
      \<and> (\<exists>r. map_of (rs_actions s) (ar_command_id (fst rep)) = Some r \<and> ra_agent_cn r = cn))"
  by (auto simp: report_step_def Let_def mark_executed_def mark_failed_def atomic_mark_rolled_back_def
      split: prod.splits option.splits)

lemma report_step_row:
  assumes "map_of (rs_actions s) k = Some r"
  shows "\<exists>r'. map_of (rs_actions (report_step cn pings now rep s)) k = Some r' \<and> forward r r'
    \<and> (ra_agent_cn r \<noteq> cn \<longrightarrow> r' = r)"
  using report_step_actions [of cn pings now rep s] mark_forward [OF assms] assms
  by (cases "k = ar_command_id (fst rep)") (auto simp: act.cas_other)

lemma report_fold_row:
  assumes "map_of (rs_actions s) k = Some r"
  shows "\<exists>r'. map_of (rs_actions (fold (report_step cn pings now) reps s)) k = Some r' \<and> forward r r'
    \<and> (ra_agent_cn r \<noteq> cn \<longrightarrow> r' = r)"
  using assms
proof (induction reps arbitrary: s r)
  case Nil
  then show ?case by simp
next
  case (Cons rep reps)
  obtain r1 where r1: "map_of (rs_actions (report_step cn pings now rep s)) k = Some r1" "forward r r1"
    "ra_agent_cn r \<noteq> cn \<longrightarrow> r1 = r"
    using report_step_row [OF Cons.prems] by blast
  from Cons.IH [OF r1(1)] r1(2,3) show ?case by (auto intro: forward_trans)
qed

section \<open>Properties\<close>

text \<open>C10: an agent can only report on its own commands: whatever it sends, the response actions of
  every other agent keep their rows, and its own rows only move forward in their life cycle, pending
  to executed or failed, executed to rolled back, with every other column unchanged.\<close>

theorem reports_respect_ownership:
  assumes "map_of t k = Some r"
  shows "\<exists>r'. map_of (rs_actions (report_actions cn pings now reports t)) k = Some r' \<and> forward r r'
    \<and> (ra_agent_cn r \<noteq> cn \<longrightarrow> r' = r)"
  unfolding report_actions_def by (rule report_fold_row) (simp add: assms)

definition sample_action :: action_row where
  "sample_action = \<lparr>ra_command_id = ''c1'', ra_decision_id = ''d1'', ra_agent_cn = ''web1'',
     ra_command_type = ''BLOCK_IP'', ra_payload = [], ra_status = Executed, ra_created_at = 0,
     ra_executed_at = Some 1, ra_rolled_back_at = None, ra_error = None\<rparr>"

theorem reports_respect_ownership_witness:
  "map_of (rs_actions (report_actions ''intruder'' [] 5
     [(\<lparr>ar_command_id = ''c1'', ar_status = ''rolled_back'', ar_error = []\<rparr>, True, True)]
     [(''c1'', sample_action)])) ''c1'' = Some sample_action"
  using reports_respect_ownership [of "[(''c1'', sample_action)]" "''c1''" sample_action "''intruder''" "[]" 5
      "[(\<lparr>ar_command_id = ''c1'', ar_status = ''rolled_back'', ar_error = []\<rparr>, True, True)]"]
  by (simp add: sample_action_def)

text \<open>A response action is rolled back at most once, and the inverse command leaves only after the
  row was marked: once a rollback request got past its guarded update, every later one is refused
  with a conflict and sends nothing.\<close>

theorem rollback_once:
  assumes "rollback_action env loads now cid (t, s) = (res, (t', s'))" and "map_of t' cid \<noteq> map_of t cid"
  shows "rollback_action env loads' now' cid (t', s') = (Inl (HTTPException 409), (t', s'))"
proof -
  from assms obtain r where r: "map_of t cid = Some r" "ra_command_type r \<notin> set non_reversible"
    by (auto simp: rollback_action_def split: option.splits if_splits)
  moreover have t': "t' = snd (atomic_mark_rolled_back now cid t)"
    using assms(1) r by (auto simp: rollback_action_def Let_def split: prod.splits if_splits)
  moreover have "allowed (MarkRolledBack now) r"
    using assms(2) r(1) t' by (auto simp: atomic_mark_rolled_back_def act.cas_look split: if_splits)
  ultimately have "map_of t' cid = Some (apply_transition (MarkRolledBack now) r)"
    by (simp add: atomic_mark_rolled_back_def act.cas_look)
  moreover from this have "atomic_mark_rolled_back now' cid t' = (False, t')"
    unfolding atomic_mark_rolled_back_def by (intro act.cas_miss) auto
  ultimately show ?thesis using r(2) by (simp add: rollback_action_def Let_def)
qed

theorem rollback_once_witness:
  "\<exists>res t' s'. rollback_action sample_env (\<lambda>_. None) 9 ''c1'' ([(''c1'', sample_action)], idle_executor) = (res, (t', s'))
     \<and> rollback_action sample_env (\<lambda>_. None) 10 ''c1'' (t', s') = (Inl (HTTPException 409), (t', s'))"
proof -
  obtain res t' s' where r: "rollback_action sample_env (\<lambda>_. None) 9 ''c1''
      ([(''c1'', sample_action)], idle_executor) = (res, (t', s'))"
    by (metis surj_pair)
  then have "map_of t' ''c1'' \<noteq> map_of [(''c1'', sample_action)] ''c1''"
    by (auto simp: rollback_action_def sample_action_def non_reversible_def atomic_mark_rolled_back_def
        mark_def Let_def split: prod.splits)
  from rollback_once [OF r this] r show ?thesis by blast
qed

text \<open>The answer to a ping is not checked for ownership: an agent that reports any command id with
  a waiting ping completes it, even when the command was sent to another agent.\<close>

theorem foreign_ping_signalled:
  assumes "cid \<in> set pings" and "map_of t cid = Some r" and "ra_agent_cn r \<noteq> cn"
  shows "report_actions cn pings now [(\<lparr>ar_command_id = cid, ar_status = st, ar_error = err\<rparr>, True, True)] t
    = \<lparr>rs_actions = t, rs_pinged = [cid], rs_accepted = 0\<rparr>"
  using assms by (simp add: report_actions_def report_step_def Let_def)

theorem foreign_ping_signalled_witness:
  "rs_pinged (report_actions ''intruder'' [''c1''] 5
     [(\<lparr>ar_command_id = ''c1'', ar_status = ''executed'', ar_error = []\<rparr>, True, True)]
     [(''c1'', sample_action)]) = [''c1'']"
  using foreign_ping_signalled [of "''c1''" "[''c1'']" "[(''c1'', sample_action)]" sample_action "''intruder''" 5
      "''executed''" "[]"]
  by (simp add: sample_action_def)

end
