(* ===== verification/Secret_Masker.thy ===== *)
theory Secret_Masker
  imports Prelude
begin

text \<open>
  \<open>normalizer/secret_masker.py\<close>: the regular expressions that redact credentials, as matchers. A matcher gets the
  character before the position and the text from there, and gives the replacement and the text after the match. In
  every pattern a repetition is followed by characters it cannot match itself, so matching needs no backtracking
  beyond the choice among words. Text of the Latin-1 range.
\<close>

section \<open>Pieces of the patterns\<close>

type_synonym matcher = "char option \<Rightarrow> string \<Rightarrow> (string \<times> string) option"

text \<open>\<open>\w\<close>: letters, digits, numerals and the underscore.\<close>

definition re_word_char :: "char \<Rightarrow> bool" where
  "re_word_char c \<longleftrightarrow> (let n = of_char c :: nat in (97 \<le> n \<and> n \<le> 122) \<or> (65 \<le> n \<and> n \<le> 90) \<or> (48 \<le> n \<and> n \<le> 57) \<or> n = 95
     \<or> n \<in> {170, 178, 179, 181, 185, 186, 188, 189, 190} \<or> (192 \<le> n \<and> n \<noteq> 215 \<and> n \<noteq> 247))"

text \<open>\<open>[^\s,;'\\]\<close>\<close>

definition secret_char :: "char \<Rightarrow> bool" where
  "secret_char c \<longleftrightarrow> \<not> is_space c \<and> c \<noteq> CHR '','' \<and> c \<noteq> CHR '';'' \<and> c \<noteq> CHR 0x27 \<and> c \<noteq> CHR 0x5C"

definition same_letter :: "char \<Rightarrow> char \<Rightarrow> bool" where
  "same_letter a b \<longleftrightarrow> a = b \<or> (CHR ''a'' \<le> a \<and> a \<le> CHR ''z'' \<and> (of_char a :: nat) = of_char b + 32)"

text \<open>A literal, its letters in any case; the pattern is in lower case.\<close>

fun eat :: "string \<Rightarrow> string \<Rightarrow> string option" where
  "eat [] s = Some s"
| "eat (p # ps) [] = None"
| "eat (p # ps) (c # cs) = (if same_letter p c then eat ps cs else None)"

fun first_match :: "(string \<Rightarrow> 'a option) \<Rightarrow> string list \<Rightarrow> 'a option" where
  "first_match f [] = None"
| "first_match f (w # ws) = (case f w of None \<Rightarrow> first_match f ws | Some a \<Rightarrow> Some a)"

definition eat_secret :: "string \<Rightarrow> string option" where
  "eat_secret s = (case s of [] \<Rightarrow> None | c # cs \<Rightarrow> if secret_char c then Some (dropWhile secret_char cs) else None)"

definition not_after_word :: "char option \<Rightarrow> bool" where
  "not_after_word prev = (case prev of None \<Rightarrow> True | Some c \<Rightarrow> \<not> re_word_char c)"

definition matched :: "string \<Rightarrow> string \<Rightarrow> string" where
  "matched s rest = take (length s - length rest) s"

section \<open>The patterns\<close>

definition secret_words :: "string list" where
  "secret_words = [''password'', ''passwd'', ''secret'', ''token'', ''key'', ''api_key'', ''api-key'', ''apikey'']"

text \<open>A word, then \<open>=\<close> or \<open>:\<close> with spaces around, then the value: the word and \<open>=***\<close> remain.\<close>

definition mask_assignment :: matcher where
  "mask_assignment prev s =
     (if \<not> not_after_word prev then None
      else first_match (\<lambda>w.
        case eat w s of
          None \<Rightarrow> None
        | Some r \<Rightarrow>
            (case dropWhile is_space r of
               c # r2 \<Rightarrow>
                 if c = CHR ''='' \<or> c = CHR '':''
                 then map_option (\<lambda>rest. (matched s r @ ''=***'', rest)) (eat_secret (dropWhile is_space r2))
                 else None
             | [] \<Rightarrow> None)) secret_words)"

definition flag_words :: "string list" where
  "flag_words = [''-password'', ''-passwd'', ''-pass'', ''-p'', ''--password'']"

definition mask_flag :: matcher where
  "mask_flag prev s =
     (if \<not> not_after_word prev then None
      else first_match (\<lambda>w.
        case eat w s of
          None \<Rightarrow> None
        | Some [] \<Rightarrow> None
        | Some (c # r) \<Rightarrow>
            if c = CHR '' '' \<or> c = CHR ''='' then map_option (\<lambda>rest. (matched s (c # r) @ ''***'', rest)) (eat_secret r)
            else None) flag_words)"

text \<open>A header name, then with \<open>Authorization\<close> a scheme and at least one space, then the value.\<close>

definition mask_authorization :: "string \<Rightarrow> matcher" where
  "mask_authorization scheme prev s =
     (case eat ''authorization:'' s of
        None \<Rightarrow> None
      | Some r \<Rightarrow>
          (case eat scheme (dropWhile is_space r) of
             None \<Rightarrow> None
           | Some r2 \<Rightarrow>
               (let r3 = dropWhile is_space r2
                in if r3 = r2 then None else map_option (\<lambda>rest. (matched s r3 @ ''***'', rest)) (eat_secret r3))))"

definition mask_header :: "string \<Rightarrow> matcher" where
  "mask_header name prev s =
     (case eat name s of
        None \<Rightarrow> None
      | Some r \<Rightarrow> (let r2 = dropWhile is_space r in map_option (\<lambda>rest. (matched s r2 @ ''***'', rest)) (eat_secret r2)))"

definition mask_patterns :: "matcher list" where
  "mask_patterns =
     [mask_assignment, mask_flag, mask_authorization ''bearer'', mask_authorization ''basic'', mask_authorization ''token'',
      mask_header ''x-api-key:'', mask_header ''x-auth-token:'']"

section \<open>Substitution\<close>

text \<open>\<open>re.sub\<close>: from left to right, continuing after each match.\<close>

function re_sub :: "matcher \<Rightarrow> char option \<Rightarrow> string \<Rightarrow> string" where
  "re_sub m prev [] = []"
| "re_sub m prev (c # cs) =
     (case m prev (c # cs) of
        Some (r, rest) \<Rightarrow>
          if length rest < length (c # cs) then r @ re_sub m (Some (last (matched (c # cs) rest))) rest
          else c # re_sub m (Some c) cs
      | None \<Rightarrow> c # re_sub m (Some c) cs)"
  by pat_completeness auto
termination
  by (relation "measure (\<lambda>(m, prev, s). length s)") auto

definition mask :: "string \<Rightarrow> string" where
  "mask s = fold (\<lambda>m t. re_sub m None t) mask_patterns s"

section \<open>What is redacted\<close>

lemma drop_secret_chars: "list_all secret_char v \<Longrightarrow> dropWhile secret_char v = []"
  by (induction v) auto

lemma eat_secret_all: "list_all secret_char v \<Longrightarrow> v \<noteq> [] \<Longrightarrow> eat_secret v = Some []"
  by (cases v) (simp_all add: eat_secret_def drop_secret_chars)

lemma secret_not_space: "list_all secret_char v \<Longrightarrow> dropWhile is_space v = v"
  by (cases v) (simp_all add: secret_char_def)

lemma eat_literal: "\<forall>c \<in> set w. \<not> (CHR ''A'' \<le> c \<and> c \<le> CHR ''Z'') \<Longrightarrow> eat w (w @ s) = Some s"
  by (induction w) (simp_all add: same_letter_def)

lemma first_match_hit: "f w = Some a \<Longrightarrow> \<forall>x \<in> set pre. f x = None \<Longrightarrow> first_match f (pre @ w # post) = Some a"
  by (induction pre) auto

text \<open>The first pattern on an assignment at the start of the text.\<close>

lemma mask_assignment_hit:
  assumes "w \<in> set secret_words" "list_all secret_char v" "v \<noteq> []"
  shows "mask_assignment None (w @ ''='' @ v) = Some (w @ ''=***'', [])"
proof -
  have e: "eat_secret (dropWhile is_space v) = Some []"
    by (simp add: secret_not_space [OF assms(2)] eat_secret_all [OF assms(2,3)])
  show ?thesis
    using assms(1) unfolding mask_assignment_def secret_words_def
    by (auto simp: not_after_word_def same_letter_def matched_def is_space_def e)
qed

lemma re_sub_whole: "m prev (c # cs) = Some (r, []) \<Longrightarrow> re_sub m prev (c # cs) = r"
  by simp

lemma redacted_word_stable:
  assumes "w \<in> set secret_words"
  shows "fold (\<lambda>m t. re_sub m None t) (tl mask_patterns) (w @ ''=***'') = w @ ''=***''"
proof -
  have "list_all (\<lambda>w. fold (\<lambda>m t. re_sub m None t) (tl mask_patterns) (w @ ''=***'') = w @ ''=***'') secret_words"
    by code_simp
  then show ?thesis
    using assms by (simp add: list_all_iff)
qed

text \<open>The value of a credential assignment vanishes: for every word of the list, in the form \<open>word=value\<close>, the masked
  text is the same for all values without separators, whatever their characters and length.\<close>

theorem assignment_redacted:
  assumes "w \<in> set secret_words" and "list_all secret_char v" and "v \<noteq> []"
  shows "mask (w @ ''='' @ v) = w @ ''=***''"
proof -
  obtain c cs where c: "w @ ''='' @ v = c # cs"
    by (cases "w @ ''='' @ v") auto
  then have "re_sub mask_assignment None (w @ ''='' @ v) = w @ ''=***''"
    using mask_assignment_hit [OF assms] by (simp only: re_sub_whole)
  then have "mask (w @ ''='' @ v) = fold (\<lambda>m t. re_sub m None t) (tl mask_patterns) (w @ ''=***'')"
    by (simp add: mask_def mask_patterns_def)
  then show ?thesis
    by (simp only: redacted_word_stable [OF assms(1)])
qed

lemma assignment_redacted_witness: "mask (''token'' @ ''='' @ ''s3cr3t!'') = ''token'' @ ''=***''"
  by (rule assignment_redacted) (simp_all add: secret_words_def secret_char_def is_space_def)

text \<open>Credentials in prefixed variables and after a space pass unmasked: the word must not follow a letter, digit or
  underscore, and only \<open>-p\<close>-like flags accept a space before the value.\<close>

theorem prefixed_credentials_leak:
  "mask ''DB_PASSWORD=hunter2'' = ''DB_PASSWORD=hunter2'' \<and> mask ''--token hunter2'' = ''--token hunter2''"
  by code_simp

end
