(* ===== verification/Ingest.thy ===== *)
theory Ingest
  imports Schema Executor Secret_Masker
begin

text \<open>
  \<open>ingest/validator.py\<close>, \<open>ingest/normalizer_bridge.py\<close> and \<open>IngestEvents\<close> of
  \<open>ingest/grpc_service.py\<close>: a stream of event batches from one agent is checked, converted and
  published. Third-party code is a parameter: the BLAKE3 digest, the Ed25519 key parser and verifier,
  JSON and UUID parsing.
\<close>

section \<open>Requests\<close>

record pb_event =
  pb_event_id :: string
  pb_agent_id :: string
  pb_timestamp_ns :: int
  pb_hostname :: string
  pb_category :: string
  pb_type :: string
  pb_severity :: string
  pb_collector :: string
  pb_os :: string
  pb_uid :: int
  pb_gid :: int
  pb_pid :: int
  pb_ppid :: int
  pb_process_name :: string
  pb_executable :: string
  pb_cmdline :: string
  pb_cwd :: string
  pb_session_id :: int
  pb_resource :: string
  pb_result :: string
  pb_file_hash_before :: string
  pb_file_hash_after :: string
  pb_src_ip :: string
  pb_src_port :: int
  pb_dst_ip :: string
  pb_dst_port :: int
  pb_protocol :: string
  pb_bytes_sent :: int
  pb_bytes_recv :: int
  pb_hash_chain :: string
  pb_signature :: string
  pb_extra_json :: string

record ingest_request =
  rq_events :: "pb_event list"
  rq_batch_signature :: string

text \<open>What the key parser and verifier answer: an error other than a bad signature leaves the validator
  as an exception.\<close>

datatype signature_check = GoodSignature | BadSignature | NotEd25519 | KeyError exn

record ingest_env =
  ig_blake3 :: "string \<Rightarrow> string"
  ig_verify :: "string \<Rightarrow> string \<Rightarrow> string \<Rightarrow> signature_check"
  ig_loads :: "string \<Rightarrow> json option"
  ig_uuid_of_bytes :: "string \<Rightarrow> uuid"
  ig_uuid_of_text :: "string \<Rightarrow> uuid option"
  ig_uuid5 :: "string \<Rightarrow> uuid"
  ig_fresh :: "pb_event \<Rightarrow> uuid"
  ig_hex :: "string \<Rightarrow> string"

section \<open>Validation\<close>

record validation_result =
  va_accepted :: nat
  va_rejected :: nat
  va_errors :: "string list"
  va_rejected_indices :: "nat list"

definition max_batch :: nat where
  "max_batch = 10000"

definition missing_fields :: "pb_event \<Rightarrow> string list" where
  "missing_fields ev = List.map fst (filter (\<lambda>p. snd p = [])
     [(''category'', pb_category ev), (''type'', pb_type ev), (''severity'', pb_severity ev)])"

definition missing_error :: "nat \<Rightarrow> pb_event \<Rightarrow> string" where
  "missing_error i ev = ''event '' @ show_nat i @ '': missing required fields: '' @ join '', '' (missing_fields ev)"

fun check_events :: "nat \<Rightarrow> pb_event list \<Rightarrow> validation_result" where
  "check_events i [] = \<lparr>va_accepted = 0, va_rejected = 0, va_errors = [], va_rejected_indices = []\<rparr>"
| "check_events i (ev # evs) =
     (let v = check_events (Suc i) evs
      in if missing_fields ev \<noteq> []
         then v\<lparr>va_rejected := Suc (va_rejected v), va_errors := missing_error i ev # va_errors v,
                va_rejected_indices := i # va_rejected_indices v\<rparr>
         else v\<lparr>va_accepted := Suc (va_accepted v)\<rparr>)"

definition reject_all :: "nat \<Rightarrow> string list \<Rightarrow> validation_result" where
  "reject_all n errs = \<lparr>va_accepted = 0, va_rejected = n, va_errors = errs, va_rejected_indices = [0..<n]\<rparr>"

definition signed_digest :: "ingest_env \<Rightarrow> pb_event list \<Rightarrow> string" where
  "signed_digest env evs = ig_blake3 env (concat (List.map pb_hash_chain evs))"

definition per_event :: "nat \<Rightarrow> string \<Rightarrow> string list" where
  "per_event n msg = List.map (\<lambda>i. ''event '' @ show_nat i @ msg) [0..<n]"

definition validate :: "ingest_env \<Rightarrow> ingest_request \<Rightarrow> string option \<Rightarrow> validation_result result" where
  "validate env req key =
     (let evs = rq_events req; n = length evs
      in if max_batch < n then Inr (reject_all n [''batch too large: max 10000 events''])
         else case (if evs = [] then None else key) of
           None \<Rightarrow> Inr (check_events 0 evs)
         | Some k \<Rightarrow>
             (case ig_verify env k (rq_batch_signature req) (signed_digest env evs) of
                GoodSignature \<Rightarrow> Inr (check_events 0 evs)
              | NotEd25519 \<Rightarrow> Inr (reject_all n (per_event n '': batch signature public key is not Ed25519''))
              | BadSignature \<Rightarrow> Inr (reject_all n (per_event n '': batch signature verification failed''))
              | KeyError e \<Rightarrow> Inl e))"

section \<open>The bridge\<close>

definition extra_json_max :: nat where
  "extra_json_max = 65536"

definition some_if :: "bool \<Rightarrow> 'a \<Rightarrow> 'a option" where
  "some_if b x = (if b then Some x else None)"

definition or_default :: "string \<Rightarrow> string \<Rightarrow> string" where
  "or_default s d = (if s = [] then d else s)"

definition id_from_bytes :: "ingest_env \<Rightarrow> pb_event \<Rightarrow> string \<Rightarrow> uuid" where
  "id_from_bytes env pb raw =
     (if length raw = 16 then ig_uuid_of_bytes env raw
      else if raw \<noteq> [] then (case ig_uuid_of_text env raw of Some u \<Rightarrow> u | None \<Rightarrow> ig_fresh env pb)
      else ig_fresh env pb)"

definition agent_id_for :: "ingest_env \<Rightarrow> pb_event \<Rightarrow> string option \<Rightarrow> uuid" where
  "agent_id_for env pb override =
     (case override of
        Some cn \<Rightarrow> (case ig_uuid_of_text env cn of Some u \<Rightarrow> u | None \<Rightarrow> ig_uuid5 env cn)
      | None \<Rightarrow> id_from_bytes env pb (pb_agent_id pb))"

definition extra_of :: "ingest_env \<Rightarrow> string \<Rightarrow> (string, json) pydict" where
  "extra_of env raw =
     (if raw = [] \<or> extra_json_max < length raw then []
      else case ig_loads env raw of Some (JObj kvs) \<Rightarrow> kvs | _ \<Rightarrow> [])"

definition pb_to_event :: "ingest_env \<Rightarrow> string option \<Rightarrow> pb_event \<Rightarrow> universal_event result" where
  "pb_to_event env override pb =
     (let e = \<lparr>ev_event_id = id_from_bytes env pb (pb_event_id pb),
          ev_timestamp_ns = pb_timestamp_ns pb,
          ev_hostname = pb_hostname pb,
          ev_agent_id = agent_id_for env pb override,
          ev_category = pb_category pb,
          ev_type = pb_type pb,
          ev_severity = pb_severity pb,
          ev_collector = pb_collector pb,
          ev_os = or_default (pb_os pb) ''linux'',
          ev_uid = pb_uid pb, ev_gid = pb_gid pb, ev_pid = pb_pid pb, ev_ppid = pb_ppid pb,
          ev_process_name = pb_process_name pb,
          ev_executable = pb_executable pb,
          ev_cmdline = mask (pb_cmdline pb),
          ev_cwd = pb_cwd pb,
          ev_session_id = some_if (pb_session_id pb \<noteq> 0) (pb_session_id pb),
          ev_resource = pb_resource pb,
          ev_result = or_default (pb_result pb) ''unknown'',
          ev_file_hash_before = some_if (pb_file_hash_before pb \<noteq> []) (pb_file_hash_before pb),
          ev_file_hash_after = some_if (pb_file_hash_after pb \<noteq> []) (pb_file_hash_after pb),
          ev_src_ip = some_if (pb_src_ip pb \<noteq> []) (pb_src_ip pb),
          ev_src_port = some_if (pb_src_port pb \<noteq> 0) (pb_src_port pb),
          ev_dst_ip = some_if (pb_dst_ip pb \<noteq> []) (pb_dst_ip pb),
          ev_dst_port = some_if (pb_dst_port pb \<noteq> 0) (pb_dst_port pb),
          ev_protocol = some_if (pb_protocol pb \<noteq> []) (pb_protocol pb),
          ev_bytes_sent = some_if (pb_bytes_sent pb \<noteq> 0) (pb_bytes_sent pb),
          ev_bytes_recv = some_if (pb_bytes_recv pb \<noteq> 0) (pb_bytes_recv pb),
          ev_hash_chain = ig_hex env (pb_hash_chain pb),
          ev_signature = some_if (pb_signature pb \<noteq> []) (ig_hex env (pb_signature pb)),
          ev_ml_score = None, ev_risk_score = None, ev_rule_match_ids = [], ev_mitre_techniques = [],
          ev_ti_tags = [], ev_incident_chain_id = None,
          ev_extra = extra_of env (pb_extra_json pb)\<rparr>
      in if valid_event e then Inr e else Inl ValidationError)"

section \<open>The servicer\<close>

record ingest_state =
  is_accepted :: nat
  is_rejected :: nat
  is_errors :: "string list"
  is_published :: "universal_event list list"
  is_healths :: "(string, json list) pydict"

text \<open>\<open>{"name": k, **v}\<close> per collector; anything but an object is ignored.\<close>

definition health_entry :: "string \<times> json \<Rightarrow> json" where
  "health_entry kv =
     (case snd kv of
        JObj fs \<Rightarrow> JObj (fold (\<lambda>(k, v) d. dict_put k v d) fs [(''name'', JStr (fst kv))])
      | _ \<Rightarrow> JObj [(''name'', JStr (fst kv))])"

definition store_health :: "ingest_env \<Rightarrow> string \<Rightarrow> pb_event \<Rightarrow> ingest_state \<Rightarrow> ingest_state" where
  "store_health env cn pb s =
     (case ig_loads env (pb_extra_json pb) of
        Some (JObj kvs) \<Rightarrow> s\<lparr>is_healths := dict_put cn (List.map health_entry kvs) (is_healths s)\<rparr>
      | _ \<Rightarrow> s)"

definition is_health :: "pb_event \<Rightarrow> bool" where
  "is_health pb \<longleftrightarrow> pb_category pb = ''agent_health'' \<and> pb_extra_json pb \<noteq> []"

text \<open>The loop over the events of a batch; \<open>acc\<close> collects the payloads.\<close>

fun batch_loop ::
  "ingest_env \<Rightarrow> string \<Rightarrow> nat list \<Rightarrow> nat \<Rightarrow> pb_event list \<Rightarrow> universal_event list \<Rightarrow> ingest_state
   \<Rightarrow> universal_event list result \<times> ingest_state" where
  "batch_loop env cn rejected i [] acc s = (Inr acc, s)"
| "batch_loop env cn rejected i (pb # pbs) acc s =
     (if i \<in> set rejected then batch_loop env cn rejected (Suc i) pbs acc s
      else if is_health pb then batch_loop env cn rejected (Suc i) pbs acc (store_health env cn pb s)
      else case pb_to_event env (Some cn) pb of
        Inl e \<Rightarrow> (Inl e, s)
      | Inr ev \<Rightarrow> batch_loop env cn rejected (Suc i) pbs (acc @ [ev]) s)"

definition ingest_batch ::
  "ingest_env \<Rightarrow> string \<Rightarrow> string option \<Rightarrow> bool \<Rightarrow> ingest_request \<Rightarrow> ingest_state \<Rightarrow> unit result \<times> ingest_state" where
  "ingest_batch env cn key require req s =
     (if key = None \<and> require then (Inl (OtherError ''UNAUTHENTICATED''), s)
      else case validate env req key of
        Inl e \<Rightarrow> (Inl e, s)
      | Inr v \<Rightarrow>
          (let s1 = s\<lparr>is_accepted := is_accepted s + va_accepted v, is_rejected := is_rejected s + va_rejected v,
                 is_errors := is_errors s @ take (1000 - length (is_errors s)) (va_errors v)\<rparr>
           in seq_res (batch_loop env cn (va_rejected_indices v) 0 (rq_events req) [] s1) (\<lambda>evs s2.
                (Inr (), if evs = [] then s2 else s2\<lparr>is_published := is_published s2 @ [evs]\<rparr>))))"

fun ingest_stream ::
  "ingest_env \<Rightarrow> string \<Rightarrow> string option \<Rightarrow> bool \<Rightarrow> ingest_request list \<Rightarrow> ingest_state
   \<Rightarrow> unit result \<times> ingest_state" where
  "ingest_stream env cn key require [] s = (Inr (), s)"
| "ingest_stream env cn key require (req # reqs) s =
     seq_res (ingest_batch env cn key require req s) (\<lambda>_ s'. ingest_stream env cn key require reqs s')"

definition require_cn :: "string option \<Rightarrow> string list \<Rightarrow> string result" where
  "require_cn cn blocked =
     (case cn of
        None \<Rightarrow> Inl (OtherError ''UNAUTHENTICATED'')
      | Some c \<Rightarrow>
          (if \<not> safe_id_re c then Inl (OtherError ''UNAUTHENTICATED'')
           else if c \<in> set blocked then Inl (OtherError ''PERMISSION_DENIED'')
           else Inr c))"

definition empty_ingest :: ingest_state where
  "empty_ingest = \<lparr>is_accepted = 0, is_rejected = 0, is_errors = [], is_published = [], is_healths = []\<rparr>"

definition ingest_events ::
  "ingest_env \<Rightarrow> string option \<Rightarrow> string list \<Rightarrow> (string, string) pydict \<Rightarrow> bool \<Rightarrow> ingest_request list
   \<Rightarrow> unit result \<times> ingest_state" where
  "ingest_events env cn blocked keys_of require reqs =
     (case require_cn cn blocked of
        Inl e \<Rightarrow> (Inl e, empty_ingest)
      | Inr c \<Rightarrow> ingest_stream env c (map_of keys_of c) require reqs empty_ingest)"

section \<open>Lemmas\<close>

lemma check_events_counts:
  "va_accepted (check_events i evs) + va_rejected (check_events i evs) = length evs"
  "length (va_rejected_indices (check_events i evs)) = va_rejected (check_events i evs)"
  "length (va_errors (check_events i evs)) = va_rejected (check_events i evs)"
  by (induction i evs rule: check_events.induct) (auto simp: Let_def)

lemma check_events_indices:
  "k \<in> set (va_rejected_indices (check_events i evs)) \<longleftrightarrow>
     (\<exists>j < length evs. k = i + j \<and> missing_fields (evs ! j) \<noteq> [])"
proof (induction i evs rule: check_events.induct)
  case (2 i ev evs)
  have split: "(\<exists>j < length (ev # evs). k = i + j \<and> missing_fields ((ev # evs) ! j) \<noteq> []) \<longleftrightarrow>
      (k = i \<and> missing_fields ev \<noteq> []) \<or> (\<exists>j < length evs. k = Suc i + j \<and> missing_fields (evs ! j) \<noteq> [])"
    by (auto simp: less_Suc_eq_0_disj)
  show ?case unfolding split using 2 by (auto simp: Let_def)
qed simp

lemma check_events_distinct: "distinct (va_rejected_indices (check_events i evs))
    \<and> list_all (\<lambda>k. i \<le> k) (va_rejected_indices (check_events i evs))"
  by (induction i evs rule: check_events.induct) (auto simp: Let_def list_all_iff)

lemma check_events_cong:
  "List.map missing_fields evs = List.map missing_fields evs' \<Longrightarrow> check_events i evs = check_events i evs'"
proof (induction evs arbitrary: evs' i)
  case (Cons ev evs)
  then obtain ev' evs'' where e: "evs' = ev' # evs''" "missing_fields ev = missing_fields ev'"
    "List.map missing_fields evs = List.map missing_fields evs''"
    by (cases evs') auto
  with Cons.IH [OF e(3), of "Suc i"] show ?case by (simp add: missing_error_def Let_def)
qed simp

lemma pb_to_event_Inr:
  "pb_to_event env (Some cn) pb = Inr e \<Longrightarrow> valid_event e \<and> ev_agent_id e = agent_id_for env pb (Some cn)
     \<and> ev_cmdline e = mask (pb_cmdline pb)"
  by (auto simp: pb_to_event_def Let_def split: if_splits)

lemma agent_id_for_cn: "agent_id_for env pb (Some cn) = agent_id_for env pb' (Some cn)"
  by (simp add: agent_id_for_def)

lemma store_health_keeps [simp]:
  "is_published (store_health env cn pb s) = is_published s"
  "is_accepted (store_health env cn pb s) = is_accepted s"
  "is_rejected (store_health env cn pb s) = is_rejected s"
  by (auto simp: store_health_def split: option.splits json.splits)

lemma batch_loop_keeps:
  "is_published (snd (batch_loop env cn rej i pbs acc s)) = is_published s
   \<and> is_accepted (snd (batch_loop env cn rej i pbs acc s)) = is_accepted s
   \<and> is_rejected (snd (batch_loop env cn rej i pbs acc s)) = is_rejected s"
  by (induction env cn rej i pbs acc s rule: batch_loop.induct) (auto split: sum.splits)

definition owned :: "ingest_env \<Rightarrow> string \<Rightarrow> universal_event \<Rightarrow> bool" where
  "owned env cn e \<longleftrightarrow> valid_event e
     \<and> ev_agent_id e = (case ig_uuid_of_text env cn of Some u \<Rightarrow> u | None \<Rightarrow> ig_uuid5 env cn)
     \<and> (\<exists>line. ev_cmdline e = mask line)"

lemma pb_to_event_owned: "pb_to_event env (Some cn) pb = Inr e \<Longrightarrow> owned env cn e"
  using pb_to_event_Inr [of env cn pb e] by (auto simp: owned_def agent_id_for_def)

lemma batch_loop_owned:
  "batch_loop env cn rej i pbs acc s = (Inr evs, s') \<Longrightarrow> list_all (owned env cn) acc \<Longrightarrow> list_all (owned env cn) evs"
proof (induction env cn rej i pbs acc s rule: batch_loop.induct)
  case (2 env cn rej i pb pbs acc s)
  then show ?case
    by (auto dest: pb_to_event_owned split: if_splits sum.splits)
qed simp

lemma batch_loop_length:
  "batch_loop env cn rej i pbs acc s = (Inr evs, s') \<Longrightarrow>
     length evs + length (filter is_health (List.map snd (filter (\<lambda>p. fst p \<notin> set rej) (enumerate i pbs))))
       = length acc + length (filter (\<lambda>p. fst p \<notin> set rej) (enumerate i pbs))"
  by (induction env cn rej i pbs acc s arbitrary: evs s' rule: batch_loop.induct)
    (auto split: if_splits sum.splits)

lemma batch_loop_poison:
  assumes "k < length pbs" and "i + k \<notin> set rej" and "\<not> is_health (pbs ! k)"
    and "pb_to_event env (Some cn) (pbs ! k) = Inl e"
  shows "\<exists>e'. fst (batch_loop env cn rej i pbs acc s) = Inl e'"
  using assms
proof (induction env cn rej i pbs acc s arbitrary: k rule: batch_loop.induct)
  case (2 env cn rej i pb pbs acc s)
  show ?case
  proof (cases k)
    case 0
    with "2.prems" show ?thesis by simp
  next
    case (Suc k')
    with "2.prems" "2.IH"(1) [of k'] "2.IH"(2) [of k'] "2.IH"(3) [of _ k'] show ?thesis
      by (auto split: sum.splits)
  qed
qed simp

lemma pb_to_event_Inl: "pb_to_event env ov pb = Inl e \<Longrightarrow> e = ValidationError"
  by (auto simp: pb_to_event_def Let_def split: if_splits)

lemma batch_loop_Inl: "fst (batch_loop env cn rej i pbs acc s) = Inl e \<Longrightarrow> e = ValidationError"
  by (induction env cn rej i pbs acc s rule: batch_loop.induct)
    (auto dest: pb_to_event_Inl split: if_splits sum.splits)

lemma batch_loop_Inl_index:
  "fst (batch_loop env cn rej i pbs acc s) = Inl e \<Longrightarrow>
     \<exists>k < length pbs. i + k \<notin> set rej \<and> pb_to_event env (Some cn) (pbs ! k) = Inl e"
proof (induction env cn rej i pbs acc s rule: batch_loop.induct)
  case (2 env cn rej i pb pbs acc s)
  have next_k: "\<exists>k < length (pb # pbs). i + k \<notin> set rej \<and> pb_to_event env (Some cn) ((pb # pbs) ! k) = Inl e"
    if "\<exists>k < length pbs. Suc i + k \<notin> set rej \<and> pb_to_event env (Some cn) (pbs ! k) = Inl e"
  proof -
    from that obtain k where "k < length pbs" "Suc i + k \<notin> set rej" "pb_to_event env (Some cn) (pbs ! k) = Inl e"
      by blast
    then show ?thesis by (intro exI [of _ "Suc k"]) simp
  qed
  show ?case
  proof (cases "i \<notin> set rej \<and> \<not> is_health pb \<and> pb_to_event env (Some cn) pb = Inl e")
    case True
    then show ?thesis by (intro exI [of _ 0]) simp
  next
    case False
    with 2 show ?thesis by (intro next_k) (auto split: if_splits sum.splits)
  qed
qed simp

section \<open>Properties\<close>

text \<open>The validator accounts for every event of a batch exactly once, rejects exactly the events
  that lack a category, a type or a severity, and, when a key is registered, accepts something only
  under a good signature over the batch's hash chain.\<close>

theorem validate_accounts:
  assumes "validate env req key = Inr v"
  shows "va_accepted v + va_rejected v = length (rq_events req)
    \<and> length (va_rejected_indices v) = va_rejected v \<and> distinct (va_rejected_indices v)
    \<and> (0 < va_accepted v \<longrightarrow>
        (\<forall>i < length (rq_events req). i \<in> set (va_rejected_indices v) \<longleftrightarrow> missing_fields (rq_events req ! i) \<noteq> [])
        \<and> (\<forall>k. key = Some k \<longrightarrow>
             ig_verify env k (rq_batch_signature req) (signed_digest env (rq_events req)) = GoodSignature))"
proof -
  have cases: "(v = check_events 0 (rq_events req) \<and> (rq_events req = [] \<or> key = None \<or>
      ig_verify env (the key) (rq_batch_signature req) (signed_digest env (rq_events req)) = GoodSignature))
    \<or> (\<exists>errs. v = reject_all (length (rq_events req)) errs)"
    using assms
    by (cases "rq_events req = []"; cases key)
      (auto simp: validate_def Let_def split: if_splits signature_check.splits)
  then show ?thesis
  proof (elim disjE exE)
    fix errs assume "v = reject_all (length (rq_events req)) errs"
    then show ?thesis by (simp add: reject_all_def)
  next
    assume v: "v = check_events 0 (rq_events req) \<and> (rq_events req = [] \<or> key = None \<or>
      ig_verify env (the key) (rq_batch_signature req) (signed_digest env (rq_events req)) = GoodSignature)"
    then show ?thesis
      using check_events_counts [of 0 "rq_events req"] check_events_distinct [of 0 "rq_events req"]
      by (cases "rq_events req = []") (simp_all add: check_events_indices, fastforce)
  qed
qed

definition sample_pb :: "string \<Rightarrow> pb_event" where
  "sample_pb cat = \<lparr>pb_event_id = [], pb_agent_id = [], pb_timestamp_ns = 0, pb_hostname = ''web1'',
     pb_category = cat, pb_type = ''exec'', pb_severity = ''low'', pb_collector = ''c'', pb_os = [],
     pb_uid = 0, pb_gid = 0, pb_pid = 1, pb_ppid = 0, pb_process_name = ''sh'', pb_executable = [],
     pb_cmdline = [], pb_cwd = [], pb_session_id = 0, pb_resource = [], pb_result = [],
     pb_file_hash_before = [], pb_file_hash_after = [], pb_src_ip = [], pb_src_port = 0, pb_dst_ip = [],
     pb_dst_port = 0, pb_protocol = [], pb_bytes_sent = 0, pb_bytes_recv = 0, pb_hash_chain = ''h'',
     pb_signature = [], pb_extra_json = []\<rparr>"

definition sample_ingest_env :: ingest_env where
  "sample_ingest_env = \<lparr>ig_blake3 = id, ig_verify = \<lambda>k sg d. if sg = d then GoodSignature else BadSignature,
     ig_loads = \<lambda>_. None, ig_uuid_of_bytes = id, ig_uuid_of_text = \<lambda>_. None, ig_uuid5 = id,
     ig_fresh = \<lambda>_. ''u'', ig_hex = id\<rparr>"

theorem validate_accounts_witness:
  "\<exists>v. validate sample_ingest_env \<lparr>rq_events = [sample_pb ''process'', sample_pb []], rq_batch_signature = ''hh''\<rparr>
      (Some ''k'') = Inr v \<and> va_accepted v + va_rejected v = 2"
proof -
  obtain v where v: "validate sample_ingest_env \<lparr>rq_events = [sample_pb ''process'', sample_pb []], rq_batch_signature = ''hh''\<rparr>
      (Some ''k'') = Inr v"
    by (simp add: validate_def max_batch_def sample_ingest_env_def signed_digest_def sample_pb_def Let_def)
  from validate_accounts [OF v] v show ?thesis by auto
qed

text \<open>The batch signature does not protect the events' contents. Two requests with the same hash
  chain bytes, the same signature and the same missing fields are judged alike, whatever else their
  events say; no digest of an event is ever recomputed.\<close>

theorem signature_ignores_contents:
  assumes "List.map pb_hash_chain (rq_events req) = List.map pb_hash_chain (rq_events req')"
    and "rq_batch_signature req = rq_batch_signature req'"
    and "List.map missing_fields (rq_events req) = List.map missing_fields (rq_events req')"
  shows "validate env req key = validate env req' key"
proof -
  have len: "length (rq_events req) = length (rq_events req')"
    using arg_cong [OF assms(3), of length] by simp
  then have "rq_events req = [] \<longleftrightarrow> rq_events req' = []" by auto
  moreover have "check_events 0 (rq_events req) = check_events 0 (rq_events req')"
    by (rule check_events_cong [OF assms(3)])
  moreover have "signed_digest env (rq_events req) = signed_digest env (rq_events req')"
    using assms(1) by (simp add: signed_digest_def)
  ultimately show ?thesis
    unfolding validate_def Let_def by (cases "rq_events req' = []"; cases key) (simp_all add: len assms(2) split: signature_check.split)
qed

theorem signature_ignores_contents_witness:
  "validate sample_ingest_env \<lparr>rq_events = [sample_pb ''process''], rq_batch_signature = ''h''\<rparr> (Some ''k'')
   = validate sample_ingest_env \<lparr>rq_events = [(sample_pb ''process'')\<lparr>pb_hostname := ''forged'', pb_cmdline := ''rm''\<rparr>],
       rq_batch_signature = ''h''\<rparr> (Some ''k'')"
  by (rule signature_ignores_contents) (simp_all add: sample_pb_def missing_fields_def)

lemma ingest_batch_owned:
  "list_all (owned env cn) (concat (is_published s)) \<Longrightarrow>
     list_all (owned env cn) (concat (is_published (snd (ingest_batch env cn key require req s))))"
proof -
  assume own: "list_all (owned env cn) (concat (is_published s))"
  have "list_all (owned env cn) (concat (is_published (snd (seq_res (batch_loop env cn rej 0 pbs [] s1)
      (\<lambda>evs s2. (Inr (), if evs = [] then s2 else s2\<lparr>is_published := is_published s2 @ [evs]\<rparr>))))))"
    if "is_published s1 = is_published s" for rej pbs s1
  proof (cases "batch_loop env cn rej 0 pbs [] s1")
    case (Pair r s2)
    then show ?thesis
      using batch_loop_owned [of env cn rej 0 pbs "[]" s1] batch_loop_keeps [of env cn rej 0 pbs "[]" s1] own that
      by (cases r) auto
  qed
  then show ?thesis using own by (auto simp: ingest_batch_def Let_def split: sum.splits)
qed

lemma ingest_stream_owned:
  "list_all (owned env cn) (concat (is_published s)) \<Longrightarrow>
     list_all (owned env cn) (concat (is_published (snd (ingest_stream env cn key require reqs s))))"
proof (induction reqs arbitrary: s)
  case (Cons req reqs)
  obtain r s' where r: "ingest_batch env cn key require req s = (r, s')"
    by (cases "ingest_batch env cn key require req s")
  with Cons.IH [of s'] ingest_batch_owned [OF Cons.prems, of key require req] show ?case
    by (cases r) auto
qed simp

text \<open>C38: events cannot be attributed to another agent: every event a stream publishes passed the
  schema and carries the identity derived from the certificate's name, whatever the payload claims,
  its command line went through the secret masker, and the name was well-formed and not blocked.\<close>

theorem published_events_owned:
  assumes "ingest_events env cn blocked keys_of require reqs = (res, s)" and "e \<in> set (concat (is_published s))"
  shows "\<exists>c. cn = Some c \<and> safe_id_re c \<and> c \<notin> set blocked \<and> valid_event e
    \<and> ev_agent_id e = (case ig_uuid_of_text env c of Some u \<Rightarrow> u | None \<Rightarrow> ig_uuid5 env c)
    \<and> (\<exists>line. ev_cmdline e = mask line)"
proof (cases "require_cn cn blocked")
  case (Inl x)
  with assms show ?thesis by (auto simp: ingest_events_def empty_ingest_def)
next
  case (Inr c)
  then have c: "cn = Some c" "safe_id_re c" "c \<notin> set blocked"
    by (auto simp: require_cn_def split: option.splits if_splits)
  have "list_all (owned env c) (concat (is_published s))"
    using ingest_stream_owned [of env c empty_ingest "map_of keys_of c" require reqs] assms(1) Inr
    by (simp add: ingest_events_def empty_ingest_def)
  with assms(2) c show ?thesis by (auto simp: list_all_iff owned_def)
qed

lemma sample_published:
  "concat (is_published (snd (ingest_events sample_ingest_env (Some ''web1'') [] [] False
      [\<lparr>rq_events = [(sample_pb ''process'')\<lparr>pb_agent_id := ''0123456789abcdef''\<rparr>], rq_batch_signature = []\<rparr>])))
   \<noteq> []"
  by (simp add: ingest_events_def require_cn_def safe_id_re_def safe_core_def safe_char_def ingest_batch_def
      validate_def max_batch_def missing_fields_def sample_pb_def sample_ingest_env_def is_health_def
      pb_to_event_def valid_event_def event_categories_def event_severities_def event_oses_def or_default_def
      valid_port_def some_if_def empty_ingest_def Let_def)

theorem published_events_owned_witness:
  "\<exists>e. e \<in> set (concat (is_published (snd (ingest_events sample_ingest_env (Some ''web1'') [] [] False
      [\<lparr>rq_events = [(sample_pb ''process'')\<lparr>pb_agent_id := ''0123456789abcdef''\<rparr>], rq_batch_signature = []\<rparr>]))))
    \<and> ev_agent_id e = ''web1''"
proof -
  let ?r = "ingest_events sample_ingest_env (Some ''web1'') [] [] False
      [\<lparr>rq_events = [(sample_pb ''process'')\<lparr>pb_agent_id := ''0123456789abcdef''\<rparr>], rq_batch_signature = []\<rparr>]"
  obtain e where e: "e \<in> set (concat (is_published (snd ?r)))"
    using sample_published by (meson last_in_set)
  from published_events_owned [OF surjective_pairing e] have "ev_agent_id e = ''web1''"
    by (auto simp: sample_ingest_env_def)
  with e show ?thesis by blast
qed

lemma validate_indices:
  assumes "validate env req key = Inr v"
  shows "set (va_rejected_indices v) \<subseteq> {..<length (rq_events req)} \<and> distinct (va_rejected_indices v)
    \<and> va_accepted v = length (rq_events req) - length (va_rejected_indices v)"
proof -
  have "v = check_events 0 (rq_events req) \<or> (\<exists>errs. v = reject_all (length (rq_events req)) errs)"
    using assms by (cases "rq_events req = []"; cases key)
      (auto simp: validate_def Let_def split: if_splits signature_check.splits)
  moreover have "set (va_rejected_indices (check_events 0 (rq_events req))) \<subseteq> {..<length (rq_events req)}"
    by (auto simp: check_events_indices)
  ultimately show ?thesis
    using check_events_counts [of 0 "rq_events req"] check_events_distinct [of 0 "rq_events req"]
    by (auto simp: reject_all_def)
qed

lemma length_kept:
  assumes "set rej \<subseteq> {..<length xs}" and "distinct rej"
  shows "length (filter (\<lambda>p. fst p \<notin> set rej) (enumerate 0 xs)) = length xs - length rej"
proof -
  have "length (filter (\<lambda>p. fst p \<notin> set rej) (enumerate 0 xs))
      = card {i. i < length xs \<and> i \<notin> set rej}"
    by (simp add: length_filter_conv_card nth_enumerate_eq cong: conj_cong)
  also have "{i. i < length xs \<and> i \<notin> set rej} = {..<length xs} - set rej" by auto
  also have "card \<dots> = length xs - length rej"
    using assms by (simp add: card_Diff_subset distinct_card)
  finally show ?thesis .
qed

text \<open>A batch is published whole or not at all. When it succeeds, exactly its accepted events that
  are not health snapshots are published; a single accepted event that the schema refuses makes the
  call raise, and none of the batch's events is published although they were counted as accepted.\<close>

theorem batch_all_or_nothing:
  assumes "validate env req key = Inr v" and "key \<noteq> None \<or> \<not> require"
    and "list_all (\<lambda>pb. \<not> is_health pb) (rq_events req)"
    and "ingest_batch env cn key require req s = (res, s')"
  shows "is_accepted s' = is_accepted s + va_accepted v
    \<and> (if \<exists>k < length (rq_events req). k \<notin> set (va_rejected_indices v)
            \<and> pb_to_event env (Some cn) (rq_events req ! k) = Inl ValidationError
       then res = Inl ValidationError \<and> is_published s' = is_published s
       else length (concat (is_published s')) = length (concat (is_published s)) + va_accepted v)"
proof -
  define s1 where "s1 = s\<lparr>is_accepted := is_accepted s + va_accepted v, is_rejected := is_rejected s + va_rejected v,
                 is_errors := is_errors s @ take (1000 - length (is_errors s)) (va_errors v)\<rparr>"
  obtain r s2 where loop: "batch_loop env cn (va_rejected_indices v) 0 (rq_events req) [] s1 = (r, s2)"
    by (cases "batch_loop env cn (va_rejected_indices v) 0 (rq_events req) [] s1")
  have keeps: "is_published s2 = is_published s" "is_accepted s2 = is_accepted s + va_accepted v"
    using batch_loop_keeps [of env cn "va_rejected_indices v" 0 "rq_events req" "[]" s1] loop by (simp_all add: s1_def)
  have batch: "(res, s') = seq_res (r, s2) (\<lambda>evs s2.
      (Inr (), if evs = [] then s2 else s2\<lparr>is_published := is_published s2 @ [evs]\<rparr>))"
    using assms(1,2,4) loop by (auto simp: ingest_batch_def s1_def Let_def)
  show ?thesis
  proof (cases r)
    case (Inl e)
    have "\<exists>k < length (rq_events req). k \<notin> set (va_rejected_indices v)
            \<and> pb_to_event env (Some cn) (rq_events req ! k) = Inl ValidationError"
      using batch_loop_Inl_index [of env cn "va_rejected_indices v" 0 "rq_events req" "[]" s1 e]
        batch_loop_Inl [of env cn "va_rejected_indices v" 0 "rq_events req" "[]" s1 e] loop Inl
      by auto
    then show ?thesis
      using batch keeps Inl batch_loop_Inl [of env cn "va_rejected_indices v" 0 "rq_events req" "[]" s1] loop by auto
  next
    case (Inr evs)
    have "\<not> (\<exists>k < length (rq_events req). k \<notin> set (va_rejected_indices v)
            \<and> pb_to_event env (Some cn) (rq_events req ! k) = Inl ValidationError)"
      using batch_loop_poison [of _ "rq_events req" 0 "va_rejected_indices v" env cn ValidationError "[]" s1]
        assms(3) loop Inr by (fastforce simp: list_all_length)
    moreover have "length evs = va_accepted v"
    proof -
      have "filter is_health (List.map snd (filter (\<lambda>p. fst p \<notin> set (va_rejected_indices v)) (enumerate 0 (rq_events req)))) = []"
        using assms(3) by (auto simp: filter_empty_conv list_all_iff in_set_enumerate_eq)
      then show ?thesis
        using batch_loop_length [OF loop [unfolded Inr]] validate_indices [OF assms(1)]
          length_kept [of "va_rejected_indices v" "rq_events req"] by simp
    qed
    ultimately show ?thesis using batch keeps Inr by (auto split: if_splits)
  qed
qed

theorem batch_all_or_nothing_witness:
  "\<exists>v s'. validate sample_ingest_env \<lparr>rq_events = [sample_pb ''process'', sample_pb ''weird''], rq_batch_signature = []\<rparr>
        None = Inr v
     \<and> ingest_batch sample_ingest_env ''web1'' None False
        \<lparr>rq_events = [sample_pb ''process'', sample_pb ''weird''], rq_batch_signature = []\<rparr> empty_ingest
        = (Inl ValidationError, s')
     \<and> is_published s' = [] \<and> is_accepted s' = 2"
proof -
  let ?req = "\<lparr>rq_events = [sample_pb ''process'', sample_pb ''weird''], rq_batch_signature = []\<rparr>"
  have v: "validate sample_ingest_env ?req None
      = Inr \<lparr>va_accepted = 2, va_rejected = 0, va_errors = [], va_rejected_indices = []\<rparr>"
    by (simp add: validate_def max_batch_def missing_fields_def sample_pb_def Let_def)
  obtain res s' where b: "ingest_batch sample_ingest_env ''web1'' None False ?req empty_ingest = (res, s')"
    by (metis surj_pair)
  have "\<exists>k < length (rq_events ?req). pb_to_event sample_ingest_env (Some ''web1'') (rq_events ?req ! k) = Inl ValidationError"
    by (intro exI [of _ 1]) (simp add: pb_to_event_def valid_event_def event_categories_def sample_pb_def Let_def)
  with batch_all_or_nothing [OF v _ _ b] v b show ?thesis
    by (auto simp: is_health_def sample_pb_def empty_ingest_def)
qed

end
