(* ===== verification/Case_Repo.thy ===== *)
theory Case_Repo
  imports Schema
begin

text \<open>
  \<open>storage/repositories/cases.py\<close>: forensic cases and their custody log, evidence and notes, four
  tables. Rows keep typed values (ISO and JSON texts of the columns stand for them). The custody table
  is listed in the order of its auto-increment id; a custody row is its entry with the case it belongs
  to. \<open>ok\<close> says whether the transaction of an operation commits; when it does not, nothing changes.
\<close>

record case_row =
  cr_case_id :: uuid
  cr_created_at :: time
  cr_updated_at :: time
  cr_title :: string
  cr_description :: string
  cr_severity :: severity
  cr_status :: case_status
  cr_tags :: "string list"
  cr_assigned_to :: "string option"
  cr_created_by :: string
  cr_event_ids :: "uuid list"
  cr_alert_ids :: "uuid list"

record case_db =
  cdb_cases :: "(uuid, case_row) pydict"
  cdb_custody :: "(uuid \<times> custody_entry) list"
  cdb_evidence :: "(uuid \<times> evidence_item) list"
  cdb_notes :: "(uuid \<times> case_note) list"

definition db_error :: exn where
  "db_error = OtherError ''DBAPIError''"

definition unique_error :: exn where
  "unique_error = OtherError ''IntegrityError''"

fun case_status_str :: "case_status \<Rightarrow> string" where
  "case_status_str COpen = ''open''"
| "case_status_str CInProgress = ''in_progress''"
| "case_status_str CResolved = ''resolved''"
| "case_status_str CArchived = ''archived''"

definition rows_of :: "uuid \<Rightarrow> (uuid \<times> 'a) list \<Rightarrow> 'a list" where
  "rows_of k rows = List.map snd (filter (\<lambda>r. fst r = k) rows)"

definition row_to_case ::
  "case_row \<Rightarrow> custody_entry list \<Rightarrow> evidence_item list \<Rightarrow> case_note list \<Rightarrow> forensic_case" where
  "row_to_case r custody evidence notes =
     \<lparr>ca_case_id = cr_case_id r, ca_created_at = cr_created_at r, ca_updated_at = cr_updated_at r,
      ca_title = cr_title r, ca_description = cr_description r, ca_severity = cr_severity r,
      ca_status = cr_status r, ca_tags = cr_tags r, ca_assigned_to = cr_assigned_to r,
      ca_created_by = cr_created_by r, ca_event_ids = cr_event_ids r, ca_alert_ids = cr_alert_ids r,
      ca_evidence = evidence, ca_notes = notes, ca_custody_log = custody\<rparr>"

definition case_to_row :: "forensic_case \<Rightarrow> case_row" where
  "case_to_row c =
     \<lparr>cr_case_id = ca_case_id c, cr_created_at = ca_created_at c, cr_updated_at = ca_updated_at c,
      cr_title = ca_title c, cr_description = ca_description c, cr_severity = ca_severity c,
      cr_status = ca_status c, cr_tags = ca_tags c, cr_assigned_to = ca_assigned_to c,
      cr_created_by = ca_created_by c, cr_event_ids = ca_event_ids c, cr_alert_ids = ca_alert_ids c\<rparr>"

definition case_get :: "uuid \<Rightarrow> case_db \<Rightarrow> forensic_case option" where
  "case_get k db =
     map_option (\<lambda>r. row_to_case r (rows_of k (cdb_custody db)) (rows_of k (cdb_evidence db)) (rows_of k (cdb_notes db)))
       (map_of (cdb_cases db) k)"

text \<open>Evidence and note ids are primary keys of their tables.\<close>

definition add_evidence_rows :: "uuid \<Rightarrow> evidence_item list \<Rightarrow> case_db \<Rightarrow> (uuid \<times> evidence_item) list option" where
  "add_evidence_rows k items db = insert_unique (ei_evidence_id \<circ> snd) (List.map (Pair k) items) (cdb_evidence db)"

definition add_note_rows :: "uuid \<Rightarrow> case_note list \<Rightarrow> case_db \<Rightarrow> (uuid \<times> case_note) list option" where
  "add_note_rows k notes db = insert_unique (cn_note_id \<circ> snd) (List.map (Pair k) notes) (cdb_notes db)"

definition case_create :: "bool \<Rightarrow> forensic_case \<Rightarrow> case_db \<Rightarrow> forensic_case result \<times> case_db" where
  "case_create ok c db =
     (let k = ca_case_id c
      in if \<not> ok then (Inl db_error, db)
         else if dict_has (cdb_cases db) k then (Inl unique_error, db)
         else case (add_evidence_rows k (ca_evidence c) db, add_note_rows k (ca_notes c) db) of
           (Some evs, Some notes) \<Rightarrow>
             (Inr c, \<lparr>cdb_cases = cdb_cases db @ [(k, case_to_row c)],
                      cdb_custody = cdb_custody db @ List.map (Pair k) (ca_custody_log c),
                      cdb_evidence = evs, cdb_notes = notes\<rparr>)
         | _ \<Rightarrow> (Inl unique_error, db))"

text \<open>\<open>update\<close> writes the mutable columns and adds the notes and the evidence that the case does not have
  yet; it touches neither the existing ones nor the custody log.\<close>

definition update_case_row :: "forensic_case \<Rightarrow> case_row \<Rightarrow> case_row" where
  "update_case_row c r =
     r\<lparr>cr_updated_at := ca_updated_at c, cr_title := ca_title c, cr_description := ca_description c,
       cr_severity := ca_severity c, cr_status := ca_status c, cr_tags := ca_tags c,
       cr_assigned_to := ca_assigned_to c, cr_event_ids := ca_event_ids c, cr_alert_ids := ca_alert_ids c\<rparr>"

definition missing_from :: "('a \<Rightarrow> uuid) \<Rightarrow> 'a list \<Rightarrow> 'a list \<Rightarrow> 'a list" where
  "missing_from key stored items = filter (\<lambda>x. key x \<notin> set (List.map key stored)) items"

definition case_update :: "bool \<Rightarrow> forensic_case \<Rightarrow> case_db \<Rightarrow> forensic_case result \<times> case_db" where
  "case_update ok c db =
     (let k = ca_case_id c
      in if \<not> ok then (Inl db_error, db)
         else case map_of (cdb_cases db) k of
           None \<Rightarrow> (Inl ValueError, db)
         | Some r \<Rightarrow>
             (case (add_evidence_rows k (missing_from ei_evidence_id (rows_of k (cdb_evidence db)) (ca_evidence c)) db,
                    add_note_rows k (missing_from cn_note_id (rows_of k (cdb_notes db)) (ca_notes c)) db) of
                (Some evs, Some notes) \<Rightarrow>
                  (Inr c, db\<lparr>cdb_cases := dict_put k (update_case_row c r) (cdb_cases db),
                             cdb_evidence := evs, cdb_notes := notes\<rparr>)
              | _ \<Rightarrow> (Inl unique_error, db)))"

record case_filters =
  cf_status :: "string option"
  cf_severity :: "string option"
  cf_created_by :: "string option"

text \<open>A filter that is absent or empty does not restrict the query.\<close>

definition filter_passes :: "string option \<Rightarrow> string \<Rightarrow> bool" where
  "filter_passes f v = (case f of None \<Rightarrow> True | Some x \<Rightarrow> x = [] \<or> x = v)"

definition case_list :: "case_filters \<Rightarrow> nat \<Rightarrow> nat \<Rightarrow> case_db \<Rightarrow> forensic_case list \<times> nat" where
  "case_list f limit offset db =
     (let rows = filter (\<lambda>r. filter_passes (cf_status f) (case_status_str (cr_status r))
                       \<and> filter_passes (cf_severity f) (severity_str (cr_severity r))
                       \<and> filter_passes (cf_created_by f) (cr_created_by r)) (List.map snd (cdb_cases db))
      in (List.map (\<lambda>r. row_to_case r [] [] []) (page_of offset limit (sort_desc cr_created_at rows)), length rows))"

definition append_custody_row :: "bool \<Rightarrow> uuid \<Rightarrow> custody_entry \<Rightarrow> case_db \<Rightarrow> unit result \<times> case_db" where
  "append_custody_row ok k e db =
     (if ok then (Inr (), db\<lparr>cdb_custody := cdb_custody db @ [(k, e)]\<rparr>) else (Inl db_error, db))"

section \<open>Lemmas\<close>

lemma rows_of_append [simp]: "rows_of k (xs @ ys) = rows_of k xs @ rows_of k ys"
  by (simp add: rows_of_def)

lemma rows_of_Nil [simp]: "rows_of k [] = []"
  by (simp add: rows_of_def)

lemma rows_of_single [simp]: "rows_of k [(k', x)] = (if k' = k then [x] else [])"
  by (simp add: rows_of_def)

lemma rows_of_Pair [simp]: "rows_of k (List.map (Pair k') xs) = (if k' = k then xs else [])"
  by (induction xs) (auto simp: rows_of_def)

lemma row_to_case_sel [simp]:
  "ca_case_id (row_to_case r c e n) = cr_case_id r" "ca_custody_log (row_to_case r c e n) = c"
  "ca_evidence (row_to_case r c e n) = e" "ca_notes (row_to_case r c e n) = n"
  "ca_status (row_to_case r c e n) = cr_status r"
  by (simp_all add: row_to_case_def)

text \<open>An operation either leaves the tables as they were, or adds exactly its rows.\<close>

lemma case_create_Inl: "case_create ok c db = (Inl e, db') \<Longrightarrow> db' = db"
  by (auto simp: case_create_def Let_def split: if_splits option.splits)

lemma case_create_Inr:
  assumes "case_create ok c db = (Inr c', db')"
  shows "c' = c \<and> map_of (cdb_cases db) (ca_case_id c) = None
    \<and> cdb_cases db' = cdb_cases db @ [(ca_case_id c, case_to_row c)]
    \<and> cdb_custody db' = cdb_custody db @ List.map (Pair (ca_case_id c)) (ca_custody_log c)
    \<and> add_evidence_rows (ca_case_id c) (ca_evidence c) db = Some (cdb_evidence db')
    \<and> add_note_rows (ca_case_id c) (ca_notes c) db = Some (cdb_notes db')"
  using assms by (auto simp: case_create_def Let_def dict_has_iff split: if_splits option.splits)

lemma case_update_Inl: "case_update ok c db = (Inl e, db') \<Longrightarrow> db' = db"
  by (auto simp: case_update_def Let_def split: if_splits option.splits)

lemma case_update_Inr:
  assumes "case_update ok c db = (Inr c', db')"
  shows "c' = c \<and> (\<exists>r. map_of (cdb_cases db) (ca_case_id c) = Some r
      \<and> cdb_cases db' = dict_put (ca_case_id c) (update_case_row c r) (cdb_cases db))
    \<and> cdb_custody db' = cdb_custody db
    \<and> add_evidence_rows (ca_case_id c)
         (missing_from ei_evidence_id (rows_of (ca_case_id c) (cdb_evidence db)) (ca_evidence c)) db = Some (cdb_evidence db')
    \<and> add_note_rows (ca_case_id c)
         (missing_from cn_note_id (rows_of (ca_case_id c) (cdb_notes db)) (ca_notes c)) db = Some (cdb_notes db')"
  using assms by (auto simp: case_update_def Let_def split: if_splits option.splits)

lemma add_evidence_rows_Some:
  "add_evidence_rows k items db = Some rows \<Longrightarrow> rows_of k' rows = rows_of k' (cdb_evidence db) @ (if k' = k then items else [])"
  by (auto simp: add_evidence_rows_def insert_unique_def split: if_splits)

lemma add_note_rows_Some:
  "add_note_rows k items db = Some rows \<Longrightarrow> rows_of k' rows = rows_of k' (cdb_notes db) @ (if k' = k then items else [])"
  by (auto simp: add_note_rows_def insert_unique_def split: if_splits)

definition ids_unique :: "case_db \<Rightarrow> bool" where
  "ids_unique db \<longleftrightarrow> distinct (List.map (ei_evidence_id \<circ> snd) (cdb_evidence db))
     \<and> distinct (List.map (cn_note_id \<circ> snd) (cdb_notes db))"

lemma rows_Some_unique:
  "add_evidence_rows k items db = Some (cdb_evidence db') \<Longrightarrow> add_note_rows k nts db = Some (cdb_notes db') \<Longrightarrow> ids_unique db'"
  by (auto simp: add_evidence_rows_def add_note_rows_def insert_unique_def ids_unique_def simp del: map_append split: if_splits)

lemma row_of_case_id [simp]: "row_to_case (case_to_row c) (ca_custody_log c) (ca_evidence c) (ca_notes c) = c"
  by (simp add: row_to_case_def case_to_row_def)

text \<open>A new case reads back as it was stored.\<close>

lemma case_create_get:
  assumes "case_create ok c db = (Inr c', db')"
    and "rows_of (ca_case_id c) (cdb_custody db) = []" "rows_of (ca_case_id c) (cdb_evidence db) = []"
    and "rows_of (ca_case_id c) (cdb_notes db) = []"
  shows "case_get (ca_case_id c) db' = Some c"
proof -
  note created = case_create_Inr [OF assms(1)]
  then have "rows_of (ca_case_id c) (cdb_evidence db') = ca_evidence c" "rows_of (ca_case_id c) (cdb_notes db') = ca_notes c"
    using add_evidence_rows_Some add_note_rows_Some assms(3,4) by fastforce+
  with created assms(2) show ?thesis by (simp add: case_get_def map_add_def)
qed

end
