(* ===== verification/Case_Manager.thy ===== *)
theory Case_Manager
  imports Case_Repo Hash_Chain Machines
begin

text \<open>
  \<open>forensic/case_manager.py\<close> and the routes of \<open>api/routers/cases.py\<close> that change cases: every
  operation on a case appends an entry to its custody log, a hash chain. Operations on one case run
  under its lock, so each is one step; the update of the case and the custody entry are two database
  transactions, each of which can fail on its own. BLAKE2b, ISO formatting and \<open>str\<close> of lists are
  parameters.
\<close>

record case_lib =
  cl_blake2b :: "string \<Rightarrow> string"
  cl_iso :: "time \<Rightarrow> string"
  cl_str :: "json \<Rightarrow> string"

record case_env =
  kv_now :: time
  kv_new_id :: uuid
  kv_update_ok :: bool
  kv_log_ok :: bool

section \<open>The custody log\<close>

definition zero_hash :: string where
  "zero_hash = replicate 64 (CHR ''0'')"

definition custody_hash :: "case_lib \<Rightarrow> string \<Rightarrow> string \<Rightarrow> string \<Rightarrow> string \<Rightarrow> string \<Rightarrow> string" where
  "custody_hash lib prev ts operator action detail =
     cl_blake2b lib (prev @ ''|'' @ ts @ ''|'' @ operator @ ''|'' @ action @ ''|'' @ detail)"

definition last_hash :: "forensic_case \<Rightarrow> string" where
  "last_hash c = (if ca_custody_log c \<noteq> [] then cu_hash (last (ca_custody_log c)) else zero_hash)"

definition append_custody ::
  "case_lib \<Rightarrow> case_env \<Rightarrow> forensic_case \<Rightarrow> string \<Rightarrow> string \<Rightarrow> string \<Rightarrow> case_db \<Rightarrow> custody_entry result \<times> case_db" where
  "append_custody lib env c operator action detail db =
     (let e = \<lparr>cu_timestamp = kv_now env, cu_operator = operator, cu_action = action, cu_detail = detail,
             cu_hash = custody_hash lib (last_hash c) (cl_iso lib (kv_now env)) operator action detail\<rparr>
      in seq_res (append_custody_row (kv_log_ok env) (ca_case_id c) e db) (\<lambda>_ db'. (Inr e, db')))"

definition sensitive_words :: "string list" where
  "sensitive_words = [''password'', ''token'', ''key'', ''secret'', ''hash'']"

definition lower :: "string \<Rightarrow> string" where
  "lower = List.map (\<lambda>c. if CHR ''A'' \<le> c \<and> c \<le> CHR ''Z'' then char_of (of_char c + 32 :: nat) else c)"

definition mask_custody_value :: "string \<Rightarrow> string \<Rightarrow> string" where
  "mask_custody_value field v = (if list_ex (contains (lower field)) sensitive_words then ''***'' else v)"

section \<open>Changing the fields of a case\<close>

definition severity_of :: "string \<Rightarrow> severity option" where
  "severity_of s = List.find (\<lambda>v. severity_str v = s) [Low, Medium, High, Critical]"

definition case_status_of :: "string \<Rightarrow> case_status option" where
  "case_status_of s = List.find (\<lambda>v. case_status_str v = s) [COpen, CInProgress, CResolved, CArchived]"

fun evidence_type_str :: "evidence_type \<Rightarrow> string" where
  "evidence_type_str EvEvent = ''event''"
| "evidence_type_str EvFileHash = ''file_hash''"
| "evidence_type_str EvScreenshot = ''screenshot''"
| "evidence_type_str EvNote = ''note''"
| "evidence_type_str EvExternal = ''external''"

definition evidence_type_of :: "string \<Rightarrow> evidence_type option" where
  "evidence_type_of s =
     List.find (\<lambda>v. evidence_type_str v = s) [EvEvent, EvFileHash, EvScreenshot, EvNote, EvExternal]"

definition updatable_fields :: "string list" where
  "updatable_fields = [''title'', ''description'', ''severity'', ''status'', ''tags'', ''assigned_to'']"

text \<open>\<open>setattr\<close> on the model, which validates each assignment.\<close>

definition set_field :: "string \<times> json \<Rightarrow> forensic_case \<Rightarrow> forensic_case result" where
  "set_field kv c =
     (let k = fst kv
      in if k \<notin> set updatable_fields then Inl ValueError
         else if k = ''tags'' then bind_result (str_list (snd kv)) (\<lambda>ts. Inr (c\<lparr>ca_tags := ts\<rparr>))
         else case snd kv of
           JStr s \<Rightarrow>
             (if k = ''title'' then Inr (c\<lparr>ca_title := s\<rparr>)
              else if k = ''description'' then Inr (c\<lparr>ca_description := s\<rparr>)
              else if k = ''assigned_to'' then Inr (c\<lparr>ca_assigned_to := Some s\<rparr>)
              else if k = ''severity'' then
                (case severity_of s of None \<Rightarrow> Inl ValidationError | Some v \<Rightarrow> Inr (c\<lparr>ca_severity := v\<rparr>))
              else (case case_status_of s of None \<Rightarrow> Inl ValidationError | Some v \<Rightarrow> Inr (c\<lparr>ca_status := v\<rparr>)))
         | JNull \<Rightarrow> (if k = ''assigned_to'' then Inr (c\<lparr>ca_assigned_to := None\<rparr>) else Inl ValidationError)
         | _ \<Rightarrow> Inl ValidationError)"

fun set_fields :: "(string \<times> json) list \<Rightarrow> forensic_case \<Rightarrow> forensic_case result" where
  "set_fields [] c = Inr c"
| "set_fields (kv # kvs) c = bind_result (set_field kv c) (set_fields kvs)"

definition update_detail :: "case_lib \<Rightarrow> (string \<times> json) list \<Rightarrow> string" where
  "update_detail lib kvs =
     join '', '' (List.map (\<lambda>(k, v). k @ ''='' @ mask_custody_value k (py_str (cl_str lib) v)) kvs)"

section \<open>The operations\<close>

definition create_case ::
  "case_lib \<Rightarrow> case_env \<Rightarrow> string \<Rightarrow> string \<Rightarrow> string \<Rightarrow> string \<Rightarrow> string list \<Rightarrow> uuid list \<Rightarrow> uuid list
   \<Rightarrow> case_db \<Rightarrow> forensic_case result \<times> case_db" where
  "create_case lib env title severity created_by description tags alert_ids event_ids db =
     (case severity_of severity of
        None \<Rightarrow> (Inl ValidationError, db)
      | Some sev \<Rightarrow>
          case_create (kv_update_ok env)
            \<lparr>ca_case_id = kv_new_id env, ca_created_at = kv_now env, ca_updated_at = kv_now env,
             ca_title = title, ca_description = description, ca_severity = sev, ca_status = COpen,
             ca_tags = tags, ca_assigned_to = None, ca_created_by = created_by,
             ca_event_ids = event_ids, ca_alert_ids = alert_ids, ca_evidence = [], ca_notes = [],
             ca_custody_log = [\<lparr>cu_timestamp = kv_now env, cu_operator = created_by,
               cu_action = ''case_opened'', cu_detail = title,
               cu_hash = custody_hash lib zero_hash (cl_iso lib (kv_now env)) created_by ''case_opened'' title\<rparr>]\<rparr> db)"

definition with_case ::
  "uuid \<Rightarrow> case_db \<Rightarrow> (forensic_case \<Rightarrow> 'a result \<times> case_db) \<Rightarrow> 'a result \<times> case_db" where
  "with_case k db f = (case case_get k db of None \<Rightarrow> (Inl ValueError, db) | Some c \<Rightarrow> f c)"

text \<open>The tail the four operations share: persist the changed case \<open>c\<close>, then log the action.\<close>

definition persist_and_log ::
  "case_lib \<Rightarrow> case_env \<Rightarrow> forensic_case \<Rightarrow> string \<Rightarrow> string \<Rightarrow> string \<Rightarrow> 'a \<Rightarrow> case_db \<Rightarrow> 'a result \<times> case_db" where
  "persist_and_log lib env c operator action detail x db =
     (let c' = c\<lparr>ca_updated_at := kv_now env\<rparr>
      in seq_res (case_update (kv_update_ok env) c' db) (\<lambda>_ db1.
           seq_res (append_custody lib env c' operator action detail db1) (\<lambda>_ db2. (Inr x, db2))))"

definition update_case ::
  "case_lib \<Rightarrow> case_env \<Rightarrow> uuid \<Rightarrow> string \<Rightarrow> (string \<times> json) list \<Rightarrow> case_db \<Rightarrow> forensic_case result \<times> case_db" where
  "update_case lib env k operator kvs db = with_case k db (\<lambda>c.
     case set_fields kvs c of
       Inl e \<Rightarrow> (Inl e, db)
     | Inr c' \<Rightarrow> persist_and_log lib env c' operator ''case_updated'' (update_detail lib kvs)
                  (c'\<lparr>ca_updated_at := kv_now env\<rparr>) db)"

definition add_note ::
  "case_lib \<Rightarrow> case_env \<Rightarrow> uuid \<Rightarrow> string \<Rightarrow> string \<Rightarrow> case_db \<Rightarrow> case_note result \<times> case_db" where
  "add_note lib env k author content db = with_case k db (\<lambda>c.
     let note = \<lparr>cn_note_id = kv_new_id env, cn_case_id = k, cn_created_at = kv_now env, cn_updated_at = None,
                 cn_author = author, cn_content = content\<rparr>
     in persist_and_log lib env (c\<lparr>ca_notes := ca_notes c @ [note]\<rparr>) author ''note_added''
          (''note_id='' @ kv_new_id env) note db)"

definition add_evidence ::
  "case_lib \<Rightarrow> case_env \<Rightarrow> uuid \<Rightarrow> string \<Rightarrow> string \<Rightarrow> string \<Rightarrow> string option \<Rightarrow> case_db \<Rightarrow> evidence_item result \<times> case_db" where
  "add_evidence lib env k operator ty content description db = with_case k db (\<lambda>c.
     case evidence_type_of ty of
       None \<Rightarrow> (Inl ValidationError, db)
     | Some t \<Rightarrow>
         (let item = \<lparr>ei_evidence_id = kv_new_id env, ei_type = t, ei_content = content,
                ei_description = description, ei_added_by = operator, ei_added_at = kv_now env,
                ei_marked_as_evidence_at = kv_now env\<rparr>
          in persist_and_log lib env (c\<lparr>ca_evidence := ca_evidence c @ [item]\<rparr>) operator ''evidence_added''
               (''evidence_id='' @ kv_new_id env) item db))"

definition close_case ::
  "case_lib \<Rightarrow> case_env \<Rightarrow> uuid \<Rightarrow> string \<Rightarrow> string \<Rightarrow> case_db \<Rightarrow> forensic_case result \<times> case_db" where
  "close_case lib env k operator resolution db = with_case k db (\<lambda>c.
     let c' = c\<lparr>ca_status := CResolved\<rparr>
     in persist_and_log lib env c' operator ''case_closed'' resolution (c'\<lparr>ca_updated_at := kv_now env\<rparr>) db)"

text \<open>No field that can be updated has a sensitive name: the mask never applies.\<close>

lemma mask_never_applies: "f \<in> set updatable_fields \<Longrightarrow> mask_custody_value f v = v"
  by (auto simp: updatable_fields_def mask_custody_value_def sensitive_words_def lower_def)

section \<open>The routes\<close>

record update_body =
  ub_title :: "string option"
  ub_description :: "string option"
  ub_severity :: "string option"
  ub_status :: "string option"
  ub_assigned_to :: "string option"
  ub_tags :: "string list option"

definition opt_ok :: "('a \<Rightarrow> bool) \<Rightarrow> 'a option \<Rightarrow> bool" where
  "opt_ok P x = (case x of None \<Rightarrow> True | Some a \<Rightarrow> P a)"

definition route_statuses :: "string list" where
  "route_statuses = [''open'', ''investigating'', ''closed'']"

definition route_evidence_types :: "string list" where
  "route_evidence_types = [''file'', ''process'', ''network'', ''memory'', ''log'', ''artifact'', ''other'']"

definition valid_update_body :: "update_body \<Rightarrow> bool" where
  "valid_update_body b \<longleftrightarrow>
     opt_ok (\<lambda>s. 1 \<le> length s \<and> length s \<le> 500) (ub_title b)
     \<and> opt_ok (\<lambda>s. length s \<le> 10000) (ub_description b)
     \<and> opt_ok (\<lambda>s. s \<in> set [''low'', ''medium'', ''high'', ''critical'']) (ub_severity b)
     \<and> opt_ok (\<lambda>s. s \<in> set route_statuses) (ub_status b)
     \<and> opt_ok (\<lambda>s. length s \<le> 200) (ub_assigned_to b)
     \<and> opt_ok (\<lambda>ts. length ts \<le> 50 \<and> list_all (\<lambda>t. length t \<le> 100) ts) (ub_tags b)"

text \<open>\<open>model_dump(exclude_none=True)\<close>, in the order of the declarations.\<close>

definition body_fields :: "update_body \<Rightarrow> (string \<times> json) list" where
  "body_fields b = List.map_filter (\<lambda>(k, v). map_option (Pair k) v)
     [(''title'', map_option JStr (ub_title b)), (''description'', map_option JStr (ub_description b)),
      (''severity'', map_option JStr (ub_severity b)), (''status'', map_option JStr (ub_status b)),
      (''assigned_to'', map_option JStr (ub_assigned_to b)),
      (''tags'', map_option (JList \<circ> List.map JStr) (ub_tags b))]"

definition update_case_route ::
  "case_lib \<Rightarrow> case_env \<Rightarrow> uuid \<Rightarrow> string \<Rightarrow> update_body \<Rightarrow> case_db \<Rightarrow> forensic_case result \<times> case_db" where
  "update_case_route lib env k operator b db =
     (if \<not> valid_update_body b \<or> body_fields b = [] then (Inl (HTTPException 422), db)
      else update_case lib env k operator (body_fields b) db)"

definition add_evidence_route ::
  "case_lib \<Rightarrow> case_env \<Rightarrow> uuid \<Rightarrow> string \<Rightarrow> string \<Rightarrow> string \<Rightarrow> string option \<Rightarrow> case_db \<Rightarrow> evidence_item result \<times> case_db" where
  "add_evidence_route lib env k operator ty content description db =
     (if ty \<notin> set route_evidence_types \<or> content = [] \<or> 1000000 < length content
      then (Inl (HTTPException 422), db)
      else add_evidence lib env k operator ty content description db)"

definition list_cases_route ::
  "string option \<Rightarrow> string option \<Rightarrow> nat \<Rightarrow> nat \<Rightarrow> case_db \<Rightarrow> (forensic_case list \<times> nat) result" where
  "list_cases_route status severity page page_size db =
     (if \<not> opt_ok (\<lambda>s. s \<in> set route_statuses) status
         \<or> \<not> opt_ok (\<lambda>s. s \<in> set [''low'', ''medium'', ''high'', ''critical'']) severity
         \<or> page < 1 \<or> page_size < 1 \<or> 200 < page_size
      then Inl (HTTPException 422)
      else Inr (case_list \<lparr>cf_status = status, cf_severity = severity, cf_created_by = None\<rparr>
                 page_size ((page - 1) * page_size) db))"

datatype case_op =
    CreateCase case_env string string string string "string list" "uuid list" "uuid list"
  | UpdateCase case_env uuid string "(string \<times> json) list"
  | AddNote case_env uuid string string
  | AddEvidence case_env uuid string string string "string option"
  | CloseCase case_env uuid string string

fun case_step :: "case_lib \<Rightarrow> case_op \<Rightarrow> case_db \<Rightarrow> case_db" where
  "case_step lib (CreateCase env title sev by desc tags als evs) db = snd (create_case lib env title sev by desc tags als evs db)"
| "case_step lib (UpdateCase env k operator kvs) db = snd (update_case lib env k operator kvs db)"
| "case_step lib (AddNote env k author content) db = snd (add_note lib env k author content db)"
| "case_step lib (AddEvidence env k operator ty content desc) db = snd (add_evidence lib env k operator ty content desc db)"
| "case_step lib (CloseCase env k operator resolution) db = snd (close_case lib env k operator resolution db)"

definition empty_cases :: case_db where
  "empty_cases = \<lparr>cdb_cases = [], cdb_custody = [], cdb_evidence = [], cdb_notes = []\<rparr>"

section \<open>The log as a hash chain\<close>

definition custody_text :: "case_lib \<Rightarrow> custody_entry \<Rightarrow> string" where
  "custody_text lib e = cl_iso lib (cu_timestamp e) @ ''|'' @ cu_operator e @ ''|'' @ cu_action e @ ''|'' @ cu_detail e"

definition custody_digest :: "case_lib \<Rightarrow> string \<Rightarrow> string \<Rightarrow> string" where
  "custody_digest lib prev txt = cl_blake2b lib (prev @ ''|'' @ txt)"

fun custody_valid :: "case_lib \<Rightarrow> string \<Rightarrow> custody_entry list \<Rightarrow> bool" where
  "custody_valid lib p [] = True"
| "custody_valid lib p (e # es) \<longleftrightarrow> cu_hash e = custody_digest lib p (custody_text lib e) \<and> custody_valid lib (cu_hash e) es"

interpretation cc: hash_chain "custody_digest lib" "custody_text lib" cu_hash "custody_valid lib"
  by unfold_locales auto

lemma custody_tip: "cc.tip p es = (if es = [] then p else cu_hash (last es))"
  by (induction es arbitrary: p) auto

lemma custody_valid_snoc:
  "custody_valid lib p (es @ [e]) \<longleftrightarrow>
     custody_valid lib p es \<and> cu_hash e = custody_digest lib (cc.tip p es) (custody_text lib e)"
  by (induction es arbitrary: p) auto

definition case_inv :: "case_lib \<Rightarrow> case_db \<Rightarrow> bool" where
  "case_inv lib db \<longleftrightarrow> ids_unique db \<and> wf_dict (cdb_cases db) \<and> (\<forall>k r. map_of (cdb_cases db) k = Some r \<longrightarrow> cr_case_id r = k)
     \<and> (\<forall>k. custody_valid lib zero_hash (rows_of k (cdb_custody db))
           \<and> (rows_of k (cdb_custody db) = []) = (map_of (cdb_cases db) k = None))"

lemma case_inv_empty [simp]: "case_inv lib empty_cases"
  by (simp add: case_inv_def empty_cases_def ids_unique_def)

lemma set_fields_keep:
  assumes "set_fields kvs c = Inr c'"
  shows "ca_case_id c' = ca_case_id c \<and> ca_custody_log c' = ca_custody_log c"
  using assms
proof (induction kvs arbitrary: c)
  case (Cons kv kvs)
  then obtain c1 where c1: "set_field kv c = Inr c1" "set_fields kvs c1 = Inr c'" by auto
  then have "ca_case_id c1 = ca_case_id c \<and> ca_custody_log c1 = ca_custody_log c"
    by (auto simp: set_field_def Let_def split: if_splits json.splits option.splits)
  with Cons.IH [OF c1(2)] show ?case by simp
qed simp

text \<open>What appending one entry, computed from the case just read, does to the log.\<close>

lemma append_custody_inv:
  assumes inv: "case_inv lib db" and "map_of (cdb_cases db) (ca_case_id c) = Some r"
    and log: "ca_custody_log c = rows_of (ca_case_id c) (cdb_custody db)"
  shows "case_inv lib (snd (append_custody lib env c operator action detail db))"
  using inv assms(2)
  by (auto simp: append_custody_def append_custody_row_def case_inv_def Let_def custody_valid_snoc custody_tip
      custody_hash_def custody_digest_def custody_text_def last_hash_def log ids_unique_def)

lemma case_update_inv:
  assumes inv: "case_inv lib db"
  shows "case_inv lib (snd (case_update ok c db))"
proof (cases "case_update ok c db")
  case (Pair r db')
  show ?thesis
  proof (cases r)
    case (Inl e)
    with Pair case_update_Inl inv show ?thesis by fastforce
  next
    case (Inr c')
    with Pair case_update_Inr [of ok c db c' db'] inv show ?thesis
      by (auto simp: case_inv_def update_case_row_def rows_Some_unique split: if_splits)
  qed
qed

lemma persist_and_log_inv:
  assumes inv: "case_inv lib db" and log: "ca_custody_log c = rows_of (ca_case_id c) (cdb_custody db)"
  shows "case_inv lib (snd (persist_and_log lib env c operator action detail x db))"
proof -
  let ?c = "c\<lparr>ca_updated_at := kv_now env\<rparr>"
  obtain r db1 where u: "case_update (kv_update_ok env) ?c db = (r, db1)" by fastforce
  have inv1: "case_inv lib db1" using case_update_inv [OF inv, of "kv_update_ok env" ?c] u by simp
  show ?thesis
  proof (cases r)
    case (Inr c')
    with u case_update_Inr [of "kv_update_ok env" ?c db c' db1]
    have "map_of (cdb_cases db1) (ca_case_id ?c) \<noteq> None" "cdb_custody db1 = cdb_custody db" by auto
    then have "case_inv lib (snd (append_custody lib env ?c operator action detail db1))"
      using append_custody_inv [OF inv1, of ?c] log by auto
    then show ?thesis
      by (cases "append_custody lib env ?c operator action detail db1"; cases "fst (append_custody lib env ?c operator action detail db1)")
        (auto simp: persist_and_log_def Let_def u Inr)
  qed (use u inv1 in \<open>simp add: persist_and_log_def\<close>)
qed

text \<open>A step on an existing case, seen through what it reads.\<close>

lemma with_case_inv:
  assumes inv: "case_inv lib db"
    and "\<And>c. ca_case_id c = k \<Longrightarrow> ca_custody_log c = rows_of k (cdb_custody db) \<Longrightarrow> case_inv lib (snd (f c))"
  shows "case_inv lib (snd (with_case k db f))"
proof (cases "map_of (cdb_cases db) k")
  case (Some r)
  then have "cr_case_id r = k" using inv by (simp add: case_inv_def)
  with Some assms(2) show ?thesis by (simp add: with_case_def case_get_def)
qed (simp add: with_case_def case_get_def inv)

lemma create_case_inv:
  assumes inv: "case_inv lib db"
  shows "case_inv lib (snd (create_case lib env title sev by desc tags als evs db))"
proof (cases "severity_of sev")
  case (Some v)
  obtain c where c: "create_case lib env title sev by desc tags als evs db = case_create (kv_update_ok env) c db"
    "ca_custody_log c = [\<lparr>cu_timestamp = kv_now env, cu_operator = by, cu_action = ''case_opened'', cu_detail = title,
       cu_hash = custody_hash lib zero_hash (cl_iso lib (kv_now env)) by ''case_opened'' title\<rparr>]"
    by (simp add: create_case_def Some)
  show ?thesis
  proof (cases "case_create (kv_update_ok env) c db")
    case (Pair r db')
    show ?thesis
    proof (cases r)
      case (Inl e)
      with Pair case_create_Inl inv c(1) show ?thesis by fastforce
    next
      case (Inr c')
      note made = case_create_Inr [of "kv_update_ok env" c db c' db'] Pair Inr
      then have none: "rows_of (ca_case_id c) (cdb_custody db) = []" using inv by (simp add: case_inv_def)
      have "custody_valid lib zero_hash (rows_of (ca_case_id c) (cdb_custody db) @ ca_custody_log c)"
        "rows_of (ca_case_id c) (cdb_custody db) @ ca_custody_log c \<noteq> []"
        unfolding none c(2) by (simp_all add: custody_hash_def custody_digest_def custody_text_def)
      with made inv c(1) show ?thesis
        by (auto simp: case_inv_def wf_dict_snoc map_add_def case_to_row_def rows_Some_unique split: if_splits option.splits)
    qed
  qed
qed (simp add: create_case_def inv)

lemma case_step_inv: "case_inv lib db \<Longrightarrow> case_inv lib (case_step lib op db)"
  by (cases op)
    (auto simp: update_case_def add_note_def add_evidence_def close_case_def Let_def create_case_inv set_fields_keep
      intro!: with_case_inv persist_and_log_inv split: sum.splits option.splits)

interpretation cm: machine "case_step lib" "\<lambda>db. db = empty_cases" "case_inv lib"
  by unfold_locales (auto intro: case_step_inv)

section \<open>Append-only tables\<close>

definition only_appends :: "case_db \<Rightarrow> case_db \<Rightarrow> bool" where
  "only_appends db db' \<longleftrightarrow> (\<exists>xs. cdb_custody db' = cdb_custody db @ xs)
     \<and> (\<exists>ys. cdb_evidence db' = cdb_evidence db @ ys) \<and> (\<exists>zs. cdb_notes db' = cdb_notes db @ zs)"

lemma only_appends_refl [simp]: "only_appends db db"
  by (simp add: only_appends_def)

lemma only_appends_trans: "only_appends a b \<Longrightarrow> only_appends b c \<Longrightarrow> only_appends a c"
  unfolding only_appends_def by (elim conjE exE) (simp only: append.assoc, blast)

lemma only_appends_create: "only_appends db (snd (case_create ok c db))"
  by (auto simp: case_create_def only_appends_def add_evidence_rows_def add_note_rows_def insert_unique_def Let_def
      split: option.splits)

lemma only_appends_update: "only_appends db (snd (case_update ok c db))"
  by (auto simp: case_update_def only_appends_def add_evidence_rows_def add_note_rows_def insert_unique_def Let_def
      split: option.splits)

lemma only_appends_log: "only_appends db (snd (append_custody lib env c operator action detail db))"
  by (simp add: append_custody_def append_custody_row_def only_appends_def Let_def)

lemma only_appends_persist: "only_appends db (snd (persist_and_log lib env c operator action detail x db))"
  unfolding persist_and_log_def Let_def
  by (rule seq_res_rel [where R = only_appends, OF only_appends_update seq_res_rel [where R = only_appends, OF only_appends_log]];
      (simp; fail)?; erule only_appends_trans; assumption)

lemma only_appends_with_case: "(\<And>c. only_appends db (snd (f c))) \<Longrightarrow> only_appends db (snd (with_case k db f))"
  by (simp add: with_case_def split: option.splits)

lemma only_appends_operations:
  "only_appends db (snd (create_case lib env title sev by desc tags als evs db))"
  "only_appends db (snd (update_case lib env k operator kvs db))"
  "only_appends db (snd (add_note lib env k author content db))"
  "only_appends db (snd (add_evidence lib env k operator ty content description db))"
  "only_appends db (snd (close_case lib env k operator resolution db))"
proof -
  show "only_appends db (snd (create_case lib env title sev by desc tags als evs db))"
    by (cases "severity_of sev") (simp_all add: create_case_def only_appends_create)
  show "only_appends db (snd (update_case lib env k operator kvs db))"
    unfolding update_case_def by (rule only_appends_with_case) (simp add: only_appends_persist split: sum.splits)
  show "only_appends db (snd (add_note lib env k author content db))"
    unfolding add_note_def Let_def by (rule only_appends_with_case) (rule only_appends_persist)
  show "only_appends db (snd (add_evidence lib env k operator ty content description db))"
    unfolding add_evidence_def Let_def
    by (rule only_appends_with_case) (simp add: only_appends_persist split: option.splits)
  show "only_appends db (snd (close_case lib env k operator resolution db))"
    unfolding close_case_def Let_def by (rule only_appends_with_case) (rule only_appends_persist)
qed

lemma only_appends_step: "only_appends db (case_step lib op db)"
  by (cases op) (simp_all add: only_appends_operations)

lemma only_appends_run: "only_appends db (run (case_step lib) db ops)"
  by (induction ops arbitrary: db) (auto intro: only_appends_trans only_appends_step)

section \<open>Properties\<close>

text \<open>C4: whatever operations are requested on the cases, in any order and with any transaction failing,
  the custody log of every case is a verified chain from the zero hash, it is empty exactly for ids of
  no case, and custody entries, evidence and notes are only ever appended, never changed or removed.\<close>

theorem custody_always_verified:
  "let db = run (case_step lib) empty_cases ops
   in custody_valid lib zero_hash (rows_of k (cdb_custody db))
      \<and> (rows_of k (cdb_custody db) = []) = (map_of (cdb_cases db) k = None)
      \<and> only_appends db (run (case_step lib) db ops')"
  using cm.reachable_inv [of empty_cases lib ops] only_appends_run
  by (simp add: case_inv_def Let_def)

text \<open>Two verified logs of the same length with the same last hash record the same texts entry by
  entry, or exhibit a collision of BLAKE2b at one index.\<close>

theorem custody_tamper_evident:
  assumes "custody_valid lib p es" and "custody_valid lib p es'" and "length es = length es'"
    and "es \<noteq> []" and "cu_hash (last es) = cu_hash (last es')"
  shows "List.map (custody_text lib) es = List.map (custody_text lib) es'
    \<or> chain_collision (custody_digest lib) p (List.map (custody_text lib) es) (List.map (custody_text lib) es')"
proof (rule cc.tamper_evident [OF assms(1-3)])
  show "cc.tip p es = cc.tip p es'" using assms(3-5) by (auto simp: custody_tip)
qed

theorem custody_tamper_evident_witness:
  "\<exists>(lib :: case_lib) (es :: custody_entry list) es'. es \<noteq> es' \<and> (List.map (custody_text lib) es = List.map (custody_text lib) es'
     \<or> chain_collision (custody_digest lib) [] (List.map (custody_text lib) es) (List.map (custody_text lib) es'))"
proof -
  let ?lib = "\<lparr>cl_blake2b = \<lambda>s. s, cl_iso = \<lambda>t. ''t'', cl_str = \<lambda>v. []\<rparr>"
  let ?e = "\<lparr>cu_timestamp = 1, cu_operator = ''eve|case_closed'', cu_action = ''note_added'', cu_detail = ''n'',
      cu_hash = ''|t|eve|case_closed|note_added|n''\<rparr>"
  let ?e' = "\<lparr>cu_timestamp = 1, cu_operator = ''eve'', cu_action = ''case_closed'', cu_detail = ''note_added|n'',
      cu_hash = ''|t|eve|case_closed|note_added|n''\<rparr>"
  have "List.map (custody_text ?lib) [?e] = List.map (custody_text ?lib) [?e']
    \<or> chain_collision (custody_digest ?lib) [] (List.map (custody_text ?lib) [?e]) (List.map (custody_text ?lib) [?e'])"
    by (rule custody_tamper_evident) (simp_all add: custody_digest_def custody_text_def)
  then show ?thesis
    by (intro exI [of _ ?lib] exI [of _ "[?e]"] exI [of _ "[?e']"] conjI) simp_all
qed

text \<open>The hashed text does not determine the entry: the fields are joined by a character that they may
  contain. An entry of an operator whose name holds a bar reads like an entry of another operator with
  another action.\<close>

lemma custody_text_ambiguous:
  "custody_text lib \<lparr>cu_timestamp = t, cu_operator = u @ ''|'' @ a, cu_action = a', cu_detail = d, cu_hash = h\<rparr>
   = custody_text lib \<lparr>cu_timestamp = t, cu_operator = u, cu_action = a, cu_detail = a' @ ''|'' @ d, cu_hash = h\<rparr>"
  by (simp add: custody_text_def)

text \<open>The change of a case and its custody entry are two transactions. When only the second fails, the
  caller gets an error, and the note is stored without any trace in the custody log.\<close>

theorem unlogged_note:
  assumes inv: "case_inv lib db" and r: "map_of (cdb_cases db) k = Some r"
    and fresh: "kv_new_id env \<notin> cn_note_id ` snd ` set (cdb_notes db)"
    and ok: "kv_update_ok env" "\<not> kv_log_ok env"
  shows "\<exists>db'. add_note lib env k author content db = (Inl db_error, db') \<and> cdb_custody db' = cdb_custody db
    \<and> (\<exists>n. rows_of k (cdb_notes db') = rows_of k (cdb_notes db) @ [n] \<and> cn_author n = author \<and> cn_content n = content)"
proof -
  have k: "cr_case_id r = k" using inv r by (simp add: case_inv_def)
  have old: "missing_from cn_note_id (rows_of k (cdb_notes db)) (rows_of k (cdb_notes db) @ [n]) = [n]"
    if "cn_note_id n = kv_new_id env" for n
    using fresh that by (auto simp: missing_from_def rows_of_def filter_empty_conv)
  have ev: "missing_from ei_evidence_id (rows_of k (cdb_evidence db)) (rows_of k (cdb_evidence db)) = []"
    by (auto simp: missing_from_def filter_empty_conv)
  show ?thesis
    using inv fresh ok
    by (auto simp: add_note_def with_case_def case_get_def r k Let_def persist_and_log_def case_update_def old ev
        add_evidence_rows_def add_note_rows_def insert_unique_def case_inv_def ids_unique_def
        append_custody_def append_custody_row_def image_image)
qed

definition plain_lib :: case_lib where
  "plain_lib = \<lparr>cl_blake2b = \<lambda>s. s, cl_iso = \<lambda>t. ''t'', cl_str = \<lambda>v. []\<rparr>"

definition one_case :: case_db where
  "one_case = case_step plain_lib
     (CreateCase \<lparr>kv_now = 1, kv_new_id = ''c1'', kv_update_ok = True, kv_log_ok = True\<rparr>
        ''Phishing'' ''high'' ''eve'' [] [] [] []) empty_cases"

lemma one_case_inv: "case_inv plain_lib one_case"
  unfolding one_case_def by (intro case_step_inv) simp

lemma one_case_rows: "map_of (cdb_cases one_case) ''c1'' \<noteq> None" "cdb_notes one_case = []"
  by (simp_all add: one_case_def create_case_def severity_of_def case_create_def empty_cases_def dict_has_def
      add_evidence_rows_def add_note_rows_def insert_unique_def Let_def)

theorem unlogged_note_witness:
  "\<exists>db'. add_note plain_lib \<lparr>kv_now = 2, kv_new_id = ''n1'', kv_update_ok = True, kv_log_ok = False\<rparr>
       ''c1'' ''eve'' ''erased'' one_case = (Inl db_error, db') \<and> cdb_custody db' = cdb_custody one_case
    \<and> (\<exists>n. rows_of ''c1'' (cdb_notes db') = rows_of ''c1'' (cdb_notes one_case) @ [n]
        \<and> cn_author n = ''eve'' \<and> cn_content n = ''erased'')"
proof -
  obtain r where "map_of (cdb_cases one_case) ''c1'' = Some r" using one_case_rows(1) by blast
  then show ?thesis by (rule unlogged_note [OF one_case_inv]) (simp_all add: one_case_rows(2))
qed

text \<open>No request to the evidence route ever succeeds. Each evidence type the route accepts is refused by
  the schema, and each type of the schema is refused by the route; the case is left unchanged.\<close>

theorem evidence_route_always_fails:
  "\<not> is_ok (fst (add_evidence_route lib env k operator ty content description db))
   \<and> snd (add_evidence_route lib env k operator ty content description db) = db"
proof -
  have "evidence_type_of t = None" if "t \<in> set route_evidence_types" for t
    using that by (auto simp: route_evidence_types_def evidence_type_of_def)
  then show ?thesis
    by (auto simp: add_evidence_route_def add_evidence_def with_case_def split: option.splits)
qed

text \<open>Likewise the route can set no other status than open, and its filter for the others finds nothing.\<close>

lemma set_fields_bad:
  "kv \<in> set kvs \<Longrightarrow> (\<And>c. \<not> is_ok (set_field kv c)) \<Longrightarrow> \<not> is_ok (set_fields kvs c)"
proof (induction kvs arbitrary: c)
  case (Cons kv' kvs)
  show ?case
  proof (cases "set_field kv' c")
    case (Inr c')
    with Cons.prems(2) [of c] have "kv \<noteq> kv'" by auto
    with Cons Inr show ?thesis by simp
  qed simp
qed simp

lemma route_status_fails:
  assumes "ub_status b = Some st" and "st \<noteq> ''open''"
  shows "\<not> is_ok (fst (update_case_route lib env k operator b db)) \<and> snd (update_case_route lib env k operator b db) = db"
proof (cases "valid_update_body b")
  case True
  then have st: "case_status_of st = None"
    using assms by (auto simp: valid_update_body_def opt_ok_def route_statuses_def case_status_of_def)
  have "(''status'', JStr st) \<in> set (body_fields b)"
    using assms(1) by (cases "ub_title b"; cases "ub_description b"; cases "ub_severity b") (simp_all add: body_fields_def)
  then have "\<not> is_ok (set_fields (body_fields b) c)" for c
    by (rule set_fields_bad) (simp add: set_field_def updatable_fields_def st)
  then have bad: "\<exists>e. set_fields (body_fields b) c = Inl e" for c
    by (metis is_ok.simps(2) obj_sumE)
  have "\<not> is_ok (fst (update_case lib env k operator (body_fields b) db))
      \<and> snd (update_case lib env k operator (body_fields b) db) = db"
  proof (cases "case_get k db")
    case (Some c)
    with bad [of c] show ?thesis by (auto simp: update_case_def with_case_def)
  qed (simp add: update_case_def with_case_def)
  then show ?thesis by (simp add: update_case_route_def)
qed (simp add: update_case_route_def)

end
