(* ===== verification/Forensics.thy ===== *)
theory Forensics
  imports Schema
begin

text \<open>
  \<open>forensic/timeline.py\<close> and \<open>forensic/snapshot.py\<close>: the merged timeline of a case, the difference of
  two agent snapshots, the snapshot table. A snapshot row keeps typed values; the recovery from a
  corrupt JSON column is not modelled.
\<close>

section \<open>Timeline\<close>

record timeline_entry =
  tl_ts :: int
  tl_type :: string
  tl_severity :: string
  tl_title :: string
  tl_detail :: string
  tl_hostname :: string
  tl_id :: string

text \<open>\<open>int(t.timestamp() * 10**9)\<close>, for an instant counted in microseconds.\<close>

definition to_ns :: "time \<Rightarrow> int" where
  "to_ns t = t * 1000"

definition entry_of_event :: "universal_event \<Rightarrow> timeline_entry" where
  "entry_of_event ev =
     \<lparr>tl_ts = ev_timestamp_ns ev, tl_type = ''event'', tl_severity = ev_severity ev,
      tl_title = ev_category ev @ ''/'' @ ev_type ev,
      tl_detail = (if ev_resource ev \<noteq> [] then ev_resource ev else ev_cmdline ev),
      tl_hostname = ev_hostname ev, tl_id = ev_event_id ev\<rparr>"

definition entry_of_alert :: "alert \<Rightarrow> timeline_entry" where
  "entry_of_alert al =
     \<lparr>tl_ts = to_ns (al_created_at al), tl_type = ''alert'', tl_severity = severity_str (al_severity al),
      tl_title = al_title al, tl_detail = al_description al, tl_hostname = al_hostname al, tl_id = al_alert_id al\<rparr>"

definition entry_of_custody :: "custody_entry \<Rightarrow> timeline_entry" where
  "entry_of_custody e =
     \<lparr>tl_ts = to_ns (cu_timestamp e), tl_type = ''custody'', tl_severity = ''info'', tl_title = cu_action e,
      tl_detail = cu_detail e, tl_hostname = [], tl_id = cu_hash e\<rparr>"

definition build_timeline :: "forensic_case \<Rightarrow> universal_event list \<Rightarrow> alert list \<Rightarrow> timeline_entry list" where
  "build_timeline c events alerts =
     sort_key tl_ts (List.map entry_of_event events @ List.map entry_of_alert alerts
                     @ List.map entry_of_custody (ca_custody_log c))"

section \<open>Snapshots\<close>

text \<open>\<open>{key(x): x for x in xs}\<close>.\<close>

definition index_by :: "('a \<Rightarrow> 'k) \<Rightarrow> 'a list \<Rightarrow> ('k, 'a) pydict" where
  "index_by key xs = fold (\<lambda>x. dict_put (key x) x) xs []"

definition only_in_first :: "('a \<Rightarrow> 'k) \<Rightarrow> 'a list \<Rightarrow> 'a list \<Rightarrow> 'a list" where
  "only_in_first key xs ys =
     List.map snd (filter (\<lambda>p. \<not> dict_has (index_by key ys) (fst p)) (index_by key xs))"

definition conn_key :: "connection_info \<Rightarrow> string \<times> int \<times> string \<times> int" where
  "conn_key c = (co_proto c, co_local_port c, co_remote_addr c, co_remote_port c)"

record snapshot_diff =
  df_new_processes :: "process_info list"
  df_terminated_processes :: "process_info list"
  df_new_connections :: "connection_info list"
  df_closed_connections :: "connection_info list"

definition diff_snapshots :: "agent_snapshot \<Rightarrow> agent_snapshot \<Rightarrow> snapshot_diff" where
  "diff_snapshots before after =
     \<lparr>df_new_processes = only_in_first pr_pid (sn_processes after) (sn_processes before),
      df_terminated_processes = only_in_first pr_pid (sn_processes before) (sn_processes after),
      df_new_connections = only_in_first conn_key (sn_connections after) (sn_connections before),
      df_closed_connections = only_in_first conn_key (sn_connections before) (sn_connections after)\<rparr>"

type_synonym snapshot_table = "(uuid, agent_snapshot) pydict"

definition snapshot_create :: "agent_snapshot \<Rightarrow> snapshot_table \<Rightarrow> agent_snapshot result \<times> snapshot_table" where
  "snapshot_create s t =
     (if dict_has t (sn_snapshot_id s) then (Inl (OtherError ''IntegrityError''), t)
      else (Inr s, t @ [(sn_snapshot_id s, s)]))"

definition snapshot_get :: "uuid \<Rightarrow> snapshot_table \<Rightarrow> agent_snapshot option" where
  "snapshot_get k t = map_of t k"

definition list_by_agent :: "uuid \<Rightarrow> nat \<Rightarrow> snapshot_table \<Rightarrow> agent_snapshot list" where
  "list_by_agent a limit t = take limit (sort_desc sn_taken_at (filter (\<lambda>s. sn_agent_id s = a) (List.map snd t)))"

definition list_by_case :: "uuid \<Rightarrow> snapshot_table \<Rightarrow> agent_snapshot list" where
  "list_by_case k t = sort_key sn_taken_at (filter (\<lambda>s. sn_case_id s = Some k) (List.map snd t))"

section \<open>Lemmas\<close>

lemma dict_has_index_by [simp]: "dict_has (index_by key xs) k \<longleftrightarrow> k \<in> key ` set xs"
proof -
  have "dict_has (fold (\<lambda>x. dict_put (key x) x) xs d) k \<longleftrightarrow> k \<in> key ` set xs \<or> dict_has d k" for d
    by (induction xs arbitrary: d) auto
  then show ?thesis by (simp add: index_by_def dict_has_def)
qed

lemma index_by_entries: "(k, x) \<in> set (index_by key xs) \<Longrightarrow> x \<in> set xs \<and> k = key x"
proof -
  have "(k, x) \<in> set (fold (\<lambda>x. dict_put (key x) x) xs d) \<Longrightarrow> x \<in> set xs \<and> k = key x \<or> (k, x) \<in> set d" for d
  proof (induction xs arbitrary: d)
    case (Cons y ys)
    have "(k, x) \<in> set (dict_put (key y) y d) \<Longrightarrow> (k, x) = (key y, y) \<or> (k, x) \<in> set d"
      by (induction d) (auto split: if_splits)
    with Cons show ?case by fastforce
  qed simp
  then show "(k, x) \<in> set (index_by key xs) \<Longrightarrow> x \<in> set xs \<and> k = key x"
    by (fastforce simp: index_by_def)
qed

lemma only_in_first_subset: "set (only_in_first key xs ys) \<subseteq> set xs"
  by (auto simp: only_in_first_def dest: index_by_entries)

lemma only_in_first_keys: "key ` set (only_in_first key xs ys) = key ` set xs - key ` set ys"
proof -
  have "k \<in> key ` set (only_in_first key xs ys)" if "k \<in> key ` set xs" "k \<notin> key ` set ys" for k
  proof -
    have "dict_has (index_by key xs) k" using that by simp
    then obtain x where "(k, x) \<in> set (index_by key xs)" by (auto simp: dict_has_def)
    with index_by_entries [OF this] that show ?thesis by (force simp: only_in_first_def)
  qed
  then show ?thesis by (auto simp: only_in_first_def dest: index_by_entries)
qed

section \<open>Properties\<close>

text \<open>The timeline holds every event, alert and custody entry once, in ascending order, and entries of the
  same instant keep the order events, alerts, custody.\<close>

lemma timeline_complete:
  "sorted (List.map tl_ts (build_timeline c events alerts))
   \<and> mset (build_timeline c events alerts) = mset (List.map entry_of_event events)
       + mset (List.map entry_of_alert alerts) + mset (List.map entry_of_custody (ca_custody_log c))
   \<and> filter (\<lambda>e. tl_ts e = t) (build_timeline c events alerts)
       = filter (\<lambda>e. tl_ts e = t) (List.map entry_of_event events @ List.map entry_of_alert alerts
           @ List.map entry_of_custody (ca_custody_log c))"
  unfolding build_timeline_def by (simp only: sort_key_stable) (simp add: add.assoc)

text \<open>The difference of two snapshots is exact on process ids and connection keys: removing what it
  calls gone and adding what it calls new turns the first snapshot's into the second's, nothing is both,
  and what it reports stems from the snapshots.\<close>

lemma snapshot_diff_exact:
  "let d = diff_snapshots before after in
     pr_pid ` set (sn_processes after)
       = (pr_pid ` set (sn_processes before) - pr_pid ` set (df_terminated_processes d)) \<union> pr_pid ` set (df_new_processes d)
   \<and> conn_key ` set (sn_connections after)
       = (conn_key ` set (sn_connections before) - conn_key ` set (df_closed_connections d)) \<union> conn_key ` set (df_new_connections d)
   \<and> set (df_new_processes d) \<subseteq> set (sn_processes after) \<and> set (df_terminated_processes d) \<subseteq> set (sn_processes before)
   \<and> pr_pid ` set (df_new_processes d) \<inter> pr_pid ` set (sn_processes before) = {}"
  by (auto simp: diff_snapshots_def Let_def only_in_first_keys intro: only_in_first_subset [THEN subsetD])

end
