(* ===== verification/Storage_Writer.thy ===== *)
theory Storage_Writer
  imports Schema Bus Machines
begin

text \<open>
  \<open>workers/storage_writer.py\<close>: events from the bus are collected in a batch and inserted by two tasks,
  the message loop and a timer. Each task flushes in sections separated by awaits, so the model is a
  machine whose steps are these sections: taking the batch, the end of the insert, the end of the dead
  letter's publication, and the cancellation of a task that waits for one of them. A step that is not
  enabled changes nothing. \<open>sw_received\<close>, \<open>sw_stored\<close>, \<open>sw_dropped\<close> and \<open>sw_lost\<close> record where each event
  went; the code keeps only the number of written ones.
\<close>

datatype flush = Idle | Inserting "universal_event list" | DeadLettering json

datatype task = MainLoop | Timer

record writer =
  sw_batch :: "universal_event list"
  sw_main :: flush
  sw_timer :: flush
  sw_written :: nat
  sw_failures :: nat
  sw_bus :: bus_log
  sw_received :: "universal_event list"
  sw_stored :: "universal_event list"
  sw_dropped :: "universal_event list"
  sw_lost :: "universal_event list"

definition new_writer :: writer where
  "new_writer = \<lparr>sw_batch = [], sw_main = Idle, sw_timer = Idle, sw_written = 0, sw_failures = 0,
     sw_bus = empty_bus, sw_received = [], sw_stored = [], sw_dropped = [], sw_lost = []\<rparr>"

definition max_flush_failures :: nat where
  "max_flush_failures = 5"

section \<open>Parsing a message\<close>

text \<open>The fast path validates the message; the slow one adds a missing event id first. \<open>validate\<close> is the
  model's constructor from JSON.\<close>

definition inject_id :: "uuid \<Rightarrow> json \<Rightarrow> json option" where
  "inject_id fresh v =
     (case v of
        JObj kvs \<Rightarrow> Some (JObj (case map_of kvs ''event_id'' of
            Some x \<Rightarrow> if py_bool x then kvs else dict_put ''event_id'' (JStr fresh) kvs
          | None \<Rightarrow> dict_put ''event_id'' (JStr fresh) kvs))
      | _ \<Rightarrow> None)"

definition parse_message :: "(json \<Rightarrow> universal_event option) \<Rightarrow> uuid \<Rightarrow> json option \<Rightarrow> universal_event option" where
  "parse_message validate fresh msg =
     (case msg of
        None \<Rightarrow> None
      | Some v \<Rightarrow>
          (case validate v of
             Some e \<Rightarrow> Some e
           | None \<Rightarrow> (case inject_id fresh v of None \<Rightarrow> None | Some v' \<Rightarrow> validate v')))"

section \<open>Flushing\<close>

fun flush_of :: "task \<Rightarrow> writer \<Rightarrow> flush" where
  "flush_of MainLoop s = sw_main s"
| "flush_of Timer s = sw_timer s"

fun set_flush :: "task \<Rightarrow> flush \<Rightarrow> writer \<Rightarrow> writer" where
  "set_flush MainLoop f s = s\<lparr>sw_main := f\<rparr>"
| "set_flush Timer f s = s\<lparr>sw_timer := f\<rparr>"

definition start_flush :: "task \<Rightarrow> writer \<Rightarrow> writer" where
  "start_flush w s =
     (if sw_batch s = [] then s else set_flush w (Inserting (sw_batch s)) (s\<lparr>sw_batch := []\<rparr>))"

definition dead_letter :: "universal_event list \<Rightarrow> nat \<Rightarrow> string \<Rightarrow> json" where
  "dead_letter batch failures err =
     JObj [(''reason'', JStr ''storage_flush_failed''), (''dropped_count'', JInt (int (length batch))),
           (''event_ids'', JList (List.map (\<lambda>e. JStr (ev_event_id e)) batch)),
           (''consecutive_failures'', JInt (int failures)), (''error'', JStr err)]"

text \<open>The end of \<open>insert_batch\<close>: \<open>None\<close> when it returned, the error's text when it raised.\<close>

definition end_insert :: "task \<Rightarrow> string option \<Rightarrow> universal_event list \<Rightarrow> writer \<Rightarrow> writer" where
  "end_insert w err batch s =
     (case err of
        None \<Rightarrow> set_flush w Idle (s\<lparr>sw_written := sw_written s + length batch, sw_failures := 0,
                  sw_stored := sw_stored s @ batch\<rparr>)
      | Some txt \<Rightarrow>
          (let n = Suc (sw_failures s)
           in if max_flush_failures \<le> n
              then set_flush w (DeadLettering (dead_letter batch n txt))
                     (s\<lparr>sw_failures := n, sw_dropped := sw_dropped s @ batch\<rparr>)
              else set_flush w Idle (s\<lparr>sw_failures := n, sw_batch := batch @ sw_batch s\<rparr>)))"

definition end_dead_letter :: "task \<Rightarrow> bool \<Rightarrow> json \<Rightarrow> writer \<Rightarrow> writer" where
  "end_dead_letter w ok msg s =
     set_flush w Idle (s\<lparr>sw_bus := snd (publish (\<lambda>_. ok) ''events:dead_letter'' msg (sw_bus s)), sw_failures := 0\<rparr>)"

text \<open>A cancelled task leaves \<open>_flush\<close> by \<open>CancelledError\<close>, which no handler there catches: an insert that
  was interrupted has committed or not, a dead letter is not sent and the counter is not reset.\<close>

definition cancel_flush :: "task \<Rightarrow> bool \<Rightarrow> writer \<Rightarrow> writer" where
  "cancel_flush w committed s =
     (case flush_of w s of
        Idle \<Rightarrow> s
      | Inserting batch \<Rightarrow> set_flush w Idle
          (if committed then s\<lparr>sw_stored := sw_stored s @ batch\<rparr> else s\<lparr>sw_lost := sw_lost s @ batch\<rparr>)
      | DeadLettering msg \<Rightarrow> set_flush w Idle s)"

definition receive :: "nat \<Rightarrow> universal_event \<Rightarrow> writer \<Rightarrow> writer" where
  "receive batch_max e s =
     (let s1 = s\<lparr>sw_batch := sw_batch s @ [e], sw_received := sw_received s @ [e]\<rparr>
      in if batch_max \<le> length (sw_batch s1) then start_flush MainLoop s1 else s1)"

text \<open>\<open>StartFlush MainLoop\<close> is the last flush, after the loop.\<close>

datatype writer_op =
    Receive uuid "json option"
  | StartFlush task
  | InsertDone task "string option"
  | DeadLetterDone task bool
  | CancelTask task bool

fun writer_step :: "(json \<Rightarrow> universal_event option) \<Rightarrow> nat \<Rightarrow> writer_op \<Rightarrow> writer \<Rightarrow> writer" where
  "writer_step validate batch_max (Receive fresh msg) s =
     (if sw_main s \<noteq> Idle then s
      else case parse_message validate fresh msg of None \<Rightarrow> s | Some e \<Rightarrow> receive batch_max e s)"
| "writer_step validate batch_max (StartFlush w) s = (if flush_of w s \<noteq> Idle then s else start_flush w s)"
| "writer_step validate batch_max (InsertDone w err) s =
     (case flush_of w s of Inserting batch \<Rightarrow> end_insert w err batch s | _ \<Rightarrow> s)"
| "writer_step validate batch_max (DeadLetterDone w ok) s =
     (case flush_of w s of DeadLettering msg \<Rightarrow> end_dead_letter w ok msg s | _ \<Rightarrow> s)"
| "writer_step validate batch_max (CancelTask w committed) s = cancel_flush w committed s"

section \<open>Where the events are\<close>

fun in_flight :: "flush \<Rightarrow> universal_event list" where
  "in_flight (Inserting batch) = batch"
| "in_flight _ = []"

definition pending :: "writer \<Rightarrow> universal_event multiset" where
  "pending s = mset (sw_batch s) + mset (in_flight (sw_main s)) + mset (in_flight (sw_timer s))"

definition writer_inv :: "writer \<Rightarrow> bool" where
  "writer_inv s \<longleftrightarrow> mset (sw_received s) = mset (sw_stored s) + mset (sw_dropped s) + mset (sw_lost s) + pending s
     \<and> sw_written s \<le> length (sw_stored s)"

lemma start_flush_inv: "writer_inv s \<Longrightarrow> flush_of w s = Idle \<Longrightarrow> writer_inv (start_flush w s)"
  by (cases w) (simp_all add: start_flush_def writer_inv_def pending_def union_ac)

lemma receive_inv: "writer_inv s \<Longrightarrow> sw_main s = Idle \<Longrightarrow> writer_inv (receive m e s)"
  by (auto simp: receive_def Let_def intro!: start_flush_inv) (simp_all add: writer_inv_def pending_def)

lemma end_insert_inv: "writer_inv s \<Longrightarrow> flush_of w s = Inserting batch \<Longrightarrow> writer_inv (end_insert w err batch s)"
  by (cases w; cases err) (simp_all add: end_insert_def writer_inv_def pending_def Let_def union_ac)

lemma end_dead_letter_inv:
  "writer_inv s \<Longrightarrow> flush_of w s = DeadLettering msg \<Longrightarrow> writer_inv (end_dead_letter w ok msg s)"
  by (cases w) (simp_all add: end_dead_letter_def writer_inv_def pending_def)

lemma cancel_flush_inv: "writer_inv s \<Longrightarrow> writer_inv (cancel_flush w committed s)"
  by (cases w) (simp_all add: cancel_flush_def writer_inv_def pending_def union_ac split: flush.splits)

lemma writer_step_inv: "writer_inv s \<Longrightarrow> writer_inv (writer_step validate m op s)"
  by (cases op)
    (auto intro: start_flush_inv receive_inv end_insert_inv end_dead_letter_inv cancel_flush_inv
      split: option.splits flush.splits)

interpretation sw: machine "writer_step validate m" "\<lambda>s. s = new_writer" writer_inv
proof unfold_locales
  show "writer_inv s" if "s = new_writer" for s using that by (simp add: writer_inv_def new_writer_def pending_def)
qed (rule writer_step_inv)

text \<open>Without cancellation nothing is lost and every stored event is counted.\<close>

fun is_cancel :: "writer_op \<Rightarrow> bool" where
  "is_cancel (CancelTask w committed) = True"
| "is_cancel _ = False"

definition accounted :: "writer \<Rightarrow> bool" where
  "accounted s \<longleftrightarrow> sw_lost s = [] \<and> sw_written s = length (sw_stored s)"

lemma accounted_set_flush [simp]: "accounted (set_flush w f s) = accounted s"
  by (cases w) (simp_all add: accounted_def)

lemma accounted_step: "accounted s \<Longrightarrow> \<not> is_cancel op \<Longrightarrow> accounted (writer_step validate m op s)"
  by (cases op)
    (auto simp: receive_def start_flush_def end_insert_def end_dead_letter_def Let_def split: option.splits flush.splits,
      auto simp: accounted_def)

lemma accounted_run: "accounted s \<Longrightarrow> \<not> list_ex is_cancel ops \<Longrightarrow> accounted (run (writer_step validate m) s ops)"
  by (induction ops arbitrary: s) (auto simp: accounted_step)

text \<open>A batch is given up only by the fifth failure in a row, counted over both tasks.\<close>

lemma dropped_after_failures:
  assumes "sw_dropped (writer_step validate m op s) \<noteq> sw_dropped s"
  shows "max_flush_failures \<le> Suc (sw_failures s)"
proof -
  have keep: "sw_dropped (set_flush w f t) = sw_dropped t" for w f t by (cases w) simp_all
  from assms show ?thesis
    by (cases op) (auto simp: receive_def start_flush_def end_insert_def end_dead_letter_def cancel_flush_def keep Let_def
        split: option.splits flush.splits if_splits)
qed

section \<open>Properties\<close>

text \<open>C15: no event is duplicated and none vanishes unseen: however the message loop, the timer, failing
  inserts, dead letters and cancellations interleave, each received event is exactly once stored,
  dropped, waiting, or lost to a cancelled insert, and without cancellations none is lost and the
  counter is the number of stored events.\<close>

theorem writer_conserves_events:
  "let s = run (writer_step validate m) new_writer ops
   in mset (sw_received s) = mset (sw_stored s) + mset (sw_dropped s) + mset (sw_lost s) + pending s
      \<and> sw_written s \<le> length (sw_stored s)
      \<and> (if list_ex is_cancel ops then True else accounted s)"
  using sw.reachable_inv [of new_writer validate m ops] accounted_run [of new_writer ops validate m]
  by (simp add: writer_inv_def Let_def new_writer_def accounted_def)

text \<open>A clean shutdown loses events. The timer is cancelled while its insert runs, the last flush finds
  an empty batch, and the events of the interrupted insert are neither stored nor dead-lettered.\<close>

theorem shutdown_loses_timer_batch:
  assumes "validate v = Some e" and "1 < m"
  shows "let s = run (writer_step validate m) new_writer
                [Receive u (Some v), StartFlush Timer, CancelTask Timer False, StartFlush MainLoop]
     in sw_received s = [e] \<and> sw_stored s = [] \<and> sw_dropped s = [] \<and> pending s = {#} \<and> sent (sw_bus s) = []"
  using assms
  by (simp add: new_writer_def parse_message_def receive_def start_flush_def cancel_flush_def pending_def empty_bus_def Let_def)

definition any_event :: universal_event where
  "any_event = \<lparr>ev_event_id = ''e1'', ev_timestamp_ns = 0, ev_hostname = ''h'', ev_agent_id = ''a1'',
     ev_category = ''log'', ev_type = ''t'', ev_severity = ''info'', ev_collector = [], ev_os = ''linux'',
     ev_uid = 0, ev_gid = 0, ev_pid = 1, ev_ppid = 0, ev_process_name = [], ev_executable = [], ev_cmdline = [],
     ev_cwd = [], ev_session_id = None, ev_resource = [], ev_result = ''unknown'', ev_file_hash_before = None,
     ev_file_hash_after = None, ev_src_ip = None, ev_src_port = None, ev_dst_ip = None, ev_dst_port = None,
     ev_protocol = None, ev_bytes_sent = None, ev_bytes_recv = None, ev_hash_chain = [], ev_signature = None,
     ev_ml_score = None, ev_risk_score = None, ev_rule_match_ids = [], ev_mitre_techniques = [],
     ev_ti_tags = [], ev_incident_chain_id = None, ev_extra = []\<rparr>"

theorem shutdown_loses_timer_batch_witness:
  "let s = run (writer_step (\<lambda>v. Some any_event) 500) new_writer
             [Receive ''u'' (Some (JObj [])), StartFlush Timer, CancelTask Timer False, StartFlush MainLoop]
   in sw_received s = [any_event] \<and> sw_stored s = [] \<and> sw_dropped s = [] \<and> pending s = {#} \<and> sent (sw_bus s) = []"
  by (rule shutdown_loses_timer_batch) simp_all

end
