(* ===== verification/Backpressure.thy ===== *)
theory Backpressure
  imports Bus Machines
begin

text \<open>
  \<open>ingest/backpressure.py\<close>: every check reads the length of the raw event stream and sends SET_THROTTLE
  to the connected agents, with hysteresis. The reply of Redis, the connected agents and the success of
  each publication are the inputs of a check; a lag that cannot be measured counts as zero.
\<close>

record controller =
  bp_threshold :: int
  bp_factor :: pyfloat
  bp_bus :: bus_log

definition new_controller :: "int \<Rightarrow> controller" where
  "new_controller threshold = \<lparr>bp_threshold = threshold, bp_factor = 1, bp_bus = empty_bus\<rparr>"

definition lag_threshold :: int where
  "lag_threshold = 10000"

definition lag_clear_threshold :: int where
  "lag_clear_threshold = 5000"

text \<open>\<open>None\<close> when there is no Redis or the query fails.\<close>

definition measure_lag :: "nat option \<Rightarrow> int" where
  "measure_lag len = (case len of None \<Rightarrow> 0 | Some n \<Rightarrow> int n)"

definition throttle_message :: "uuid \<Rightarrow> pyfloat \<Rightarrow> json" where
  "throttle_message cid factor =
     JObj [(''command_id'', JStr cid), (''command_type'', JStr ''SET_THROTTLE''),
           (''payload'', JObj [(''factor'', JNum (round2 factor))])]"

definition publish_throttle :: "(nat \<Rightarrow> bool) \<Rightarrow> uuid \<Rightarrow> string list \<Rightarrow> pyfloat \<Rightarrow> controller \<Rightarrow> controller" where
  "publish_throttle ok cid cns factor c =
     c\<lparr>bp_bus := fold (\<lambda>cn b. snd (publish ok (''commands:'' @ cn) (throttle_message cid factor) b)) cns (bp_bus c)\<rparr>"

definition throttle_factor :: "int \<Rightarrow> int \<Rightarrow> pyfloat" where
  "throttle_factor threshold lag = max (1/10) (1 - of_int (lag - threshold) / 100000)"

definition check_and_throttle ::
  "(nat \<Rightarrow> bool) \<Rightarrow> uuid \<Rightarrow> string list \<Rightarrow> nat option \<Rightarrow> controller \<Rightarrow> controller" where
  "check_and_throttle ok cid cns len c =
     (let lag = measure_lag len
      in if bp_threshold c < lag then
           (let factor = throttle_factor (bp_threshold c) lag
            in if 5/100 \<le> \<bar>factor - bp_factor c\<bar>
               then publish_throttle ok cid cns factor (c\<lparr>bp_factor := factor\<rparr>) else c)
         else if lag < lag_clear_threshold \<and> bp_factor c < 1
         then publish_throttle ok cid cns 1 (c\<lparr>bp_factor := 1\<rparr>)
         else c)"

record check_input =
  ci_ok :: "nat \<Rightarrow> bool"
  ci_id :: uuid
  ci_cns :: "string list"
  ci_length :: "nat option"

definition check_step :: "check_input \<Rightarrow> controller \<Rightarrow> controller" where
  "check_step i = check_and_throttle (ci_ok i) (ci_id i) (ci_cns i) (ci_length i)"

section \<open>Lemmas\<close>

lemma publish_throttle_sel [simp]:
  "bp_factor (publish_throttle ok cid cns f c) = bp_factor c"
  "bp_threshold (publish_throttle ok cid cns f c) = bp_threshold c"
  by (simp_all add: publish_throttle_def)

lemma factor_bounds: "0 < lag - threshold \<Longrightarrow> 1/10 \<le> throttle_factor threshold lag \<and> throttle_factor threshold lag < 1"
  by (simp add: throttle_factor_def)

lemma round2_bounds: "1/10 \<le> x \<Longrightarrow> x \<le> 1 \<Longrightarrow> 1/10 \<le> round2 x \<and> round2 x \<le> 1"
  using round_half_even_bounds [of 10 "x * 100" 100] by (auto simp: round2_def field_simps)

text \<open>A SET_THROTTLE command with a factor between a tenth and one.\<close>

definition sane_throttle :: "string \<times> json \<Rightarrow> bool" where
  "sane_throttle m \<longleftrightarrow> (\<exists>cid f. snd m = throttle_message cid f \<and> 1/10 \<le> round2 f \<and> round2 f \<le> 1)"

lemma publish_throttle_emits:
  assumes "1/10 \<le> f" and "f \<le> 1"
  shows "emits sane_throttle (bp_bus c) (bp_bus (publish_throttle ok cid cns f c))"
proof -
  have "emits sane_throttle b (fold (\<lambda>cn b. snd (publish ok (''commands:'' @ cn) (throttle_message cid f) b)) cns b)" for b
  proof (induction cns arbitrary: b)
    case (Cons cn cns)
    have "emits sane_throttle b (snd (publish ok (''commands:'' @ cn) (throttle_message cid f) b))"
      using round2_bounds [OF assms] by (intro emits_publish) (auto simp: sane_throttle_def)
    with Cons show ?case by (auto intro: emits_trans)
  qed simp
  then show ?thesis by (simp add: publish_throttle_def)
qed

definition controller_inv :: "controller \<Rightarrow> bool" where
  "controller_inv c \<longleftrightarrow> 1/10 \<le> bp_factor c \<and> bp_factor c \<le> 1 \<and> emits sane_throttle empty_bus (bp_bus c)"

lemma check_inv: "controller_inv c \<Longrightarrow> controller_inv (check_and_throttle ok cid cns len c)"
proof -
  assume inv: "controller_inv c"
  have pub: "controller_inv (publish_throttle ok cid cns f (c\<lparr>bp_factor := f\<rparr>))" if "1/10 \<le> f" "f \<le> 1" for f
    using inv that emits_trans [OF _ publish_throttle_emits [OF that, of "c\<lparr>bp_factor := f\<rparr>" ok cid cns]]
    by (simp add: controller_inv_def)
  show ?thesis
    using inv factor_bounds [of "measure_lag len" "bp_threshold c"]
    by (auto simp: check_and_throttle_def Let_def intro!: pub)
qed

lemma check_threshold [simp]: "bp_threshold (check_step i c) = bp_threshold c"
  by (simp add: check_step_def check_and_throttle_def Let_def)

lemma run_threshold [simp]: "bp_threshold (run check_step c is) = bp_threshold c"
  by (induction "is" arbitrary: c) simp_all

interpretation bp: machine check_step "\<lambda>c. \<exists>t. c = new_controller t" controller_inv
proof unfold_locales
  show "controller_inv c" if "\<exists>t. c = new_controller t" for c
    using that by (auto simp: controller_inv_def new_controller_def)
qed (simp add: check_step_def check_inv)

section \<open>Properties\<close>

text \<open>After any sequence of checks the factor lies in [0.1, 1] and so does every factor sent to an
  agent; the next check brings the factor within 0.05 of the linear target when the lag is above the
  threshold, back to 1 when it is below the clearing threshold, and keeps it in between.\<close>

theorem throttle_tracks_lag:
  assumes "c = run check_step (new_controller threshold) is" and "c' = check_step i c"
    and "lag = measure_lag (ci_length i)"
  shows "1/10 \<le> bp_factor c \<and> bp_factor c \<le> 1 \<and> list_all sane_throttle (sent (bp_bus c))
    \<and> (if threshold < lag then \<bar>throttle_factor threshold lag - bp_factor c'\<bar> < 5/100
       else if lag < 5000 then bp_factor c' = 1 else bp_factor c' = bp_factor c)"
proof -
  have t: "bp_threshold c = threshold" using assms(1) by (simp add: new_controller_def)
  have inv: "controller_inv c" unfolding assms(1) by (rule bp.reachable_inv) blast
  then have "list_all sane_throttle (sent (bp_bus c))"
    by (auto simp: controller_inv_def emits_def empty_bus_def list_all_iff)
  with inv t show ?thesis
    unfolding assms(2,3) check_step_def
    by (auto simp: controller_inv_def check_and_throttle_def Let_def lag_clear_threshold_def)
qed

theorem throttle_tracks_lag_witness:
  "let c = run check_step (new_controller 10000) [\<lparr>ci_ok = \<lambda>n. True, ci_id = ''k'', ci_cns = [''web1''], ci_length = Some 60000\<rparr>]
   in 1/10 \<le> bp_factor c \<and> bp_factor c = 1/2 \<and> sent (bp_bus c) = [(''commands:web1'', throttle_message ''k'' (1/2))]"
proof -
  let ?i = "\<lparr>ci_ok = \<lambda>n. True, ci_id = ''k'', ci_cns = [''web1''], ci_length = Some 60000\<rparr>"
  have "1/10 \<le> bp_factor (run check_step (new_controller 10000) [?i])"
    using throttle_tracks_lag [OF refl refl refl, of 10000 "[?i]" ?i] by blast
  then show ?thesis
    by (simp add: check_step_def check_and_throttle_def measure_lag_def new_controller_def throttle_factor_def
        publish_throttle_def publish_def empty_bus_def Let_def)
qed

text \<open>Agents that connect while the system is throttled are never told. The factor is remembered even
  when nobody was there to receive it, and as long as the lag stays, no command is sent.\<close>

theorem late_agents_unthrottled:
  assumes "bp_threshold c < measure_lag len"
  shows "bp_bus (check_and_throttle ok' cid' cns len (check_and_throttle ok cid [] len c)) = bp_bus c"
  using assms by (auto simp: check_and_throttle_def Let_def publish_throttle_def)

theorem late_agents_unthrottled_witness:
  "sent (bp_bus (check_and_throttle (\<lambda>n. True) ''k'' [''web1''] (Some 60000)
      (check_and_throttle (\<lambda>n. True) ''j'' [] (Some 60000) (new_controller 10000)))) = []"
  using late_agents_unthrottled [of "new_controller 10000" "Some 60000" "\<lambda>n. True" "''k''" "[''web1'']" "\<lambda>n. True" "''j''"]
  by (simp add: new_controller_def measure_lag_def empty_bus_def)

end
