(* ===== verification/Rule_Expr.thy ===== *)
theory Rule_Expr
  imports Schema
begin

text \<open>
  The condition language of \<open>rule_engine/evaluator.py\<close>: the Python values a condition handles, the
  abstract syntax of \<open>ast.parse(..., mode="eval")\<close>, the syntax check, the rewriting of a raw condition
  and the evaluation of a checked expression in the sandbox. Python's parser, the regular expression
  matcher and the methods of the built-in types other than the three used are the record \<open>pylib\<close>; the
  arithmetic is exact (no float rounding). \<open>count_events\<close> is an argument of the evaluation, since it
  reads and prunes the temporal windows; the theory of windows supplies it.
\<close>

section \<open>Values\<close>

datatype pyval =
    PNone | PBool bool | PInt int | PFloat pyfloat | PStr string | PUuid uuid
  | PList "pyval list" | PTuple "pyval list" | PDict "(string \<times> pyval) list"
  | PEvent | PFun string | PMethod pyval string

type_synonym event_dict = "(string \<times> pyval) list"

fun truth :: "pyval \<Rightarrow> bool" where
  "truth PNone = False"
| "truth (PBool b) = b"
| "truth (PInt n) = (n \<noteq> 0)"
| "truth (PFloat x) = (x \<noteq> 0)"
| "truth (PStr s) = (s \<noteq> [])"
| "truth (PList xs) = (xs \<noteq> [])"
| "truth (PTuple xs) = (xs \<noteq> [])"
| "truth (PDict d) = (d \<noteq> [])"
| "truth _ = True"

fun number :: "pyval \<Rightarrow> rat option" where
  "number (PBool b) = Some (if b then 1 else 0)"
| "number (PInt n) = Some (of_int n)"
| "number (PFloat x) = Some x"
| "number _ = None"

text \<open>\<open>==\<close>: numbers by value (so \<open>True == 1\<close>), containers element by element, a list is no tuple and
  a UUID is no string.\<close>

fun py_eq :: "pyval \<Rightarrow> pyval \<Rightarrow> bool"
  and py_eqs :: "pyval list \<Rightarrow> pyval list \<Rightarrow> bool"
  and py_subdict :: "event_dict \<Rightarrow> event_dict \<Rightarrow> bool" where
  "py_eq (PList xs) y = (case y of PList ys \<Rightarrow> py_eqs xs ys | _ \<Rightarrow> False)"
| "py_eq (PTuple xs) y = (case y of PTuple ys \<Rightarrow> py_eqs xs ys | _ \<Rightarrow> False)"
| "py_eq (PDict d) y = (case y of PDict d' \<Rightarrow> length d = length d' \<and> py_subdict d d' | _ \<Rightarrow> False)"
| "py_eq x y = (case (number x, number y) of (Some a, Some b) \<Rightarrow> a = b | _ \<Rightarrow> x = y)"
| "py_eqs [] ys = (ys = [])"
| "py_eqs (x # xs) ys = (case ys of [] \<Rightarrow> False | y # ys' \<Rightarrow> py_eq x y \<and> py_eqs xs ys')"
| "py_subdict [] d = True"
| "py_subdict ((k, v) # kvs) d =
     ((case map_of d k of None \<Rightarrow> False | Some w \<Rightarrow> py_eq v w) \<and> py_subdict kvs d)"

text \<open>\<open><\<close>: \<open>None\<close> is the \<open>TypeError\<close> of two values without an order.\<close>

fun py_less :: "pyval \<Rightarrow> pyval \<Rightarrow> bool option"
  and py_less_list :: "pyval list \<Rightarrow> pyval list \<Rightarrow> bool option" where
  "py_less (PList xs) y = (case y of PList ys \<Rightarrow> py_less_list xs ys | _ \<Rightarrow> None)"
| "py_less (PTuple xs) y = (case y of PTuple ys \<Rightarrow> py_less_list xs ys | _ \<Rightarrow> None)"
| "py_less (PStr s) y = (case y of PStr t \<Rightarrow> Some (s < t) | _ \<Rightarrow> None)"
| "py_less (PUuid s) y = (case y of PUuid t \<Rightarrow> Some (s < t) | _ \<Rightarrow> None)"
| "py_less x y = (case (number x, number y) of (Some a, Some b) \<Rightarrow> Some (a < b) | _ \<Rightarrow> None)"
| "py_less_list [] ys = Some (ys \<noteq> [])"
| "py_less_list (x # xs) ys =
     (case ys of [] \<Rightarrow> Some False | y # ys' \<Rightarrow> if py_eq x y then py_less_list xs ys' else py_less x y)"

fun hashable :: "pyval \<Rightarrow> bool" where
  "hashable (PList xs) = False"
| "hashable (PDict d) = False"
| "hashable (PTuple xs) = list_all hashable xs"
| "hashable _ = True"

text \<open>\<open>x in c\<close>.\<close>

fun py_in :: "pyval \<Rightarrow> pyval \<Rightarrow> bool result" where
  "py_in x (PStr s) = (case x of PStr t \<Rightarrow> Inr (contains s t) | _ \<Rightarrow> Inl TypeError)"
| "py_in x (PList ys) = Inr (list_ex (py_eq x) ys)"
| "py_in x (PTuple ys) = Inr (list_ex (py_eq x) ys)"
| "py_in x (PDict d) =
     (if hashable x then Inr (list_ex (\<lambda>(k, v). py_eq x (PStr k)) d) else Inl TypeError)"
| "py_in x _ = Inl TypeError"

definition of_number :: "pyval \<Rightarrow> pyval \<Rightarrow> rat \<Rightarrow> pyval" where
  "of_number a b x =
     (case (a, b) of (PFloat _, _) \<Rightarrow> PFloat x | (_, PFloat _) \<Rightarrow> PFloat x | _ \<Rightarrow> PInt \<lfloor>x\<rfloor>)"

fun py_add :: "pyval \<Rightarrow> pyval \<Rightarrow> pyval result" where
  "py_add (PStr s) (PStr t) = Inr (PStr (s @ t))"
| "py_add (PList s) (PList t) = Inr (PList (s @ t))"
| "py_add (PTuple s) (PTuple t) = Inr (PTuple (s @ t))"
| "py_add a b = (case (number a, number b) of
     (Some x, Some y) \<Rightarrow> Inr (of_number a b (x + y)) | _ \<Rightarrow> Inl TypeError)"

definition py_sub :: "pyval \<Rightarrow> pyval \<Rightarrow> pyval result" where
  "py_sub a b = (case (number a, number b) of
     (Some x, Some y) \<Rightarrow> Inr (of_number a b (x - y)) | _ \<Rightarrow> Inl TypeError)"

definition py_index :: "'a list \<Rightarrow> int \<Rightarrow> 'a result" where
  "py_index xs i = (let j = if i < 0 then i + int (length xs) else i
     in if 0 \<le> j \<and> j < int (length xs) then Inr (xs ! nat j) else Inl (OtherError ''IndexError''))"

fun as_index :: "pyval \<Rightarrow> int option" where
  "as_index (PInt n) = Some n"
| "as_index (PBool b) = Some (if b then 1 else 0)"
| "as_index _ = None"

text \<open>\<open>v[i]\<close>. The keys of the dictionaries are strings.\<close>

fun py_item :: "pyval \<Rightarrow> pyval \<Rightarrow> pyval result" where
  "py_item (PStr s) i = (case as_index i of
     None \<Rightarrow> Inl TypeError | Some n \<Rightarrow> bind_result (py_index s n) (\<lambda>c. Inr (PStr [c])))"
| "py_item (PList xs) i = (case as_index i of None \<Rightarrow> Inl TypeError | Some n \<Rightarrow> py_index xs n)"
| "py_item (PTuple xs) i = (case as_index i of None \<Rightarrow> Inl TypeError | Some n \<Rightarrow> py_index xs n)"
| "py_item (PDict d) i =
     (if \<not> hashable i then Inl TypeError
      else case i of PStr k \<Rightarrow> (case map_of d k of None \<Rightarrow> Inl KeyError | Some v \<Rightarrow> Inr v)
           | _ \<Rightarrow> Inl KeyError)"
| "py_item _ i = Inl TypeError"

section \<open>Expressions\<close>

text \<open>A node type outside \<open>_ALLOWED_NODES\<close> is an \<open>EOther\<close> (with its children), \<open>UOther\<close>, \<open>BOther\<close> or \<open>COther\<close>.\<close>

datatype boolop = OpAnd | OpOr
datatype unop = UNot | UOther string
datatype binop = BAdd | BSub | BOther string
datatype cmpop = CEq | CNotEq | CLt | CLtE | CGt | CGtE | CIn | CNotIn | COther string

datatype expr =
    EConst pyval
  | EName string
  | EAttr expr string
  | ESub expr expr
  | ECall expr "expr list"
  | EBool boolop "expr list"
  | EUnary unop expr
  | ECompare expr "(cmpop \<times> expr) list"
  | EBin expr binop expr
  | EIf expr expr expr
  | EList "expr list"
  | ETuple "expr list"
  | EOther string "expr list"

definition is_private :: "string \<Rightarrow> bool" where
  "is_private a \<longleftrightarrow> starts_with a ''_''"

fun allowed_unop :: "unop \<Rightarrow> bool" where
  "allowed_unop UNot = True" | "allowed_unop (UOther _) = False"

fun allowed_binop :: "binop \<Rightarrow> bool" where
  "allowed_binop (BOther _) = False" | "allowed_binop _ = True"

fun allowed_cmpop :: "cmpop \<Rightarrow> bool" where
  "allowed_cmpop (COther _) = False" | "allowed_cmpop _ = True"

text \<open>\<open>_check_ast\<close>: whether the walk over the tree raises nothing.\<close>

fun check_ast :: "expr \<Rightarrow> bool" where
  "check_ast (EConst v) = True"
| "check_ast (EName n) = True"
| "check_ast (EAttr e a) = (\<not> is_private a \<and> check_ast e)"
| "check_ast (ESub e i) = (check_ast e \<and> check_ast i)"
| "check_ast (ECall f es) = (check_ast f \<and> list_all check_ast es)"
| "check_ast (EBool b es) = list_all check_ast es"
| "check_ast (EUnary u e) = (allowed_unop u \<and> check_ast e)"
| "check_ast (ECompare e cs) = (check_ast e \<and> list_all (\<lambda>(c, e). allowed_cmpop c \<and> check_ast e) cs)"
| "check_ast (EBin e b f) = (allowed_binop b \<and> check_ast e \<and> check_ast f)"
| "check_ast (EIf c e f) = (check_ast c \<and> check_ast e \<and> check_ast f)"
| "check_ast (EList es) = list_all check_ast es"
| "check_ast (ETuple es) = list_all check_ast es"
| "check_ast (EOther n es) = False"

section \<open>Raw conditions\<close>

text \<open>\<open>_preprocess_expr\<close>: the lines of a condition are trimmed and joined by a space, then the operators
  \<open>contains\<close>, \<open>starts_with\<close> and \<open>ends_with\<close> are rewritten. The three regular expressions look for a run
  of characters other than white space, quotes and an opening parenthesis, the operator between white
  space, and a quoted string; \<open>sub_operator\<close> is their leftmost, non-overlapping replacement. A run
  cannot match a shorter prefix, since white space has to follow it.\<close>

definition line_break :: "char \<Rightarrow> bool" where
  "line_break c \<longleftrightarrow> (of_char c :: nat) \<in> {10, 11, 12, 13, 28, 29, 30, 133}"

fun split_lines :: "string \<Rightarrow> string \<Rightarrow> string list" where
  "split_lines acc [] = (if acc = [] then [] else [rev acc])"
| "split_lines acc (c # cs) =
     (if line_break c then rev acc # split_lines [] cs else split_lines (c # acc) cs)"

definition word_char :: "char \<Rightarrow> bool" where
  "word_char c \<longleftrightarrow> \<not> is_space c \<and> c \<noteq> CHR 0x22 \<and> c \<noteq> CHR 0x27 \<and> c \<noteq> CHR ''(''"

definition quoted :: "string \<Rightarrow> (string \<times> string) option" where
  "quoted s = (case s of [] \<Rightarrow> None
     | q # cs \<Rightarrow>
         if (q = CHR 0x22 \<or> q = CHR 0x27) \<and> q \<in> set cs
         then Some (q # takeWhile (\<lambda>c. c \<noteq> q) cs @ [q], tl (dropWhile (\<lambda>c. c \<noteq> q) cs))
         else None)"

text \<open>The operator and its literal right after the left operand: white space, the operator, white space, a quoted string.\<close>

definition match_operator :: "string \<Rightarrow> string \<Rightarrow> (string \<times> string) option" where
  "match_operator oper s =
     (let s1 = dropWhile is_space s
      in if s = [] \<or> \<not> is_space (hd s) \<or> \<not> starts_with s1 oper then None
         else let s2 = drop (length oper) s1
              in if s2 = [] \<or> \<not> is_space (hd s2) then None else quoted (dropWhile is_space s2))"

lemma length_quoted: "quoted s = Some (lit, rest) \<Longrightarrow> length rest < length s"
  using length_dropWhile_le [of "\<lambda>c. c \<noteq> hd s" "tl s"]
  by (auto simp: quoted_def split: list.splits if_splits)

lemma length_match_operator: "match_operator oper s = Some (lit, rest) \<Longrightarrow> length rest < length s"
  using length_quoted [of "dropWhile is_space (drop (length oper) (dropWhile is_space s))" lit rest]
    length_dropWhile_le [of is_space "drop (length oper) (dropWhile is_space s)"]
    length_dropWhile_le [of is_space s]
  by (auto simp: match_operator_def Let_def split: if_splits)

function sub_operator :: "string \<Rightarrow> (string \<Rightarrow> string \<Rightarrow> string) \<Rightarrow> string \<Rightarrow> string" where
  "sub_operator oper repl [] = []"
| "sub_operator oper repl (c # cs) =
     (case (if word_char c then match_operator oper (dropWhile word_char cs) else None) of
        None \<Rightarrow> c # sub_operator oper repl cs
      | Some (lit, rest) \<Rightarrow> repl (c # takeWhile word_char cs) lit @ sub_operator oper repl rest)"
  by pat_completeness auto

termination
proof (relation "measure (\<lambda>(oper, repl, s). length s)", goal_cases)
  case (3 oper repl c cs y lit rest)
  then have "match_operator oper (dropWhile word_char cs) = Some (lit, rest)"
    by (auto split: if_splits)
  then show ?case
    using length_match_operator [of oper "dropWhile word_char cs" lit rest]
      length_dropWhile_le [of word_char cs] by simp
qed auto

definition condition_lines :: "string \<Rightarrow> string list" where
  "condition_lines cond = filter (\<lambda>l. l \<noteq> []) (map strip (split_lines [] cond))"

definition preprocess_expr :: "string \<Rightarrow> string" where
  "preprocess_expr cond =
     (let ls = condition_lines cond;
          e0 = (if ls = [] then ''False'' else join '' '' ls);
          e1 = sub_operator ''contains'' (\<lambda>w l. ''contains('' @ w @ '', '' @ l @ '')'') e0;
          e2 = sub_operator ''starts_with'' (\<lambda>w l. w @ ''.startswith('' @ l @ '')'') e1
      in sub_operator ''ends_with'' (\<lambda>w l. w @ ''.endswith('' @ l @ '')'') e2)"

lemmas preprocess_simps = preprocess_expr_def condition_lines_def line_break_def strip_def is_space_def match_operator_def
  word_char_def quoted_def

section \<open>The sandbox\<close>

record pylib =
  lb_parse :: "string \<Rightarrow> expr option"
  lb_re_match :: "string \<Rightarrow> string \<Rightarrow> bool result"
  lb_method :: "pyval \<Rightarrow> string \<Rightarrow> (pyval list \<Rightarrow> pyval result) option"

text \<open>\<open>compile_rule_condition\<close>: \<open>None\<close> is its \<open>ValueError\<close>.\<close>

definition compile_rule_condition :: "pylib \<Rightarrow> string \<Rightarrow> expr option" where
  "compile_rule_condition L cond =
     (case lb_parse L (preprocess_expr cond) of
        None \<Rightarrow> None
      | Some e \<Rightarrow> if check_ast e then Some e else None)"

text \<open>The search of \<open>_REDOS_NESTED_RE\<close>: an opening parenthesis whose text up to the next closing one has a
  quantifier or a bar, and a quantifier after it.\<close>

definition quantifier :: "char \<Rightarrow> bool" where
  "quantifier c \<longleftrightarrow> c \<in> set ''+*{?''"

fun redos_pattern :: "string \<Rightarrow> bool" where
  "redos_pattern [] = False"
| "redos_pattern (c # cs) =
     ((c = CHR ''('' \<and> CHR '')'' \<in> set cs
       \<and> list_ex (\<lambda>d. quantifier d \<or> d = CHR 0x7C) (takeWhile (\<lambda>d. d \<noteq> CHR '')'') cs)
       \<and> (case dropWhile is_space (tl (dropWhile (\<lambda>d. d \<noteq> CHR '')'') cs)) of
            [] \<Rightarrow> False | d # _ \<Rightarrow> quantifier d))
      \<or> redos_pattern cs)"

definition max_regex_len :: nat where
  "max_regex_len = 200"

fun py_len :: "pyval \<Rightarrow> nat option" where
  "py_len (PStr s) = Some (length s)"
| "py_len (PList xs) = Some (length xs)"
| "py_len (PTuple xs) = Some (length xs)"
| "py_len (PDict d) = Some (length d)"
| "py_len _ = None"

definition safe_re_match :: "pylib \<Rightarrow> pyval \<Rightarrow> pyval \<Rightarrow> pyval result" where
  "safe_re_match L pattern val =
     (case val of
        PStr s \<Rightarrow>
          (case py_len pattern of
             None \<Rightarrow> Inl TypeError
           | Some n \<Rightarrow>
               if max_regex_len < n then Inr (PBool False)
               else (case pattern of
                       PStr p \<Rightarrow>
                         if redos_pattern p then Inr (PBool False)
                         else (case lb_re_match L p s of Inl _ \<Rightarrow> Inr (PBool False) | Inr b \<Rightarrow> Inr (PBool b))
                     | _ \<Rightarrow> Inl TypeError))
      | _ \<Rightarrow> Inr (PBool False))"

definition contains_method :: "pyval \<Rightarrow> pyval \<Rightarrow> pyval result" where
  "contains_method s sub =
     (case s of PStr _ \<Rightarrow> bind_result (py_in sub s) (\<lambda>b. Inr (PBool b)) | _ \<Rightarrow> Inr (PBool False))"

text \<open>The names a condition sees. \<open>__builtins__\<close> is the empty dictionary of the globals.\<close>

definition lookup_name :: "string \<Rightarrow> pyval result" where
  "lookup_name n =
     (if n = ''event'' then Inr PEvent
      else if n = ''re_match'' \<or> n = ''count_events'' \<or> n = ''contains'' then Inr (PFun n)
      else if n = ''__builtins__'' then Inr (PDict [])
      else Inl (OtherError ''NameError''))"

text \<open>Attributes: the event proxy answers \<open>None\<close> for a field it does not have and refuses private names, as
  the wrapped functions do.\<close>

definition event_attr :: "event_dict \<Rightarrow> string \<Rightarrow> pyval result" where
  "event_attr d a =
     (if is_private a then Inl AttributeError
      else Inr (case map_of d a of None \<Rightarrow> PNone | Some v \<Rightarrow> v))"

fun builtin_method :: "pyval \<Rightarrow> string \<Rightarrow> bool" where
  "builtin_method (PStr s) m = (m = ''startswith'' \<or> m = ''endswith'')"
| "builtin_method (PDict d) m = (m = ''get'')"
| "builtin_method _ m = False"

definition get_attr :: "pylib \<Rightarrow> event_dict \<Rightarrow> pyval \<Rightarrow> string \<Rightarrow> pyval result" where
  "get_attr L d v a =
     (case v of
        PEvent \<Rightarrow> event_attr d a
      | PFun _ \<Rightarrow> Inl AttributeError
      | _ \<Rightarrow> if builtin_method v a \<or> lb_method L v a \<noteq> None then Inr (PMethod v a) else Inl AttributeError)"

fun str_prefixes :: "pyval \<Rightarrow> string list result" where
  "str_prefixes (PStr s) = Inr [s]"
| "str_prefixes (PTuple []) = Inr []"
| "str_prefixes (PTuple (PStr s # vs)) = bind_result (str_prefixes (PTuple vs)) (\<lambda>ss. Inr (s # ss))"
| "str_prefixes _ = Inl TypeError"

definition ends_with :: "string \<Rightarrow> string \<Rightarrow> bool" where
  "ends_with s t = starts_with (rev s) (rev t)"

definition call_method :: "pylib \<Rightarrow> pyval \<Rightarrow> string \<Rightarrow> pyval list \<Rightarrow> pyval result" where
  "call_method L r m args =
     (case (r, args) of
        (PStr s, [a]) \<Rightarrow>
          if m = ''startswith'' then bind_result (str_prefixes a) (\<lambda>ps. Inr (PBool (list_ex (starts_with s) ps)))
          else if m = ''endswith'' then bind_result (str_prefixes a) (\<lambda>ps. Inr (PBool (list_ex (ends_with s) ps)))
          else (case lb_method L r m of None \<Rightarrow> Inl AttributeError | Some f \<Rightarrow> f args)
      | (PDict kvs, [k]) \<Rightarrow>
          if m = ''get'' then (case py_item r k of Inr v \<Rightarrow> Inr v | Inl KeyError \<Rightarrow> Inr PNone | Inl e \<Rightarrow> Inl e)
          else (case lb_method L r m of None \<Rightarrow> Inl AttributeError | Some f \<Rightarrow> f args)
      | _ \<Rightarrow> (case lb_method L r m of None \<Rightarrow> Inl TypeError | Some f \<Rightarrow> f args))"

section \<open>Evaluation\<close>

text \<open>\<open>'s\<close> is the state \<open>count_events\<close> works on; \<open>cnt\<close> is that function.\<close>

definition call_value ::
  "pylib \<Rightarrow> (pyval list \<Rightarrow> 's \<Rightarrow> pyval result \<times> 's) \<Rightarrow> pyval \<Rightarrow> pyval list \<Rightarrow> 's \<Rightarrow> pyval result \<times> 's" where
  "call_value L cnt f args s =
     (case f of
        PFun n \<Rightarrow>
          if n = ''count_events'' then cnt args s
          else (case args of
                  [a, b] \<Rightarrow> if n = ''contains'' then (contains_method a b, s) else (safe_re_match L a b, s)
                | _ \<Rightarrow> (Inl TypeError, s))
      | PMethod r m \<Rightarrow> (call_method L r m args, s)
      | _ \<Rightarrow> (Inl TypeError, s))"

fun compare_values :: "cmpop \<Rightarrow> pyval \<Rightarrow> pyval \<Rightarrow> bool result" where
  "compare_values CEq a b = Inr (py_eq a b)"
| "compare_values CNotEq a b = Inr (\<not> py_eq a b)"
| "compare_values CLt a b = (case py_less a b of None \<Rightarrow> Inl TypeError | Some r \<Rightarrow> Inr r)"
| "compare_values CGt a b = (case py_less b a of None \<Rightarrow> Inl TypeError | Some r \<Rightarrow> Inr r)"
| "compare_values CLtE a b = (case py_less b a of None \<Rightarrow> Inl TypeError | Some r \<Rightarrow> Inr (\<not> r))"
| "compare_values CGtE a b = (case py_less a b of None \<Rightarrow> Inl TypeError | Some r \<Rightarrow> Inr (\<not> r))"
| "compare_values CIn a b = py_in a b"
| "compare_values CNotIn a b = bind_result (py_in a b) (\<lambda>r. Inr (\<not> r))"
| "compare_values (COther _) a b = Inl RuntimeError"

definition apply_binop :: "binop \<Rightarrow> pyval \<Rightarrow> pyval \<Rightarrow> pyval result" where
  "apply_binop b x y =
     (case b of BAdd \<Rightarrow> py_add x y | BSub \<Rightarrow> py_sub x y | BOther _ \<Rightarrow> Inl RuntimeError)"

fun eval :: "pylib \<Rightarrow> event_dict \<Rightarrow> (pyval list \<Rightarrow> 's \<Rightarrow> pyval result \<times> 's) \<Rightarrow> expr \<Rightarrow> 's \<Rightarrow> pyval result \<times> 's"
  and eval_list :: "pylib \<Rightarrow> event_dict \<Rightarrow> (pyval list \<Rightarrow> 's \<Rightarrow> pyval result \<times> 's) \<Rightarrow> expr list \<Rightarrow> 's \<Rightarrow> pyval list result \<times> 's"
  and eval_bool :: "pylib \<Rightarrow> event_dict \<Rightarrow> (pyval list \<Rightarrow> 's \<Rightarrow> pyval result \<times> 's) \<Rightarrow> boolop \<Rightarrow> expr list \<Rightarrow> 's \<Rightarrow> pyval result \<times> 's"
  and eval_chain :: "pylib \<Rightarrow> event_dict \<Rightarrow> (pyval list \<Rightarrow> 's \<Rightarrow> pyval result \<times> 's) \<Rightarrow> pyval \<Rightarrow> (cmpop \<times> expr) list \<Rightarrow> 's \<Rightarrow> pyval result \<times> 's" where
  "eval L d cnt (EConst v) s = (Inr v, s)"
| "eval L d cnt (EName n) s = (lookup_name n, s)"
| "eval L d cnt (EAttr e a) s = seq_res (eval L d cnt e s) (\<lambda>v s. (get_attr L d v a, s))"
| "eval L d cnt (ESub e i) s =
     seq_res (eval L d cnt e s) (\<lambda>v s. seq_res (eval L d cnt i s) (\<lambda>k s. (py_item v k, s)))"
| "eval L d cnt (ECall f es) s =
     seq_res (eval L d cnt f s) (\<lambda>g s. seq_res (eval_list L d cnt es s) (\<lambda>vs s. call_value L cnt g vs s))"
| "eval L d cnt (EBool b es) s = eval_bool L d cnt b es s"
| "eval L d cnt (EUnary u e) s =
     seq_res (eval L d cnt e s) (\<lambda>v s. (case u of UNot \<Rightarrow> Inr (PBool (\<not> truth v)) | UOther _ \<Rightarrow> Inl RuntimeError, s))"
| "eval L d cnt (ECompare e cs) s = seq_res (eval L d cnt e s) (\<lambda>v s. eval_chain L d cnt v cs s)"
| "eval L d cnt (EBin e b f) s =
     seq_res (eval L d cnt e s) (\<lambda>v s. seq_res (eval L d cnt f s) (\<lambda>w s. (apply_binop b v w, s)))"
| "eval L d cnt (EIf c e f) s =
     seq_res (eval L d cnt c s) (\<lambda>v s. if truth v then eval L d cnt e s else eval L d cnt f s)"
| "eval L d cnt (EList es) s = seq_res (eval_list L d cnt es s) (\<lambda>vs s. (Inr (PList vs), s))"
| "eval L d cnt (ETuple es) s = seq_res (eval_list L d cnt es s) (\<lambda>vs s. (Inr (PTuple vs), s))"
| "eval L d cnt (EOther n es) s = (Inl RuntimeError, s)"
| "eval_list L d cnt [] s = (Inr [], s)"
| "eval_list L d cnt (e # es) s =
     seq_res (eval L d cnt e s) (\<lambda>v s. seq_res (eval_list L d cnt es s) (\<lambda>vs s. (Inr (v # vs), s)))"
| "eval_bool L d cnt b [] s = (Inr PNone, s)"
| "eval_bool L d cnt b (e # es) s =
     seq_res (eval L d cnt e s) (\<lambda>v s.
       if es = [] \<or> truth v = (b = OpOr) then (Inr v, s) else eval_bool L d cnt b es s)"
| "eval_chain L d cnt v [] s = (Inr (PBool True), s)"
| "eval_chain L d cnt v ((c, e) # cs) s =
     seq_res (eval L d cnt e s) (\<lambda>w s.
       (case compare_values c v w of
          Inl x \<Rightarrow> (Inl x, s)
        | Inr r \<Rightarrow> if cs = [] \<or> \<not> r then (Inr (PBool r), s) else eval_chain L d cnt w cs s))"

section \<open>What evaluation does to the state\<close>

text \<open>A condition on the state that \<open>count_events\<close> keeps is kept by every evaluation.\<close>

definition ends_in :: "('s \<Rightarrow> bool) \<Rightarrow> 'a \<times> 's \<Rightarrow> bool" where
  "ends_in P r \<longleftrightarrow> P (snd r)"

lemma ends_in_pair [simp]: "ends_in P (r, s) \<longleftrightarrow> P s"
  by (simp add: ends_in_def)

lemma ends_in_seq:
  "ends_in P x \<Longrightarrow> (\<And>a s. P s \<Longrightarrow> ends_in P (f a s)) \<Longrightarrow> ends_in P (seq_res x f)"
  by (cases x; cases "fst x") (auto simp: ends_in_def)

text \<open>Two counting functions that agree on the states reached give the same evaluation.\<close>

definition agree :: "('s \<Rightarrow> bool) \<Rightarrow> 'a \<times> 's \<Rightarrow> 'a \<times> 's \<Rightarrow> bool" where
  "agree P x y \<longleftrightarrow> ends_in P x \<and> x = y"

definition agree_on :: "('s \<Rightarrow> bool) \<Rightarrow> (pyval list \<Rightarrow> 's \<Rightarrow> pyval result \<times> 's)
    \<Rightarrow> (pyval list \<Rightarrow> 's \<Rightarrow> pyval result \<times> 's) \<Rightarrow> bool" where
  "agree_on P c1 c2 \<longleftrightarrow> (\<forall>args s. P s \<longrightarrow> agree P (c1 args s) (c2 args s))"

definition keeps :: "('s \<Rightarrow> bool) \<Rightarrow> (pyval list \<Rightarrow> 's \<Rightarrow> pyval result \<times> 's) \<Rightarrow> bool" where
  "keeps P cnt \<longleftrightarrow> (\<forall>args s. P s \<longrightarrow> ends_in P (cnt args s))"

lemma agree_leaf: "P s \<Longrightarrow> agree P (r, s) (r, s)"
  by (simp add: agree_def)

lemma agree_seq:
  "agree P x y \<Longrightarrow> (\<And>a s. P s \<Longrightarrow> agree P (f a s) (g a s)) \<Longrightarrow> agree P (seq_res x f) (seq_res y g)"
  by (cases x; cases "fst x") (fastforce simp: agree_def)+

lemma agree_call: "agree_on P c1 c2 \<Longrightarrow> P s \<Longrightarrow> agree P (call_value L c1 g vs s) (call_value L c2 g vs s)"
  by (auto simp: call_value_def agree_on_def intro: agree_leaf split: pyval.splits list.splits)

lemma eval_agrees:
  fixes c1 :: "pyval list \<Rightarrow> 's \<Rightarrow> pyval result \<times> 's"
  shows "agree_on P c1 c2 \<Longrightarrow> P s \<Longrightarrow> agree P (eval L d c1 e s) (eval L d c2 e s)"
    and "agree_on P c1 c2 \<Longrightarrow> P s \<Longrightarrow> agree P (eval_list L d c1 es s) (eval_list L d c2 es s)"
    and "agree_on P c1 c2 \<Longrightarrow> P s \<Longrightarrow> agree P (eval_bool L d c1 b es s) (eval_bool L d c2 b es s)"
    and "agree_on P c1 c2 \<Longrightarrow> P s \<Longrightarrow> agree P (eval_chain L d c1 v cs s) (eval_chain L d c2 v cs s)"
proof (induction L d c1 e s and L d c1 es s and L d c1 b es s and L d c1 v cs s
    rule: eval_eval_list_eval_bool_eval_chain.induct)
  case (19 L d c1 v c e cs s)
  show ?case
    unfolding eval_chain.simps
  proof (rule agree_seq [OF 19(1) [OF 19(3,4)]])
    fix w s'
    assume "P s'"
    then show "agree P (case compare_values c v w of Inl x \<Rightarrow> (Inl x, s')
        | Inr r \<Rightarrow> if cs = [] \<or> \<not> r then (Inr (PBool r), s') else eval_chain L d c1 w cs s')
       (case compare_values c v w of Inl x \<Rightarrow> (Inl x, s')
        | Inr r \<Rightarrow> if cs = [] \<or> \<not> r then (Inr (PBool r), s') else eval_chain L d c2 w cs s')"
      using 19(2) [OF _ _ 19(3)] by (auto split: sum.splits intro: agree_leaf)
  qed
qed (auto intro!: agree_seq intro: agree_call agree_leaf)

lemma eval_agree: "agree_on P c1 c2 \<Longrightarrow> P s \<Longrightarrow> eval L d c1 e s = eval L d c2 e s"
  using eval_agrees(1) [of P c1 c2 s L d e] by (simp add: agree_def)

lemma eval_keeps: "keeps P cnt \<Longrightarrow> P s \<Longrightarrow> ends_in P (eval L d cnt e s)"
  using eval_agrees(1) [of P cnt cnt s L d e] by (auto simp: agree_def agree_on_def keeps_def)

section \<open>Conditions without counting\<close>

text \<open>A condition that does not call \<open>count_events\<close> (and calls only names and attributes) neither reads nor
  changes the windows, so its value is a function of the event.\<close>

fun simple_expr :: "expr \<Rightarrow> bool" where
  "simple_expr (EConst v) = True"
| "simple_expr (EName n) = True"
| "simple_expr (EAttr e a) = simple_expr e"
| "simple_expr (ESub e i) = (simple_expr e \<and> simple_expr i)"
| "simple_expr (ECall f es) =
     ((case f of EName n \<Rightarrow> n \<noteq> ''count_events'' | EAttr g a \<Rightarrow> simple_expr g | _ \<Rightarrow> False)
      \<and> list_all simple_expr es)"
| "simple_expr (EBool b es) = list_all simple_expr es"
| "simple_expr (EUnary u e) = simple_expr e"
| "simple_expr (ECompare e cs) = (simple_expr e \<and> list_all (\<lambda>(c, e). simple_expr e) cs)"
| "simple_expr (EBin e b f) = (simple_expr e \<and> simple_expr f)"
| "simple_expr (EIf c e f) = (simple_expr c \<and> simple_expr e \<and> simple_expr f)"
| "simple_expr (EList es) = list_all simple_expr es"
| "simple_expr (ETuple es) = list_all simple_expr es"
| "simple_expr (EOther n es) = True"

fun is_fun :: "pyval \<Rightarrow> bool" where
  "is_fun (PFun n) = True" | "is_fun _ = False"

definition data_dict :: "event_dict \<Rightarrow> bool" where
  "data_dict d \<longleftrightarrow> list_all (\<lambda>(k, v). \<not> is_fun v) d"

definition no_count :: "pyval list \<Rightarrow> unit \<Rightarrow> pyval result \<times> unit" where
  "no_count args s = (Inl RuntimeError, s)"

definition eval_pure :: "pylib \<Rightarrow> event_dict \<Rightarrow> expr \<Rightarrow> pyval result" where
  "eval_pure L d e = fst (eval L d no_count e ())"

lemma get_attr_data: "data_dict d \<Longrightarrow> get_attr L d v a = Inr (PFun n) \<Longrightarrow> False"
  by (auto simp: get_attr_def event_attr_def data_dict_def list_all_iff
      split: pyval.splits if_splits option.splits dest!: map_of_SomeD)

lemma seq_res_cases:
  "seq_res (r, s) f = (case r of Inl e \<Rightarrow> (Inl e, s) | Inr a \<Rightarrow> f a s)"
  by (cases r) auto

lemma seq_res_unit:
  fixes x :: "'a result \<times> unit"
  shows "seq_res x f = (case fst x of Inl e \<Rightarrow> (Inl e, ()) | Inr a \<Rightarrow> f a ())"
  by (cases x; cases "fst x") auto

lemma call_no_count:
  "g \<noteq> PFun ''count_events'' \<Longrightarrow> call_value L cnt g vs s = (fst (call_value L no_count g vs ()), s)"
  by (auto simp: call_value_def split: pyval.splits list.splits)

lemma eval_no_count:
  fixes cnt :: "pyval list \<Rightarrow> 's \<Rightarrow> pyval result \<times> 's"
  shows "data_dict d \<Longrightarrow> simple_expr e \<Longrightarrow> eval L d cnt e s = (fst (eval L d no_count e ()), s)"
    and "data_dict d \<Longrightarrow> list_all simple_expr es \<Longrightarrow> eval_list L d cnt es s = (fst (eval_list L d no_count es ()), s)"
    and "data_dict d \<Longrightarrow> list_all simple_expr es \<Longrightarrow> eval_bool L d cnt b es s = (fst (eval_bool L d no_count b es ()), s)"
    and "data_dict d \<Longrightarrow> list_all (\<lambda>(c, e). simple_expr e) cs \<Longrightarrow>
           eval_chain L d cnt v cs s = (fst (eval_chain L d no_count v cs ()), s)"
proof (induction L d cnt e s and L d cnt es s and L d cnt b es s and L d cnt v cs s
    rule: eval_eval_list_eval_bool_eval_chain.induct)
  case (5 L d cnt f es s)
  have f: "eval L d cnt f s = (fst (eval L d no_count f ()), s)"
    using 5 by (cases f) (auto split: expr.splits)
  have "fst (eval L d no_count f ()) \<noteq> Inr (PFun ''count_events'')"
    using 5(3,4) get_attr_data [OF 5(3)]
    by (cases f; cases "eval L d no_count (case f of EAttr g a \<Rightarrow> g | _ \<Rightarrow> f) ()")
      (auto simp: lookup_name_def seq_res_cases split: if_splits sum.splits)
  with 5 f show ?case
    by (cases "eval L d no_count f ()"; cases "eval_list L d no_count es ()")
      (auto simp: seq_res_cases split: sum.splits intro!: call_no_count)
qed (auto split: sum.splits simp: seq_res_cases seq_res_unit)

section \<open>The guard against slow patterns\<close>

text \<open>The guard looks at the text from an opening to the next closing parenthesis only, so one more pair of
  parentheses hides a nested quantifier from it: the pattern is handed to the matcher.\<close>

theorem redos_guard_bypassed:
  "safe_re_match L (PStr ''(a+)+$'') (PStr s) = Inr (PBool False)
   \<and> safe_re_match L (PStr ''((a+))+$'') (PStr s) =
       (case lb_re_match L ''((a+))+$'' s of Inl _ \<Rightarrow> Inr (PBool False) | Inr b \<Rightarrow> Inr (PBool b))"
  by (simp add: safe_re_match_def max_regex_len_def quantifier_def is_space_def)

section \<open>Comments in a condition\<close>

text \<open>Code without an open string literal: double-quoted literals only, no escapes, no braces (which could open
  a replacement field of an f-string), no empty or triple-quoted literal.\<close>

fun plain_code :: "bool \<Rightarrow> string \<Rightarrow> bool" where
  "plain_code q [] = (\<not> q)"
| "plain_code q (c # cs) =
     (if c = CHR 0x22 then \<not> starts_with cs [CHR 0x22] \<and> plain_code (\<not> q) cs
      else c \<notin> set [CHR 0x5C, CHR 0x27, CHR 0x7B] \<and> \<not> line_break c \<and> (q \<or> c \<noteq> CHR 0x23) \<and> plain_code q cs)"

text \<open>The rule of Python's lexer: outside a literal a hash opens a comment that runs to the end of the line.\<close>

definition comment_law :: "pylib \<Rightarrow> bool" where
  "comment_law L \<longleftrightarrow> (\<forall>a b. plain_code False a \<longrightarrow> list_all (\<lambda>c. \<not> line_break c) b \<longrightarrow>
     lb_parse L (a @ '' #'' @ b) = lb_parse L a)"

lemma split_lines_no_break:
  "list_all (\<lambda>c. \<not> line_break c) acc \<Longrightarrow> list_all (list_all (\<lambda>c. \<not> line_break c)) (split_lines acc s)"
proof (induction acc s rule: split_lines.induct)
  case (2 acc c cs)
  then show ?case by (cases "line_break c") (simp_all add: list_all_rev)
qed (simp add: list_all_rev)

lemma set_strip: "set (strip s) \<subseteq> set s"
  by (auto simp: strip_def dest!: set_dropWhileD)

lemma condition_lines_no_break: "list_all (list_all (\<lambda>c. \<not> line_break c)) (condition_lines cond)"
proof -
  have "list_all (\<lambda>c. \<not> line_break c) (strip l)" if "l \<in> set (split_lines [] cond)" for l
    using split_lines_no_break [of "[]" cond] set_strip [of l] that by (auto simp: list_all_iff)
  then show ?thesis by (auto simp: condition_lines_def list_all_iff)
qed

lemma join_no_break:
  "list_all (list_all (\<lambda>c. \<not> line_break c)) ls \<Longrightarrow> list_all (\<lambda>c. \<not> line_break c) (join '' '' ls)"
  by (induction "'' ''" ls rule: join.induct) (auto simp: line_break_def)

lemma join_append: "xs \<noteq> [] \<Longrightarrow> ys \<noteq> [] \<Longrightarrow> join sep (xs @ ys) = join sep xs @ sep @ join sep ys"
proof (induction sep xs rule: join.induct)
  case (2 sep x)
  then show ?case by (cases ys) auto
qed auto

lemma starts_with_append: "starts_with s t \<Longrightarrow> \<exists>u. s = t @ u"
  by (induction s t rule: starts_with.induct) auto

lemma contains_append: "contains s t \<Longrightarrow> contains (u @ s) t"
  by (induction u) auto

lemma contains_starts: "starts_with s t \<Longrightarrow> contains s t"
  by (cases s; cases t) auto

lemma contains_suffix: "contains (dropWhile P s) t \<Longrightarrow> contains s t"
  using contains_append [of "dropWhile P s" t "takeWhile P s"] by simp

lemma match_operator_contains: "match_operator oper s = Some x \<Longrightarrow> contains s oper"
  by (auto simp: match_operator_def Let_def split: if_splits dest!: contains_starts intro: contains_suffix)

lemma sub_operator_id: "\<not> contains s oper \<Longrightarrow> sub_operator oper repl s = s"
proof (induction s)
  case (Cons c cs)
  then have "\<not> contains cs oper" by auto
  moreover from this have "match_operator oper (dropWhile word_char cs) = None"
    using match_operator_contains [of oper "dropWhile word_char cs"] contains_suffix [of word_char cs oper]
    by (cases "match_operator oper (dropWhile word_char cs)") auto
  ultimately show ?case using Cons by simp
qed simp

definition operator_free :: "string \<Rightarrow> bool" where
  "operator_free s \<longleftrightarrow> \<not> contains s ''contains'' \<and> \<not> contains s ''starts_with'' \<and> \<not> contains s ''ends_with''"

lemma preprocess_operator_free:
  "condition_lines cond \<noteq> [] \<Longrightarrow> operator_free (join '' '' (condition_lines cond)) \<Longrightarrow>
   preprocess_expr cond = join '' '' (condition_lines cond)"
  by (simp add: preprocess_expr_def Let_def operator_free_def sub_operator_id)

text \<open>A condition is compiled from its lines joined into one, so a comment line swallows every line after it:
  the condition means what its lines before the first comment mean.\<close>

theorem comment_swallows_guards:
  assumes "comment_law L" and "condition_lines cond = pre @ (CHR 0x23 # c) # post" and "pre \<noteq> []"
    and "plain_code False (join '' '' pre)" and "operator_free (join '' '' (condition_lines cond))"
  shows "compile_rule_condition L cond =
    (case lb_parse L (join '' '' pre) of None \<Rightarrow> None | Some e \<Rightarrow> if check_ast e then Some e else None)"
proof -
  let ?tail = "(CHR 0x23 # c) # post"
  have "list_all (\<lambda>c. \<not> line_break c) (join '' '' ?tail)"
    using condition_lines_no_break [of cond] by (intro join_no_break) (auto simp: assms(2) list_all_iff)
  moreover have tail: "join '' '' ?tail = CHR 0x23 # tl (join '' '' ?tail)"
    by (cases post) auto
  ultimately have "list_all (\<lambda>c. \<not> line_break c) (tl (join '' '' ?tail))"
    by (cases "join '' '' ?tail") auto
  then have "lb_parse L (join '' '' pre @ '' #'' @ tl (join '' '' ?tail)) = lb_parse L (join '' '' pre)"
    using assms(1,4) by (simp add: comment_law_def)
  moreover have "preprocess_expr cond = join '' '' pre @ '' #'' @ tl (join '' '' ?tail)"
    using preprocess_operator_free [of cond] assms(2,5) join_append [OF assms(3), of ?tail "'' ''"] tail by simp
  ultimately show ?thesis by (simp add: compile_rule_condition_def)
qed

text \<open>The builtin rule for SSH brute force (\<open>rules/builtin/credential_access.yaml\<close>), its comments without
  accents: only the first two guards are compiled, so it fires on any TCP event, here one from port 443.\<close>

definition quote :: "string \<Rightarrow> string" where
  "quote s = CHR 0x22 # s @ [CHR 0x22]"

definition ssh_lines :: "string list" where
  "ssh_lines =
     [''event.category == '' @ quote ''network'',
      ''and event.protocol == '' @ quote ''tcp'',
      ''# R-01-real BUG 2 corrige : connexions SSH ENTRANTES - le serveur ecoute sur src_port 22.'',
      ''# dst_port est le port ephemere du client ; src_port == 22 identifie le flux entrant.'',
      ''and event.src_port == 22'',
      ''and event.type == '' @ quote ''new'']"

definition ssh_head :: string where
  "ssh_head = join '' '' (take 2 ssh_lines)"

definition ssh_expr :: expr where
  "ssh_expr = EBool OpAnd
     [ECompare (EAttr (EName ''event'') ''category'') [(CEq, EConst (PStr ''network''))],
      ECompare (EAttr (EName ''event'') ''protocol'') [(CEq, EConst (PStr ''tcp''))]]"

fun cut_comment :: "bool \<Rightarrow> string \<Rightarrow> string" where
  "cut_comment q [] = []"
| "cut_comment q (c # cs) =
     (if c = CHR 0x22 then c # cut_comment (\<not> q) cs
      else if \<not> q \<and> c = CHR 0x20 \<and> starts_with cs [CHR 0x23] then []
      else c # cut_comment q cs)"

definition ssh_lib :: pylib where
  "ssh_lib = \<lparr>lb_parse = (\<lambda>s. if cut_comment False s = ssh_head then Some ssh_expr else None),
     lb_re_match = (\<lambda>p s. Inr False), lb_method = (\<lambda>v m. None)\<rparr>"

lemma plain_head: "plain_code False a \<Longrightarrow> \<not> starts_with a [CHR 0x23]"
  by (cases a) (auto split: if_splits)

lemma cut_plain: "plain_code q a \<Longrightarrow> cut_comment q a = a"
  by (induction q a rule: cut_comment.induct) (auto simp: plain_head split: if_splits)

lemma starts_with_snoc: "starts_with (a @ CHR 0x20 # b) [CHR 0x23] = starts_with a [CHR 0x23]"
  by (cases a) auto

lemma cut_plain_comment: "plain_code q a \<Longrightarrow> cut_comment q (a @ '' #'' @ b) = a"
  by (induction q a rule: cut_comment.induct) (auto simp: plain_head starts_with_snoc split: if_splits)

lemma ssh_comment_law: "comment_law ssh_lib"
  by (simp add: comment_law_def ssh_lib_def cut_plain cut_plain_comment del: append_Cons append.simps)

definition ssh_condition :: string where
  "ssh_condition = concat (map (\<lambda>l. l @ [CHR 0x0A]) ssh_lines)"

lemma ssh_condition_lines: "condition_lines ssh_condition = ssh_lines"
  by (simp add: ssh_condition_def ssh_lines_def quote_def condition_lines_def line_break_def strip_def is_space_def)

lemma ssh_operator_free: "operator_free (join '' '' ssh_lines)"
  by (simp add: operator_free_def ssh_lines_def quote_def)

lemma ssh_head_plain: "plain_code False ssh_head"
  by (simp add: ssh_head_def ssh_lines_def quote_def line_break_def)

lemma comment_swallows_guards_witness:
  "compile_rule_condition ssh_lib ssh_condition = Some ssh_expr
   \<and> eval_pure ssh_lib [(''category'', PStr ''network''), (''protocol'', PStr ''tcp''), (''src_port'', PInt 443)] ssh_expr
       = Inr (PBool True)"
proof
  have "compile_rule_condition ssh_lib ssh_condition =
    (case lb_parse ssh_lib ssh_head of None \<Rightarrow> None | Some e \<Rightarrow> if check_ast e then Some e else None)"
    unfolding ssh_head_def
  proof (rule comment_swallows_guards [OF ssh_comment_law])
    show "condition_lines ssh_condition = take 2 ssh_lines @ (CHR 0x23 # tl (ssh_lines ! 2)) # drop 3 ssh_lines"
      unfolding ssh_condition_lines by (simp add: ssh_lines_def)
    show "take 2 ssh_lines \<noteq> []" by (simp add: ssh_lines_def)
    show "plain_code False (join '' '' (take 2 ssh_lines))" using ssh_head_plain by (simp add: ssh_head_def)
    show "operator_free (join '' '' (condition_lines ssh_condition))"
      by (simp add: ssh_condition_lines ssh_operator_free)
  qed
  then show "compile_rule_condition ssh_lib ssh_condition = Some ssh_expr"
    by (simp add: ssh_lib_def cut_plain [OF ssh_head_plain]) (simp add: ssh_expr_def is_private_def)
  show "eval_pure ssh_lib [(''category'', PStr ''network''), (''protocol'', PStr ''tcp''), (''src_port'', PInt 443)] ssh_expr
       = Inr (PBool True)"
    by (simp add: eval_pure_def ssh_expr_def lookup_name_def get_attr_def event_attr_def is_private_def)
qed

end
