(* ===== verification/Rule_Types.thy ===== *)
theory Rule_Types
  imports Rule_Expr
begin

text \<open>
  A type system for the conditions of \<open>rule_engine/evaluator.py\<close>. The code has none: an ill-typed
  comparison raises and the rule silently does not match. The types follow the fields of
  \<open>UniversalEvent\<close>; a typed condition is shown to return a value on every event.
\<close>

section \<open>The event a condition sees\<close>

fun of_json :: "json \<Rightarrow> pyval" where
  "of_json JNull = PNone"
| "of_json (JBool b) = PBool b"
| "of_json (JInt n) = PInt n"
| "of_json (JNum x) = PFloat x"
| "of_json (JStr s) = PStr s"
| "of_json (JList js) = PList (map of_json js)"
| "of_json (JObj kvs) = PDict (map (\<lambda>(k, v). (k, of_json v)) kvs)"

definition popt :: "('a \<Rightarrow> pyval) \<Rightarrow> 'a option \<Rightarrow> pyval" where
  "popt f x = (case x of None \<Rightarrow> PNone | Some a \<Rightarrow> f a)"

lemma popt_simps [simp, exec_simps]: "popt f None = PNone" "popt f (Some a) = f a"
  by (simp_all add: popt_def)

text \<open>\<open>event.model_dump()\<close>.\<close>

definition model_dump :: "universal_event \<Rightarrow> event_dict" where
  "model_dump e = [
    (''event_id'', PUuid (ev_event_id e)), (''timestamp_ns'', PInt (ev_timestamp_ns e)),
     (''hostname'', PStr (ev_hostname e)), (''agent_id'', PUuid (ev_agent_id e)),
     (''category'', PStr (ev_category e)), (''type'', PStr (ev_type e)),
     (''severity'', PStr (ev_severity e)), (''collector'', PStr (ev_collector e)),
     (''os'', PStr (ev_os e)), (''uid'', PInt (ev_uid e)), (''gid'', PInt (ev_gid e)),
     (''pid'', PInt (ev_pid e)), (''ppid'', PInt (ev_ppid e)),
     (''process_name'', PStr (ev_process_name e)), (''executable'', PStr (ev_executable e)),
     (''cmdline'', PStr (ev_cmdline e)), (''cwd'', PStr (ev_cwd e)),
     (''session_id'', popt PInt (ev_session_id e)), (''resource'', PStr (ev_resource e)),
     (''result'', PStr (ev_result e)), (''file_hash_before'', popt PStr (ev_file_hash_before e)),
     (''file_hash_after'', popt PStr (ev_file_hash_after e)), (''src_ip'', popt PStr (ev_src_ip e)),
     (''src_port'', popt PInt (ev_src_port e)), (''dst_ip'', popt PStr (ev_dst_ip e)),
     (''dst_port'', popt PInt (ev_dst_port e)), (''protocol'', popt PStr (ev_protocol e)),
     (''bytes_sent'', popt PInt (ev_bytes_sent e)), (''bytes_recv'', popt PInt (ev_bytes_recv e)),
     (''hash_chain'', PStr (ev_hash_chain e)), (''signature'', popt PStr (ev_signature e)),
     (''ml_score'', popt PFloat (ev_ml_score e)), (''risk_score'', popt PFloat (ev_risk_score e)),
     (''rule_match_ids'', PList (map PStr (ev_rule_match_ids e))),
     (''mitre_techniques'', PList (map PStr (ev_mitre_techniques e))),
     (''ti_tags'', PList (map PStr (ev_ti_tags e))),
     (''incident_chain_id'', popt PUuid (ev_incident_chain_id e)),
     (''extra'', PDict (map (\<lambda>(k, v). (k, of_json v)) (ev_extra e)))]"

section \<open>Types\<close>

datatype ty = TBool | TInt | TFloat | TStr | TUuid | TOpt ty | TList | TDict | TMethod | TAny

fun has_ty :: "pyval \<Rightarrow> ty \<Rightarrow> bool" where
  "has_ty v TAny = True"
| "has_ty v (TOpt t) = (v = PNone \<or> has_ty v t)"
| "has_ty (PBool b) TBool = True"
| "has_ty (PInt n) TInt = True"
| "has_ty (PFloat x) TFloat = True"
| "has_ty (PStr s) TStr = True"
| "has_ty (PUuid s) TUuid = True"
| "has_ty (PList vs) TList = True"
| "has_ty (PTuple vs) TList = True"
| "has_ty (PDict d) TDict = True"
| "has_ty (PMethod (PStr s) m) TMethod = (m = ''startswith'' \<or> m = ''endswith'')"
| "has_ty v t = False"

lemma has_ty_simps [simp]:
  "has_ty v TBool \<longleftrightarrow> (\<exists>b. v = PBool b)"
  "has_ty v TInt \<longleftrightarrow> (\<exists>n. v = PInt n)"
  "has_ty v TFloat \<longleftrightarrow> (\<exists>x. v = PFloat x)"
  "has_ty v TStr \<longleftrightarrow> (\<exists>s. v = PStr s)"
  "has_ty v TUuid \<longleftrightarrow> (\<exists>s. v = PUuid s)"
  "has_ty v TList \<longleftrightarrow> (\<exists>vs. v = PList vs) \<or> (\<exists>vs. v = PTuple vs)"
  "has_ty v TDict \<longleftrightarrow> (\<exists>d. v = PDict d)"
  "has_ty v TMethod \<longleftrightarrow> (\<exists>s m. v = PMethod (PStr s) m \<and> (m = ''startswith'' \<or> m = ''endswith''))"
proof goal_cases
  case 8
  then show ?case by (cases v; simp) (case_tac x121; simp)
qed (cases v; simp)+

definition event_schema :: "(string \<times> ty) list" where
  "event_schema = [
    (''event_id'', TUuid), (''timestamp_ns'', TInt), (''hostname'', TStr), (''agent_id'', TUuid),
     (''category'', TStr), (''type'', TStr), (''severity'', TStr), (''collector'', TStr),
     (''os'', TStr), (''uid'', TInt), (''gid'', TInt), (''pid'', TInt), (''ppid'', TInt),
     (''process_name'', TStr), (''executable'', TStr), (''cmdline'', TStr), (''cwd'', TStr),
     (''session_id'', TOpt TInt), (''resource'', TStr), (''result'', TStr),
     (''file_hash_before'', TOpt TStr), (''file_hash_after'', TOpt TStr), (''src_ip'', TOpt TStr),
     (''src_port'', TOpt TInt), (''dst_ip'', TOpt TStr), (''dst_port'', TOpt TInt),
     (''protocol'', TOpt TStr), (''bytes_sent'', TOpt TInt), (''bytes_recv'', TOpt TInt),
     (''hash_chain'', TStr), (''signature'', TOpt TStr), (''ml_score'', TOpt TFloat),
     (''risk_score'', TOpt TFloat), (''rule_match_ids'', TList), (''mitre_techniques'', TList),
     (''ti_tags'', TList), (''incident_chain_id'', TOpt TUuid), (''extra'', TDict)]"

definition schema_ok :: "event_dict \<Rightarrow> bool" where
  "schema_ok d \<longleftrightarrow> list_all (\<lambda>(a, t). has_ty (case map_of d a of None \<Rightarrow> PNone | Some v \<Rightarrow> v) t) event_schema"

lemma popt_shape: "popt f x = PNone \<or> (\<exists>a. popt f x = f a)"
  by (cases x) auto

lemma model_dump_schema: "schema_ok (model_dump e)"
  by (simp add: schema_ok_def event_schema_def model_dump_def popt_shape)

lemma not_fun_of_json [simp]: "\<not> is_fun (of_json v)"
  by (cases v) auto

lemma not_fun_popt [simp]: "(\<And>a. \<not> is_fun (f a)) \<Longrightarrow> \<not> is_fun (popt f x)"
  by (cases x) auto

lemma model_dump_data [simp]: "data_dict (model_dump e)"
  by (simp add: data_dict_def model_dump_def)

definition field_ty :: "string \<Rightarrow> ty" where
  "field_ty a = (case map_of event_schema a of None \<Rightarrow> TAny | Some t \<Rightarrow> t)"

fun const_ty :: "pyval \<Rightarrow> ty" where
  "const_ty (PBool b) = TBool"
| "const_ty (PInt n) = TInt"
| "const_ty (PFloat x) = TFloat"
| "const_ty (PStr s) = TStr"
| "const_ty v = TAny"

definition ordered_tys :: "ty \<Rightarrow> ty \<Rightarrow> bool" where
  "ordered_tys t u \<longleftrightarrow> (t \<in> {TBool, TInt, TFloat} \<and> u \<in> {TBool, TInt, TFloat}) \<or> (t = TStr \<and> u = TStr)"

fun cmp_tys :: "cmpop \<Rightarrow> ty \<Rightarrow> ty \<Rightarrow> bool" where
  "cmp_tys CEq t u = True"
| "cmp_tys CNotEq t u = True"
| "cmp_tys CIn t u = (t = TStr \<and> u = TStr \<or> u = TList)"
| "cmp_tys CNotIn t u = (t = TStr \<and> u = TStr \<or> u = TList)"
| "cmp_tys (COther n) t u = False"
| "cmp_tys c t u = ordered_tys t u"

fun expr_ty :: "expr \<Rightarrow> ty option" and chain_ok :: "ty \<Rightarrow> (cmpop \<times> expr) list \<Rightarrow> bool" where
  "expr_ty (EConst v) = Some (const_ty v)"
| "expr_ty (EName n) = None"
| "expr_ty (EAttr e a) = (if e = EName ''event'' then (if is_private a then None else Some (field_ty a))
      else if (a = ''startswith'' \<or> a = ''endswith'') \<and> expr_ty e = Some TStr then Some TMethod else None)"
| "expr_ty (ESub e i) = None"
| "expr_ty (ECall f es) =
     (case es of
        [a] \<Rightarrow> (if expr_ty f = Some TMethod \<and> expr_ty a = Some TStr then Some TBool else None)
      | [a, b] \<Rightarrow>
          (if f = EName ''contains'' \<and> expr_ty a \<noteq> None \<and> expr_ty b = Some TStr then Some TBool
           else if f = EName ''re_match'' \<and> expr_ty a = Some TStr \<and> expr_ty b \<noteq> None then Some TBool
           else if f = EName ''count_events'' \<and> expr_ty a \<noteq> None \<and> expr_ty b = Some TInt then Some TInt
           else None)
      | _ \<Rightarrow> None)"
| "expr_ty (EBool b es) = (if list_all (\<lambda>e. expr_ty e \<noteq> None) es then Some TAny else None)"
| "expr_ty (EUnary u e) = (if u = UNot \<and> expr_ty e \<noteq> None then Some TBool else None)"
| "expr_ty (ECompare e cs) =
     (case expr_ty e of None \<Rightarrow> None | Some t \<Rightarrow> if chain_ok t cs then Some TBool else None)"
| "expr_ty (EBin e b f) =
     (case (expr_ty e, expr_ty f) of
        (Some TInt, Some TInt) \<Rightarrow> if allowed_binop b then Some TInt else None
      | (Some TStr, Some TStr) \<Rightarrow> if b = BAdd then Some TStr else None
      | _ \<Rightarrow> None)"
| "expr_ty (EIf c e f) =
     (if expr_ty c \<noteq> None \<and> expr_ty e \<noteq> None \<and> expr_ty f \<noteq> None then Some TAny else None)"
| "expr_ty (EList es) = (if list_all (\<lambda>e. expr_ty e \<noteq> None) es then Some TList else None)"
| "expr_ty (ETuple es) = (if list_all (\<lambda>e. expr_ty e \<noteq> None) es then Some TList else None)"
| "expr_ty (EOther n es) = None"
| "chain_ok t [] = True"
| "chain_ok t ((c, e) # cs) =
     (case expr_ty e of None \<Rightarrow> False | Some u \<Rightarrow> cmp_tys c t u \<and> chain_ok u cs)"

section \<open>Typed conditions return\<close>

text \<open>What \<open>count_events\<close> does when its second argument is an integer.\<close>

definition count_returns :: "(pyval list \<Rightarrow> 's \<Rightarrow> pyval result \<times> 's) \<Rightarrow> bool" where
  "count_returns cnt \<longleftrightarrow> (\<forall>f n s. \<exists>k s'. cnt [f, PInt n] s = (Inr (PInt k), s'))"

lemma count_returnsD: "count_returns cnt \<Longrightarrow> \<exists>k s'. cnt [f, PInt n] s = (Inr (PInt k), s')"
  by (simp add: count_returns_def)

lemma field_has_ty:
  assumes "schema_ok d"
  shows "has_ty (case map_of d a of None \<Rightarrow> PNone | Some v \<Rightarrow> v) (field_ty a)"
proof (cases "map_of event_schema a")
  case (Some t)
  then have "(a, t) \<in> set event_schema" by (rule map_of_SomeD)
  then show ?thesis using assms Some by (auto simp: schema_ok_def list_all_iff field_ty_def)
qed (simp add: field_ty_def)

lemma const_has_ty: "has_ty v (const_ty v)"
  by (cases v) auto

lemma typed_compare:
  assumes "cmp_tys c t u" and "has_ty v t" and "has_ty w u"
  shows "\<exists>r. compare_values c v w = Inr r"
  using assms by (cases c) (auto simp: ordered_tys_def)

lemma typed_method:
  "m = ''startswith'' \<or> m = ''endswith'' \<Longrightarrow> \<exists>b. call_method L (PStr s) m [PStr t] = Inr (PBool b)"
  by (auto simp: call_method_def)

lemma typed_contains: "\<exists>b. contains_method v (PStr t) = Inr (PBool b)"
  by (cases v) (auto simp: contains_method_def)

lemma typed_re_match: "\<exists>b. safe_re_match L (PStr p) v = Inr (PBool b)"
  by (cases v) (auto simp: safe_re_match_def split: sum.splits)

definition returns_ty :: "pyval result \<times> 's \<Rightarrow> ty \<Rightarrow> bool" where
  "returns_ty r t \<longleftrightarrow> (\<exists>v s. r = (Inr v, s) \<and> has_ty v t)"

lemma returns_seq:
  "returns_ty x t \<Longrightarrow> (\<And>v s. has_ty v t \<Longrightarrow> returns_ty (f v s) u) \<Longrightarrow> returns_ty (seq_res x f) u"
  by (auto simp: returns_ty_def)

lemma returns_leaf: "has_ty v t \<Longrightarrow> returns_ty (Inr v, s) t"
  by (simp add: returns_ty_def del: has_ty_simps)

lemma returns_any: "returns_ty x t \<Longrightarrow> returns_ty x TAny"
  by (auto simp: returns_ty_def)

lemma returns_tyE:
  assumes "returns_ty x t"
  obtains v s where "x = (Inr v, s)" "has_ty v t"
  using assms by (auto simp: returns_ty_def)

lemma typed_binop:
  "has_ty v TInt \<Longrightarrow> has_ty w TInt \<Longrightarrow> allowed_binop b \<Longrightarrow> \<exists>r. apply_binop b v w = Inr r \<and> has_ty r TInt"
  "has_ty v TStr \<Longrightarrow> has_ty w TStr \<Longrightarrow> \<exists>r. apply_binop BAdd v w = Inr r \<and> has_ty r TStr"
  by (cases b; auto simp: apply_binop_def py_sub_def of_number_def) (auto simp: apply_binop_def)

text \<open>The calls a type exists for.\<close>

lemma expr_ty_callE:
  assumes "expr_ty (ECall f es) = Some t"
  obtains (strmeth) a where "es = [a]" "expr_ty f = Some TMethod" "expr_ty a = Some TStr" "t = TBool"
  | (contains) a b ta where "f = EName ''contains''" "es = [a, b]" "expr_ty a = Some ta" "expr_ty b = Some TStr" "t = TBool"
  | (re_match) a b tb where "f = EName ''re_match''" "es = [a, b]" "expr_ty a = Some TStr" "expr_ty b = Some tb" "t = TBool"
  | (count) a b ta where "f = EName ''count_events''" "es = [a, b]" "expr_ty a = Some ta" "expr_ty b = Some TInt" "t = TInt"
proof (cases es)
  case (Cons a es')
  show ?thesis
  proof (cases es')
    case Nil
    then show ?thesis using assms Cons by (auto split: if_splits intro: strmeth)
  next
    case (Cons b es'')
    then have "es'' = []" using assms \<open>es = a # es'\<close> by (cases es'') auto
    then have es: "es = [a, b]" using \<open>es = a # es'\<close> Cons by simp
    have "f = EName ''contains'' \<and> (\<exists>ta. expr_ty a = Some ta) \<and> expr_ty b = Some TStr \<and> t = TBool
        \<or> f = EName ''re_match'' \<and> expr_ty a = Some TStr \<and> (\<exists>tb. expr_ty b = Some tb) \<and> t = TBool
        \<or> f = EName ''count_events'' \<and> (\<exists>ta. expr_ty a = Some ta) \<and> expr_ty b = Some TInt \<and> t = TInt"
      using assms unfolding es by (simp split: if_splits)
    then show ?thesis using es contains re_match count by blast
  qed
qed (use assms in simp)

lemma typed_returns:
  fixes cnt :: "pyval list \<Rightarrow> 's \<Rightarrow> pyval result \<times> 's"
  shows "count_returns cnt \<Longrightarrow> schema_ok d \<Longrightarrow> expr_ty e = Some t \<Longrightarrow> returns_ty (eval L d cnt e s) t"
    and "count_returns cnt \<Longrightarrow> schema_ok d \<Longrightarrow> list_all (\<lambda>e. expr_ty e \<noteq> None) es \<Longrightarrow>
           \<exists>vs s'. eval_list L d cnt es s = (Inr vs, s') \<and> list_all2 (\<lambda>e v. \<exists>t. expr_ty e = Some t \<and> has_ty v t) es vs"
    and "count_returns cnt \<Longrightarrow> schema_ok d \<Longrightarrow> list_all (\<lambda>e. expr_ty e \<noteq> None) es \<Longrightarrow>
           returns_ty (eval_bool L d cnt b es s) TAny"
    and "count_returns cnt \<Longrightarrow> schema_ok d \<Longrightarrow> has_ty v u \<Longrightarrow> chain_ok u cs \<Longrightarrow>
           returns_ty (eval_chain L d cnt v cs s) TBool"
proof (induction L d cnt e s and L d cnt es s and L d cnt b es s and L d cnt v cs s
    arbitrary: t and and and u
    rule: eval_eval_list_eval_bool_eval_chain.induct)
  case (1 L d cnt v s)
  then show ?case using const_has_ty [of v] by (auto simp: returns_ty_def simp del: has_ty_simps)
next
  case (3 L d cnt e a s)
  show ?case
  proof (cases "e = EName ''event''")
    case True
    then show ?thesis
      using field_has_ty [OF 3(3), of a] 3(4)
      by (auto simp: returns_ty_def lookup_name_def get_attr_def event_attr_def simp del: has_ty_simps split: if_splits)
  next
    case False
    then have a: "a = ''startswith'' \<or> a = ''endswith''" "expr_ty e = Some TStr" "t = TMethod"
      using 3(4) by (auto split: if_splits)
    show ?thesis
      unfolding eval.simps by (rule returns_seq [OF 3(1) [OF 3(2,3) a(2)]])
        (use a in \<open>auto simp: returns_ty_def get_attr_def\<close>)
  qed
next
  case (5 L d cnt f es s)
  note args = 5(2) [OF 5(3,4)]
  from 5(5) show ?case
  proof (cases rule: expr_ty_callE)
    case (strmeth a)
    show ?thesis
      unfolding eval.simps
    proof (rule returns_seq [OF 5(1) [OF 5(3,4) strmeth(2)]])
      fix v s1
      assume "has_ty v TMethod"
      then obtain h m where v: "v = PMethod (PStr h) m" "m = ''startswith'' \<or> m = ''endswith''" by auto
      obtain w s2 where w: "eval_list L d cnt es s1 = (Inr [w], s2)" "has_ty w TStr"
        using args [of s1] strmeth by (auto simp: list_all2_Cons1 simp del: eval_list.simps)
      then obtain x where x: "w = PStr x" by auto
      then show "returns_ty (seq_res (eval_list L d cnt es s1) (call_value L cnt v)) t"
        using v w typed_method [OF v(2), of L h x] strmeth(4)
        by (auto simp: returns_ty_def call_value_def simp del: eval_list.simps)
    qed
  next
    case (contains a b ta)
    obtain v w s1 where "eval_list L d cnt es s = (Inr [v, w], s1)" "has_ty w TStr"
      using args [of s] contains by (auto simp: list_all2_Cons1 simp del: eval_list.simps)
    then show ?thesis
      using contains typed_contains [of v] by (auto simp: returns_ty_def lookup_name_def call_value_def simp del: eval_list.simps)
  next
    case (re_match a b tb)
    obtain v w s1 where "eval_list L d cnt es s = (Inr [v, w], s1)" "has_ty v TStr"
      using args [of s] re_match by (auto simp: list_all2_Cons1 simp del: eval_list.simps)
    then show ?thesis
      using re_match typed_re_match [of L _ w] by (auto simp: returns_ty_def lookup_name_def call_value_def simp del: eval_list.simps)
  next
    case (count a b ta)
    obtain v w s1 where "eval_list L d cnt es s = (Inr [v, w], s1)" "has_ty w TInt"
      using args [of s] count by (auto simp: list_all2_Cons1 simp del: eval_list.simps)
    moreover then obtain n where n: "w = PInt n" by auto
    moreover obtain k s2 where "cnt [v, PInt n] s1 = (Inr (PInt k), s2)"
      using count_returnsD [OF 5(3)] by blast
    ultimately show ?thesis
      using count by (simp add: returns_ty_def lookup_name_def call_value_def del: eval_list.simps)
  qed
next
  case (6 L d cnt b es s)
  then show ?case by (auto split: if_splits)
next
  case (7 L d cnt u e s)
  then obtain t' where e: "expr_ty e = Some t'" "u = UNot" "t = TBool" by (auto split: if_splits)
  show ?case
    unfolding eval.simps by (rule returns_seq [OF 7(1) [OF 7(2,3) e(1)]]) (simp add: e returns_leaf)
next
  case (8 L d cnt e cs s)
  then obtain t' where e: "expr_ty e = Some t'" "chain_ok t' cs" "t = TBool"
    by (auto split: if_splits option.splits)
  show ?case
    unfolding eval.simps e by (rule returns_seq [OF 8(1) [OF 8(3,4) e(1)]]) (rule 8(2) [OF 8(3,4) _ e(2)])
next
  case (9 L d cnt e b f s)
  then obtain u where e: "expr_ty e = Some u" "expr_ty f = Some u" "t = u"
      "u = TInt \<and> allowed_binop b \<or> u = TStr \<and> b = BAdd"
    by (auto split: option.splits ty.splits if_splits)
  show ?case
    unfolding eval.simps e(3)
  proof (intro returns_seq [OF 9(1) [OF 9(3,4) e(1)]] returns_seq [OF 9(2) [OF 9(3,4) e(2)]])
    fix v w s1 s2
    assume "has_ty v u" "has_ty w u"
    then have "\<exists>r. apply_binop b v w = Inr r \<and> has_ty r u"
      using e(4) typed_binop(1) [of v w b] typed_binop(2) [of v w] by blast
    then show "returns_ty (apply_binop b v w, s2) u" by (auto simp: returns_ty_def)
  qed
next
  case (10 L d cnt c e f s)
  then obtain t1 t2 t3 where e: "expr_ty c = Some t1" "expr_ty e = Some t2" "expr_ty f = Some t3" "t = TAny"
    by (auto split: if_splits)
  show ?case
    unfolding eval.simps e
  proof (rule returns_seq [OF 10(1) [OF 10(4,5) e(1)]])
    fix v s1
    show "returns_ty (if truth v then eval L d cnt e s1 else eval L d cnt f s1) TAny"
      using returns_any [OF 10(2) [OF _ 10(4,5) e(2)]] returns_any [OF 10(3) [OF _ 10(4,5) e(3)]] by simp
  qed
next
  case (11 L d cnt es s)
  then show ?case by (auto simp: returns_ty_def split: if_splits)
next
  case (12 L d cnt es s)
  then show ?case by (auto simp: returns_ty_def split: if_splits)
next
  case (15 L d cnt e es s)
  then obtain u where e: "expr_ty e = Some u" by auto
  obtain v s1 where v: "eval L d cnt e s = (Inr v, s1)" "has_ty v u"
    using 15(1) [OF 15(3,4) e] by (rule returns_tyE)
  obtain vs s2 where "eval_list L d cnt es s1 = (Inr vs, s2)"
      "list_all2 (\<lambda>e v. \<exists>t. expr_ty e = Some t \<and> has_ty v t) es vs"
    using 15(2) [OF 15(3,4)] 15(5) by fastforce
  then show ?case using v e by simp
next
  case (17 L d cnt b e es s)
  then obtain t' where e: "expr_ty e = Some t'" by auto
  show ?case
    unfolding eval_bool.simps
    by (rule returns_seq [OF 17(1) [OF 17(3,4) e]]) (use 17(2-5) in \<open>auto intro: returns_leaf\<close>)
next
  case (19 L d cnt v c e cs s)
  then obtain t' where e: "expr_ty e = Some t'" "cmp_tys c u t'" "chain_ok t' cs"
    by (auto split: option.splits)
  show ?case
    unfolding eval_chain.simps
  proof (rule returns_seq [OF 19(1) [OF 19(3,4) e(1)]])
    fix w s'
    assume w: "has_ty w t'"
    obtain r where r: "compare_values c v w = Inr r"
      using typed_compare [OF e(2) 19(5) w] by blast
    show "returns_ty (case compare_values c v w of Inl x \<Rightarrow> (Inl x, s')
        | Inr r \<Rightarrow> if cs = [] \<or> \<not> r then (Inr (PBool r), s') else eval_chain L d cnt w cs s') TBool"
      using 19(2) [OF r _ 19(3,4) w e(3)] by (simp add: r returns_leaf)
  qed
qed (auto intro!: returns_leaf)

end
