(* ===== verification/Rule_Windows.thy ===== *)
theory Rule_Windows
  imports Rule_Expr Machines
begin

text \<open>
  The temporal windows and the entry point of \<open>rule_engine/evaluator.py\<close>. The module's global
  \<open>_temporal_windows\<close> is a dictionary from window keys to the recorded events, oldest first; one
  evaluation happens at one instant \<open>now\<close>. The lock is held for each access to the dictionary, so the
  accesses are atomic here. A call of \<open>count_events\<close> evaluates its filter on recorded events, which
  may call \<open>count_events\<close> again: the first argument of \<open>count_events\<close> is the depth Python's stack still
  allows, and reaching zero is the \<open>RecursionError\<close>.
\<close>

type_synonym window = "(time \<times> event_dict) list"
type_synonym windows = "(string, window) pydict"

record window_store =
  ws_windows :: windows
  ws_record_count :: nat

definition max_window_entries :: nat where
  "max_window_entries = 10000"

definition max_ttl :: time where
  "max_ttl = seconds 3600"

definition window_key :: "string \<Rightarrow> string \<Rightarrow> string" where
  "window_key rule_id entity_key = rule_id @ ''::'' @ entity_key"

section \<open>Recording\<close>

definition stale_window :: "time \<Rightarrow> window \<Rightarrow> bool" where
  "stale_window cutoff dq \<longleftrightarrow> list_all (\<lambda>(ts, _). ts < cutoff) dq"

definition purge_old_windows :: "time \<Rightarrow> windows \<Rightarrow> windows" where
  "purge_old_windows now w = filter (\<lambda>(k, dq). \<not> stale_window (now - max_ttl) dq) w"

definition prune_front :: "time \<Rightarrow> window \<Rightarrow> window" where
  "prune_front cutoff dq = dropWhile (\<lambda>(ts, _). ts < cutoff) dq"

definition put_window :: "string \<Rightarrow> window \<Rightarrow> windows \<Rightarrow> windows" where
  "put_window k dq w = (if dq = [] then dict_del k w else dict_put k dq w)"

definition get_window :: "windows \<Rightarrow> string \<Rightarrow> window" where
  "get_window w k = (case map_of w k of None \<Rightarrow> [] | Some dq \<Rightarrow> dq)"

definition record_event_for_temporal ::
  "time \<Rightarrow> string \<Rightarrow> event_dict \<Rightarrow> string \<Rightarrow> window_store \<Rightarrow> window_store" where
  "record_event_for_temporal now rule_id d entity_key s =
     (let key = window_key rule_id entity_key;
          dq = deque_append max_window_entries (now, d) (get_window (ws_windows s) key);
          w = put_window key (prune_front (now - max_ttl) dq) (ws_windows s);
          n = Suc (ws_record_count s)
      in \<lparr>ws_windows = (if n mod 500 = 0 then purge_old_windows now w else w), ws_record_count = n\<rparr>)"

section \<open>Counting\<close>

definition open_window :: "time \<Rightarrow> string \<Rightarrow> windows \<Rightarrow> window \<times> windows" where
  "open_window cutoff key w =
     (case map_of w key of
        None \<Rightarrow> ([], w)
      | Some dq \<Rightarrow> (let dq' = prune_front cutoff dq in (dq', put_window key dq' w)))"

text \<open>The loop over the snapshot: a filter that raises does not count.\<close>

fun count_loop :: "(event_dict \<Rightarrow> windows \<Rightarrow> bool result \<times> windows) \<Rightarrow> time \<Rightarrow> window \<Rightarrow> int \<Rightarrow> windows \<Rightarrow> int \<times> windows" where
  "count_loop f cutoff [] c w = (c, w)"
| "count_loop f cutoff ((ts, d) # dq) c w =
     (if ts < cutoff then count_loop f cutoff dq c w
      else (case f d w of
              (Inr True, w') \<Rightarrow> count_loop f cutoff dq (c + 1) w'
            | (_, w') \<Rightarrow> count_loop f cutoff dq c w'))"

text \<open>\<open>time.time() - seconds\<close>: only numbers can be subtracted. Clock readings are integers, so comparing
  with the rounded-up cutoff is exact.\<close>

fun seconds_of :: "pyval \<Rightarrow> time option" where
  "seconds_of (PInt n) = Some (seconds n)"
| "seconds_of (PBool b) = Some (seconds (if b then 1 else 0))"
| "seconds_of (PFloat x) = Some \<lfloor>x * 1000000\<rfloor>"
| "seconds_of _ = None"

text \<open>\<open>_eval_expr\<close> on a checked expression, and on a condition's text (the slow path).\<close>

definition eval_code ::
  "pylib \<Rightarrow> (pyval list \<Rightarrow> windows \<Rightarrow> pyval result \<times> windows) \<Rightarrow> expr \<Rightarrow> event_dict \<Rightarrow> windows \<Rightarrow> bool result \<times> windows" where
  "eval_code L cnt e d w = seq_res (eval L d cnt e w) (\<lambda>v w. (Inr (truth v), w))"

definition eval_source ::
  "pylib \<Rightarrow> (pyval list \<Rightarrow> windows \<Rightarrow> pyval result \<times> windows) \<Rightarrow> pyval \<Rightarrow> event_dict \<Rightarrow> windows \<Rightarrow> bool result \<times> windows" where
  "eval_source L cnt cond d w =
     (case cond of
        PStr c \<Rightarrow> (case compile_rule_condition L c of None \<Rightarrow> (Inl ValueError, w) | Some e \<Rightarrow> eval_code L cnt e d w)
      | _ \<Rightarrow> (Inl AttributeError, w))"

text \<open>\<open>_count_events_in_window\<close>, given how a filter is evaluated.\<close>

definition count_in_window ::
  "(event_dict \<Rightarrow> windows \<Rightarrow> bool result \<times> windows) \<Rightarrow> time \<Rightarrow> string \<Rightarrow> string \<Rightarrow> time \<Rightarrow> windows \<Rightarrow> int \<times> windows" where
  "count_in_window f now rule_id entity_key secs w =
     (case open_window (now - secs) (window_key rule_id entity_key) w of
        (dq, w') \<Rightarrow> count_loop f (now - secs) dq 0 w')"

fun count_events :: "pylib \<Rightarrow> time \<Rightarrow> nat \<Rightarrow> string \<Rightarrow> string \<Rightarrow> pyval list \<Rightarrow> windows \<Rightarrow> pyval result \<times> windows" where
  "count_events L now 0 rule_id entity_key args w = (Inl (OtherError ''RecursionError''), w)"
| "count_events L now (Suc n) rule_id entity_key args w =
     (case args of
        [filter_expr, secs] \<Rightarrow>
          (case seconds_of secs of
             None \<Rightarrow> (Inl TypeError, w)
           | Some sec \<Rightarrow>
               (case count_in_window (eval_source L (count_events L now n [] []) filter_expr) now rule_id entity_key sec w of
                  (c, w') \<Rightarrow> (Inr (PInt c), w')))
      | _ \<Rightarrow> (Inl TypeError, w))"

section \<open>Rules\<close>

record rule_definition =
  rd_id :: string
  rd_name :: string
  rd_enabled :: bool
  rd_severity :: string
  rd_condition :: string
  rd_timeframe :: "int option"
  rd_threshold :: "int option"
  rd_actions :: "string list"
  rd_tags :: "string list"
  rd_mitre :: "string list"
  rd_platforms :: "string list"
  rd_categories :: "string list"
  rd_explanation :: string
  rd_source :: string
  rd_entity_key :: "string option"
  rd_rule_type :: rule_type
  rd_compiled_code :: "expr option"

definition eval_rule_expr ::
  "pylib \<Rightarrow> time \<Rightarrow> nat \<Rightarrow> rule_definition \<Rightarrow> string \<Rightarrow> event_dict \<Rightarrow> windows \<Rightarrow> bool result \<times> windows" where
  "eval_rule_expr L now n r entity_key d w =
     (case rd_compiled_code r of
        Some e \<Rightarrow> eval_code L (count_events L now n (rd_id r) entity_key) e d w
      | None \<Rightarrow> eval_source L (count_events L now n (rd_id r) entity_key) (PStr (rd_condition r)) d w)"

definition platform_ok :: "rule_definition \<Rightarrow> event_dict \<Rightarrow> bool" where
  "platform_ok r d \<longleftrightarrow> rd_platforms r = []
     \<or> (case map_of d ''os'' of Some (PStr os) \<Rightarrow> os \<in> set (rd_platforms r) | _ \<Rightarrow> False)"

text \<open>\<open>evaluate\<close>. The recount of a temporal rule evaluates the condition's text on the recorded events.\<close>

definition evaluate ::
  "pylib \<Rightarrow> time \<Rightarrow> nat \<Rightarrow> rule_definition \<Rightarrow> string \<Rightarrow> event_dict \<Rightarrow> window_store \<Rightarrow> bool \<times> window_store" where
  "evaluate L now n r entity_key d s =
     (if \<not> platform_ok r d then (False, s)
      else case eval_rule_expr L now n r entity_key d (ws_windows s) of
        (Inl _, w) \<Rightarrow> (False, s\<lparr>ws_windows := w\<rparr>)
      | (Inr False, w) \<Rightarrow> (False, s\<lparr>ws_windows := w\<rparr>)
      | (Inr True, w) \<Rightarrow>
          (case rd_timeframe r of
             None \<Rightarrow> (True, s\<lparr>ws_windows := w\<rparr>)
           | Some tf \<Rightarrow>
               (let s1 = record_event_for_temporal now (rd_id r) d entity_key (s\<lparr>ws_windows := w\<rparr>)
                in case count_in_window (eval_source L (count_events L now n [] []) (PStr (rd_condition r)))
                          now (rd_id r) entity_key (seconds tf) (ws_windows s1) of
                     (c, w') \<Rightarrow> ((case rd_threshold r of None \<Rightarrow> 1 | Some t \<Rightarrow> t) \<le> c, s1\<lparr>ws_windows := w'\<rparr>))))"

section \<open>Windows stay small\<close>

definition windows_ok :: "windows \<Rightarrow> bool" where
  "windows_ok w \<longleftrightarrow> wf_dict w \<and> list_all (\<lambda>(k, dq). dq \<noteq> [] \<and> length dq \<le> max_window_entries) w"

lemma get_window_len: "windows_ok w \<Longrightarrow> length (get_window w k) \<le> max_window_entries"
  by (auto simp: windows_ok_def get_window_def list_all_iff dest!: map_of_SomeD split: option.splits)

lemma dict_put_subset: "set (dict_put k v d) \<subseteq> insert (k, v) (set d)"
  by (induction d) (auto split: if_splits)

lemma windows_ok_put: "windows_ok w \<Longrightarrow> length dq \<le> max_window_entries \<Longrightarrow> windows_ok (put_window k dq w)"
  using dict_put_subset [of k dq w]
  by (auto simp: windows_ok_def put_window_def list_all_iff dict_del_def dest!: subsetD)

lemma windows_ok_purge: "windows_ok w \<Longrightarrow> windows_ok (purge_old_windows now w)"
  by (auto simp: windows_ok_def purge_old_windows_def list_all_iff)

lemma length_prune_front: "length (prune_front c dq) \<le> length dq"
  by (simp add: prune_front_def length_dropWhile_le)

lemma windows_ok_open:
  assumes "windows_ok w"
  shows "windows_ok (snd (open_window c k w))"
proof (cases "map_of w k")
  case (Some dq)
  then have "length dq \<le> max_window_entries" using get_window_len [OF assms, of k] by (simp add: get_window_def)
  then show ?thesis
    using Some windows_ok_put [OF assms, of "prune_front c dq" k] length_prune_front [of c dq]
    by (simp add: open_window_def Let_def)
qed (use assms in \<open>simp add: open_window_def\<close>)

lemma windows_ok_record:
  assumes "windows_ok (ws_windows s)"
  shows "windows_ok (ws_windows (record_event_for_temporal now rid d ent s))"
proof -
  let ?dq = "deque_append max_window_entries (now, d) (get_window (ws_windows s) (window_key rid ent))"
  have "length (prune_front (now - max_ttl) ?dq) \<le> max_window_entries"
    using length_prune_front [of "now - max_ttl" ?dq] by (simp add: length_deque_append)
  from windows_ok_put [OF assms this] show ?thesis
    by (simp add: record_event_for_temporal_def Let_def windows_ok_purge)
qed

text \<open>A predicate on the windows that every pruning of one window keeps is kept by all of counting and
  evaluation.\<close>

definition prune_stable :: "(windows \<Rightarrow> bool) \<Rightarrow> bool" where
  "prune_stable P \<longleftrightarrow> (\<forall>c k w. P w \<longrightarrow> P (snd (open_window c k w)))"

lemma count_loop_keeps:
  assumes "\<And>d w. P w \<Longrightarrow> ends_in P (f d w)"
  shows "P w \<Longrightarrow> ends_in P (count_loop f c dq n w)"
proof (induction dq arbitrary: n w)
  case (Cons x dq)
  obtain ts d where x: "x = (ts, d)" by (cases x)
  show ?case
    using Cons assms [of w d] by (auto simp: x ends_in_def split: sum.splits prod.splits bool.splits)
qed simp

lemma count_in_window_keeps:
  assumes "prune_stable P" and "\<And>d w. P w \<Longrightarrow> ends_in P (f d w)" and "P w"
  shows "ends_in P (count_in_window f now rid ent secs w)"
proof -
  have "P (snd (open_window (now - secs) (window_key rid ent) w))"
    using assms(1,3) by (simp add: prune_stable_def)
  then show ?thesis
    by (auto simp: count_in_window_def split: prod.split intro!: count_loop_keeps assms(2))
qed

lemma eval_source_keeps: "keeps P cnt \<Longrightarrow> P w \<Longrightarrow> ends_in P (eval_source L cnt c d w)"
  by (auto simp: eval_source_def eval_code_def split: pyval.splits option.splits
      intro!: ends_in_seq intro: eval_keeps)

lemma count_events_keeps: "prune_stable P \<Longrightarrow> keeps P (count_events L now n rid ent)"
proof (induction n arbitrary: rid ent)
  case (Suc n)
  have "P w'"
    if "P w" "count_in_window (eval_source L (count_events L now n [] []) f) now rid ent sec w = (c, w')" for f sec w c w'
  proof -
    have "ends_in P (count_in_window (eval_source L (count_events L now n [] []) f) now rid ent sec w)"
      by (rule count_in_window_keeps [OF Suc.prems eval_source_keeps [OF Suc.IH [OF Suc.prems]] that(1)])
    then show ?thesis by (simp add: that(2))
  qed
  then show ?case
    by (auto simp: keeps_def split: list.splits option.splits prod.splits)
qed (simp add: keeps_def)

lemma eval_rule_expr_keeps: "prune_stable P \<Longrightarrow> P w \<Longrightarrow> ends_in P (eval_rule_expr L now n r ent d w)"
  by (auto simp: eval_rule_expr_def eval_code_def split: option.splits
      intro!: ends_in_seq eval_source_keeps count_events_keeps intro: eval_keeps count_events_keeps)

lemma evaluate_keeps:
  assumes P: "prune_stable P" and w: "P (ws_windows s)"
    and rec: "\<And>s. P (ws_windows s) \<Longrightarrow> P (ws_windows (record_event_for_temporal now (rd_id r) d ent s))"
  shows "P (ws_windows (snd (evaluate L now n r ent d s)))"
proof -
  obtain b w1 where e: "eval_rule_expr L now n r ent d (ws_windows s) = (b, w1)" by fastforce
  then have w1: "P w1" using eval_rule_expr_keeps [OF P w, of L now n r ent d] by (simp add: ends_in_def)
  let ?s1 = "record_event_for_temporal now (rd_id r) d ent (s\<lparr>ws_windows := w1\<rparr>)"
  have s1: "P (ws_windows ?s1)" by (rule rec) (simp add: w1)
  have "P w'" if "count_in_window (eval_source L (count_events L now n [] []) (PStr (rd_condition r)))
      now (rd_id r) ent secs (ws_windows ?s1) = (c, w')" for secs c w'
  proof -
    have "ends_in P (count_in_window (eval_source L (count_events L now n [] []) (PStr (rd_condition r)))
        now (rd_id r) ent secs (ws_windows ?s1))"
      by (rule count_in_window_keeps [OF P eval_source_keeps [OF count_events_keeps [OF P]] s1])
    then show ?thesis by (simp add: that)
  qed
  then have fired: "P (ws_windows (snd (case count_in_window
      (eval_source L (count_events L now n [] []) (PStr (rd_condition r))) now (rd_id r) ent secs (ws_windows ?s1) of
        (c, w') \<Rightarrow> (t \<le> c, ?s1\<lparr>ws_windows := w'\<rparr>))))" for secs t
    by (simp split: prod.split)
  consider "\<not> platform_ok r d" | x where "b = Inl x" | "b = Inr False" | "b = Inr True" "rd_timeframe r = None"
    | tf where "b = Inr True" "rd_timeframe r = Some tf"
    by (cases b) auto
  then show ?thesis
  proof cases
    case 5
    then show ?thesis by (simp add: evaluate_def e w w1 Let_def fired)
  qed (simp_all add: evaluate_def e w w1)
qed

lemma windows_ok_stable: "prune_stable windows_ok"
  by (simp add: prune_stable_def windows_ok_open)

section \<open>Nested counting bottoms out\<close>

text \<open>A nested evaluation runs with an empty rule id and entity, so its counting looks at the window
  \<open>''::''\<close>, which no rule with an id fills.\<close>

definition no_root_window :: "windows \<Rightarrow> bool" where
  "no_root_window w \<longleftrightarrow> map_of w ''::'' = None"

lemma no_root_stable: "prune_stable no_root_window"
  by (auto simp: prune_stable_def no_root_window_def open_window_def put_window_def Let_def split: option.splits)

lemma count_root:
  "no_root_window w \<Longrightarrow> count_events L now (Suc n) [] [] args w =
     (case args of [f, secs] \<Rightarrow> (case seconds_of secs of None \<Rightarrow> Inl TypeError | Some _ \<Rightarrow> Inr (PInt 0)) | _ \<Rightarrow> Inl TypeError, w)"
  by (auto simp: no_root_window_def count_in_window_def open_window_def window_key_def
      split: list.splits option.splits)

lemma count_root_agree:
  "agree_on no_root_window (count_events L now (Suc n) [] []) (count_events L now (Suc m) [] [])"
  by (simp add: agree_on_def agree_def count_root ends_in_def del: count_events.simps)

lemma eval_source_agree:
  "agree_on P c1 c2 \<Longrightarrow> P w \<Longrightarrow> agree P (eval_source L c1 c d w) (eval_source L c2 c d w)"
  by (auto simp: eval_source_def eval_code_def split: pyval.splits option.splits
      intro!: agree_seq eval_agrees(1) agree_leaf)

lemma count_loop_agree:
  assumes "\<And>d w. P w \<Longrightarrow> agree P (f d w) (g d w)"
  shows "P w \<Longrightarrow> count_loop f c dq n w = count_loop g c dq n w"
proof (induction dq arbitrary: n w)
  case (Cons x dq)
  obtain ts d where x: "x = (ts, d)" by (cases x)
  have "f d w = g d w" "P (snd (g d w))"
    using assms [OF Cons.prems, of d] by (auto simp: agree_def ends_in_def)
  then show ?case
    using Cons by (auto simp: x split: sum.splits prod.splits bool.splits)
qed simp

lemma count_in_window_agree:
  assumes "prune_stable P" and "\<And>d w. P w \<Longrightarrow> agree P (f d w) (g d w)" and "P w"
  shows "count_in_window f now rid ent secs w = count_in_window g now rid ent secs w"
proof -
  have "P (snd (open_window (now - secs) (window_key rid ent) w))"
    using assms(1,3) by (simp add: prune_stable_def)
  then show ?thesis
    by (auto simp: count_in_window_def split: prod.split intro!: count_loop_agree [of P] assms(2))
qed

lemma count_events_depth:
  "no_root_window w \<Longrightarrow> count_events L now (Suc (Suc n)) rid ent args w = count_events L now 2 rid ent args w"
  using count_in_window_agree [OF no_root_stable
      eval_source_agree [OF count_root_agree [of L now n 0]], where w = w]
  by (simp add: numeral_2_eq_2 del: count_events.simps(1) cong: list.case_cong option.case_cong)

lemma count_events_agree:
  "agree_on no_root_window (count_events L now (Suc (Suc n)) rid ent) (count_events L now 2 rid ent)"
  using count_events_keeps [OF no_root_stable, of L now "Suc (Suc n)" rid ent]
  by (simp add: agree_on_def agree_def count_events_depth keeps_def del: count_events.simps)

lemma eval_rule_expr_depth:
  "no_root_window w \<Longrightarrow> eval_rule_expr L now (Suc (Suc n)) r ent d w = eval_rule_expr L now 2 r ent d w"
  using eval_source_agree [OF count_events_agree] eval_agree [OF count_events_agree]
  by (auto simp: eval_rule_expr_def eval_code_def agree_def split: option.splits)

lemma no_root_put: "no_root_window w \<Longrightarrow> k \<noteq> ''::'' \<Longrightarrow> no_root_window (put_window k dq w)"
  by (simp add: no_root_window_def put_window_def)

lemma no_root_purge: "no_root_window w \<Longrightarrow> no_root_window (purge_old_windows now w)"
  by (auto simp: no_root_window_def purge_old_windows_def map_of_eq_None_iff)

lemma no_root_record:
  assumes "no_root_window (ws_windows s)" and "window_key rid ent \<noteq> ''::''"
  shows "no_root_window (ws_windows (record_event_for_temporal now rid d ent s))"
  using assms by (auto simp: record_event_for_temporal_def Let_def intro!: no_root_put no_root_purge)

lemma evaluate_no_root:
  "no_root_window (ws_windows s) \<Longrightarrow> window_key (rd_id r) ent \<noteq> ''::'' \<Longrightarrow>
   no_root_window (ws_windows (snd (evaluate L now n r ent d s)))"
  by (rule evaluate_keeps [OF no_root_stable _ no_root_record])

lemma evaluate_depth_Suc:
  assumes w: "no_root_window (ws_windows s)" and k: "window_key (rd_id r) ent \<noteq> ''::''"
  shows "evaluate L now (Suc (Suc n)) r ent d s = evaluate L now 2 r ent d s"
proof -
  obtain b w1 where e: "eval_rule_expr L now 2 r ent d (ws_windows s) = (b, w1)" by fastforce
  have w1: "no_root_window w1"
    using eval_rule_expr_keeps [OF no_root_stable w, of L now 2 r ent d] by (simp add: e)
  let ?s1 = "record_event_for_temporal now (rd_id r) d ent (s\<lparr>ws_windows := w1\<rparr>)"
  have s1: "no_root_window (ws_windows ?s1)" by (rule no_root_record [OF _ k]) (simp add: w1)
  have "count_in_window (eval_source L (count_events L now (Suc (Suc n)) [] []) c) now (rd_id r) ent secs (ws_windows ?s1) =
      count_in_window (eval_source L (count_events L now 2 [] []) c) now (rd_id r) ent secs (ws_windows ?s1)" for c secs
    by (rule count_in_window_agree [OF no_root_stable eval_source_agree [OF count_events_agree] s1])
  then show ?thesis
    unfolding evaluate_def by (simp add: e eval_rule_expr_depth [OF w] cong: sum.case_cong bool.case_cong option.case_cong)
qed

definition empty_store :: window_store where
  "empty_store = \<lparr>ws_windows = [], ws_record_count = 0\<rparr>"

text \<open>A stream of evaluations, each with its own clock reading, rule, entity and event.\<close>

type_synonym evaluation = "time \<times> rule_definition \<times> string \<times> event_dict"

definition eval_step :: "pylib \<Rightarrow> nat \<Rightarrow> evaluation \<Rightarrow> window_store \<Rightarrow> window_store" where
  "eval_step L n x s = (case x of (now, r, ent, d) \<Rightarrow> snd (evaluate L now n r ent d s))"

interpretation wn: machine "eval_step L n" "\<lambda>s. s = empty_store" "\<lambda>s. windows_ok (ws_windows s)"
  for L n
proof
  fix s :: window_store and e
  assume "windows_ok (ws_windows s)"
  then show "windows_ok (ws_windows (eval_step L n e s))"
    by (auto simp: eval_step_def split: prod.split intro!: evaluate_keeps [OF windows_ok_stable] windows_ok_record)
qed (simp add: empty_store_def windows_ok_def)

text \<open>C30: whatever rules, events and clock readings are evaluated in whatever order, the windows have distinct
  keys, none is empty and none holds more than \<open>_MAX_WINDOW_ENTRIES\<close> events.\<close>

theorem windows_bounded:
  "windows_ok (ws_windows (run (eval_step L n) empty_store es))"
  by (rule wn.reachable_inv) simp

end
