(* ===== verification/Rule_Temporal.thy ===== *)
theory Rule_Temporal
  imports Rule_Windows
begin

text \<open>
  What a temporal rule of \<open>rule_engine/evaluator.py\<close> promises: it fires when the events that matched it
  for the same entity within its time frame, the current one included, reach its threshold. The
  windows the code prunes, caps and purges are shown to implement this specification over the whole
  history, and the limits of the implementation (the hour of \<open>_MAX_TTL\<close>, counting inside a
  condition) are stated.
\<close>

section \<open>Conditions that count nothing\<close>

definition cond_holds :: "pylib \<Rightarrow> expr \<Rightarrow> event_dict \<Rightarrow> bool" where
  "cond_holds L e d = (case eval_pure L d e of Inl _ \<Rightarrow> False | Inr v \<Rightarrow> truth v)"

definition cond_result :: "pylib \<Rightarrow> expr \<Rightarrow> event_dict \<Rightarrow> bool result" where
  "cond_result L e d = (case eval_pure L d e of Inl x \<Rightarrow> Inl x | Inr v \<Rightarrow> Inr (truth v))"

lemma cond_result_holds [simp]: "cond_result L e d = Inr True \<longleftrightarrow> cond_holds L e d"
  by (auto simp: cond_result_def cond_holds_def split: sum.splits)

text \<open>A rule as the loader leaves it: its condition compiles to \<open>e\<close>, and the compiled code, when it is there, is \<open>e\<close>.\<close>

definition loaded :: "pylib \<Rightarrow> rule_definition \<Rightarrow> expr \<Rightarrow> bool" where
  "loaded L r e \<longleftrightarrow> compile_rule_condition L (rd_condition r) = Some e
     \<and> (case rd_compiled_code r of None \<Rightarrow> True | Some e' \<Rightarrow> e' = e)"

lemma eval_code_simple:
  "data_dict d \<Longrightarrow> simple_expr e \<Longrightarrow> eval_code L cnt e d w = (cond_result L e d, w)"
  by (simp add: eval_code_def eval_no_count(1) [of d e L cnt] seq_res_cases cond_result_def eval_pure_def split: sum.split)

lemma eval_source_simple:
  "data_dict d \<Longrightarrow> simple_expr e \<Longrightarrow> compile_rule_condition L c = Some e \<Longrightarrow>
   eval_source L cnt (PStr c) d w = (cond_result L e d, w)"
  by (simp add: eval_source_def eval_code_simple)

lemma eval_rule_expr_simple:
  "data_dict d \<Longrightarrow> simple_expr e \<Longrightarrow> loaded L r e \<Longrightarrow>
   eval_rule_expr L now n r ent d w = (cond_result L e d, w)"
  by (auto simp: eval_rule_expr_def loaded_def eval_code_simple eval_source_simple split: option.splits)

lemma count_loop_pure:
  assumes "list_all (\<lambda>(t, d). f d w = (g d, w)) dq"
  shows "count_loop f c dq n w = (n + int (length (filter (\<lambda>(t, d). c \<le> t \<and> g d = Inr True) dq)), w)"
  using assms
proof (induction dq arbitrary: n)
  case (Cons x dq)
  obtain t d where x: "x = (t, d)" by (cases x)
  show ?case using Cons by (cases "g d") (auto simp: x split: bool.splits)
qed simp

section \<open>Windows as functions\<close>

lemma get_window_put: "get_window (put_window k dq w) k' = (if k' = k then dq else get_window w k')"
  by (auto simp: get_window_def put_window_def)

lemma get_window_purge:
  "wf_dict w \<Longrightarrow> get_window (purge_old_windows now w) k =
     (if stale_window (now - max_ttl) (get_window w k) then [] else get_window w k)"
  by (auto simp: get_window_def purge_old_windows_def map_of_filter_value stale_window_def split: option.splits)

lemma get_window_open:
  "get_window (snd (open_window c k w)) k' = (if k' = k then prune_front c (get_window w k) else get_window w k')"
proof (cases "map_of w k")
  case (Some dq)
  then show ?thesis by (simp add: open_window_def get_window_put Let_def) (simp add: get_window_def)
qed (simp add: open_window_def get_window_def prune_front_def)

lemma fst_open: "fst (open_window c k w) = prune_front c (get_window w k)"
  by (auto simp: open_window_def get_window_def prune_front_def Let_def split: option.splits)

lemma wf_put_window: "wf_dict w \<Longrightarrow> wf_dict (put_window k dq w)"
  by (simp add: put_window_def)

lemma wf_open: "wf_dict w \<Longrightarrow> wf_dict (snd (open_window c k w))"
  by (auto simp: open_window_def wf_put_window Let_def split: option.splits)

lemma wf_purge: "wf_dict w \<Longrightarrow> wf_dict (purge_old_windows now w)"
  by (simp add: purge_old_windows_def)

lemma window_key_inj [simp]: "window_key rid a = window_key rid b \<longleftrightarrow> a = b"
  by (simp add: window_key_def)

section \<open>A window as what is left of the history\<close>

text \<open>The window holds the matched events of the history, which is in the order of time, but for some of the oldest: those
  left out are all before \<open>c\<close>, or the window is full.\<close>

definition covers :: "time \<Rightarrow> time list \<Rightarrow> window \<Rightarrow> bool" where
  "covers c ts dq \<longleftrightarrow> sorted ts
     \<and> (\<exists>old. ts = old @ map fst dq \<and> (list_all (\<lambda>t. t < c) old \<or> max_window_entries \<le> length dq))"

lemma covers_split:
  assumes "sorted (old @ map fst dq)"
  shows "list_all (\<lambda>t. t < c) old \<or> list_all (\<lambda>(t, d). c \<le> t) dq"
  using assms by (fastforce simp: sorted_append list_all_iff)

lemma covers_mono: "covers c ts dq \<Longrightarrow> c \<le> c' \<Longrightarrow> covers c' ts dq"
  unfolding covers_def by (force simp: list_all_iff)

text \<open>Recording in a full window drops the oldest entry.\<close>

lemma covers_append:
  assumes "covers c ts dq" and "list_all (\<lambda>t'. t' \<le> t) ts"
  shows "covers c (ts @ [t]) (deque_append max_window_entries (t, d) dq)"
proof -
  obtain old where old: "ts = old @ map fst dq" "list_all (\<lambda>t. t < c) old \<or> max_window_entries \<le> length dq"
    using assms(1) by (auto simp: covers_def)
  have srt: "sorted (ts @ [t])"
    using assms by (simp add: covers_def sorted_append list_all_iff)
  let ?ys = "dq @ [(t, d)]"
  define k where "k = length ?ys - max_window_entries"
  have "map fst ?ys = map fst (take k ?ys) @ map fst (drop k ?ys)"
    unfolding map_append [symmetric] append_take_drop_id ..
  then have split: "ts @ [t] = (old @ map fst (take k ?ys)) @ map fst (drop k ?ys)"
    by (simp add: old(1))
  have "list_all (\<lambda>t. t < c) (old @ map fst (take k ?ys)) \<or> max_window_entries \<le> length (drop k ?ys)"
    using old(2) by (cases "k = 0") (auto simp: k_def)
  then show ?thesis
    using srt split unfolding covers_def deque_append_def Let_def k_def by blast
qed

lemma covers_prune:
  assumes "covers c ts dq" and "c' \<le> c"
  shows "covers c ts (prune_front c' dq)"
proof -
  obtain old where old: "ts = old @ map fst dq" "list_all (\<lambda>t. t < c) old \<or> max_window_entries \<le> length dq"
    using assms(1) by (auto simp: covers_def)
  have srt: "sorted (old @ map fst dq)"
    using assms(1) old(1) by (simp add: covers_def)
  show ?thesis
  proof (cases "list_all (\<lambda>t. t < c) old")
    case True
    let ?front = "takeWhile (\<lambda>(t, _). t < c') dq"
    have "ts = (old @ map fst ?front) @ map fst (prune_front c' dq)"
      by (simp add: old prune_front_def flip: map_append)
    moreover have "list_all (\<lambda>t. t < c) (old @ map fst ?front)"
      using True assms(2) by (fastforce simp: list_all_iff dest: set_takeWhileD)
    ultimately show ?thesis
      using assms(1) unfolding covers_def by blast
  next
    case False
    then have "list_all (\<lambda>(t, d). c \<le> t) dq"
      using covers_split [OF srt] by blast
    then have "prune_front c' dq = dq"
      using assms(2) by (cases dq) (auto simp: prune_front_def)
    then show ?thesis
      using assms(1) by simp
  qed
qed

lemma covers_stale:
  assumes "covers c ts dq" and "stale_window c' dq" and "c' \<le> c"
  shows "covers c ts []"
proof -
  have "prune_front c' dq = []"
    using assms(2) by (auto simp: prune_front_def stale_window_def list_all_iff)
  then show ?thesis using covers_prune [OF assms(1,3)] by simp
qed

text \<open>Up to the size of a window, it tells whether the history reaches a number: what a full window lost does not matter.\<close>

lemma covers_count:
  assumes "covers c ts dq" and "m \<le> int max_window_entries"
  shows "m \<le> int (length (filter (\<lambda>(t, d). c \<le> t) dq)) \<longleftrightarrow> m \<le> int (length (filter (\<lambda>t. c \<le> t) ts))"
proof -
  obtain old where old: "ts = old @ map fst dq" "list_all (\<lambda>t. t < c) old \<or> max_window_entries \<le> length dq"
    using assms(1) by (auto simp: covers_def)
  have srt: "sorted (old @ map fst dq)"
    using assms(1) old(1) by (simp add: covers_def)
  have new: "filter ((\<le>) c) (map fst dq) = map fst (filter (\<lambda>(t, d). c \<le> t) dq)"
    by (simp add: filter_map o_def case_prod_unfold)
  show ?thesis
  proof (cases "list_all (\<lambda>t. t < c) old")
    case True
    then have "filter ((\<le>) c) old = []"
      by (auto simp: list_all_iff filter_empty_conv)
    then show ?thesis
      by (simp add: old(1) new)
  next
    case False
    then have "filter (\<lambda>(t, d). c \<le> t) dq = dq"
      using covers_split [OF srt] by (fastforce simp: list_all_iff filter_id_conv)
    then show ?thesis
      using False old(2) assms(2) by (simp add: old(1) new)
  qed
qed

section \<open>The specification\<close>

type_synonym observation = "time \<times> string \<times> event_dict"

type_synonym match_history = "(string \<times> time) list"

definition times_of :: "match_history \<Rightarrow> string \<Rightarrow> time list" where
  "times_of h ent = map snd (filter (\<lambda>(e, t). e = ent) h)"

definition spec_step :: "pylib \<Rightarrow> rule_definition \<Rightarrow> expr \<Rightarrow> int \<Rightarrow> observation \<Rightarrow> match_history \<Rightarrow> bool \<times> match_history" where
  "spec_step L r e tf obs h =
     (case obs of (now, ent, d) \<Rightarrow>
        if platform_ok r d \<and> cond_holds L e d
        then (let h' = h @ [(ent, now)]
              in ((case rd_threshold r of None \<Rightarrow> 1 | Some t \<Rightarrow> t)
                    \<le> int (length (filter (\<lambda>t. now - seconds tf \<le> t) (times_of h' ent))), h'))
        else (False, h))"

fun run_spec :: "pylib \<Rightarrow> rule_definition \<Rightarrow> expr \<Rightarrow> int \<Rightarrow> observation list \<Rightarrow> match_history \<Rightarrow> bool list" where
  "run_spec L r e tf [] h = []"
| "run_spec L r e tf (x # xs) h = (case spec_step L r e tf x h of (b, h') \<Rightarrow> b # run_spec L r e tf xs h')"

fun run_rule :: "pylib \<Rightarrow> nat \<Rightarrow> rule_definition \<Rightarrow> observation list \<Rightarrow> window_store \<Rightarrow> bool list" where
  "run_rule L n r [] s = []"
| "run_rule L n r ((now, ent, d) # xs) s = (case evaluate L now n r ent d s of (b, s') \<Rightarrow> b # run_rule L n r xs s')"

text \<open>The events arrive in the order of their times, starting at \<open>now\<close>.\<close>

fun in_order :: "time \<Rightarrow> observation list \<Rightarrow> bool" where
  "in_order now [] = True"
| "in_order now ((t, ent, d) # xs) = (now \<le> t \<and> in_order t xs)"

section \<open>Simulation\<close>

definition simulates :: "pylib \<Rightarrow> rule_definition \<Rightarrow> expr \<Rightarrow> time \<Rightarrow> match_history \<Rightarrow> windows \<Rightarrow> bool" where
  "simulates L r e c h w \<longleftrightarrow> wf_dict w \<and>
     (\<forall>ent. covers c (times_of h ent) (get_window w (window_key (rd_id r) ent))
        \<and> list_all (\<lambda>(t, d). data_dict d \<and> cond_holds L e d) (get_window w (window_key (rd_id r) ent)))"

text \<open>A history ends at \<open>now\<close>: no match is later.\<close>

definition ends_at :: "time \<Rightarrow> match_history \<Rightarrow> bool" where
  "ends_at now h \<longleftrightarrow> list_all (\<lambda>(e, t). t \<le> now) h"

lemma ends_at_mono: "ends_at now h \<Longrightarrow> now \<le> now' \<Longrightarrow> ends_at now' h"
  unfolding ends_at_def by (fastforce simp: list_all_iff)

lemma ends_at_times: "ends_at now h \<Longrightarrow> list_all (\<lambda>t. t \<le> now) (times_of h ent)"
  by (auto simp: ends_at_def times_of_def list_all_iff)

lemma ends_at_spec: "ends_at now h \<Longrightarrow> ends_at now (snd (spec_step L r e tf (now, ent, d) h))"
  by (simp add: ends_at_def spec_step_def Let_def)

lemma simulates_mono: "simulates L r e c h w \<Longrightarrow> c \<le> c' \<Longrightarrow> simulates L r e c' h w"
  unfolding simulates_def by (blast intro: covers_mono)

lemma list_all_prune: "list_all P dq \<Longrightarrow> list_all P (prune_front c dq)"
  by (auto simp: prune_front_def list_all_iff dest: set_dropWhileD)

lemma list_all_append: "list_all P dq \<Longrightarrow> P x \<Longrightarrow> list_all P (deque_append k x dq)"
  using set_deque_append [of k x dq] by (auto simp: list_all_iff)

lemma simulates_purge:
  "simulates L r e c h w \<Longrightarrow> now - max_ttl \<le> c \<Longrightarrow> simulates L r e c h (purge_old_windows now w)"
  unfolding simulates_def by (auto simp: get_window_purge wf_purge intro: covers_stale)

lemma simulates_open:
  "simulates L r e c h w \<Longrightarrow> c' \<le> c \<Longrightarrow> simulates L r e c h (snd (open_window c' k w))"
  unfolding simulates_def by (auto simp: get_window_open wf_open intro: covers_prune list_all_prune)

lemma simulates_record:
  assumes sim: "simulates L r e c h (ws_windows s)" and c: "now - max_ttl \<le> c"
    and d: "data_dict d" "cond_holds L e d" and now: "ends_at now h"
  shows "simulates L r e c (h @ [(ent, now)]) (ws_windows (record_event_for_temporal now (rd_id r) d ent s))"
proof -
  let ?w = "ws_windows s" and ?k = "window_key (rd_id r) ent"
  let ?dq = "deque_append max_window_entries (now, d) (get_window ?w ?k)"
  have ts: "times_of (h @ [(ent, now)]) x = times_of h x @ (if x = ent then [now] else [])" for x
    by (simp add: times_of_def)
  have "covers c (times_of h ent @ [now]) (prune_front (now - max_ttl) ?dq)"
    using sim c ends_at_times [OF now] unfolding simulates_def by (blast intro: covers_prune covers_append)
  moreover have "list_all (\<lambda>(t, d). data_dict d \<and> cond_holds L e d) (prune_front (now - max_ttl) ?dq)"
    using sim d unfolding simulates_def by (blast intro: list_all_prune list_all_append)
  ultimately have "simulates L r e c (h @ [(ent, now)]) (put_window ?k (prune_front (now - max_ttl) ?dq) ?w)"
    using sim unfolding simulates_def by (simp add: get_window_put wf_put_window ts)
  then show ?thesis
    using c by (auto simp: record_event_for_temporal_def Let_def intro: simulates_purge)
qed

text \<open>The thresholds a window can count to.\<close>

definition countable_threshold :: "rule_definition \<Rightarrow> bool" where
  "countable_threshold r \<longleftrightarrow> (case rd_threshold r of None \<Rightarrow> True | Some t \<Rightarrow> t \<le> int max_window_entries)"

lemma evaluate_simulates:
  assumes l: "loaded L r e" "simple_expr e" and tf: "rd_timeframe r = Some tf" "tf \<le> 3600" and thr: "countable_threshold r"
    and sim: "simulates L r e (now - seconds tf) h (ws_windows s)" and d: "data_dict d" and now: "ends_at now h"
  shows "\<exists>s'. evaluate L now n r ent d s = (fst (spec_step L r e tf (now, ent, d) h), s')
    \<and> simulates L r e (now - seconds tf) (snd (spec_step L r e tf (now, ent, d) h)) (ws_windows s')"
proof (cases "platform_ok r d \<and> cond_holds L e d")
  case False
  then show ?thesis
    using sim
    by (auto simp: evaluate_def spec_step_def eval_rule_expr_simple [OF d l(2,1)] simp flip: cond_result_holds
        split: sum.splits bool.splits)
next
  case True
  let ?c = "now - seconds tf" and ?h = "h @ [(ent, now)]"
  let ?s1 = "record_event_for_temporal now (rd_id r) d ent s"
  let ?m = "case rd_threshold r of None \<Rightarrow> 1 | Some t \<Rightarrow> t"
  have ttl: "now - max_ttl \<le> ?c" using tf(2) by (simp add: max_ttl_def seconds_def)
  have s1: "simulates L r e ?c ?h (ws_windows ?s1)"
    using simulates_record [OF sim ttl d _ now] True by simp
  let ?k = "window_key (rd_id r) ent"
  obtain dq w' where o: "open_window ?c ?k (ws_windows ?s1) = (dq, w')" by fastforce
  have dq: "dq = prune_front ?c (get_window (ws_windows ?s1) ?k)" and w': "simulates L r e ?c ?h w'"
    using fst_open [of ?c ?k "ws_windows ?s1"] simulates_open [OF s1, of ?c ?k] by (simp_all add: o)
  have cov: "covers ?c (times_of ?h ent) dq" and ok: "list_all (\<lambda>(t, d). data_dict d \<and> cond_holds L e d) dq"
    using s1 by (auto simp: dq simulates_def intro!: covers_prune list_all_prune)
  have comp: "compile_rule_condition L (rd_condition r) = Some e" using l(1) by (simp add: loaded_def)
  have "count_loop (eval_source L cnt (PStr (rd_condition r))) ?c dq 0 w'
      = (int (length (filter (\<lambda>(t, d). ?c \<le> t \<and> cond_result L e d = Inr True) dq)), w')" for cnt
    by (subst count_loop_pure [where g = "cond_result L e"])
      (use ok in \<open>auto simp: list_all_iff eval_source_simple [OF _ l(2) comp]\<close>)
  moreover have "filter (\<lambda>(t, d). ?c \<le> t \<and> cond_result L e d = Inr True) dq = filter (\<lambda>(t, d). ?c \<le> t) dq"
    using ok by (auto simp: list_all_iff intro!: filter_cong)
  ultimately have "count_in_window (eval_source L cnt (PStr (rd_condition r))) now (rd_id r) ent (seconds tf) (ws_windows ?s1)
      = (int (length (filter (\<lambda>(t, d). ?c \<le> t) dq)), w')" for cnt
    by (simp add: count_in_window_def o)
  moreover have "?m \<le> int (length (filter (\<lambda>(t, d). ?c \<le> t) dq)) \<longleftrightarrow> ?m \<le> int (length (filter (\<lambda>t. ?c \<le> t) (times_of ?h ent)))"
    using thr by (intro covers_count [OF cov]) (auto simp: countable_threshold_def max_window_entries_def split: option.splits)
  moreover have "eval_rule_expr L now n r ent d (ws_windows s) = (Inr True, ws_windows s)"
    using True by (simp add: eval_rule_expr_simple [OF d l(2,1)])
  ultimately show ?thesis
    using True w' by (simp add: evaluate_def spec_step_def tf(1) Let_def)
qed

lemma run_simulates:
  assumes l: "loaded L r e" "simple_expr e" and tf: "rd_timeframe r = Some tf" "tf \<le> 3600" and thr: "countable_threshold r"
  shows "simulates L r e (now - seconds tf) h (ws_windows s) \<Longrightarrow> ends_at now h \<Longrightarrow> in_order now xs \<Longrightarrow>
    list_all (\<lambda>(t, ent, d). data_dict d) xs \<Longrightarrow> run_rule L n r xs s = run_spec L r e tf xs h"
proof (induction xs arbitrary: now h s)
  case (Cons x xs)
  obtain t ent d where x: "x = (t, ent, d)" by (cases x)
  have "simulates L r e (t - seconds tf) h (ws_windows s)" and h: "ends_at t h"
    using Cons.prems(1-3) by (auto simp: x intro: simulates_mono ends_at_mono)
  from evaluate_simulates [OF l tf thr this(1) _ h, of d n ent] obtain s' where
    s': "evaluate L t n r ent d s = (fst (spec_step L r e tf (t, ent, d) h), s')"
    "simulates L r e (t - seconds tf) (snd (spec_step L r e tf (t, ent, d) h)) (ws_windows s')"
    using Cons.prems(4) by (auto simp: x)
  with Cons.IH [OF s'(2) ends_at_spec [OF h]] Cons.prems(3,4) show ?case
    by (simp add: x s'(1) case_prod_beta)
qed simp

lemma empty_simulates: "simulates L r e c [] (ws_windows empty_store)"
  by (simp add: simulates_def empty_store_def get_window_def times_of_def covers_def)

text \<open>C7: a temporal rule whose condition counts nothing, whose time frame is at most an hour and whose threshold is at most
  10,000 fires, evaluated by itself on events in the order of time, exactly when the specification over the whole history of matches says so:
  neither the pruning nor the cap of the windows changes an answer.\<close>

theorem temporal_rule_refines:
  assumes "loaded L r e" and "simple_expr e" and "rd_timeframe r = Some tf" and "tf \<le> 3600"
    and "case rd_threshold r of None \<Rightarrow> True | Some t \<Rightarrow> t \<le> 10000"
    and "in_order start xs" and "list_all (\<lambda>(t, ent, d). data_dict d) xs"
  shows "run_rule L n r xs empty_store = run_spec L r e tf xs []"
  using assms
  by (intro run_simulates [where now = start])
    (auto simp: countable_threshold_def max_window_entries_def ends_at_def empty_simulates split: option.splits)

section \<open>A deployed rule\<close>

text \<open>The condition of the builtin rule on network probes, as \<open>ast.parse\<close> reads it, and a library that parses
  only this text; the event lists the fields the condition reads.\<close>

definition probe_text :: string where
  "probe_text = ''event.protocol == '' @ [CHR 0x22] @ ''tcp'' @ [CHR 0x22]"

definition probe_expr :: expr where
  "probe_expr = ECompare (EAttr (EName ''event'') ''protocol'') [(CEq, EConst (PStr ''tcp''))]"

definition probe_lib :: pylib where
  "probe_lib = \<lparr>lb_parse = (\<lambda>s. if s = probe_text then Some probe_expr else None),
     lb_re_match = (\<lambda>p s. Inr False), lb_method = (\<lambda>v m. None)\<rparr>"

definition probe_rule :: "int \<Rightarrow> int \<Rightarrow> rule_definition" where
  "probe_rule tf threshold = \<lparr>rd_id = ''probe'', rd_name = ''probe'', rd_enabled = True, rd_severity = ''high'',
     rd_condition = probe_text, rd_timeframe = Some tf, rd_threshold = Some threshold, rd_actions = [''ALERT''],
     rd_tags = [], rd_mitre = [], rd_platforms = [''linux''], rd_categories = [''network''], rd_explanation = [],
     rd_source = ''builtin'', rd_entity_key = Some ''hostname:dst_ip'', rd_rule_type = Anomaly,
     rd_compiled_code = Some probe_expr\<rparr>"

definition tcp_event :: event_dict where
  "tcp_event = [(''protocol'', PStr ''tcp''), (''os'', PStr ''linux'')]"

lemma probe_preprocess: "preprocess_expr probe_text = probe_text"
  by (simp add: preprocess_simps probe_text_def)

lemma probe_loaded: "loaded probe_lib (probe_rule tf t) probe_expr"
  by (simp add: loaded_def compile_rule_condition_def probe_lib_def probe_rule_def probe_preprocess)
    (simp add: probe_expr_def is_private_def)

lemma probe_simple: "simple_expr probe_expr" "data_dict tcp_event"
  by (simp_all add: probe_expr_def tcp_event_def data_dict_def)

lemma probe_holds: "cond_holds probe_lib probe_expr tcp_event"
  by (simp add: cond_holds_def eval_pure_def probe_expr_def tcp_event_def lookup_name_def get_attr_def event_attr_def
      is_private_def)

lemma probe_platform: "platform_ok (probe_rule tf t) tcp_event"
  by (simp add: platform_ok_def probe_rule_def tcp_event_def)

lemmas probe_facts = probe_simple probe_holds probe_platform

text \<open>Three connections from one address in a minute, one from another.\<close>

lemma temporal_rule_refines_witness:
  "run_rule probe_lib 5 (probe_rule 60 3)
     [(seconds 0, ''h:a'', tcp_event), (seconds 10, ''h:a'', tcp_event), (seconds 20, ''h:b'', tcp_event),
      (seconds 50, ''h:a'', tcp_event), (seconds 100, ''h:a'', tcp_event)] empty_store
     = [False, False, False, True, False]"
  using temporal_rule_refines [OF probe_loaded probe_simple(1), of 60 3 60 "seconds 0"
      "[(seconds 0, ''h:a'', tcp_event), (seconds 10, ''h:a'', tcp_event), (seconds 20, ''h:b'', tcp_event),
      (seconds 50, ''h:a'', tcp_event), (seconds 100, ''h:a'', tcp_event)]" 5]
  by (simp add: probe_facts seconds_def spec_step_def times_of_def) (simp add: probe_rule_def)

section \<open>The hour of the windows\<close>

lemma count_loop_bound:
  assumes "list_all (\<lambda>(t, d). f d w = (g d, w)) dq"
  shows "fst (count_loop f c dq 0 w) \<le> int (length dq)"
  using count_loop_pure [where f = f and g = g, OF assms, of c 0] by simp

lemma prune_front_stale: "stale_window c dq \<Longrightarrow> prune_front c (dq @ [x]) = prune_front c [x]"
  by (auto simp: prune_front_def stale_window_def list_all_iff dropWhile_append3)

lemma stale_drop: "stale_window c dq \<Longrightarrow> stale_window c (drop j dq)"
  by (auto simp: stale_window_def list_all_iff dest: in_set_dropD)

lemma window_after_record:
  assumes "wf_dict (ws_windows s)" and "stale_window (now - max_ttl) (get_window (ws_windows s) (window_key rid ent))"
  shows "get_window (ws_windows (record_event_for_temporal now rid d ent s)) (window_key rid ent) = [(now, d)]"
proof -
  let ?dq = "get_window (ws_windows s) (window_key rid ent)"
  have "deque_append max_window_entries (now, d) ?dq = drop (length (?dq @ [(now, d)]) - max_window_entries) ?dq @ [(now, d)]"
    by (simp add: deque_append_def Let_def max_window_entries_def)
  then have "prune_front (now - max_ttl) (deque_append max_window_entries (now, d) ?dq) = [(now, d)]"
    using stale_drop [OF assms(2)] by (simp add: prune_front_stale) (simp add: prune_front_def max_ttl_def seconds_def)
  then show ?thesis
    using assms(1)
    by (simp add: record_event_for_temporal_def Let_def get_window_put get_window_purge wf_put_window)
      (simp add: stale_window_def max_ttl_def seconds_def)
qed

text \<open>Whatever its time frame, a temporal rule with a threshold of two or more does not fire when the
  earlier matches of the entity are more than an hour old: they are pruned as always stale.\<close>

theorem hour_cap:
  assumes "loaded L r e" and "simple_expr e" and "data_dict d"
    and "wf_dict (ws_windows s)" and "stale_window (now - max_ttl) (get_window (ws_windows s) (window_key (rd_id r) ent))"
    and "rd_timeframe r = Some tf" and "rd_threshold r = Some t" and "2 \<le> t"
  shows "\<not> fst (evaluate L now n r ent d s)"
proof (cases "platform_ok r d \<and> cond_holds L e d")
  case False
  then have "\<not> platform_ok r d \<or> cond_result L e d \<noteq> Inr True" by simp
  then show ?thesis
    by (auto simp: evaluate_def eval_rule_expr_simple [OF assms(3,2,1)] simp del: cond_result_holds
        split: sum.split bool.split)
next
  case True
  let ?s1 = "record_event_for_temporal now (rd_id r) d ent s" and ?k = "window_key (rd_id r) ent"
  obtain dq w' where o: "open_window (now - seconds tf) ?k (ws_windows ?s1) = (dq, w')" by fastforce
  have dq: "dq = prune_front (now - seconds tf) [(now, d)]"
    using fst_open [of "now - seconds tf" ?k "ws_windows ?s1"] window_after_record [OF assms(4,5)] by (simp add: o)
  have comp: "compile_rule_condition L (rd_condition r) = Some e" using assms(1) by (simp add: loaded_def)
  have "fst (count_loop (eval_source L cnt (PStr (rd_condition r))) (now - seconds tf) dq 0 w') \<le> int (length dq)" for cnt
    by (rule count_loop_bound [where g = "cond_result L e"])
      (simp add: dq prune_front_def eval_source_simple [OF assms(3,2) comp])
  moreover have "int (length dq) < t" using assms(8) by (simp add: dq prune_front_def)
  ultimately have "fst (count_loop (eval_source L cnt (PStr (rd_condition r))) (now - seconds tf) dq 0 w') < t" for cnt
    by (rule le_less_trans)
  moreover have "cond_result L e d = Inr True" using True by simp
  ultimately show ?thesis
    using True assms(6,7)
    by (simp add: evaluate_def eval_rule_expr_simple [OF assms(3,2,1)] count_in_window_def o case_prod_beta not_le Let_def del: cond_result_holds)
qed

text \<open>Two connections within the two hours of a rule's time frame: the specification fires, the code does not.\<close>

lemma hour_cap_witness:
  "run_spec probe_lib (probe_rule 7200 2) probe_expr 7200
     [(seconds 0, ''h:a'', tcp_event), (seconds 3601, ''h:a'', tcp_event)] [] = [False, True]
   \<and> \<not> fst (evaluate probe_lib (seconds 3601) 5 (probe_rule 7200 2) ''h:a'' tcp_event
       \<lparr>ws_windows = [(''probe::h:a'', [(seconds 0, tcp_event)])], ws_record_count = 1\<rparr>)"
proof
  show "run_spec probe_lib (probe_rule 7200 2) probe_expr 7200
     [(seconds 0, ''h:a'', tcp_event), (seconds 3601, ''h:a'', tcp_event)] [] = [False, True]"
    by (simp add: spec_step_def probe_facts times_of_def seconds_def) (simp add: probe_rule_def)
  show "\<not> fst (evaluate probe_lib (seconds 3601) 5 (probe_rule 7200 2) ''h:a'' tcp_event
       \<lparr>ws_windows = [(''probe::h:a'', [(seconds 0, tcp_event)])], ws_record_count = 1\<rparr>)"
    by (rule hour_cap [OF probe_loaded probe_simple, where tf = 7200 and t = 2])
      (simp_all add: wf_dict_def get_window_def window_key_def probe_rule_def stale_window_def max_ttl_def seconds_def)
qed

section \<open>Counting inside a condition\<close>

definition counting_cond :: "expr \<Rightarrow> string \<Rightarrow> int \<Rightarrow> int \<Rightarrow> expr" where
  "counting_cond a f secs k = EBool OpAnd [a,
     ECompare (ECall (EName ''count_events'') [EConst (PStr f), EConst (PInt secs)]) [(CGt, EConst (PInt k))]]"

text \<open>C29: a rule of the documented form \<open>a and count_events(f, seconds) > k\<close> never fires: only a rule that
  has fired its condition records events, and without records the count is zero. The windows are left as
  they are, so it does not fire later either.\<close>

theorem counting_rule_never_fires:
  assumes "loaded L r (counting_cond a f secs k)" and "simple_expr a" and "data_dict d" and "0 \<le> k"
    and "map_of (ws_windows s) (window_key (rd_id r) ent) = None"
  shows "evaluate L now n r ent d s = (False, s)"
proof -
  have cnt: "count_events L now n (rd_id r) ent [PStr f, PInt secs] (ws_windows s)
      = (if n = 0 then Inl (OtherError ''RecursionError'') else Inr (PInt 0), ws_windows s)"
    using assms(5) by (cases n) (simp_all add: count_in_window_def open_window_def)
  have "fst (eval_code L (count_events L now n (rd_id r) ent) (counting_cond a f secs k) d (ws_windows s)) \<noteq> Inr True
      \<and> snd (eval_code L (count_events L now n (rd_id r) ent) (counting_cond a f secs k) d (ws_windows s)) = ws_windows s"
    using assms(4)
    by (auto simp: eval_code_def counting_cond_def eval_no_count(1) [OF assms(3,2), of L "count_events L now n (rd_id r) ent"]
        seq_res_cases lookup_name_def call_value_def cnt split: sum.split)
  then have "\<exists>b. eval_rule_expr L now n r ent d (ws_windows s) = (b, ws_windows s) \<and> b \<noteq> Inr True"
    using assms(1) by (cases "eval_code L (count_events L now n (rd_id r) ent) (counting_cond a f secs k) d (ws_windows s)")
      (auto simp: eval_rule_expr_def eval_source_def loaded_def split: option.splits)
  then show ?thesis by (auto simp: evaluate_def split: sum.split bool.split)
qed

text \<open>The condition \<open>event.protocol == "tcp" and count_events("True", 60) > 0\<close>.\<close>

definition counting_lib :: pylib where
  "counting_lib = probe_lib\<lparr>lb_parse := (\<lambda>s. Some (counting_cond probe_expr ''True'' 60 0))\<rparr>"

lemma counting_rule_never_fires_witness:
  "evaluate counting_lib (seconds 5) 5 ((probe_rule 60 3)\<lparr>rd_compiled_code := None\<rparr>) ''h:a'' tcp_event empty_store
     = (False, empty_store)"
  by (rule counting_rule_never_fires [OF _ probe_simple, where f = "''True''" and secs = 60 and k = 0])
    (simp_all add: loaded_def compile_rule_condition_def counting_lib_def counting_cond_def probe_rule_def empty_store_def,
     simp_all add: probe_expr_def is_private_def)

section \<open>Depth\<close>

text \<open>C31: any recursion budget of at least two gives the same evaluation of a rule, as long as no rule
  records under the bare separator as its key; and the evaluation keeps it so.\<close>

theorem counting_terminates:
  assumes "no_root_window (ws_windows s)" and "window_key (rd_id r) ent \<noteq> ''::''" and "2 \<le> n"
  shows "evaluate L now n r ent d s = evaluate L now 2 r ent d s
    \<and> no_root_window (ws_windows (snd (evaluate L now n r ent d s)))"
proof -
  from assms(3) obtain m where "n = Suc (Suc m)" by (metis Suc_le_D numeral_2_eq_2 Suc_le_mono)
  then show ?thesis
    using evaluate_depth_Suc [OF assms(1,2)] evaluate_no_root [OF assms(1,2)] by simp
qed

text \<open>A thousand frames or two: the rule answers the same.\<close>

lemma counting_terminates_witness:
  "evaluate probe_lib 0 1000 (probe_rule 60 3) ''h:a'' tcp_event empty_store
     = evaluate probe_lib 0 2 (probe_rule 60 3) ''h:a'' tcp_event empty_store"
  using counting_terminates [of empty_store "probe_rule 60 3" "''h:a''" 1000 probe_lib 0 tcp_event]
  by (simp add: no_root_window_def empty_store_def window_key_def probe_rule_def)

end
