(* ===== verification/Rule_Engine.thy ===== *)
theory Rule_Engine
  imports Rule_Types Rule_Temporal
begin

text \<open>
  \<open>rule_engine/engine.py\<close>: the rules in force and their index by category, the evaluation of an event
  against the rules of its category, the entity keys, and saving, restoring and purging the temporal
  windows. The windows are the evaluator module's global store. \<open>load_all_rules\<close> is an input of
  \<open>reload\<close>; watching the directory and scheduling reloads are not modelled.
\<close>

section \<open>Loading\<close>

record rule_engine =
  en_rules :: "rule_definition list"
  en_index :: "(string, rule_definition list) pydict"

definition compile_rules :: "pylib \<Rightarrow> rule_definition list \<Rightarrow> rule_definition list" where
  "compile_rules L rs = map (\<lambda>r.
     if rd_compiled_code r \<noteq> None then r
     else r\<lparr>rd_compiled_code := compile_rule_condition L (rd_condition r)\<rparr>) rs"

definition index_get :: "(string, rule_definition list) pydict \<Rightarrow> string \<Rightarrow> rule_definition list" where
  "index_get idx k = (case map_of idx k of None \<Rightarrow> [] | Some rs \<Rightarrow> rs)"

definition index_add :: "rule_definition \<Rightarrow> string \<Rightarrow> (string, rule_definition list) pydict
    \<Rightarrow> (string, rule_definition list) pydict" where
  "index_add r k idx = dict_put k (index_get idx k @ [r]) idx"

definition index_rule :: "rule_definition \<Rightarrow> (string, rule_definition list) pydict
    \<Rightarrow> (string, rule_definition list) pydict" where
  "index_rule r idx =
     (if \<not> rd_enabled r then idx
      else if rd_categories r \<noteq> [] then fold (index_add r) (rd_categories r) idx
      else index_add r [] idx)"

definition reload :: "pylib \<Rightarrow> rule_definition list \<Rightarrow> rule_engine" where
  "reload L rules =
     (let rs = compile_rules L rules in \<lparr>en_rules = rs, en_index = fold index_rule rs []\<rparr>)"

definition rule_count :: "rule_engine \<Rightarrow> nat" where
  "rule_count en = length (en_rules en)"

definition enabled_count :: "rule_engine \<Rightarrow> nat" where
  "enabled_count en = length (filter rd_enabled (en_rules en))"

fun find_rule :: "string \<Rightarrow> rule_definition list \<Rightarrow> rule_definition option" where
  "find_rule rid [] = None"
| "find_rule rid (r # rs) = (if rd_id r = rid then Some r else find_rule rid rs)"

definition get_rule :: "rule_engine \<Rightarrow> string \<Rightarrow> rule_definition option" where
  "get_rule en rid = find_rule rid (en_rules en)"

section \<open>Entity keys\<close>

text \<open>\<open>str(v)\<close>; \<open>other\<close> is the text of floats and containers. A template names fields of the event; any
  other name yields the empty string.\<close>

fun value_str :: "(pyval \<Rightarrow> string) \<Rightarrow> pyval \<Rightarrow> string" where
  "value_str other (PStr s) = s"
| "value_str other (PUuid s) = s"
| "value_str other (PInt n) = show_int n"
| "value_str other v = other v"

fun split_colon :: "string \<Rightarrow> string \<Rightarrow> string list" where
  "split_colon acc [] = [rev acc]"
| "split_colon acc (c # cs) = (if c = CHR '':'' then rev acc # split_colon [] cs else split_colon (c # acc) cs)"

definition build_entity_key :: "(pyval \<Rightarrow> string) \<Rightarrow> string \<Rightarrow> universal_event \<Rightarrow> string" where
  "build_entity_key other template e =
     join '':'' (map (\<lambda>p. case map_of (model_dump e) p of
        None \<Rightarrow> []
      | Some v \<Rightarrow> if truth v then value_str other v else []) (split_colon [] template))"

definition stable_entity_key :: "universal_event \<Rightarrow> string" where
  "stable_entity_key e =
     (case ev_session_id e of
        Some sid \<Rightarrow> ev_hostname e @ '':'' @ show_int sid @ '':'' @ show_int (ev_pid e)
      | None \<Rightarrow> ev_hostname e @ '':'' @ show_int (ev_ppid e) @ '':'' @ show_int (ev_pid e))"

section \<open>Evaluating an event\<close>

record rule_match =
  rm_rule_id :: string
  rm_rule_name :: string
  rm_severity :: string
  rm_actions :: "string list"
  rm_tags :: "string list"
  rm_mitre :: "string list"
  rm_explanation :: string
  rm_rule_type :: rule_type
  rm_matched_fields :: "(string \<times> json) list"

definition match_of :: "rule_definition \<Rightarrow> universal_event \<Rightarrow> rule_match" where
  "match_of r e = \<lparr>rm_rule_id = rd_id r, rm_rule_name = rd_name r, rm_severity = rd_severity r,
     rm_actions = rd_actions r, rm_tags = rd_tags r, rm_mitre = rd_mitre r, rm_explanation = rd_explanation r,
     rm_rule_type = rd_rule_type r,
     rm_matched_fields = [(''category'', JStr (ev_category e)), (''type'', JStr (ev_type e)),
       (''hostname'', JStr (ev_hostname e)), (''pid'', JInt (ev_pid e)),
       (''executable'', JStr (ev_executable e)), (''resource'', JStr (ev_resource e))]\<rparr>"

definition candidates :: "rule_engine \<Rightarrow> string \<Rightarrow> rule_definition list" where
  "candidates en cat = index_get (en_index en) [] @ index_get (en_index en) cat"

definition entity_of :: "(pyval \<Rightarrow> string) \<Rightarrow> rule_definition \<Rightarrow> universal_event \<Rightarrow> string" where
  "entity_of other r e =
     (case rd_entity_key r of
        Some t \<Rightarrow> if t \<noteq> [] then build_entity_key other t e else stable_entity_key e
      | None \<Rightarrow> stable_entity_key e)"

fun evaluate_rules :: "pylib \<Rightarrow> (pyval \<Rightarrow> string) \<Rightarrow> time \<Rightarrow> nat \<Rightarrow> universal_event \<Rightarrow> rule_definition list
    \<Rightarrow> window_store \<Rightarrow> rule_match list \<times> window_store" where
  "evaluate_rules L other now n e [] s = ([], s)"
| "evaluate_rules L other now n e (r # rs) s =
     (case evaluate L now n r (entity_of other r e) (model_dump e) s of
        (b, s') \<Rightarrow> (case evaluate_rules L other now n e rs s' of
           (ms, s'') \<Rightarrow> ((if b then match_of r e # ms else ms), s'')))"

definition evaluate_event :: "pylib \<Rightarrow> (pyval \<Rightarrow> string) \<Rightarrow> time \<Rightarrow> nat \<Rightarrow> rule_engine \<Rightarrow> universal_event
    \<Rightarrow> window_store \<Rightarrow> rule_match list \<times> window_store" where
  "evaluate_event L other now n en e s =
     (let cs = candidates en (ev_category e)
      in if cs = [] then ([], s) else evaluate_rules L other now n e cs s)"

section \<open>The index is a filter\<close>

text \<open>How often a rule stands under a key: an enabled rule once per occurrence of the category.\<close>

definition occurrences :: "string \<Rightarrow> rule_definition \<Rightarrow> nat" where
  "occurrences k r =
     (if \<not> rd_enabled r then 0
      else if rd_categories r = [] then (if k = [] then 1 else 0)
      else count_list (rd_categories r) k)"

lemma index_get_add: "index_get (index_add r k idx) k' = index_get idx k' @ (if k' = k then [r] else [])"
  by (simp add: index_get_def index_add_def)

lemma index_get_add_all:
  "index_get (fold (index_add r) ks idx) k = index_get idx k @ replicate (count_list ks k) r"
  by (induction ks arbitrary: idx) (auto simp: index_get_add)

lemma index_get_rule: "index_get (index_rule r idx) k = index_get idx k @ replicate (occurrences k r) r"
  by (auto simp: index_rule_def occurrences_def index_get_add index_get_add_all)

lemma index_get_rules:
  "index_get (fold index_rule rs idx) k = index_get idx k @ concat (map (\<lambda>r. replicate (occurrences k r) r) rs)"
  by (induction rs arbitrary: idx) (auto simp: index_get_rule)

lemma candidates_reload:
  "candidates (reload L rules) cat =
     concat (map (\<lambda>r. replicate (occurrences [] r) r) (compile_rules L rules)) @
     concat (map (\<lambda>r. replicate (occurrences cat r) r) (compile_rules L rules))"
  by (simp add: candidates_def reload_def Let_def index_get_rules) (simp add: index_get_def)

lemma concat_replicate_filter:
  "list_all (\<lambda>r. f r = (if P r then 1 else 0)) rs \<Longrightarrow> concat (map (\<lambda>r. replicate (f r) r) rs) = filter P rs"
  by (induction rs) auto

lemma count_list_distinct: "distinct xs \<Longrightarrow> count_list xs x = (if x \<in> set xs then 1 else 0)"
  by (induction xs) auto

text \<open>C32: the index loses and invents nothing: the rules tried on an event are, first, the enabled rules without
  categories and then those that name its category, each group in the order loaded; a rule that names the category twice
  is tried twice (a rule without categories counts as naming the empty one).\<close>

theorem dispatch_by_category:
  "candidates (reload L rules) cat =
     (let enabled = filter rd_enabled (compile_rules L rules);
          naming = (\<lambda>k. concat (map (\<lambda>r. replicate (count_list (if rd_categories r = [] then [[]] else rd_categories r) k) r) enabled))
      in naming [] @ naming cat)"
proof -
  have "concat (map (\<lambda>r. replicate (occurrences k r) r) rs) =
      concat (map (\<lambda>r. replicate (count_list (if rd_categories r = [] then [[]] else rd_categories r) k) r) (filter rd_enabled rs))"
    for k rs by (induction rs) (auto simp: occurrences_def)
  then show ?thesis by (simp add: candidates_reload Let_def)
qed

text \<open>Rules that name each category once and no empty one; the parser does not ensure it.\<close>

definition plain_categories :: "rule_definition \<Rightarrow> bool" where
  "plain_categories r \<longleftrightarrow> distinct (rd_categories r) \<and> [] \<notin> set (rd_categories r)"

lemma compile_rules_plain: "list_all plain_categories (compile_rules L rules) = list_all plain_categories rules"
proof -
  have "plain_categories (if c then r else r\<lparr>rd_compiled_code := x\<rparr>) = plain_categories r" for c r x
    by (simp add: plain_categories_def)
  then show ?thesis by (simp add: compile_rules_def list.pred_map o_def)
qed

text \<open>For them the dispatch is a filter.\<close>

lemma dispatch_is_filter:
  assumes "list_all plain_categories rules" and "cat \<noteq> []"
  shows "candidates (reload L rules) cat =
    filter (\<lambda>r. rd_enabled r \<and> rd_categories r = []) (compile_rules L rules) @
    filter (\<lambda>r. rd_enabled r \<and> cat \<in> set (rd_categories r)) (compile_rules L rules)"
proof -
  have plain: "list_all plain_categories (compile_rules L rules)"
    by (simp add: compile_rules_plain assms(1))
  have "concat (map (\<lambda>r. replicate (occurrences [] r) r) (compile_rules L rules)) =
      filter (\<lambda>r. rd_enabled r \<and> rd_categories r = []) (compile_rules L rules)"
    by (rule concat_replicate_filter)
      (use plain in \<open>auto simp: list_all_iff occurrences_def plain_categories_def count_list_distinct\<close>)
  moreover have "concat (map (\<lambda>r. replicate (occurrences cat r) r) (compile_rules L rules)) =
      filter (\<lambda>r. rd_enabled r \<and> cat \<in> set (rd_categories r)) (compile_rules L rules)"
    by (rule concat_replicate_filter)
      (use plain assms(2) in \<open>auto simp: list_all_iff occurrences_def plain_categories_def count_list_distinct\<close>)
  ultimately show ?thesis by (simp add: candidates_reload)
qed

text \<open>A rule with the given categories, and four of them: the order is that of the groups.\<close>

definition network_rule :: "string \<Rightarrow> string list \<Rightarrow> rule_definition" where
  "network_rule rid cats = (probe_rule 60 2)\<lparr>rd_id := rid, rd_categories := cats, rd_compiled_code := None\<rparr>"

lemma dispatch_example:
  "map rd_id (candidates (reload probe_lib
      [network_rule ''a'' [''network''], network_rule ''b'' [''file''], network_rule ''c'' [],
       (network_rule ''d'' [''network''])\<lparr>rd_enabled := False\<rparr>]) ''network'') = [''c'', ''a'']"
  by (subst dispatch_is_filter)
    (simp_all add: plain_categories_def network_rule_def probe_rule_def compile_rules_def)

section \<open>Compiled and uncompiled rules\<close>

text \<open>Compiling the rules when they are loaded changes no answer: a rule evaluates as it would from its
  condition's text, whether or not the text compiles.\<close>

theorem compiled_path_equals_source:
  assumes "rd_compiled_code r = None"
  shows "evaluate L now n (hd (compile_rules L [r])) ent d s = evaluate L now n r ent d s"
proof -
  let ?r = "r\<lparr>rd_compiled_code := compile_rule_condition L (rd_condition r)\<rparr>"
  have "platform_ok ?r d = platform_ok r d"
    unfolding platform_ok_def by (simp cong: option.case_cong pyval.case_cong)
  moreover have "eval_rule_expr L now n ?r ent d w = eval_rule_expr L now n r ent d w" for w
    using assms by (simp add: eval_rule_expr_def eval_source_def split: option.split)
  moreover have "rd_timeframe ?r = rd_timeframe r" "rd_threshold ?r = rd_threshold r"
      "rd_id ?r = rd_id r" "rd_condition ?r = rd_condition r"
    by simp_all
  ultimately have "evaluate L now n ?r ent d s = evaluate L now n r ent d s"
    unfolding evaluate_def by (simp only:)
  then show ?thesis using assms by (simp add: compile_rules_def)
qed

lemma compiled_path_equals_source_witness:
  "evaluate probe_lib 0 5 (hd (compile_rules probe_lib [network_rule ''a'' []])) ''h:a'' tcp_event empty_store
     = evaluate probe_lib 0 5 (network_rule ''a'' []) ''h:a'' tcp_event empty_store"
  by (rule compiled_path_equals_source) (simp add: network_rule_def)

section \<open>Rules about one event\<close>

definition matches_event :: "pylib \<Rightarrow> universal_event \<Rightarrow> rule_definition \<Rightarrow> bool" where
  "matches_event L e r \<longleftrightarrow> platform_ok r (model_dump e)
     \<and> (case compile_rule_condition L (rd_condition r) of None \<Rightarrow> False | Some c \<Rightarrow> cond_holds L c (model_dump e))"

definition single_event_rule :: "pylib \<Rightarrow> rule_definition \<Rightarrow> bool" where
  "single_event_rule L r \<longleftrightarrow> rd_timeframe r = None \<and> rd_compiled_code r = None
     \<and> (case compile_rule_condition L (rd_condition r) of None \<Rightarrow> True | Some c \<Rightarrow> simple_expr c)"

lemma evaluate_single:
  assumes "rd_timeframe r = None" and "rd_compiled_code r = compile_rule_condition L (rd_condition r)"
    and "case compile_rule_condition L (rd_condition r) of None \<Rightarrow> True | Some c \<Rightarrow> simple_expr c"
  shows "evaluate L now n r ent (model_dump e) s = (matches_event L e r, s)"
proof (cases "compile_rule_condition L (rd_condition r)")
  case None
  then show ?thesis
    using assms by (simp add: evaluate_def matches_event_def eval_rule_expr_def eval_source_def)
next
  case (Some c)
  then have "eval_rule_expr L now n r ent (model_dump e) w = (cond_result L c (model_dump e), w)" for w
    using assms by (intro eval_rule_expr_simple) (simp_all add: loaded_def)
  then show ?thesis
    using assms(1) Some
    by (simp add: evaluate_def matches_event_def cond_result_def cond_holds_def split: sum.split bool.split)
qed

lemma evaluate_rules_single:
  assumes "list_all (\<lambda>r. rd_timeframe r = None \<and> rd_compiled_code r = compile_rule_condition L (rd_condition r)
      \<and> (case compile_rule_condition L (rd_condition r) of None \<Rightarrow> True | Some c \<Rightarrow> simple_expr c)) rs"
  shows "evaluate_rules L other now n e rs s = (map (\<lambda>r. match_of r e) (filter (matches_event L e) rs), s)"
  using assms by (induction rs) (auto simp: evaluate_single)

lemma candidates_subset: "set (candidates (reload L rules) cat) \<subseteq> set (compile_rules L rules)"
  by (auto simp: candidates_reload)

lemma compiled_single:
  assumes "list_all (single_event_rule L) rules" and "r \<in> set (compile_rules L rules)"
  shows "rd_timeframe r = None \<and> rd_compiled_code r = compile_rule_condition L (rd_condition r)
    \<and> (case compile_rule_condition L (rd_condition r) of None \<Rightarrow> True | Some c \<Rightarrow> simple_expr c)"
proof -
  obtain q where "q \<in> set rules"
      "r = (if rd_compiled_code q \<noteq> None then q else q\<lparr>rd_compiled_code := compile_rule_condition L (rd_condition q)\<rparr>)"
    using assms(2) by (auto simp: compile_rules_def)
  with assms(1) show ?thesis by (simp add: list_all_iff single_event_rule_def)
qed

text \<open>For rules without a time frame whose conditions count nothing, the matches are those of the candidates
  whose platform and condition hold, in the order of the candidates, and the windows stay as they are.\<close>

theorem single_event_matches:
  assumes "list_all (single_event_rule L) rules"
  shows "evaluate_event L other now n (reload L rules) e s =
    (map (\<lambda>r. match_of r e) (filter (matches_event L e) (candidates (reload L rules) (ev_category e))), s)"
proof -
  have "evaluate_rules L other now n e (candidates (reload L rules) (ev_category e)) s =
      (map (\<lambda>r. match_of r e) (filter (matches_event L e) (candidates (reload L rules) (ev_category e))), s)"
  proof (rule evaluate_rules_single, unfold list_all_iff, rule ballI)
    fix r
    assume "r \<in> set (candidates (reload L rules) (ev_category e))"
    with candidates_subset have "r \<in> set (compile_rules L rules)" by (rule subsetD)
    then show "rd_timeframe r = None \<and> rd_compiled_code r = compile_rule_condition L (rd_condition r)
        \<and> (case compile_rule_condition L (rd_condition r) of None \<Rightarrow> True | Some c \<Rightarrow> simple_expr c)"
      by (rule compiled_single [OF assms])
  qed
  then show ?thesis by (simp add: evaluate_event_def Let_def)
qed

section \<open>Typed conditions\<close>

lemma count_events_returns: "count_returns (count_events L now (Suc n) rid ent)"
  by (simp add: count_returns_def case_prod_beta)

text \<open>C24: a condition that the type system accepts returns a value on every event, whatever was recorded; the
  silent non-match of a raising condition is confined to ill-typed ones.\<close>

theorem typed_conditions_return:
  assumes "loaded L r c" and "expr_ty c = Some t"
  shows "is_ok (fst (eval_rule_expr L now (Suc n) r ent (model_dump e) w))"
proof -
  have "returns_ty (eval L (model_dump e) (count_events L now (Suc n) (rd_id r) ent) c w) t"
    by (rule typed_returns(1) [OF count_events_returns model_dump_schema assms(2)])
  then obtain v w' where "eval L (model_dump e) (count_events L now (Suc n) (rd_id r) ent) c w = (Inr v, w')"
    by (auto simp: returns_ty_def)
  then have "is_ok (fst (eval_code L (count_events L now (Suc n) (rd_id r) ent) c (model_dump e) w))"
    by (simp add: eval_code_def)
  with assms(1) show ?thesis
    by (auto simp: eval_rule_expr_def eval_source_def loaded_def split: option.splits)
qed

text \<open>An event of a connection that never got a remote port.\<close>

definition bare_event :: "string \<Rightarrow> universal_event" where
  "bare_event cat = \<lparr>ev_event_id = ''e1'', ev_timestamp_ns = 0, ev_hostname = ''h'', ev_agent_id = ''a1'',
     ev_category = cat, ev_type = ''new'', ev_severity = ''info'', ev_collector = ''netlink'', ev_os = ''linux'',
     ev_uid = 0, ev_gid = 0, ev_pid = 7, ev_ppid = 1, ev_process_name = [], ev_executable = [], ev_cmdline = [],
     ev_cwd = [], ev_session_id = None, ev_resource = [], ev_result = ''success'', ev_file_hash_before = None,
     ev_file_hash_after = None, ev_src_ip = None, ev_src_port = None, ev_dst_ip = None, ev_dst_port = None,
     ev_protocol = Some ''tcp'', ev_bytes_sent = None, ev_bytes_recv = None, ev_hash_chain = [], ev_signature = None,
     ev_ml_score = None, ev_risk_score = None, ev_rule_match_ids = [], ev_mitre_techniques = [], ev_ti_tags = [],
     ev_incident_chain_id = None, ev_extra = []\<rparr>"

definition port_expr :: expr where
  "port_expr = ECompare (EAttr (EName ''event'') ''dst_port'') [(CGt, EConst (PInt 1024))]"

text \<open>The typed probe condition returns; comparing an absent port does not, and has no type.\<close>

lemma typed_conditions_return_witness:
  "is_ok (fst (eval_rule_expr probe_lib 0 5 (probe_rule 60 3) ''h:a'' (model_dump (bare_event ''network'')) []))
   \<and> expr_ty port_expr = None
   \<and> eval_pure probe_lib (model_dump (bare_event ''network'')) port_expr = Inl TypeError"
proof (intro conjI)
  show "is_ok (fst (eval_rule_expr probe_lib 0 5 (probe_rule 60 3) ''h:a'' (model_dump (bare_event ''network'')) []))"
    using typed_conditions_return [OF probe_loaded, of TBool _ 4 60 3]
    by (simp add: probe_expr_def is_private_def field_ty_def event_schema_def)
  show "expr_ty port_expr = None"
    by (simp add: port_expr_def is_private_def field_ty_def event_schema_def ordered_tys_def)
  show "eval_pure probe_lib (model_dump (bare_event ''network'')) port_expr = Inl TypeError"
    by (simp add: port_expr_def eval_pure_def lookup_name_def get_attr_def event_attr_def is_private_def
        model_dump_def bare_event_def)
qed

lemma single_event_matches_witness:
  "let r = (network_rule ''a'' [''network''])\<lparr>rd_timeframe := None\<rparr> in
   evaluate_event probe_lib (\<lambda>_. []) 0 5 (reload probe_lib [r]) (bare_event ''network'') empty_store
     = ([match_of r (bare_event ''network'')], empty_store)"
proof -
  let ?r = "(network_rule ''a'' [''network''])\<lparr>rd_timeframe := None\<rparr>"
  have c: "rd_condition ?r = probe_text" by (simp add: network_rule_def probe_rule_def)
  have comp: "compile_rule_condition probe_lib probe_text = Some probe_expr"
    using probe_loaded [of 60 2] by (simp add: loaded_def probe_rule_def)
  have "single_event_rule probe_lib ?r"
    unfolding single_event_rule_def c comp by (simp add: network_rule_def probe_simple)
  moreover have "candidates (reload probe_lib [?r]) ''network'' = [?r\<lparr>rd_compiled_code := Some probe_expr\<rparr>]"
    unfolding candidates_reload compile_rules_def
    by (simp add: occurrences_def comp) (simp add: network_rule_def probe_rule_def comp)
  moreover have "matches_event probe_lib (bare_event ''network'') (?r\<lparr>rd_compiled_code := Some probe_expr\<rparr>)"
    unfolding matches_event_def
    by (simp add: network_rule_def probe_rule_def comp platform_ok_def model_dump_def bare_event_def cond_holds_def
        eval_pure_def probe_expr_def lookup_name_def get_attr_def event_attr_def is_private_def)
  ultimately show ?thesis
    using single_event_matches [of probe_lib "[?r]" "\<lambda>_. []" 0 5 "bare_event ''network''" empty_store]
    by (simp add: Let_def bare_event_def match_of_def)
qed

section \<open>A category named twice\<close>

text \<open>The same event twice at one instant, as the specification of a threshold of two sees it.\<close>

lemma run_spec_twice:
  assumes "rd_threshold r = Some 2" and "platform_ok r d" and "cond_holds L c d" and "0 \<le> tf"
  shows "run_spec L r c tf [(now, ent, d), (now, ent, d)] [] = [False, True]"
  using assms by (simp add: spec_step_def times_of_def seconds_def)

lemma compiled_loaded:
  assumes "rd_compiled_code r = None" and "compile_rule_condition L (rd_condition r) = Some c"
  shows "compile_rules L [r] = [r\<lparr>rd_compiled_code := Some c\<rparr>]" and "loaded L (r\<lparr>rd_compiled_code := Some c\<rparr>) c"
  using assms by (simp_all add: compile_rules_def loaded_def)

text \<open>Nothing removes a repeated category, so a rule that names its category twice is evaluated twice on each
  event, and with a threshold of two it fires on a single event.\<close>

theorem repeated_category_counts_twice:
  assumes "rd_compiled_code r = None" and "compile_rule_condition L (rd_condition r) = Some c" and "simple_expr c"
    and "rd_enabled r" and "rd_categories r = [ev_category e, ev_category e]" and "ev_category e \<noteq> []"
    and "rd_timeframe r = Some tf" and "0 \<le> tf" and "tf \<le> 3600" and "rd_threshold r = Some 2"
    and "platform_ok r (model_dump e)" and "cond_holds L c (model_dump e)"
  shows "map rm_rule_id (fst (evaluate_event L other now n (reload L [r]) e empty_store)) = [rd_id r]"
proof -
  let ?r = "r\<lparr>rd_compiled_code := Some c\<rparr>" and ?d = "model_dump e"
  let ?ent = "entity_of other ?r e"
  have cands: "candidates (reload L [r]) (ev_category e) = [?r, ?r]"
    unfolding candidates_reload compiled_loaded(1) [OF assms(1,2)]
    using assms(4-6) by (simp add: occurrences_def numeral_2_eq_2)
  have "platform_ok ?r ?d"
    using assms(11) unfolding platform_ok_def by (simp cong: option.case_cong pyval.case_cong)
  then have "run_rule L n ?r [(now, ?ent, ?d), (now, ?ent, ?d)] empty_store = [False, True]"
    using run_simulates [OF compiled_loaded(2) [OF assms(1,2)] assms(3) _ assms(9) _ empty_simulates,
        of now "[(now, ?ent, ?d), (now, ?ent, ?d)]" n] run_spec_twice [of ?r ?d L c tf now ?ent] assms(7,8,10,12)
    by (simp add: countable_threshold_def max_window_entries_def ends_at_def del: run_spec.simps run_rule.simps)
  then have "map rm_rule_id (fst (evaluate_rules L other now n e [?r, ?r] empty_store)) = [rd_id r]"
    by (auto simp: match_of_def split: prod.splits)
  then show ?thesis by (simp add: evaluate_event_def cands Let_def del: evaluate_rules.simps)
qed

lemma repeated_category_counts_twice_witness:
  "map rm_rule_id (fst (evaluate_event probe_lib (\<lambda>_. []) 0 5
      (reload probe_lib [network_rule ''a'' [''network'', ''network'']]) (bare_event ''network'') empty_store)) = [''a'']"
proof -
  have "rd_condition (network_rule ''a'' [''network'', ''network'']) = probe_text"
    by (simp add: network_rule_def probe_rule_def)
  then have comp: "compile_rule_condition probe_lib (rd_condition (network_rule ''a'' [''network'', ''network''])) = Some probe_expr"
    using probe_loaded [of 60 2] by (simp add: loaded_def probe_rule_def)
  have "cond_holds probe_lib probe_expr (model_dump (bare_event ''network''))"
    by (simp add: cond_holds_def eval_pure_def probe_expr_def lookup_name_def get_attr_def event_attr_def
        is_private_def model_dump_def bare_event_def)
  moreover have "platform_ok (network_rule ''a'' [''network'', ''network'']) (model_dump (bare_event ''network''))"
    by (simp add: platform_ok_def network_rule_def probe_rule_def model_dump_def bare_event_def)
  ultimately show ?thesis
    using repeated_category_counts_twice [OF _ comp probe_simple(1), of "bare_event ''network''" 60 "\<lambda>_. []" 0 5]
    by (simp add: network_rule_def probe_rule_def bare_event_def)
qed

section \<open>Saving and restoring the windows\<close>

text \<open>The file holds, per key, the entries as pairs of a timestamp in seconds and the event as JSON. The
  encoder turns UUIDs into strings and tuples into lists; a value it cannot encode is a \<open>TypeError\<close>.\<close>

fun to_json :: "pyval \<Rightarrow> json result" and list_to_json :: "pyval list \<Rightarrow> json list result"
  and dict_to_json :: "event_dict \<Rightarrow> (string \<times> json) list result" where
  "to_json PNone = Inr JNull"
| "to_json (PBool b) = Inr (JBool b)"
| "to_json (PInt n) = Inr (JInt n)"
| "to_json (PFloat x) = Inr (JNum x)"
| "to_json (PStr s) = Inr (JStr s)"
| "to_json (PUuid s) = Inr (JStr s)"
| "to_json (PList vs) = bind_result (list_to_json vs) (\<lambda>js. Inr (JList js))"
| "to_json (PTuple vs) = bind_result (list_to_json vs) (\<lambda>js. Inr (JList js))"
| "to_json (PDict d) = bind_result (dict_to_json d) (\<lambda>kvs. Inr (JObj kvs))"
| "to_json _ = Inl TypeError"
| "list_to_json [] = Inr []"
| "list_to_json (v # vs) = bind_result (to_json v) (\<lambda>j. bind_result (list_to_json vs) (\<lambda>js. Inr (j # js)))"
| "dict_to_json [] = Inr []"
| "dict_to_json ((k, v) # d) = bind_result (to_json v) (\<lambda>j. bind_result (dict_to_json d) (\<lambda>kvs. Inr ((k, j) # kvs)))"

type_synonym saved_window = "(pyfloat \<times> (string \<times> json) list) list"

fun save_window :: "window \<Rightarrow> saved_window result" where
  "save_window [] = Inr []"
| "save_window ((t, d) # dq) =
     bind_result (dict_to_json d) (\<lambda>kvs. bind_result (save_window dq) (\<lambda>es. Inr ((of_int t / 1000000, kvs) # es)))"

fun save_temporal_state :: "windows \<Rightarrow> (string, saved_window) pydict result" where
  "save_temporal_state [] = Inr []"
| "save_temporal_state ((k, dq) # w) =
     bind_result (save_window dq) (\<lambda>es. bind_result (save_temporal_state w) (\<lambda>st. Inr ((k, es) # st)))"

definition load_window :: "saved_window \<Rightarrow> window" where
  "load_window es = (let dq = map (\<lambda>(x, kvs). (\<lfloor>x * 1000000\<rfloor>, map (\<lambda>(k, j). (k, of_json j)) kvs)) es
     in drop (length dq - max_window_entries) dq)"

text \<open>\<open>None\<close> is a file that cannot be read or parsed: the windows are left alone. The record count is not saved.\<close>

definition load_temporal_state :: "(string, saved_window) pydict option \<Rightarrow> windows \<Rightarrow> windows" where
  "load_temporal_state file w =
     (case file of None \<Rightarrow> w | Some st \<Rightarrow> fold (\<lambda>(k, es) w. dict_put k (load_window es) w) st w)"

definition purge_stale_windows :: "time \<Rightarrow> int \<Rightarrow> windows \<Rightarrow> nat \<times> windows" where
  "purge_stale_windows now max_age w =
     (length (filter (\<lambda>(k, dq). stale_window (now - seconds max_age) dq) w),
      filter (\<lambda>(k, dq). \<not> stale_window (now - seconds max_age) dq) w)"

text \<open>What a value becomes on the way through the file.\<close>

fun restored :: "pyval \<Rightarrow> pyval" where
  "restored (PUuid s) = PStr s"
| "restored (PList vs) = PList (map restored vs)"
| "restored (PTuple vs) = PList (map restored vs)"
| "restored (PDict d) = PDict (map (\<lambda>(k, v). (k, restored v)) d)"
| "restored v = v"

lemma of_to_json:
  "to_json v = Inr j \<Longrightarrow> of_json j = restored v"
  "list_to_json vs = Inr js \<Longrightarrow> map of_json js = map restored vs"
  "dict_to_json d = Inr kvs \<Longrightarrow> map (\<lambda>(k, j). (k, of_json j)) kvs = map (\<lambda>(k, v). (k, restored v)) d"
  by (induction v and vs and d arbitrary: j and js and kvs rule: to_json_list_to_json_dict_to_json.induct) auto

definition restored_window :: "window \<Rightarrow> window" where
  "restored_window dq = map (\<lambda>(t, d). (t, map (\<lambda>(k, v). (k, restored v)) d)) dq"

lemma load_save_window:
  "save_window dq = Inr es \<Longrightarrow> map (\<lambda>(x, kvs). (\<lfloor>x * 1000000\<rfloor>, map (\<lambda>(k, j). (k, of_json j)) kvs)) es = restored_window dq"
  by (induction dq arbitrary: es rule: save_window.induct) (auto simp: restored_window_def of_to_json(3))

lemma load_window_saved:
  assumes "save_window dq = Inr es" and "length dq \<le> max_window_entries"
  shows "load_window es = restored_window dq"
proof -
  have "length (restored_window dq) = length dq" by (simp add: restored_window_def)
  with assms(2) load_save_window [OF assms(1)] show ?thesis by (simp add: load_window_def Let_def)
qed

lemma fold_put_fresh:
  "distinct (map fst w @ map fst st) \<Longrightarrow> fold (\<lambda>(k, es) w. dict_put k (f es) w) st w = w @ map (\<lambda>(k, es). (k, f es)) st"
proof (induction st arbitrary: w)
  case (Cons x st)
  obtain k es where x: "x = (k, es)" by (cases x)
  have "dict_put k (f es) w = w @ [(k, f es)]"
    using Cons.prems x by (induction w) auto
  then show ?case using Cons by (simp add: x)
qed simp

lemma saved_windows:
  assumes "save_temporal_state w = Inr st" and "list_all (\<lambda>(k, dq). length dq \<le> max_window_entries) w"
  shows "map (\<lambda>(k, es). (k, load_window es)) st = map (\<lambda>(k, dq). (k, restored_window dq)) w \<and> map fst st = map fst w"
  using assms by (induction w arbitrary: st rule: save_temporal_state.induct) (auto simp: load_window_saved)

text \<open>C36: saving the windows and restoring them into a fresh process gives every window back, its timestamps
  and events unchanged but for UUIDs, which come back as strings.\<close>

theorem temporal_state_roundtrip:
  assumes "windows_ok w" and "save_temporal_state w = Inr st"
  shows "load_temporal_state (Some st) [] = map (\<lambda>(k, dq). (k, restored_window dq)) w"
proof -
  have ok: "list_all (\<lambda>(k, dq). length dq \<le> max_window_entries) w"
    using assms(1) by (auto simp: windows_ok_def list_all_iff)
  have "distinct (map fst st)" using assms(1) saved_windows [OF assms(2) ok] by (simp add: windows_ok_def wf_dict_def)
  then show ?thesis
    using fold_put_fresh [of "[]" st load_window] saved_windows [OF assms(2) ok]
    by (simp add: load_temporal_state_def)
qed

lemma temporal_state_roundtrip_witness:
  "load_temporal_state (Some [(''r::h'', [(5 / 2, [(''event_id'', JStr ''e1''), (''uid'', JInt 0)])])]) []
     = [(''r::h'', [(2500000, [(''event_id'', PStr ''e1''), (''uid'', PInt 0)])])]"
  using temporal_state_roundtrip [of "[(''r::h'', [(2500000, [(''event_id'', PUuid ''e1''), (''uid'', PInt 0)])])]"]
  by (simp add: windows_ok_def wf_dict_def max_window_entries_def restored_window_def)

end
