(* ===== verification/Py_Int.thy ===== *)
theory Py_Int
  imports Prelude
begin

text \<open>
  Python's \<open>int\<close> of a text, and that it inverts \<open>str\<close> on integers.
\<close>

section \<open>Integers from text\<close>

text \<open>\<open>int(s)\<close>: an optional sign and decimal digits, single underscores between digits allowed.\<close>

definition digit :: "char \<Rightarrow> nat option" where
  "digit c = (let n = of_char c in if 48 \<le> n \<and> n \<le> (57::nat) then Some (n - 48) else None)"

fun nat_digits :: "nat \<Rightarrow> bool \<Rightarrow> string \<Rightarrow> nat option" where
  "nat_digits acc after_digit [] = (if after_digit then Some acc else None)"
| "nat_digits acc after_digit (c # cs) =
     (case digit c of
        Some k \<Rightarrow> nat_digits (10 * acc + k) True cs
      | None \<Rightarrow> if c = CHR ''_'' \<and> after_digit then nat_digits acc False cs else None)"

definition parse_int :: "string \<Rightarrow> int option" where
  "parse_int s =
     (case strip s of
        [] \<Rightarrow> None
      | c # cs \<Rightarrow>
          if c = CHR ''-'' then map_option (\<lambda>n. - int n) (nat_digits 0 False cs)
          else if c = CHR ''+'' then map_option int (nat_digits 0 False cs)
          else map_option int (nat_digits 0 False (c # cs)))"

lemma digit_of_nat: "k < 10 \<Longrightarrow> digit (char_of (48 + k)) = Some k"
  by (simp add: digit_def)

lemma show_nat_rec: "show_nat n = (if n < 10 then [] else show_nat (n div 10)) @ [char_of (48 + n mod 10)]"
  by (subst show_nat.simps) simp

lemma nat_digits_snoc:
  "nat_digits acc b xs = Some m \<Longrightarrow> k < 10 \<Longrightarrow> nat_digits acc b (xs @ [char_of (48 + k)]) = Some (10 * m + k)"
proof (induction xs arbitrary: acc b)
  case Nil
  then show ?case by (simp add: digit_of_nat split: if_splits)
next
  case (Cons c cs)
  then show ?case by (auto split: option.splits if_splits)
qed

lemma nat_digits_show: "nat_digits 0 False (show_nat n) = Some n"
proof (induction n rule: less_induct)
  case (less n)
  show ?case
  proof (cases "n < 10")
    case True
    then show ?thesis by (subst show_nat_rec) (simp add: digit_of_nat)
  next
    case False
    then have "nat_digits 0 False (show_nat (n div 10)) = Some (n div 10)" by (intro less) auto
    from nat_digits_snoc [OF this, of "n mod 10"] False show ?thesis by (subst show_nat_rec) simp
  qed
qed

definition is_digit_char :: "char \<Rightarrow> bool" where
  "is_digit_char c \<longleftrightarrow> digit c \<noteq> None"

lemma digit_not_space: "is_digit_char c \<Longrightarrow> \<not> is_space c \<and> c \<noteq> CHR ''-'' \<and> c \<noteq> CHR ''+''"
  by (auto simp: is_digit_char_def digit_def is_space_def Let_def split: if_splits)

lemma show_nat_digits: "list_all is_digit_char (show_nat n) \<and> show_nat n \<noteq> []"
proof (induction n rule: less_induct)
  case (less n)
  have d: "is_digit_char (char_of (48 + n mod 10))" by (simp add: is_digit_char_def digit_of_nat)
  show ?case
  proof (cases "n < 10")
    case True
    then show ?thesis using d unfolding show_nat_rec [of n] by simp
  next
    case False
    then have "n div 10 < n" by simp
    from less [OF this] d show ?thesis unfolding show_nat_rec [of n] by (simp add: False)
  qed
qed

lemma dropWhile_none: "list_all (\<lambda>c. \<not> P c) xs \<Longrightarrow> dropWhile P xs = xs"
  by (cases xs) auto

lemma strip_no_space: "list_all (\<lambda>c. \<not> is_space c) s \<Longrightarrow> strip s = s"
  by (simp add: strip_def dropWhile_none list_all_rev)

lemma strip_show: "strip (show_int i) = show_int i"
proof (rule strip_no_space)
  have "list_all (\<lambda>c. \<not> is_space c) (show_nat (nat \<bar>i\<bar>))"
    using show_nat_digits [of "nat \<bar>i\<bar>"] digit_not_space by (auto simp: list_all_iff)
  moreover have "\<not> is_space (CHR ''-'')" by (simp add: is_space_def)
  ultimately show "list_all (\<lambda>c. \<not> is_space c) (show_int i)" by (simp add: show_int_def)
qed

text \<open>The integers YAML reads come back from \<open>int(str(n))\<close>.\<close>

lemma parse_show_int [simp]: "parse_int (show_int i) = Some i"
proof (cases "i < 0")
  case True
  then show ?thesis by (simp add: parse_int_def strip_show) (simp add: show_int_def nat_digits_show)
next
  case False
  obtain c cs where c: "show_nat (nat i) = c # cs" "is_digit_char c"
    using show_nat_digits [of "nat i"] by (cases "show_nat (nat i)") auto
  have "show_int i = show_nat (nat i)" using False by (simp add: show_int_def)
  then show ?thesis
    using c digit_not_space [OF c(2)] nat_digits_show [of "nat i"] False strip_show [of i]
    by (simp add: parse_int_def del: nat_digits.simps)
qed

end
