(* ===== verification/Rule_Parser.thy ===== *)
theory Rule_Parser
  imports Rule_Engine Py_Int
begin

text \<open>
  \<open>rule_engine/parser.py\<close>: rules from the documents of YAML files. Reading a file and \<open>yaml.safe_load\<close>
  give a JSON value or nothing; \<open>other\<close> is \<open>str\<close> on floats, dates, lists and mappings.
\<close>

section \<open>One rule\<close>

definition valid_severities :: "string list" where
  "valid_severities = [''info'', ''low'', ''medium'', ''high'', ''critical'']"

definition get_or :: "(string \<times> json) list \<Rightarrow> string \<Rightarrow> json \<Rightarrow> json" where
  "get_or d k v = (case map_of d k of None \<Rightarrow> v | Some x \<Rightarrow> x)"

definition texts :: "(json \<Rightarrow> string) \<Rightarrow> json \<Rightarrow> string list" where
  "texts other v = (case v of JList js \<Rightarrow> map (py_str other) js | _ \<Rightarrow> [])"

text \<open>\<open>int(str(raw)) if raw is not None else None\<close>; the outer \<open>None\<close> is the \<open>ValueError\<close>.\<close>

definition opt_int :: "(json \<Rightarrow> string) \<Rightarrow> json \<Rightarrow> int option option" where
  "opt_int other v =
     (case v of JNull \<Rightarrow> Some None
      | _ \<Rightarrow> (case parse_int (py_str other v) of None \<Rightarrow> None | Some n \<Rightarrow> Some (Some n)))"

definition rule_type_of :: "string \<Rightarrow> rule_type" where
  "rule_type_of s = (if s = ''surveillance'' then Surveillance else Anomaly)"

definition parse_rule :: "(json \<Rightarrow> string) \<Rightarrow> (string \<times> json) list \<Rightarrow> string \<Rightarrow> rule_definition option" where
  "parse_rule other d source =
     (case map_of d ''id'' of
        None \<Rightarrow> None
      | Some rid \<Rightarrow>
          (let rule_id = py_str other rid;
               severity = py_str other (get_or d ''severity'' (JStr ''medium''));
               condition = strip (py_str other (get_or d ''condition'' (JStr [])))
           in if severity \<notin> set valid_severities \<or> condition = [] then None
              else (case (opt_int other (get_or d ''timeframe'' JNull), opt_int other (get_or d ''threshold'' JNull)) of
                (Some timeframe, Some threshold) \<Rightarrow>
                  if (case timeframe of None \<Rightarrow> False | Some t \<Rightarrow> t \<le> 0) then None
                  else if (case threshold of None \<Rightarrow> False | Some t \<Rightarrow> t < 1) then None
                  else Some \<lparr>rd_id = rule_id, rd_name = py_str other (get_or d ''name'' (JStr rule_id)),
                    rd_enabled = py_bool (get_or d ''enabled'' (JBool True)), rd_severity = severity,
                    rd_condition = condition, rd_timeframe = timeframe, rd_threshold = threshold,
                    rd_actions = (let a = get_or d ''actions'' (JList [JStr ''ALERT''])
                                  in case a of JList _ \<Rightarrow> texts other a | _ \<Rightarrow> [py_str other a]),
                    rd_tags = texts other (get_or d ''tags'' (JList [])),
                    rd_mitre = texts other (get_or d ''mitre'' (JList [])),
                    rd_platforms = texts other (get_or d ''platforms'' (JList [])),
                    rd_categories = texts other (get_or d ''categories'' (JList [])),
                    rd_explanation = py_str other (get_or d ''explanation'' (JStr [])),
                    rd_source = source,
                    rd_entity_key = (let e = get_or d ''entity_key'' JNull
                                     in if py_bool e then Some (py_str other e) else None),
                    rd_rule_type = rule_type_of (py_str other (get_or d ''rule_type'' (JStr ''anomaly''))),
                    rd_compiled_code = None\<rparr>
              | _ \<Rightarrow> None)))"

section \<open>Files and directories\<close>

definition rules_of_document :: "(json \<Rightarrow> string) \<Rightarrow> string \<Rightarrow> json option \<Rightarrow> rule_definition list" where
  "rules_of_document other source doc =
     (let items = (case doc of Some (JList js) \<Rightarrow> js | Some (JObj kvs) \<Rightarrow> [JObj kvs] | _ \<Rightarrow> [])
      in concat (map (\<lambda>item. case item of
           JObj kvs \<Rightarrow> (case parse_rule other kvs source of None \<Rightarrow> [] | Some r \<Rightarrow> [r])
         | _ \<Rightarrow> []) items))"

text \<open>A directory is \<open>None\<close> when it does not exist, or its files below it by path (as parts) with their documents.\<close>

type_synonym rule_dir = "(string list \<times> json option) list option"

definition has_suffix :: "string \<Rightarrow> string list \<times> json option \<Rightarrow> bool" where
  "has_suffix suf f \<longleftrightarrow> fst f \<noteq> [] \<and> ends_with (last (fst f)) suf"

definition load_rules_from_dir :: "(json \<Rightarrow> string) \<Rightarrow> string \<Rightarrow> rule_dir \<Rightarrow> rule_definition list" where
  "load_rules_from_dir other source dir =
     (case dir of
        None \<Rightarrow> []
      | Some files \<Rightarrow>
          concat (map (\<lambda>f. rules_of_document other source (snd f))
            (sort_key fst (filter (has_suffix ''.yaml'') files) @ sort_key fst (filter (has_suffix ''.yml'') files))))"

definition by_id :: "rule_definition list \<Rightarrow> (string, rule_definition) pydict \<Rightarrow> (string, rule_definition) pydict" where
  "by_id rs d = fold (\<lambda>r. dict_put (rd_id r) r) rs d"

definition load_all_rules :: "(json \<Rightarrow> string) \<Rightarrow> rule_dir \<Rightarrow> rule_dir \<Rightarrow> rule_definition list" where
  "load_all_rules other builtin custom =
     map snd (by_id (load_rules_from_dir other ''custom'' custom) (by_id (load_rules_from_dir other ''builtin'' builtin) []))"

section \<open>Loaded rules are valid\<close>

definition valid_rule :: "rule_definition \<Rightarrow> bool" where
  "valid_rule r \<longleftrightarrow> rd_severity r \<in> set valid_severities \<and> rd_condition r \<noteq> []
     \<and> (case rd_timeframe r of None \<Rightarrow> True | Some t \<Rightarrow> 0 < t)
     \<and> (case rd_threshold r of None \<Rightarrow> True | Some t \<Rightarrow> 1 \<le> t) \<and> rd_compiled_code r = None"

lemma parse_rule_valid: "parse_rule other d source = Some r \<Longrightarrow> valid_rule r"
  unfolding parse_rule_def Let_def
  by (split option.split_asm, simp, split if_split_asm, simp, split prod.split_asm, split option.split_asm, simp,
      split option.split_asm, simp, split if_split_asm, simp, split if_split_asm, simp)
    (auto simp: valid_rule_def split: option.splits)

lemma document_valid: "list_all valid_rule (rules_of_document other source doc)"
  by (auto simp: rules_of_document_def list_all_iff Let_def dest: parse_rule_valid [OF sym] split: json.splits option.splits)

lemma dir_valid: "list_all valid_rule (load_rules_from_dir other source dir)"
  using document_valid by (fastforce simp: load_rules_from_dir_def list_all_iff split: option.splits)

text \<open>The dictionary holds each rule under its id.\<close>

definition keyed :: "(string, rule_definition) pydict \<Rightarrow> bool" where
  "keyed d \<longleftrightarrow> wf_dict d \<and> list_all (\<lambda>(k, r). rd_id r = k \<and> valid_rule r) d"

lemma keyed_put: "keyed d \<Longrightarrow> valid_rule r \<Longrightarrow> keyed (dict_put (rd_id r) r d)"
  using dict_put_subset [of "rd_id r" r d] by (auto simp: keyed_def list_all_iff dest!: subsetD)

lemma keyed_by_id: "keyed d \<Longrightarrow> list_all valid_rule rs \<Longrightarrow> keyed (by_id rs d)"
  unfolding by_id_def by (induction rs arbitrary: d) (auto simp: keyed_put)

lemma keyed_all: "keyed (by_id (load_rules_from_dir other s custom) (by_id (load_rules_from_dir other t builtin) []))"
  by (intro keyed_by_id dir_valid) (simp add: keyed_def)

lemma keyed_distinct: "keyed d \<Longrightarrow> distinct (map rd_id (map snd d)) \<and> list_all valid_rule (map snd d)"
proof -
  assume d: "keyed d"
  have "map rd_id (map snd d) = map fst d" using d by (auto simp: keyed_def list_all_iff)
  moreover have "distinct (map fst d)" "list_all valid_rule (map snd d)"
    using d by (auto simp: keyed_def wf_dict_def list_all_iff)
  ultimately show ?thesis by (simp only:)
qed

text \<open>C35: whatever the files hold, the loaded rules have distinct ids, a known severity, a condition, a positive
  time frame and a threshold of at least one where they have any, and are not compiled yet.\<close>

theorem loaded_rules_valid:
  "distinct (map rd_id (load_all_rules other builtin custom)) \<and> list_all valid_rule (load_all_rules other builtin custom)"
  unfolding load_all_rules_def by (rule keyed_distinct [OF keyed_all])

section \<open>Custom rules override\<close>

definition last_with :: "string \<Rightarrow> rule_definition list \<Rightarrow> rule_definition option" where
  "last_with rid rs = find_rule rid (rev rs)"

lemma find_rule_append: "find_rule rid (rs @ rs') = (case find_rule rid rs of None \<Rightarrow> find_rule rid rs' | Some r \<Rightarrow> Some r)"
  by (induction rs) auto

lemma map_of_by_id: "map_of (by_id rs d) rid = (case last_with rid rs of None \<Rightarrow> map_of d rid | Some r \<Rightarrow> Some r)"
  unfolding by_id_def last_with_def
  by (induction rs arbitrary: d) (auto simp: find_rule_append split: option.splits)

lemma find_rule_keyed: "keyed d \<Longrightarrow> find_rule rid (map snd d) = map_of d rid"
  by (induction d) (auto simp: keyed_def wf_dict_def)

text \<open>A rule id names the last custom rule with it, and without one the last builtin rule.\<close>

theorem custom_overrides_builtin:
  "find_rule rid (load_all_rules other builtin custom) =
     (case last_with rid (load_rules_from_dir other ''custom'' custom) of
        Some r \<Rightarrow> Some r
      | None \<Rightarrow> last_with rid (load_rules_from_dir other ''builtin'' builtin))"
  unfolding load_all_rules_def find_rule_keyed [OF keyed_all]
  by (auto simp: map_of_by_id split: option.splits)

end
