(* ===== verification/Rule_Worker.thy ===== *)
theory Rule_Worker
  imports Rule_Parser Bus
begin

text \<open>
  \<open>workers/rule_worker.py\<close>: every normalised event is evaluated against the rules; each match is
  published, and turned into an alert unless the same rule fired for the same entity in the last
  minute. The environment decides which publications and which insertions of alerts succeed, gives
  the clock and fresh identifiers; a message that does not validate is \<open>None\<close>. Training the classifier
  on matches has no effect on this state. The periodic purge is a step of its own.
\<close>

record worker_env =
  we_lib :: pylib
  we_str :: "pyval \<Rightarrow> string"
  we_depth :: nat
  we_bus_ok :: "nat \<Rightarrow> bool"
  we_store_ok :: "nat \<Rightarrow> bool"
  we_fresh :: "nat \<Rightarrow> uuid"

record rule_worker =
  rw_engine :: rule_engine
  rw_windows :: window_store
  rw_bus :: bus_log
  rw_inserts :: nat
  rw_alert_table :: "alert list"
  rw_cooldowns :: "(string \<times> string, time) pydict"
  rw_total_evaluated :: nat
  rw_total_matches :: nat
  rw_total_alerts :: nat

definition alert_cooldown :: time where
  "alert_cooldown = seconds 60"

section \<open>One alert\<close>

fun rule_severity_of :: "string \<Rightarrow> severity option" where
  "rule_severity_of s =
     (if s = ''low'' then Some Low else if s = ''medium'' then Some Medium
      else if s = ''high'' then Some High else if s = ''critical'' then Some Critical else None)"

text \<open>\<open>info\<close> counts as low and a surveillance rule is capped at medium; an unknown severity raises.\<close>

definition alert_severity :: "rule_match \<Rightarrow> severity result" where
  "alert_severity m =
     (case rule_severity_of (if rm_severity m = ''info'' then ''low'' else rm_severity m) of
        None \<Rightarrow> Inl ValueError
      | Some v \<Rightarrow> Inr (if rm_rule_type m = Surveillance \<and> \<not> v \<le> Medium then Medium else v))"

definition entity_id :: "universal_event \<Rightarrow> string" where
  "entity_id e = ev_hostname e @ '':'' @ show_int (ev_pid e)"

definition rule_alert :: "uuid \<Rightarrow> time \<Rightarrow> severity \<Rightarrow> universal_event \<Rightarrow> rule_match \<Rightarrow> alert" where
  "rule_alert aid now sev e m = \<lparr>al_alert_id = aid, al_created_at = now, al_updated_at = now, al_severity = sev,
     al_status = AOpen, al_rule_id = Some (rm_rule_id m), al_rule_type = rm_rule_type m, al_ml_triggered = False,
     al_ti_triggered = False, al_entity_id = entity_id e, al_hostname = ev_hostname e,
     al_trigger_event_id = ev_event_id e, al_related_event_ids = [], al_incident_chain_id = None,
     al_title = rm_rule_name m, al_description = rm_explanation m, al_mitre_techniques = rm_mitre m,
     al_assigned_to = None, al_notes = [], al_false_positive_count = 0, al_dst_ip = ev_dst_ip e,
     al_pid = (if ev_pid e \<noteq> 0 then Some (ev_pid e) else None), al_process_name = ev_process_name e\<rparr>"

definition cooldown_key :: "universal_event \<Rightarrow> rule_match \<Rightarrow> string \<times> string" where
  "cooldown_key e m = (rm_rule_id m, entity_id e)"

definition cooling :: "time \<Rightarrow> string \<times> string \<Rightarrow> rule_worker \<Rightarrow> bool" where
  "cooling now k s \<longleftrightarrow> now - (case map_of (rw_cooldowns s) k of None \<Rightarrow> 0 | Some t \<Rightarrow> t) < alert_cooldown"

definition indicator_ips :: "universal_event \<Rightarrow> string list" where
  "indicator_ips e = concat (map (\<lambda>x. case x of None \<Rightarrow> [] | Some ip \<Rightarrow> if ip = [] then [] else [ip])
     [ev_dst_ip e, ev_src_ip e])"

definition send :: "worker_env \<Rightarrow> string \<Rightarrow> json \<Rightarrow> rule_worker \<Rightarrow> bool \<times> rule_worker" where
  "send env topic msg s =
     (case publish (we_bus_ok env) topic msg (rw_bus s) of (b, bus) \<Rightarrow> (b, s\<lparr>rw_bus := bus\<rparr>))"

text \<open>The announcements after an anomaly alert was stored: failures are logged only.\<close>

definition announce_alert :: "worker_env \<Rightarrow> universal_event \<Rightarrow> alert \<Rightarrow> rule_worker \<Rightarrow> rule_worker" where
  "announce_alert env e a s =
     (let s1 = snd (send env ''alerts:created'' (JObj [(''alert_id'', JStr (al_alert_id a))]) s);
          ips = indicator_ips e
      in if ips = [] then s1
         else snd (send env ''alerts:enrichment'' (JObj [(''alert_id'', JStr (al_alert_id a)),
           (''indicators'', JObj [(''ips'', JList (map JStr ips))])]) s1))"

definition create_alert :: "worker_env \<Rightarrow> time \<Rightarrow> universal_event \<Rightarrow> rule_match \<Rightarrow> rule_worker \<Rightarrow> unit result \<times> rule_worker" where
  "create_alert env now e m s =
     (if cooling now (cooldown_key e m) s then (Inr (), s)
      else let s1 = s\<lparr>rw_cooldowns := dict_put (cooldown_key e m) now (rw_cooldowns s)\<rparr>
        in case alert_severity m of
          Inl x \<Rightarrow> (Inl x, s1)
        | Inr sev \<Rightarrow>
            (let a = rule_alert (we_fresh env (rw_inserts s1)) now sev e m;
                 s2 = s1\<lparr>rw_inserts := Suc (rw_inserts s1)\<rparr>
             in if we_store_ok env (rw_inserts s1)
                then let s3 = s2\<lparr>rw_alert_table := rw_alert_table s2 @ [a], rw_total_alerts := Suc (rw_total_alerts s2)\<rparr>
                     in (Inr (), if rm_rule_type m = Surveillance then s3 else announce_alert env e a s3)
                else (Inr (), s2)))"

section \<open>The matches of an event\<close>

fun rule_type_str :: "rule_type \<Rightarrow> string" where
  "rule_type_str Anomaly = ''anomaly''"
| "rule_type_str Surveillance = ''surveillance''"

definition match_payload :: "universal_event \<Rightarrow> rule_match \<Rightarrow> json" where
  "match_payload e m = JObj [(''rule_id'', JStr (rm_rule_id m)), (''rule_name'', JStr (rm_rule_name m)),
     (''severity'', JStr (rm_severity m)), (''rule_type'', JStr (rule_type_str (rm_rule_type m))),
     (''actions'', JList (map JStr (rm_actions m))), (''tags'', JList (map JStr (rm_tags m))),
     (''mitre'', JList (map JStr (rm_mitre m))), (''explanation'', JStr (rm_explanation m)),
     (''event_id'', JStr (ev_event_id e)), (''hostname'', JStr (ev_hostname e)),
     (''matched_fields'', JObj (rm_matched_fields m))]"

definition wants_alert :: "rule_match \<Rightarrow> bool" where
  "wants_alert m \<longleftrightarrow> ''ALERT'' \<in> set (rm_actions m) \<or> rm_rule_type m = Surveillance"

definition handle_match :: "worker_env \<Rightarrow> time \<Rightarrow> universal_event \<Rightarrow> rule_match \<Rightarrow> rule_worker \<Rightarrow> unit result \<times> rule_worker" where
  "handle_match env now e m s =
     (case send env (''analysis:rules:'' @ ev_hostname e) (match_payload e m) s of
        (False, s1) \<Rightarrow> (Inr (), s1)
      | (True, s1) \<Rightarrow> if wants_alert m then create_alert env now e m s1 else (Inr (), s1))"

fun handle_matches :: "worker_env \<Rightarrow> time \<Rightarrow> universal_event \<Rightarrow> rule_match list \<Rightarrow> rule_worker \<Rightarrow> unit result \<times> rule_worker" where
  "handle_matches env now e [] s = (Inr (), s)"
| "handle_matches env now e (m # ms) s = seq_res (handle_match env now e m s) (\<lambda>_ s. handle_matches env now e ms s)"

section \<open>The worker\<close>

text \<open>One message: an exception leaves the state reached and the loop goes on.\<close>

definition process_message :: "worker_env \<Rightarrow> time \<Rightarrow> universal_event option \<Rightarrow> rule_worker \<Rightarrow> rule_worker" where
  "process_message env now msg s =
     (case msg of
        None \<Rightarrow> s
      | Some e \<Rightarrow>
          (case evaluate_event (we_lib env) (we_str env) now (we_depth env) (rw_engine s) e (rw_windows s) of
             (ms, w) \<Rightarrow>
               (let s1 = s\<lparr>rw_total_evaluated := Suc (rw_total_evaluated s), rw_windows := w,
                         rw_total_matches := rw_total_matches s + length ms\<rparr>
                in snd (handle_matches env now e ms s1))))"

datatype worker_op = Message time "universal_event option" | Reload "rule_definition list" | Purge time

fun rule_worker_step :: "worker_env \<Rightarrow> worker_op \<Rightarrow> rule_worker \<Rightarrow> rule_worker" where
  "rule_worker_step env (Message now msg) s = process_message env now msg s"
| "rule_worker_step env (Reload rules) s = s\<lparr>rw_engine := reload (we_lib env) rules\<rparr>"
| "rule_worker_step env (Purge now) s =
     s\<lparr>rw_windows := (rw_windows s)\<lparr>ws_windows := snd (purge_stale_windows now 3600 (ws_windows (rw_windows s)))\<rparr>\<rparr>"

definition new_rule_worker :: "rule_engine \<Rightarrow> rule_worker" where
  "new_rule_worker en = \<lparr>rw_engine = en, rw_windows = empty_store, rw_bus = empty_bus, rw_inserts = 0,
     rw_alert_table = [], rw_cooldowns = [], rw_total_evaluated = 0, rw_total_matches = 0, rw_total_alerts = 0\<rparr>"

section \<open>The alerts and their cooldowns\<close>

definition alert_key :: "alert \<Rightarrow> string \<times> string" where
  "alert_key a = (case al_rule_id a of None \<Rightarrow> [] | Some r \<Rightarrow> r, al_entity_id a)"

text \<open>Alerts of one rule and entity are a minute apart, surveillance alerts are at most medium, and every alert is
  covered by the cooldown of its key.\<close>

definition spaced :: "alert \<Rightarrow> alert \<Rightarrow> bool" where
  "spaced a b \<longleftrightarrow> (if alert_key a = alert_key b then al_created_at a + alert_cooldown \<le> al_created_at b else True)"

definition covered :: "(string \<times> string, time) pydict \<Rightarrow> alert \<Rightarrow> bool" where
  "covered cd a \<longleftrightarrow> (case map_of cd (alert_key a) of None \<Rightarrow> False | Some t \<Rightarrow> al_created_at a \<le> t)"

definition capped :: "alert \<Rightarrow> bool" where
  "capped a \<longleftrightarrow> (if al_rule_type a = Surveillance then al_severity a \<le> Medium else True)"

definition table_ok :: "rule_worker \<Rightarrow> bool" where
  "table_ok s \<longleftrightarrow> sorted_wrt spaced (rw_alert_table s) \<and> list_all (covered (rw_cooldowns s)) (rw_alert_table s)
     \<and> list_all capped (rw_alert_table s) \<and> rw_total_alerts s = length (rw_alert_table s)"

lemma send_frame [simp]:
  "table_ok (snd (send env t m s)) = table_ok s"
  by (simp add: send_def table_ok_def split: prod.split)

lemma announce_frame [simp]: "table_ok (announce_alert env e a s) = table_ok s"
  by (simp add: announce_alert_def Let_def)

lemma alert_key_rule_alert [simp]: "alert_key (rule_alert i now sev e m) = cooldown_key e m"
  by (simp add: alert_key_def rule_alert_def cooldown_key_def)

lemma not_cooling_later:
  "\<not> cooling now k s \<Longrightarrow> map_of (rw_cooldowns s) k = Some t \<Longrightarrow> t + alert_cooldown \<le> now"
  by (simp add: cooling_def)

lemma covered_put:
  assumes "covered cd a" and "k = alert_key a \<Longrightarrow> (case map_of cd k of None \<Rightarrow> True | Some t \<Rightarrow> t \<le> now)"
  shows "covered (dict_put k now cd) a"
  using assms by (auto simp: covered_def split: option.splits)

lemma capped_rule_alert: "alert_severity m = Inr sev \<Longrightarrow> capped (rule_alert i now sev e m)"
  by (auto simp: capped_def rule_alert_def alert_severity_def less_eq_severity_def split: option.splits if_splits)

lemma table_ok_create:
  assumes "table_ok s"
  shows "table_ok (snd (create_alert env now e m s))"
proof (cases "cooling now (cooldown_key e m) s")
  case True
  then show ?thesis using assms by (simp add: create_alert_def)
next
  case False
  let ?k = "cooldown_key e m"
  let ?cd = "dict_put ?k now (rw_cooldowns s)"
  have later: "al_created_at a + alert_cooldown \<le> now" if "a \<in> set (rw_alert_table s)" "alert_key a = ?k" for a
    using assms that not_cooling_later [OF False]
    by (fastforce simp: table_ok_def list_all_iff covered_def split: option.splits)
  have cov: "list_all (covered ?cd) (rw_alert_table s)"
    using assms later
    by (fastforce simp: table_ok_def list_all_iff covered_def alert_cooldown_def seconds_def split: option.splits)
  have ok: "table_ok (s\<lparr>rw_cooldowns := ?cd\<rparr>)" "table_ok (s\<lparr>rw_cooldowns := ?cd, rw_inserts := i\<rparr>)" for i
    using assms cov by (simp_all add: table_ok_def)
  have added: "table_ok (s\<lparr>rw_cooldowns := ?cd, rw_inserts := i,
      rw_alert_table := rw_alert_table s @ [rule_alert aid now sev e m], rw_total_alerts := Suc (rw_total_alerts s)\<rparr>)"
    if "alert_severity m = Inr sev" for i aid sev
  proof -
    have "sorted_wrt spaced (rw_alert_table s @ [rule_alert aid now sev e m])"
      using assms later by (auto simp: table_ok_def sorted_wrt_append spaced_def) (auto simp: rule_alert_def)
    moreover have "covered ?cd (rule_alert aid now sev e m)"
      by (simp add: covered_def) (simp add: rule_alert_def)
    ultimately show ?thesis
      using assms cov capped_rule_alert [OF that, of aid now e] by (simp add: table_ok_def)
  qed
  show ?thesis
  proof (cases "alert_severity m")
    case (Inl x)
    then show ?thesis using False ok by (simp add: create_alert_def Let_def)
  next
    case (Inr sev)
    then show ?thesis using False ok added by (simp add: create_alert_def Let_def)
  qed
qed

lemma table_ok_handle: "table_ok s \<Longrightarrow> table_ok (snd (handle_match env now e m s))"
  using table_ok_create send_frame [of env "''analysis:rules:'' @ ev_hostname e" "match_payload e m" s]
  by (auto simp: handle_match_def simp del: send_frame split: prod.splits bool.splits)

lemma table_ok_matches: "table_ok s \<Longrightarrow> table_ok (snd (handle_matches env now e ms s))"
proof (induction ms arbitrary: s)
  case (Cons m ms)
  obtain r t where h: "handle_match env now e m s = (r, t)" by fastforce
  then have "table_ok t" using table_ok_handle [OF Cons.prems, of env now e m] by simp
  then show ?case using Cons.IH by (cases r) (simp_all add: h)
qed simp

lemma table_ok_step: "table_ok s \<Longrightarrow> table_ok (rule_worker_step env op s)"
proof (cases op)
  case (Message now msg)
  assume ok: "table_ok s"
  have "table_ok (s\<lparr>rw_total_evaluated := a, rw_windows := w, rw_total_matches := b\<rparr>)" for a w b
    using ok by (simp add: table_ok_def)
  then show ?thesis
    using ok by (auto simp: Message process_message_def Let_def table_ok_matches split: option.split prod.split)
qed (simp_all add: table_ok_def)

interpretation ruw: machine "rule_worker_step env" "\<lambda>s. \<exists>en. s = new_rule_worker en" table_ok
  for env
  by unfold_locales (auto simp: table_ok_step, simp add: new_rule_worker_def table_ok_def)

text \<open>C9: In every run of the worker, whatever its rules, the bus and the store do, two alerts of the same rule
  for the same host and process are at least a minute apart, a surveillance alert is at most of medium
  severity, and the counter of alerts counts them.\<close>

theorem alerts_spaced_and_capped:
  "table_ok (run (rule_worker_step env) (new_rule_worker en) ops)"
  by (rule ruw.reachable_inv) blast

section \<open>What is announced\<close>

definition announces :: "alert \<Rightarrow> json \<Rightarrow> bool" where
  "announces a msg \<longleftrightarrow> al_rule_type a = Anomaly \<and> msg = JObj [(''alert_id'', JStr (al_alert_id a))]"

definition announced_ok :: "alert list \<Rightarrow> string \<times> json \<Rightarrow> bool" where
  "announced_ok table m \<longleftrightarrow> (if fst m = ''alerts:created'' then list_ex (\<lambda>a. announces a (snd m)) table else True)"

definition bus_ok :: "rule_worker \<Rightarrow> bool" where
  "bus_ok s \<longleftrightarrow> list_all (announced_ok (rw_alert_table s)) (sent (rw_bus s))"

lemma announced_more: "announced_ok table m \<Longrightarrow> announced_ok (table @ extra) m"
  by (auto simp: announced_ok_def split: if_splits)

lemma bus_ok_send: "bus_ok s \<Longrightarrow> announced_ok (rw_alert_table s) (t, m) \<Longrightarrow> bus_ok (snd (send env t m s))"
  by (auto simp: bus_ok_def send_def publish_def)

lemma send_table [simp]: "rw_alert_table (snd (send env t m s)) = rw_alert_table s"
  by (simp add: send_def split: prod.split)

lemma bus_ok_announce:
  "bus_ok s \<Longrightarrow> a \<in> set (rw_alert_table s) \<Longrightarrow> al_rule_type a = Anomaly \<Longrightarrow> bus_ok (announce_alert env e a s)"
  unfolding announce_alert_def Let_def
  by (auto intro!: bus_ok_send simp: announced_ok_def announces_def list_ex_iff)

lemma rule_type_cases: "t \<noteq> Surveillance \<Longrightarrow> t = Anomaly"
  by (cases t) auto

lemma bus_ok_create:
  assumes "bus_ok s"
  shows "bus_ok (snd (create_alert env now e m s))"
proof -
  have stored: "bus_ok (s\<lparr>rw_cooldowns := cd, rw_inserts := i, rw_alert_table := rw_alert_table s @ [a], rw_total_alerts := n\<rparr>)"
    for cd i a n
    using assms announced_more by (auto simp: bus_ok_def list_all_iff)
  have frame: "bus_ok (s\<lparr>rw_cooldowns := cd\<rparr>)" "bus_ok (s\<lparr>rw_cooldowns := cd, rw_inserts := i\<rparr>)" for cd i
    using assms by (simp_all add: bus_ok_def)
  show ?thesis
  proof (cases "cooling now (cooldown_key e m) s")
    case True
    then show ?thesis using assms by (simp add: create_alert_def)
  next
    case cool: False
    show ?thesis
    proof (cases "alert_severity m")
      case (Inl x)
      then show ?thesis using cool frame by (simp add: create_alert_def Let_def)
    next
      case (Inr sev)
      have "bus_ok (announce_alert env e (rule_alert aid now sev e m) (s\<lparr>rw_cooldowns := cd, rw_inserts := i,
          rw_alert_table := rw_alert_table s @ [rule_alert aid now sev e m], rw_total_alerts := n\<rparr>))"
        if "rm_rule_type m \<noteq> Surveillance" for aid cd i n
        by (rule bus_ok_announce [OF stored]) (use rule_type_cases [OF that] in \<open>simp_all add: rule_alert_def\<close>)
      then show ?thesis using Inr cool frame stored by (simp add: create_alert_def Let_def)
    qed
  qed
qed

lemma bus_ok_handle:
  assumes "bus_ok s"
  shows "bus_ok (snd (handle_match env now e m s))"
proof -
  obtain b t where t: "send env (''analysis:rules:'' @ ev_hostname e) (match_payload e m) s = (b, t)" by fastforce
  have "announced_ok (rw_alert_table s) (''analysis:rules:'' @ ev_hostname e, match_payload e m)"
    by (simp add: announced_ok_def)
  from bus_ok_send [OF assms this, of env] have "bus_ok t" unfolding t by simp
  then show ?thesis unfolding handle_match_def t by (cases b) (simp_all add: bus_ok_create)
qed

lemma bus_ok_matches: "bus_ok s \<Longrightarrow> bus_ok (snd (handle_matches env now e ms s))"
proof (induction ms arbitrary: s)
  case (Cons m ms)
  obtain r t where h: "handle_match env now e m s = (r, t)" by fastforce
  then have "bus_ok t" using bus_ok_handle [OF Cons.prems, of env now e m] by simp
  then show ?case using Cons.IH by (cases r) (simp_all add: h)
qed simp

lemma bus_ok_step: "bus_ok s \<Longrightarrow> bus_ok (rule_worker_step env op s)"
proof (cases op)
  case (Message now msg)
  assume ok: "bus_ok s"
  have "bus_ok (s\<lparr>rw_total_evaluated := a, rw_windows := w, rw_total_matches := b\<rparr>)" for a w b
    using ok by (simp add: bus_ok_def)
  then show ?thesis
    using ok by (auto simp: Message process_message_def Let_def bus_ok_matches split: option.split prod.split)
qed (simp_all add: bus_ok_def)

interpretation rub: machine "rule_worker_step env" "\<lambda>s. \<exists>en. s = new_rule_worker en" bus_ok
  for env
  by unfold_locales (auto simp: bus_ok_step, simp add: new_rule_worker_def bus_ok_def empty_bus_def)

text \<open>Every message on \<open>alerts:created\<close> names a stored alert of an anomaly rule; surveillance alerts never
  reach the correlation and decision pipeline.\<close>

theorem only_anomalies_announced:
  "bus_ok (run (rule_worker_step env) (new_rule_worker en) ops)"
  by (rule rub.reachable_inv) blast

section \<open>Alerts that are lost\<close>

lemma send_down: "\<not> we_bus_ok env (attempts (rw_bus s)) \<Longrightarrow> fst (send env t m s) = False"
  by (simp add: send_def publish_def)

lemma handle_down:
  "we_bus_ok env = (\<lambda>_. False) \<Longrightarrow>
   fst (handle_match env now e m s) = Inr () \<and> rw_alert_table (snd (handle_match env now e m s)) = rw_alert_table s"
  by (simp add: handle_match_def send_def publish_def)

lemma matches_down:
  "we_bus_ok env = (\<lambda>_. False) \<Longrightarrow> rw_alert_table (snd (handle_matches env now e ms s)) = rw_alert_table s"
proof (induction ms arbitrary: s)
  case (Cons m ms)
  obtain r t where h: "handle_match env now e m s = (r, t)" by fastforce
  then show ?case using Cons handle_down [OF Cons.prems, of now e m s] by simp
qed simp

lemma step_down:
  "we_bus_ok env = (\<lambda>_. False) \<Longrightarrow> rw_alert_table (rule_worker_step env op s) = rw_alert_table s"
  by (cases op) (auto simp: process_message_def Let_def matches_down split: option.split prod.split)

text \<open>The alert of a match is created only after its publication succeeded: while the bus is down no match
  is stored as an alert, although the store works.\<close>

theorem bus_outage_loses_alerts:
  "rw_alert_table (run (rule_worker_step (env\<lparr>we_bus_ok := \<lambda>_. False\<rparr>)) (new_rule_worker en) ops) = []"
proof -
  have "rw_alert_table (run (rule_worker_step (env\<lparr>we_bus_ok := \<lambda>_. False\<rparr>)) s ops) = rw_alert_table s" for s
    by (induction ops arbitrary: s) (simp_all add: step_down)
  then show ?thesis by (simp add: new_rule_worker_def)
qed

text \<open>The cooldown starts before the alert is stored: when the insertion fails, every match of the same rule
  and entity in the next minute is suppressed, although no alert exists.\<close>

theorem failed_insert_silences:
  assumes "\<not> cooling now (cooldown_key e m) s" and "alert_severity m = Inr sev"
    and "\<not> we_store_ok env (rw_inserts s)" and "now' < now + alert_cooldown"
    and "cooldown_key e' m' = cooldown_key e m"
  shows "let s1 = snd (create_alert env now e m s)
    in rw_alert_table s1 = rw_alert_table s \<and> create_alert env' now' e' m' s1 = (Inr (), s1)"
proof -
  have "snd (create_alert env now e m s)
      = s\<lparr>rw_cooldowns := dict_put (cooldown_key e m) now (rw_cooldowns s), rw_inserts := Suc (rw_inserts s)\<rparr>"
    using assms(1-3) by (simp add: create_alert_def Let_def)
  moreover have "cooling now' (cooldown_key e' m')
      (s\<lparr>rw_cooldowns := dict_put (cooldown_key e m) now (rw_cooldowns s), rw_inserts := Suc (rw_inserts s)\<rparr>)"
    using assms(4,5) by (simp add: cooling_def)
  ultimately show ?thesis by (simp add: create_alert_def)
qed

text \<open>A store that fails once.\<close>

definition flaky_env :: worker_env where
  "flaky_env = \<lparr>we_lib = probe_lib, we_str = (\<lambda>_. []), we_depth = 5, we_bus_ok = (\<lambda>_. True),
     we_store_ok = (\<lambda>n. n \<noteq> 0), we_fresh = (\<lambda>n. show_nat n)\<rparr>"

lemma failed_insert_silences_witness:
  "let m = match_of (probe_rule 60 1) (bare_event ''network'');
       s = snd (create_alert flaky_env (seconds 100) (bare_event ''network'') m (new_rule_worker (reload probe_lib [])))
   in rw_alert_table s = [] \<and> create_alert flaky_env (seconds 159) (bare_event ''network'') m s = (Inr (), s)"
proof -
  let ?m = "match_of (probe_rule 60 1) (bare_event ''network'')"
  have "alert_severity ?m = Inr High"
    by (simp add: alert_severity_def match_of_def probe_rule_def)
  moreover have "\<not> cooling (seconds 100) k (new_rule_worker en)" for k en
    by (simp add: cooling_def new_rule_worker_def alert_cooldown_def seconds_def)
  ultimately show ?thesis
    using failed_insert_silences [of "seconds 100" "bare_event ''network''" ?m "new_rule_worker (reload probe_lib [])" High
        flaky_env "seconds 159" "bare_event ''network''" ?m flaky_env]
    by (simp add: Let_def flaky_env_def new_rule_worker_def alert_cooldown_def seconds_def)
qed

end
