(* ===== verification/Jwt.thy ===== *)
theory Jwt
  imports Prelude Machines
begin

text \<open>
  \<open>api/auth/jwt.py\<close>: access tokens, the blocklist of revoked ones, its file and its copy in Redis. A token is
  a text; \<open>sg\<close> gives the claims of a token whose signature verifies and \<open>enc\<close> signs claims. The claims the
  code reads are kept; times in claims are whole seconds, as the library encodes them. Whether a file or
  Redis operation succeeds is an argument; the temporary directory can always be used. The clock of the machine at the
  end never goes back.
\<close>

record claims =
  cl_sub :: "string option"
  cl_roles :: "string list option"
  cl_jti :: "string option"
  cl_iat :: "int option"
  cl_exp :: "int option"

type_synonym verifier = "string \<Rightarrow> claims option"

text \<open>The file as a process sees it: absent, in a directory it may not look into, not a readable JSON object, or the entries
  (\<open>None\<close> for a text that is no timestamp). A handler that cannot create its data directory keeps its file in the
  temporary directory.\<close>

datatype blocklist_file = NoFile | NoAccess | Corrupt | Entries "(string \<times> time option) list"

record jwt_handler =
  jh_expire_minutes :: int
  jh_use_redis :: bool
  jh_in_tmp :: bool
  jh_revoked :: "(string, time) pydict"

record jwt_world =
  jw_file :: blocklist_file
  jw_tmp_file :: blocklist_file
  jw_redis :: "(string, time) pydict"

definition dir_file :: "bool \<Rightarrow> jwt_world \<Rightarrow> blocklist_file" where
  "dir_file in_tmp w = (if in_tmp then jw_tmp_file w else jw_file w)"

text \<open>What a starting process may do with an existing file: read it, see it without reading it, not even see it.\<close>

datatype file_access = Readable | Unreadable | Denied

definition seen :: "file_access \<Rightarrow> blocklist_file \<Rightarrow> blocklist_file" where
  "seen acc f = (case acc of Readable \<Rightarrow> f | Unreadable \<Rightarrow> if f = NoFile then NoFile else Corrupt | Denied \<Rightarrow> NoAccess)"

section \<open>The blocklist on disk\<close>

definition save_blocklist :: "bool \<Rightarrow> jwt_handler \<Rightarrow> jwt_world \<Rightarrow> jwt_world" where
  "save_blocklist ok h w =
     (let es = Entries (map (\<lambda>(j, t). (j, Some t)) (jh_revoked h))
      in if \<not> ok then w else if jh_in_tmp h then w\<lparr>jw_tmp_file := es\<rparr> else w\<lparr>jw_file := es\<rparr>)"

fun put_entries :: "(string \<times> time option) list \<Rightarrow> (string, time) pydict \<Rightarrow> (string, time) pydict" where
  "put_entries [] d = d"
| "put_entries ((j, None) # es) d = put_entries es d"
| "put_entries ((j, Some t) # es) d = put_entries es (dict_put j t d)"

definition load_blocklist :: "bool \<Rightarrow> blocklist_file \<Rightarrow> (string, time) pydict result" where
  "load_blocklist insecure file =
     (case file of
        NoFile \<Rightarrow> Inr []
      | NoAccess \<Rightarrow> Inr []
      | Entries es \<Rightarrow> Inr (put_entries es [])
      | Corrupt \<Rightarrow> if insecure then Inr [] else Inl RuntimeError)"

text \<open>The directory of the blocklist and its content: the data directory, or the temporary one if it cannot be created.\<close>

definition open_blocklist :: "bool \<Rightarrow> bool \<Rightarrow> file_access \<Rightarrow> jwt_world \<Rightarrow> (bool \<times> (string, time) pydict) result" where
  "open_blocklist insecure dir_ok acc w =
     bind_result (load_blocklist insecure (seen acc (dir_file (\<not> dir_ok) w))) (\<lambda>d. Inr (\<not> dir_ok, d))"

text \<open>The constructor: a test secret or the two key files, then the blocklist.\<close>

definition new_jwt_handler :: "string option \<Rightarrow> bool \<Rightarrow> int \<Rightarrow> bool \<Rightarrow> bool \<Rightarrow> bool \<Rightarrow> file_access \<Rightarrow> jwt_world
    \<Rightarrow> jwt_handler result" where
  "new_jwt_handler secret keys_readable minutes use_redis insecure dir_ok acc w =
     (let blocklist = bind_result (open_blocklist insecure dir_ok acc w) (\<lambda>(tmp, d).
            Inr \<lparr>jh_expire_minutes = minutes, jh_use_redis = use_redis, jh_in_tmp = tmp, jh_revoked = d\<rparr>)
      in case secret of
           Some s \<Rightarrow> if length s < 32 then Inl ValueError else blocklist
         | None \<Rightarrow> if \<not> keys_readable then Inl (OtherError ''OSError'') else blocklist)"

section \<open>Tokens\<close>

definition token_claims :: "time \<Rightarrow> uuid \<Rightarrow> string \<Rightarrow> string list \<Rightarrow> jwt_handler \<Rightarrow> claims" where
  "token_claims now jti subject roles h =
     \<lparr>cl_sub = Some subject, cl_roles = Some roles, cl_jti = Some jti, cl_iat = Some (now div 1000000),
      cl_exp = Some ((now + seconds (60 * jh_expire_minutes h)) div 1000000)\<rparr>"

definition create_token :: "(claims \<Rightarrow> string) \<Rightarrow> time \<Rightarrow> uuid \<Rightarrow> string \<Rightarrow> string list \<Rightarrow> jwt_handler \<Rightarrow> string" where
  "create_token enc now jti subject roles h = enc (token_claims now jti subject roles h)"

text \<open>\<open>jwt.decode\<close>: the signature, then the issue time, then (unless told not to) the expiry.\<close>

definition jwt_decode :: "verifier \<Rightarrow> bool \<Rightarrow> time \<Rightarrow> string \<Rightarrow> claims result" where
  "jwt_decode sg verify_exp now token =
     (case sg token of
        None \<Rightarrow> Inl (OtherError ''InvalidTokenError'')
      | Some c \<Rightarrow>
          if (case cl_iat c of None \<Rightarrow> False | Some i \<Rightarrow> now < seconds i) then Inl (OtherError ''InvalidTokenError'')
          else if verify_exp \<and> (case cl_exp c of None \<Rightarrow> False | Some e \<Rightarrow> seconds e \<le> now)
          then Inl (OtherError ''ExpiredSignatureError'')
          else Inr c)"

definition prune_revoked :: "bool \<Rightarrow> time \<Rightarrow> jwt_handler \<times> jwt_world \<Rightarrow> jwt_handler \<times> jwt_world" where
  "prune_revoked ok now s =
     (case s of (h, w) \<Rightarrow>
        if list_ex (\<lambda>(j, t). t \<le> now) (jh_revoked h)
        then let h' = h\<lparr>jh_revoked := filter (\<lambda>(j, t). \<not> t \<le> now) (jh_revoked h)\<rparr> in (h', save_blocklist ok h' w)
        else (h, w))"

definition verify_token :: "verifier \<Rightarrow> bool \<Rightarrow> time \<Rightarrow> string \<Rightarrow> jwt_handler \<times> jwt_world
    \<Rightarrow> claims result \<times> (jwt_handler \<times> jwt_world)" where
  "verify_token sg ok now token s =
     (case jwt_decode sg True now token of
        Inl _ \<Rightarrow> (Inl (HTTPException 401), s)
      | Inr c \<Rightarrow>
          (case cl_jti c of
             None \<Rightarrow> (Inl (HTTPException 401), s)
           | Some jti \<Rightarrow>
               (let s' = prune_revoked ok now s
                in if dict_has (jh_revoked (fst s')) jti then (Inl (HTTPException 401), s') else (Inr c, s'))))"

text \<open>When the revoked token leaves the blocklist: at its expiry, or after the lifetime of a new token.\<close>

definition revocation_expiry :: "jwt_handler \<Rightarrow> time \<Rightarrow> claims \<Rightarrow> time" where
  "revocation_expiry h now c =
     (case cl_exp c of Some e \<Rightarrow> seconds e | None \<Rightarrow> now + seconds (60 * jh_expire_minutes h))"

definition block :: "bool \<Rightarrow> string \<Rightarrow> time \<Rightarrow> jwt_handler \<times> jwt_world \<Rightarrow> jwt_handler \<times> jwt_world" where
  "block ok jti t s =
     (case s of (h, w) \<Rightarrow>
        let h' = h\<lparr>jh_revoked := dict_put jti t (jh_revoked h)\<rparr> in (h', save_blocklist ok h' w))"

definition revoke_token :: "verifier \<Rightarrow> bool \<Rightarrow> time \<Rightarrow> string \<Rightarrow> jwt_handler \<times> jwt_world \<Rightarrow> jwt_handler \<times> jwt_world" where
  "revoke_token sg ok now token s =
     (case jwt_decode sg False now token of
        Inl _ \<Rightarrow> s
      | Inr c \<Rightarrow> (case cl_jti c of None \<Rightarrow> s | Some jti \<Rightarrow> block ok jti (revocation_expiry (fst s) now c) s))"

section \<open>With Redis\<close>

text \<open>\<open>redis_ok\<close>: the connection works. Keys expire: \<open>jw_redis\<close> holds the instant after which a key is gone.\<close>

definition revoke_token_async :: "verifier \<Rightarrow> bool \<Rightarrow> bool \<Rightarrow> time \<Rightarrow> string \<Rightarrow> jwt_handler \<times> jwt_world
    \<Rightarrow> jwt_handler \<times> jwt_world" where
  "revoke_token_async sg redis_ok ok now token s =
     (case jwt_decode sg False now token of
        Inl _ \<Rightarrow> s
      | Inr c \<Rightarrow>
          (case cl_jti c of
             None \<Rightarrow> s
           | Some jti \<Rightarrow>
               if jti = [] then s
               else (let t = revocation_expiry (fst s) now c; ttl = max 1 ((t - now) div 1000000)
                     in if jh_use_redis (fst s) \<and> redis_ok
                        then (fst s, (snd s)\<lparr>jw_redis := dict_put jti (now + seconds ttl) (jw_redis (snd s))\<rparr>)
                        else block ok jti t s)))"

definition is_revoked_async :: "bool \<Rightarrow> bool \<Rightarrow> time \<Rightarrow> string \<Rightarrow> jwt_handler \<times> jwt_world
    \<Rightarrow> bool \<times> (jwt_handler \<times> jwt_world)" where
  "is_revoked_async redis_ok ok now jti s =
     (if jh_use_redis (fst s) \<and> redis_ok
      then ((case map_of (jw_redis (snd s)) jti of None \<Rightarrow> False | Some t \<Rightarrow> now < t), s)
      else (let s' = prune_revoked ok now s in (dict_has (jh_revoked (fst s')) jti, s')))"

definition verify_token_async :: "verifier \<Rightarrow> bool \<Rightarrow> bool \<Rightarrow> time \<Rightarrow> string \<Rightarrow> jwt_handler \<times> jwt_world
    \<Rightarrow> claims result \<times> (jwt_handler \<times> jwt_world)" where
  "verify_token_async sg redis_ok ok now token s =
     (case jwt_decode sg True now token of
        Inl _ \<Rightarrow> (Inl (HTTPException 401), s)
      | Inr c \<Rightarrow>
          (case cl_jti c of
             None \<Rightarrow> (Inl (HTTPException 401), s)
           | Some jti \<Rightarrow>
               (case is_revoked_async redis_ok ok now jti s of
                  (True, s') \<Rightarrow> (Inl (HTTPException 401), s')
                | (False, s') \<Rightarrow> (Inr c, s'))))"

section \<open>The handler as a machine\<close>

text \<open>Operations of any users, failures of the file and of Redis, restarts of the process and the passing of time.
  A handler that cannot load its blocklist does not start: the old state stays.\<close>

datatype jwt_op =
    Tick nat
  | Verify bool string
  | Revoke bool string
  | VerifyAsync bool bool string
  | RevokeAsync bool bool string
  | Restart bool bool file_access

record jwt_state =
  js_now :: time
  js_auth :: "jwt_handler \<times> jwt_world"

fun jwt_step :: "verifier \<Rightarrow> jwt_op \<Rightarrow> jwt_state \<Rightarrow> jwt_state" where
  "jwt_step sg (Tick n) s = s\<lparr>js_now := js_now s + int n\<rparr>"
| "jwt_step sg (Verify ok tok) s = s\<lparr>js_auth := snd (verify_token sg ok (js_now s) tok (js_auth s))\<rparr>"
| "jwt_step sg (Revoke ok tok) s = s\<lparr>js_auth := revoke_token sg ok (js_now s) tok (js_auth s)\<rparr>"
| "jwt_step sg (VerifyAsync rok ok tok) s = s\<lparr>js_auth := snd (verify_token_async sg rok ok (js_now s) tok (js_auth s))\<rparr>"
| "jwt_step sg (RevokeAsync rok ok tok) s = s\<lparr>js_auth := revoke_token_async sg rok ok (js_now s) tok (js_auth s)\<rparr>"
| "jwt_step sg (Restart insecure dir_ok acc) s =
     (case open_blocklist insecure dir_ok acc (snd (js_auth s)) of
        Inl _ \<Rightarrow> s
      | Inr (tmp, d) \<Rightarrow> s\<lparr>js_auth := ((fst (js_auth s))\<lparr>jh_in_tmp := tmp, jh_revoked := d\<rparr>, snd (js_auth s))\<rparr>)"

section \<open>A revoked token stays revoked\<close>

text \<open>A token identifier is used once: two signed claims with the same one expire at the same time.\<close>

definition unique_jti :: "verifier \<Rightarrow> bool" where
  "unique_jti sg \<longleftrightarrow> (\<forall>a b ca cb j. sg a = Some ca \<longrightarrow> sg b = Some cb \<longrightarrow> cl_jti ca = Some j \<longrightarrow> cl_jti cb = Some j
     \<longrightarrow> cl_exp ca = cl_exp cb)"

text \<open>Blocked in memory and, if the revocation was \<open>saved\<close>, in the file of the handler's directory; or expired.\<close>

definition file_blocks :: "string \<Rightarrow> time \<Rightarrow> blocklist_file \<Rightarrow> bool" where
  "file_blocks j t f = (case f of Entries es \<Rightarrow> distinct (map fst es) \<and> map_of es j = Some (Some t) | _ \<Rightarrow> False)"

definition blocked :: "bool \<Rightarrow> bool \<Rightarrow> string \<Rightarrow> time \<Rightarrow> jwt_handler \<times> jwt_world \<Rightarrow> bool" where
  "blocked saved tmp j t s \<longleftrightarrow> wf_dict (jh_revoked (fst s)) \<and> map_of (jh_revoked (fst s)) j = Some t \<and> jh_in_tmp (fst s) = tmp
     \<and> (saved \<longrightarrow> file_blocks j t (dir_file tmp (snd s)))"

definition dead :: "bool \<Rightarrow> bool \<Rightarrow> string \<Rightarrow> time \<Rightarrow> jwt_state \<Rightarrow> bool" where
  "dead saved tmp j t s \<longleftrightarrow> t \<le> js_now s \<or> blocked saved tmp j t (js_auth s)"

text \<open>The restarts that find the record again: the revocation was saved, the directory is the same, and the file is read, or the
  start fails because it cannot be read.\<close>

fun keeps_record :: "bool \<Rightarrow> bool \<Rightarrow> jwt_op \<Rightarrow> bool" where
  "keeps_record saved tmp (Restart insecure dir_ok acc) \<longleftrightarrow>
     saved \<and> dir_ok = (\<not> tmp) \<and> (acc = Readable \<or> acc = Unreadable \<and> \<not> insecure)"
| "keeps_record saved tmp _ \<longleftrightarrow> True"

lemma map_of_entries: "map_of (map (\<lambda>(j, t). (j, Some t)) d) j = map_option Some (map_of d j)"
  by (induction d) auto

lemma keys_entries: "map fst (map (\<lambda>(j, t). (j, Some t)) d) = map fst d"
  by (induction d) auto

lemma file_blocks_saved:
  "wf_dict (jh_revoked h) \<Longrightarrow> map_of (jh_revoked h) j = Some t \<Longrightarrow>
   file_blocks j t (dir_file (jh_in_tmp h) (save_blocklist True h w))"
  unfolding file_blocks_def save_blocklist_def wf_dict_def dir_file_def Let_def
  by (simp add: map_of_entries keys_entries del: map_map)

lemma blocked_save:
  "wf_dict (jh_revoked h) \<Longrightarrow> map_of (jh_revoked h) j = Some t \<Longrightarrow> jh_in_tmp h = tmp \<Longrightarrow>
   \<not> saved \<or> ok \<or> file_blocks j t (dir_file tmp w) \<Longrightarrow> blocked saved tmp j t (h, save_blocklist ok h w)"
  using file_blocks_saved [of h j t w] by (cases ok) (auto simp: blocked_def save_blocklist_def)

lemma blocked_prune:
  assumes "blocked f tmp j t s" "now < t"
  shows "blocked f tmp j t (prune_revoked ok now s)"
proof (cases s)
  case (Pair h w)
  have "blocked f tmp j t (let h' = h\<lparr>jh_revoked := filter (\<lambda>(j, t). \<not> t \<le> now) (jh_revoked h)\<rparr> in (h', save_blocklist ok h' w))"
    using assms unfolding Let_def Pair blocked_def [of _ _ _ _ "(h, w)"]
    by (intro blocked_save) (auto simp: map_of_filter_value)
  then show ?thesis
    using assms by (simp add: prune_revoked_def Pair)
qed

lemma blocked_put:
  "blocked f tmp j t s \<Longrightarrow> j' = j \<longrightarrow> t' = t \<Longrightarrow> blocked f tmp j t (block ok j' t' s)"
  unfolding block_def Let_def blocked_def [of _ _ _ _ s]
  by (cases s) (auto intro!: blocked_save)

lemma put_entries_map:
  "distinct (map fst es) \<Longrightarrow> wf_dict d \<Longrightarrow> wf_dict (put_entries es d) \<and>
     (map_of es j = Some (Some t) \<longrightarrow> map_of (put_entries es d) j = Some t) \<and>
     (map_of es j = None \<longrightarrow> map_of (put_entries es d) j = map_of d j)"
  by (induction es d rule: put_entries.induct) (auto simp: map_of_eq_None_iff rev_image_eqI)

lemma blocked_restart:
  assumes "blocked True tmp j t (h, w)" and "acc = Readable \<or> acc = Unreadable \<and> \<not> insecure"
    and "open_blocklist insecure (\<not> tmp) acc w = Inr (tmp', d)"
  shows "blocked True tmp j t (h\<lparr>jh_in_tmp := tmp', jh_revoked := d\<rparr>, w)"
proof -
  obtain es where f: "dir_file tmp w = Entries es" "distinct (map fst es)" "map_of es j = Some (Some t)"
    using assms(1) by (auto simp: blocked_def file_blocks_def split: blocklist_file.splits)
  then have "tmp' = tmp" "d = put_entries es []"
    using assms(2,3) by (auto simp: open_blocklist_def seen_def load_blocklist_def split: if_splits)
  with f assms(1) put_entries_map [OF f(2) wf_dict_Nil, of j t] show ?thesis
    by (simp add: blocked_def)
qed

lemma blocked_verify:
  "blocked f tmp j t s \<Longrightarrow> now < t \<Longrightarrow> blocked f tmp j t (snd (verify_token sg ok now tok s))"
  by (simp add: verify_token_def Let_def blocked_prune split: sum.split option.split)

lemma blocked_verify_async:
  "blocked f tmp j t s \<Longrightarrow> now < t \<Longrightarrow> blocked f tmp j t (snd (verify_token_async sg rok ok now tok s))"
  by (simp add: verify_token_async_def is_revoked_async_def Let_def blocked_prune split: sum.split option.split bool.split prod.split)

lemma decode_signed: "jwt_decode sg b now tok = Inr c \<Longrightarrow> sg tok = Some c"
  by (simp add: jwt_decode_def split: option.splits if_splits)

text \<open>The token the blocklist entry stands for: its claims name \<open>j\<close> and expire at \<open>t\<close>.\<close>

definition jti_expires :: "verifier \<Rightarrow> string \<Rightarrow> time \<Rightarrow> bool" where
  "jti_expires sg j t \<longleftrightarrow> (\<forall>tok c. sg tok = Some c \<longrightarrow> cl_jti c = Some j \<longrightarrow> map_option seconds (cl_exp c) = Some t)"

lemma jti_expires_unique:
  "unique_jti sg \<Longrightarrow> sg tok = Some c \<Longrightarrow> cl_jti c = Some j \<Longrightarrow> cl_exp c = Some e \<Longrightarrow> jti_expires sg j (seconds e)"
  unfolding unique_jti_def jti_expires_def by (metis option.simps(9))

lemma revocation_expiry_fixed:
  "jti_expires sg j t \<Longrightarrow> sg tok = Some c \<Longrightarrow> cl_jti c = Some j \<Longrightarrow> revocation_expiry h now c = t"
  by (fastforce simp: jti_expires_def revocation_expiry_def)

lemma blocked_revoke:
  assumes "jti_expires sg j t" "blocked f tmp j t s"
  shows "blocked f tmp j t (revoke_token sg ok now tok s)"
  using assms unfolding revoke_token_def
  by (auto split: sum.split option.split intro!: blocked_put dest!: decode_signed dest: revocation_expiry_fixed)

lemma blocked_redis: "blocked f tmp j t s \<Longrightarrow> blocked f tmp j t (fst s, (snd s)\<lparr>jw_redis := r\<rparr>)"
  by (auto simp: blocked_def dir_file_def)

lemma blocked_revoke_async:
  assumes "jti_expires sg j t" "blocked f tmp j t s"
  shows "blocked f tmp j t (revoke_token_async sg rok ok now tok s)"
  using assms unfolding revoke_token_async_def Let_def
  by (auto split: sum.split option.split intro!: blocked_put blocked_redis dest!: decode_signed dest: revocation_expiry_fixed)

lemma dead_step:
  assumes "jti_expires sg j t" "dead f tmp j t s" "keeps_record f tmp e"
  shows "dead f tmp j t (jwt_step sg e s)"
proof (cases "t \<le> js_now s")
  case True
  then show ?thesis
    by (cases e) (auto simp: dead_def split: sum.split)
next
  case False
  then have b: "blocked f tmp j t (js_auth s)" and now: "js_now s < t"
    using assms(2) by (auto simp: dead_def)
  have "t \<le> js_now (jwt_step sg e s) \<or> blocked f tmp j t (js_auth (jwt_step sg e s))"
  proof (cases e)
    case (Restart insecure dir_ok acc)
    show ?thesis
    proof (cases "open_blocklist insecure dir_ok acc (snd (js_auth s))")
      case (Inr p)
      obtain tmp' d where "p = (tmp', d)" by (cases p)
      with Restart Inr b assms(3) show ?thesis
        using blocked_restart [of tmp j t "fst (js_auth s)" "snd (js_auth s)" acc insecure tmp' d] by simp
    qed (use Restart b in simp)
  qed (use assms(1) b now in \<open>simp_all add: blocked_verify blocked_verify_async blocked_revoke blocked_revoke_async\<close>)
  then show ?thesis
    by (simp add: dead_def)
qed

interpretation dead_tokens: filtered_machine "jwt_step sg" "keeps_record f tmp" "\<lambda>s. jti_expires sg j t \<and> dead f tmp j t s"
  for sg f tmp j t
  by unfold_locales (auto intro: dead_step)

lemma dead_refused:
  assumes "jti_expires sg j t" "dead f tmp j t s" "sg tok = Some c" "cl_jti c = Some j"
  shows "fst (verify_token sg ok (js_now s) tok (js_auth s)) = Inl (HTTPException 401)"
proof (cases "jwt_decode sg True (js_now s) tok")
  case (Inl e)
  then show ?thesis by (simp add: verify_token_def)
next
  case (Inr c')
  then have c': "c' = c" using assms(3) by (simp add: decode_signed)
  have "\<not> t \<le> js_now s"
    using Inr assms(1,3,4) by (fastforce simp: jwt_decode_def jti_expires_def split: if_splits)
  then have "blocked f tmp j t (prune_revoked ok (js_now s) (js_auth s))"
    using assms(2) by (simp add: dead_def blocked_prune)
  then have "dict_has (jh_revoked (fst (prune_revoked ok (js_now s) (js_auth s)))) j"
    by (simp add: blocked_def dict_has_iff)
  then show ?thesis
    using Inr assms(4) by (simp add: verify_token_def c' Let_def)
qed

lemma revoked_is_dead:
  assumes "unique_jti sg"
    and "jwt_decode sg b now tok = Inr c" and "cl_jti c = Some j" and "cl_exp c = Some e"
    and "wf_dict (jh_revoked (fst s))"
  shows "jti_expires sg j (seconds e) \<and> blocked f (jh_in_tmp (fst s)) j (seconds e) (revoke_token sg f now tok s)"
proof
  show "jti_expires sg j (seconds e)"
    using jti_expires_unique assms(1-4) decode_signed by blast
  have "jwt_decode sg False now tok = Inr c"
    using assms(2) by (auto simp: jwt_decode_def split: option.splits if_splits)
  then show "blocked f (jh_in_tmp (fst s)) j (seconds e) (revoke_token sg f now tok s)"
    unfolding revoke_token_def block_def Let_def
    using assms(3-5) by (cases s) (auto simp: revocation_expiry_def intro!: blocked_save)
qed

lemma blocked_refused_forever:
  assumes "jti_expires sg j t" "blocked f tmp j t (js_auth s)" "sg tok = Some c" "cl_jti c = Some j"
    and "list_all (keeps_record f tmp) ops"
  shows "case run (jwt_step sg) s ops of s' \<Rightarrow>
    fst (verify_token sg ok (js_now s') tok (js_auth s')) = Inl (HTTPException 401)"
proof -
  have "jti_expires sg j t \<and> dead f tmp j t s" using assms(1,2) by (simp add: dead_def)
  from dead_tokens.run_allowed [OF this assms(5)] show ?thesis
    using dead_refused [OF assms(1) _ assms(3,4)] by blast
qed

text \<open>C5: a revoked token is never accepted again by its server process, whatever operations of any users, failures of the
  file or of Redis and delays follow: the blocklist entry is only dropped when the token has expired. Restarts are
  covered when the revocation was saved, no other process writes the file, and each start uses the same directory and
  either reads the file or fails; token identifiers are unique and the clock does not go back. Without these conditions \<open>unread_blocklist_forgets\<close> accepts the token again.\<close>

theorem revoked_stays_revoked:
  assumes "unique_jti sg"
    and "jwt_decode sg False (js_now s) tok = Inr c" and "cl_jti c = Some j" and "cl_exp c = Some e"
    and "wf_dict (jh_revoked (fst (js_auth s)))"
    and "list_all (keeps_record saved (jh_in_tmp (fst (js_auth s)))) ops"
  shows "case run (jwt_step sg) s (Revoke saved tok # ops) of s' \<Rightarrow>
    fst (verify_token sg ok (js_now s') tok (js_auth s')) = Inl (HTTPException 401)"
  using revoked_is_dead [OF assms(1-5), of saved]
    blocked_refused_forever [of sg j "seconds e" saved "jh_in_tmp (fst (js_auth s))" "jwt_step sg (Revoke saved tok) s" tok c ops ok]
    decode_signed [OF assms(2)] assms(3,6)
  by simp

definition demo_verifier :: verifier where
  "demo_verifier tok =
     (if tok = ''T'' then Some \<lparr>cl_sub = Some ''admin'', cl_roles = Some [''admin''], cl_jti = Some ''j'', cl_iat = Some 0,
        cl_exp = Some 900\<rparr>
      else None)"

definition demo_jwt :: jwt_state where
  "demo_jwt = \<lparr>js_now = 1000000, js_auth = (\<lparr>jh_expire_minutes = 15, jh_use_redis = False, jh_in_tmp = False, jh_revoked = []\<rparr>,
     \<lparr>jw_file = NoFile, jw_tmp_file = NoFile, jw_redis = []\<rparr>)\<rparr>"

lemma demo_unique_jti: "unique_jti demo_verifier"
  by (simp add: unique_jti_def demo_verifier_def)

lemma revoked_stays_revoked_witness:
  "is_ok (fst (verify_token demo_verifier True 1000000 ''T'' (js_auth demo_jwt))) \<and>
   (case run (jwt_step demo_verifier) demo_jwt [Revoke True ''T'', Restart False True Readable, Tick 5, Verify False ''T''] of s' \<Rightarrow>
     fst (verify_token demo_verifier True (js_now s') ''T'' (js_auth s')) = Inl (HTTPException 401))"
proof -
  have d: "jwt_decode demo_verifier False (js_now demo_jwt) ''T'' = Inr (the (demo_verifier ''T''))"
    by (simp add: jwt_decode_def demo_verifier_def demo_jwt_def seconds_def)
  show ?thesis
    using revoked_stays_revoked [OF demo_unique_jti d, of "''j''" 900 True "[Restart False True Readable, Tick 5, Verify False ''T'']"]
    by (simp add: demo_verifier_def demo_jwt_def verify_token_def jwt_decode_def prune_revoked_def dict_has_def seconds_def)
qed

text \<open>A start that may not look into the directory, or cannot create it and falls back to the temporary one, succeeds with
  nothing revoked, and the revoked token is accepted.\<close>

lemma unread_blocklist_forgets:
  "acc = Denied \<or> \<not> dir_ok \<Longrightarrow>
   (case run (jwt_step demo_verifier) demo_jwt [Revoke True ''T'', Restart False dir_ok acc] of s' \<Rightarrow>
     fst (verify_token demo_verifier True (js_now s') ''T'' (js_auth s')) = Inr (the (demo_verifier ''T'')))"
  by (cases acc; cases dir_ok)
    (simp_all add: demo_jwt_def open_blocklist_def seen_def dir_file_def load_blocklist_def verify_token_def jwt_decode_def
      demo_verifier_def seconds_def prune_revoked_def dict_has_def revoke_token_def block_def save_blocklist_def Let_def)

section \<open>Several processes\<close>

text \<open>With Redis the revocation of one process is invisible to the check of every route, which is
  \<open>verify_token\<close>: only the asynchronous check, which no route calls, sees it.\<close>

lemma prune_revoked_memory: "fst t = fst u \<Longrightarrow> fst (prune_revoked ok now t) = fst (prune_revoked ok now u)"
  by (cases t; cases u) (simp add: prune_revoked_def Let_def)

lemma verify_token_memory:
  assumes "fst t = fst u"
  shows "fst (verify_token sg ok now tok t) = fst (verify_token sg ok now tok u)"
  using prune_revoked_memory [OF assms, of ok now]
  by (cases "jwt_decode sg True now tok") (simp_all add: verify_token_def Let_def split: option.split)

lemma redis_revocation_unseen:
  assumes "jh_use_redis (fst s)"
  shows "fst (verify_token sg ok2 now tok' (revoke_token_async sg True ok now tok s)) = fst (verify_token sg ok2 now tok' s)"
proof -
  have "fst (revoke_token_async sg True ok now tok s) = fst s"
    using assms by (simp add: revoke_token_async_def Let_def split: sum.split option.split)
  then show ?thesis
    by (rule verify_token_memory)
qed

lemma redis_revocation_unseen_witness:
  "fst (verify_token demo_verifier True 0 ''T'' (revoke_token_async demo_verifier True True 0 ''T''
     (\<lparr>jh_expire_minutes = 15, jh_use_redis = True, jh_in_tmp = False, jh_revoked = []\<rparr>, \<lparr>jw_file = NoFile, jw_tmp_file = NoFile, jw_redis = []\<rparr>))) =
   Inr (the (demo_verifier ''T''))"
  by (subst redis_revocation_unseen)
    (simp_all add: verify_token_def jwt_decode_def demo_verifier_def seconds_def prune_revoked_def dict_has_def Let_def)

text \<open>Every process writes the whole of its own blocklist: a second process's save erases the first one's entry from
  the file, and a restart of the first accepts its revoked token again.\<close>

lemma last_writer_wins:
  "let w0 = \<lparr>jw_file = NoFile, jw_tmp_file = NoFile, jw_redis = []\<rparr>;
       h = \<lparr>jh_expire_minutes = 15, jh_use_redis = False, jh_in_tmp = False, jh_revoked = []\<rparr>;
       w1 = snd (revoke_token demo_verifier True 0 ''T'' (h, w0));
       w2 = snd (block True ''other'' 5 (h, w1))
   in (case load_blocklist False (jw_file w2) of
         Inl _ \<Rightarrow> False
       | Inr d \<Rightarrow> fst (verify_token demo_verifier True 0 ''T'' (h\<lparr>jh_revoked := d\<rparr>, w2)) = Inr (the (demo_verifier ''T'')))"
  by (simp add: revoke_token_def jwt_decode_def demo_verifier_def seconds_def block_def save_blocklist_def load_blocklist_def
      verify_token_def prune_revoked_def dict_has_def revocation_expiry_def)

text \<open>A file that cannot be read stops the start, unless the operator asked for the insecure mode.\<close>

lemma corrupt_blocklist_fails_closed:
  "jw_file w = Corrupt \<Longrightarrow> \<not> is_ok (new_jwt_handler secret readable m r False True Readable w)"
  by (cases secret) (simp_all add: new_jwt_handler_def open_blocklist_def dir_file_def seen_def load_blocklist_def Let_def)

text \<open>A file that exists but whose directory may not be read counts as absent: the start succeeds with nothing revoked.\<close>

lemma unreadable_directory_forgets:
  "load_blocklist False NoAccess = Inr []"
  by (simp add: load_blocklist_def)

end
