(* ===== verification/Api_Keys.thy ===== *)
theory Api_Keys
  imports Jwt
begin

text \<open>
  API keys and the caller's identity: \<open>storage/repositories/api_keys.py\<close>, \<open>api/auth/rbac.py\<close> and
  \<open>api/routers/api_keys.py\<close>. The table is a list of rows; \<open>hm\<close> is HMAC-SHA256, \<open>env\<close> the value of
  \<open>OSEYE_SECRET_KEY\<close> (empty when it is not set). A new key's random part and identifier are arguments.
\<close>

section \<open>The repository\<close>

type_synonym hmac = "string \<Rightarrow> string \<Rightarrow> string"

text \<open>A timestamp the client sent, with a time zone or without one; it is stored as text and read back as it was.\<close>

datatype stamp = Aware time | Naive time

record key_row =
  ak_id :: string
  ak_hash :: string
  ak_name :: string
  ak_roles :: "string list"
  ak_created_at :: time
  ak_expires_at :: "stamp option"
  ak_revoked :: bool
  ak_created_by :: string
  ak_deleted_at :: "time option"

record key_info =
  ki_id :: string
  ki_name :: string
  ki_roles :: "string list"

definition load_hmac_secret :: "string \<Rightarrow> string result" where
  "load_hmac_secret env =
     (if env = [] then Inl RuntimeError else if length env < 32 then Inl RuntimeError else Inr env)"

definition hash_key :: "hmac \<Rightarrow> string \<Rightarrow> string \<Rightarrow> string result" where
  "hash_key hm env raw = bind_result (load_hmac_secret env) (\<lambda>secret. Inr (hm secret raw))"

definition generate_key :: "string \<Rightarrow> string" where
  "generate_key token = ''osk_'' @ token"

definition key_create :: "hmac \<Rightarrow> string \<Rightarrow> time \<Rightarrow> string \<Rightarrow> string \<Rightarrow> string \<Rightarrow> string list \<Rightarrow> string \<Rightarrow> stamp option
    \<Rightarrow> key_row list \<Rightarrow> (string \<times> string) result \<times> key_row list" where
  "key_create hm env now token kid name roles created_by expires_at t =
     (let raw = generate_key token
      in case hash_key hm env raw of
           Inl e \<Rightarrow> (Inl e, t)
         | Inr h \<Rightarrow>
             if list_ex (\<lambda>r. ak_id r = kid \<or> ak_hash r = h) t then (Inl (OtherError ''IntegrityError''), t)
             else (Inr (raw, kid),
               t @ [\<lparr>ak_id = kid, ak_hash = h, ak_name = name, ak_roles = roles, ak_created_at = now,
                      ak_expires_at = expires_at, ak_revoked = False, ak_created_by = created_by, ak_deleted_at = None\<rparr>]))"

text \<open>An expiry without a time zone cannot be compared with the current instant: Python raises \<open>TypeError\<close>.\<close>

definition key_expired :: "time \<Rightarrow> key_row \<Rightarrow> bool result" where
  "key_expired now r =
     (case ak_expires_at r of
        None \<Rightarrow> Inr False
      | Some (Aware e) \<Rightarrow> Inr (e < now)
      | Some (Naive e) \<Rightarrow> Inl TypeError)"

definition key_verify :: "hmac \<Rightarrow> string \<Rightarrow> time \<Rightarrow> string \<Rightarrow> key_row list \<Rightarrow> key_info option result" where
  "key_verify hm env now raw t =
     bind_result (hash_key hm env raw) (\<lambda>h.
       case find (\<lambda>r. ak_hash r = h) t of
         None \<Rightarrow> Inr None
       | Some r \<Rightarrow>
           if ak_revoked r \<or> ak_deleted_at r \<noteq> None then Inr None
           else bind_result (key_expired now r) (\<lambda>expired.
             Inr (if expired then None else Some \<lparr>ki_id = ak_id r, ki_name = ak_name r, ki_roles = ak_roles r\<rparr>)))"

definition upd_key :: "string \<Rightarrow> (key_row \<Rightarrow> key_row) \<Rightarrow> key_row list \<Rightarrow> bool \<times> key_row list" where
  "upd_key kid f t = (list_ex (\<lambda>r. ak_id r = kid) t, map (\<lambda>r. if ak_id r = kid then f r else r) t)"

definition key_revoke :: "string \<Rightarrow> key_row list \<Rightarrow> bool \<times> key_row list" where
  "key_revoke kid = upd_key kid (\<lambda>r. r\<lparr>ak_revoked := True\<rparr>)"

definition key_delete :: "time \<Rightarrow> string \<Rightarrow> key_row list \<Rightarrow> bool \<times> key_row list" where
  "key_delete now kid = upd_key kid (\<lambda>r. r\<lparr>ak_deleted_at := Some now\<rparr>)"

text \<open>A listed key: everything but the hash and the deletion time.\<close>

type_synonym listed_key = "string \<times> string \<times> string list \<times> time \<times> stamp option \<times> bool \<times> string"

definition key_list :: "bool \<Rightarrow> key_row list \<Rightarrow> listed_key list" where
  "key_list include_revoked t =
     map (\<lambda>r. (ak_id r, ak_name r, ak_roles r, ak_created_at r, ak_expires_at r, ak_revoked r, ak_created_by r))
       (filter (\<lambda>r. (include_revoked \<or> \<not> ak_revoked r) \<and> ak_deleted_at r = None) t)"

section \<open>Identity and roles\<close>

datatype identity = ByKey string "string list" | ByToken claims

fun identity_sub :: "identity \<Rightarrow> string option" where
  "identity_sub (ByKey n rs) = Some n"
| "identity_sub (ByToken c) = cl_sub c"

fun identity_roles :: "identity \<Rightarrow> string list" where
  "identity_roles (ByKey n rs) = rs"
| "identity_roles (ByToken c) = (case cl_roles c of None \<Rightarrow> [] | Some rs \<Rightarrow> rs)"

text \<open>A request's headers; the table of keys is \<open>None\<close> when the application has no key repository. \<open>check\<close> is the
  token handler's \<open>verify_token\<close> on its state.\<close>

record request =
  rq_api_key :: "string option"
  rq_bearer :: "string option"

definition resolve_identity :: "(string \<Rightarrow> key_info option result) option
    \<Rightarrow> (string \<Rightarrow> 's \<Rightarrow> claims result \<times> 's) \<Rightarrow> request \<Rightarrow> 's \<Rightarrow> identity result \<times> 's" where
  "resolve_identity repo check rq s =
     (case rq_api_key rq of
        Some (c # cs) \<Rightarrow>
          (case repo of
             None \<Rightarrow> (Inl (HTTPException 401), s)
           | Some vf \<Rightarrow>
               (case vf (c # cs) of
                  Inl e \<Rightarrow> (Inl e, s)
                | Inr None \<Rightarrow> (Inl (HTTPException 401), s)
                | Inr (Some info) \<Rightarrow> (Inr (ByKey (ki_name info) (ki_roles info)), s)))
      | _ \<Rightarrow>
          (case rq_bearer rq of
             None \<Rightarrow> (Inl (HTTPException 401), s)
           | Some tok \<Rightarrow> seq_res (check tok s) (\<lambda>c s'. (Inr (ByToken c), s'))))"

definition require_role :: "string list \<Rightarrow> identity result \<Rightarrow> identity result" where
  "require_role roles idn =
     bind_result idn (\<lambda>i.
       if list_ex (\<lambda>r. List.member (identity_roles i) r) roles then Inr i else Inl (HTTPException 403))"

definition require_analyst :: "identity result \<Rightarrow> identity result" where
  "require_analyst = require_role [''analyst'', ''admin'']"

definition require_admin :: "identity result \<Rightarrow> identity result" where
  "require_admin = require_role [''admin'']"

section \<open>The routes\<close>

definition valid_roles :: "string list" where
  "valid_roles = [''analyst'', ''admin'']"

record key_body =
  kb_name :: string
  kb_roles :: "string list option"
  kb_expires_at :: "stamp option"

definition body_roles :: "key_body \<Rightarrow> string list" where
  "body_roles b = (case kb_roles b of None \<Rightarrow> [''analyst''] | Some rs \<Rightarrow> rs)"

text \<open>The response carries the raw key, its identifier, the name and the roles.\<close>

definition create_api_key :: "hmac \<Rightarrow> string \<Rightarrow> time \<Rightarrow> string \<Rightarrow> string \<Rightarrow> key_body \<Rightarrow> identity result \<Rightarrow> key_row list option
    \<Rightarrow> (string \<times> string \<times> string \<times> string list) result \<times> key_row list option" where
  "create_api_key hm env now token kid body auth repo =
     (case auth of
        Inl e \<Rightarrow> (Inl e, repo)
      | Inr i \<Rightarrow>
          if \<not> (1 \<le> length (kb_name body) \<and> length (kb_name body) \<le> 200) then (Inl (HTTPException 422), repo)
          else if \<not> list_all (\<lambda>r. r \<in> set valid_roles) (body_roles body) then (Inl (HTTPException 422), repo)
          else (case repo of
                  None \<Rightarrow> (Inl (HTTPException 503), repo)
                | Some t \<Rightarrow>
                    (case key_create hm env now token kid (kb_name body) (body_roles body)
                            (case identity_sub i of None \<Rightarrow> ''unknown'' | Some s \<Rightarrow> s) (kb_expires_at body) t of
                       (Inl e, t') \<Rightarrow> (Inl e, Some t')
                     | (Inr (raw, k), t') \<Rightarrow> (Inr (raw, k, kb_name body, body_roles body), Some t'))))"

definition list_api_keys :: "bool \<Rightarrow> identity result \<Rightarrow> key_row list option \<Rightarrow> (listed_key list \<times> nat) result" where
  "list_api_keys include_revoked auth repo =
     bind_result auth (\<lambda>i.
       case repo of
         None \<Rightarrow> Inl (HTTPException 503)
       | Some t \<Rightarrow> (let items = key_list include_revoked t in Inr (items, length items)))"

definition revoke_api_key :: "string \<Rightarrow> identity result \<Rightarrow> key_row list option \<Rightarrow> unit result \<times> key_row list option" where
  "revoke_api_key kid auth repo =
     (case auth of
        Inl e \<Rightarrow> (Inl e, repo)
      | Inr i \<Rightarrow>
          (case repo of
             None \<Rightarrow> (Inl (HTTPException 503), repo)
           | Some t \<Rightarrow>
               (case key_revoke kid t of
                  (found, t') \<Rightarrow> (if found then Inr () else Inl (HTTPException 404), Some t'))))"

text \<open>Everything that can happen to the table.\<close>

datatype key_op =
    KCreate time string string key_body "identity result"
  | KRevoke string "identity result"
  | KDelete time string

fun key_step :: "hmac \<Rightarrow> string \<Rightarrow> key_op \<Rightarrow> key_row list \<Rightarrow> key_row list" where
  "key_step hm env (KCreate now token kid body auth) t = the (snd (create_api_key hm env now token kid body auth (Some t)))"
| "key_step hm env (KRevoke kid auth) t = the (snd (revoke_api_key kid auth (Some t)))"
| "key_step hm env (KDelete now kid) t = snd (key_delete now kid t)"

section \<open>What the table guarantees\<close>

lemma find_upd_key:
  assumes "\<And>r. ak_hash (f r) = ak_hash r"
  shows "find (\<lambda>r. ak_hash r = h) (snd (upd_key kid f t)) =
    map_option (\<lambda>r. if ak_id r = kid then f r else r) (find (\<lambda>r. ak_hash r = h) t)"
  unfolding upd_key_def by (induction t) (auto simp: assms)

lemma find_snoc: "find P (t @ [r]) = (case find P t of None \<Rightarrow> if P r then Some r else None | Some x \<Rightarrow> Some x)"
  by (induction t) auto

text \<open>The key with hash \<open>h\<close> is revoked or deleted.\<close>

definition dead_key :: "string \<Rightarrow> key_row list \<Rightarrow> bool" where
  "dead_key h t =
     (case find (\<lambda>r. ak_hash r = h) t of None \<Rightarrow> False | Some r \<Rightarrow> ak_revoked r \<or> ak_deleted_at r \<noteq> None)"

lemma dead_key_upd:
  assumes "dead_key h t" and "\<And>r. ak_hash (f r) = ak_hash r"
    and "\<And>r. ak_revoked r \<or> ak_deleted_at r \<noteq> None \<Longrightarrow> ak_revoked (f r) \<or> ak_deleted_at (f r) \<noteq> None"
  shows "dead_key h (snd (upd_key kid f t))"
  using assms(1,3) unfolding dead_key_def find_upd_key [OF assms(2)]
  by (auto split: option.splits)

lemma dead_key_revoke: "dead_key h t \<Longrightarrow> dead_key h (snd (key_revoke kid t))"
  unfolding key_revoke_def by (rule dead_key_upd) auto

lemma dead_key_delete: "dead_key h t \<Longrightarrow> dead_key h (snd (key_delete now kid t))"
  unfolding key_delete_def by (rule dead_key_upd) auto

lemma dead_key_create: "dead_key h t \<Longrightarrow> dead_key h (snd (key_create hm env now token kid name roles cb ex t))"
  by (auto simp: key_create_def dead_key_def Let_def find_snoc split: sum.split option.splits)

lemma create_api_key_table:
  "snd (create_api_key hm env now token kid body auth (Some t)) = Some t \<or>
   (list_all (\<lambda>r. r \<in> set valid_roles) (body_roles body) \<and>
    (\<exists>cb. snd (create_api_key hm env now token kid body auth (Some t)) =
       Some (snd (key_create hm env now token kid (kb_name body) (body_roles body) cb (kb_expires_at body) t))))"
proof -
  have "snd (case x of (Inl e, t') \<Rightarrow> (Inl e, Some t') | (Inr (raw, k), t') \<Rightarrow> (Inr (raw, k, n, r), Some t')) = Some (snd x)"
    for x :: "(string \<times> string) result \<times> key_row list" and n :: string and r :: "string list"
    by (cases x; cases "fst x") auto
  then show ?thesis
    unfolding create_api_key_def by (cases auth) auto
qed

lemma revoke_api_key_table:
  "snd (revoke_api_key kid auth (Some t)) = Some t \<or>
   snd (revoke_api_key kid auth (Some t)) = Some (snd (key_revoke kid t))"
  unfolding revoke_api_key_def by (cases auth) (simp_all split: prod.split)

lemma dead_key_step:
  assumes "dead_key h t"
  shows "dead_key h (key_step hm env e t)"
proof (cases e)
  case (KCreate now token kid body auth)
  then show ?thesis
    using assms create_api_key_table [of hm env now token kid body auth t] by (auto intro: dead_key_create)
next
  case (KRevoke kid auth)
  then show ?thesis
    using assms revoke_api_key_table [of kid auth t] by (auto intro: dead_key_revoke)
next
  case (KDelete now kid)
  then show ?thesis using assms by (auto intro: dead_key_delete)
qed

definition key_roles_ok :: "key_row list \<Rightarrow> bool" where
  "key_roles_ok t = list_all (\<lambda>r. list_all (\<lambda>x. x \<in> set valid_roles) (ak_roles r)) t"

lemma key_roles_ok_upd: "(\<And>r. ak_roles (f r) = ak_roles r) \<Longrightarrow> key_roles_ok t \<Longrightarrow> key_roles_ok (snd (upd_key kid f t))"
  by (auto simp: key_roles_ok_def upd_key_def list_all_iff)

lemma key_roles_ok_revoke: "key_roles_ok t \<Longrightarrow> key_roles_ok (snd (key_revoke kid t))"
  unfolding key_revoke_def by (rule key_roles_ok_upd) auto

lemma key_roles_ok_delete: "key_roles_ok t \<Longrightarrow> key_roles_ok (snd (key_delete now kid t))"
  unfolding key_delete_def by (rule key_roles_ok_upd) auto

lemma key_roles_ok_create:
  "list_all (\<lambda>r. r \<in> set valid_roles) roles \<Longrightarrow> key_roles_ok t \<Longrightarrow>
   key_roles_ok (snd (key_create hm env now token kid name roles cb ex t))"
  by (simp add: key_create_def key_roles_ok_def Let_def split: sum.split)

lemma key_roles_ok_step:
  assumes "key_roles_ok t"
  shows "key_roles_ok (key_step hm env e t)"
proof (cases e)
  case (KCreate now token kid body auth)
  then show ?thesis
    using assms create_api_key_table [of hm env now token kid body auth t] by (auto intro: key_roles_ok_create)
next
  case (KRevoke kid auth)
  then show ?thesis
    using assms revoke_api_key_table [of kid auth t] by (auto intro: key_roles_ok_revoke)
next
  case (KDelete now kid)
  then show ?thesis using assms by (auto intro: key_roles_ok_delete)
qed

interpretation dead_keys: machine "key_step hm env" "dead_key h" "dead_key h"
  for hm env h
  by unfold_locales (auto intro: dead_key_step)

interpretation key_roles: machine "key_step hm env" "\<lambda>t. t = []" key_roles_ok
  for hm env
  by unfold_locales (simp add: key_roles_ok_def, rule key_roles_ok_step)

lemma verify_dead_key:
  assumes "hash_key hm env raw = Inr h" "dead_key h t"
  shows "key_verify hm env now raw t = Inr None"
  using assms(2) unfolding key_verify_def assms(1) dead_key_def
  by (cases "find (\<lambda>r. ak_hash r = h) t") simp_all

lemma verify_live_key:
  "key_verify hm env now raw t = Inr (Some info) \<Longrightarrow>
   \<exists>h r. hash_key hm env raw = Inr h \<and> find (\<lambda>r. ak_hash r = h) t = Some r \<and> ki_id info = ak_id r"
  by (cases "hash_key hm env raw"; cases "find (\<lambda>r. ak_hash r = projr (hash_key hm env raw)) t")
    (auto simp: key_verify_def split: if_splits)

text \<open>C34: a revoked API key never opens the API again. Once the admin route has revoked a working key, then after any
  later creations, revocations and deletions of keys by anyone, at any time, checking that key answers that it
  is not valid.\<close>

theorem revoked_key_stays_refused:
  assumes "key_verify hm env now raw t = Inr (Some info)"
  shows "key_verify hm env now' raw (run (key_step hm env) t (KRevoke (ki_id info) (Inr admin) # ops)) = Inr None"
proof -
  obtain h r where h: "hash_key hm env raw = Inr h" and f: "find (\<lambda>r. ak_hash r = h) t = Some r" and i: "ki_id info = ak_id r"
    using verify_live_key [OF assms] by blast
  have "key_step hm env (KRevoke (ki_id info) (Inr admin)) t = snd (upd_key (ki_id info) (\<lambda>r. r\<lparr>ak_revoked := True\<rparr>) t)"
    by (simp add: revoke_api_key_def key_revoke_def split: prod.split)
  moreover have "dead_key h (snd (upd_key (ki_id info) (\<lambda>r. r\<lparr>ak_revoked := True\<rparr>) t))"
    by (simp add: dead_key_def find_upd_key f i)
  ultimately show ?thesis
    using verify_dead_key [OF h] dead_keys.run_inv by (simp add: run_simps)
qed

definition demo_hmac :: hmac where
  "demo_hmac secret raw = ''h:'' @ raw"

definition demo_env :: string where
  "demo_env = replicate 32 (CHR ''s'')"

definition demo_key_body :: "stamp option \<Rightarrow> key_body" where
  "demo_key_body e = \<lparr>kb_name = ''ci'', kb_roles = Some [''admin''], kb_expires_at = e\<rparr>"

definition demo_keys :: "stamp option \<Rightarrow> key_row list" where
  "demo_keys e = key_step demo_hmac demo_env (KCreate 0 ''abc'' ''k1'' (demo_key_body e) (Inr (ByKey ''root'' [''admin'']))) []"

lemma demo_keys_eval: "demo_keys e =
  [\<lparr>ak_id = ''k1'', ak_hash = ''h:osk_abc'', ak_name = ''ci'', ak_roles = [''admin''], ak_created_at = 0,
     ak_expires_at = e, ak_revoked = False, ak_created_by = ''root'', ak_deleted_at = None\<rparr>]"
  by (simp add: demo_keys_def create_api_key_def key_create_def demo_key_body_def body_roles_def valid_roles_def
      hash_key_def load_hmac_secret_def demo_env_def demo_hmac_def generate_key_def Let_def)

lemma demo_verify: "key_verify demo_hmac demo_env now ''osk_abc'' (demo_keys None) =
    Inr (Some \<lparr>ki_id = ''k1'', ki_name = ''ci'', ki_roles = [''admin'']\<rparr>)"
  by (simp add: key_verify_def demo_keys_eval hash_key_def load_hmac_secret_def demo_env_def demo_hmac_def key_expired_def)

lemma revoked_key_stays_refused_witness:
  "key_verify demo_hmac demo_env 9 ''osk_abc'' (run (key_step demo_hmac demo_env) (demo_keys None)
     [KRevoke ''k1'' (Inr (ByKey ''root'' [''admin''])), KDelete 3 ''k1'']) = Inr None"
  using revoked_key_stays_refused [OF demo_verify, of 9 "ByKey ''root'' [''admin'']" "[KDelete 3 ''k1'']"] by simp

text \<open>The keys of the table carry no role but \<open>analyst\<close> and \<open>admin\<close>, whatever requests reach the routes.\<close>

theorem keys_hold_known_roles:
  "list_all (\<lambda>r. list_all (\<lambda>x. x = ''analyst'' \<or> x = ''admin'') (ak_roles r)) (run (key_step hm env) [] ops)"
  using key_roles.reachable_inv [of "[]" hm env ops] by (simp add: key_roles_ok_def valid_roles_def)

text \<open>A key created with an expiry that has no time zone, which the route accepts, can never be used: every check of it
  raises a \<open>TypeError\<close>, so every request that presents it fails with a server error.\<close>

theorem naive_expiry_breaks_key:
  "fst (resolve_identity (Some (\<lambda>raw. key_verify demo_hmac demo_env now raw (demo_keys (Some (Naive e))))) check
     \<lparr>rq_api_key = Some ''osk_abc'', rq_bearer = b\<rparr> s) = Inl TypeError"
  by (simp add: resolve_identity_def key_verify_def demo_keys_eval hash_key_def load_hmac_secret_def demo_env_def
      demo_hmac_def key_expired_def)

section \<open>Who is an administrator\<close>

text \<open>The request carries a working key of the table with the role, or a token that the handler accepts with it.\<close>

definition admin_by_key :: "hmac \<Rightarrow> string \<Rightarrow> time \<Rightarrow> key_row list \<Rightarrow> request \<Rightarrow> bool" where
  "admin_by_key hm env now t rq =
     (case rq_api_key rq of
        Some (c # cs) \<Rightarrow>
          list_ex (\<lambda>r. hash_key hm env (c # cs) = Inr (ak_hash r) \<and> \<not> ak_revoked r \<and> ak_deleted_at r = None
            \<and> key_expired now r = Inr False \<and> ''admin'' \<in> set (ak_roles r)) t
      | _ \<Rightarrow> False)"

definition admin_by_token :: "verifier \<Rightarrow> bool \<Rightarrow> time \<Rightarrow> jwt_handler \<times> jwt_world \<Rightarrow> request \<Rightarrow> bool" where
  "admin_by_token sg ok now js rq =
     (case rq_api_key rq of
        Some (c # cs) \<Rightarrow> False
      | _ \<Rightarrow>
          (case rq_bearer rq of
             None \<Rightarrow> False
           | Some tok \<Rightarrow>
               (case fst (verify_token sg ok now tok js) of
                  Inl _ \<Rightarrow> False
                | Inr c \<Rightarrow> (case cl_roles c of None \<Rightarrow> False | Some rs \<Rightarrow> ''admin'' \<in> set rs))))"

lemma verify_grants:
  assumes "key_verify hm env now raw t = Inr (Some info)"
  shows "list_ex (\<lambda>r. hash_key hm env raw = Inr (ak_hash r) \<and> \<not> ak_revoked r \<and> ak_deleted_at r = None
     \<and> key_expired now r = Inr False \<and> ki_roles info = ak_roles r) t"
proof -
  obtain h where h: "hash_key hm env raw = Inr h"
    using assms by (cases "hash_key hm env raw") (auto simp: key_verify_def)
  obtain r where r: "find (\<lambda>r. ak_hash r = h) t = Some r"
    using assms by (cases "find (\<lambda>r. ak_hash r = h) t") (auto simp: key_verify_def h)
  have "r \<in> set t" "ak_hash r = h"
    using r by (auto simp: find_Some_iff)
  moreover have "\<not> ak_revoked r \<and> ak_deleted_at r = None \<and> key_expired now r = Inr False \<and> ki_roles info = ak_roles r"
    using assms by (auto simp: key_verify_def h r split: if_splits)
  ultimately show ?thesis
    using h by (auto simp: list_ex_iff)
qed

lemma list_member_iff: "List.member xs x \<longleftrightarrow> x \<in> set xs"
  by (simp add: List.member_iff)

text \<open>C19: administrative routes open only to administrators: \<open>require_admin\<close> lets a request through only with an API
  key that is in the table, neither revoked, deleted nor expired and carries the role, or, when it presents
  no key, with a token that the handler verifies and whose claims carry the role.\<close>

theorem admin_requires_credentials:
  "case require_admin (fst (resolve_identity (Some (\<lambda>raw. key_verify hm env now raw t))
          (\<lambda>tok. verify_token sg ok now tok) rq js)) of
     Inl _ \<Rightarrow> True
   | Inr i \<Rightarrow> admin_by_key hm env now t rq \<or> admin_by_token sg ok now js rq"
proof (cases "\<exists>c cs. rq_api_key rq = Some (c # cs)")
  case False
  then have "resolve_identity (Some (\<lambda>raw. key_verify hm env now raw t)) (\<lambda>tok. verify_token sg ok now tok) rq js =
      (case rq_bearer rq of None \<Rightarrow> (Inl (HTTPException 401), js)
       | Some tok \<Rightarrow> seq_res (verify_token sg ok now tok js) (\<lambda>c s'. (Inr (ByToken c), s')))"
    by (auto simp: resolve_identity_def split: option.split list.split)
  moreover have "admin_by_token sg ok now js rq = (case rq_bearer rq of None \<Rightarrow> False
       | Some tok \<Rightarrow> (case fst (verify_token sg ok now tok js) of Inl _ \<Rightarrow> False
           | Inr c \<Rightarrow> (case cl_roles c of None \<Rightarrow> False | Some rs \<Rightarrow> ''admin'' \<in> set rs)))"
    using False by (auto simp: admin_by_token_def split: option.split list.split)
  ultimately show ?thesis
    by (cases "rq_bearer rq"; cases "verify_token sg ok now (the (rq_bearer rq)) js";
        cases "fst (verify_token sg ok now (the (rq_bearer rq)) js)")
      (auto simp: require_admin_def require_role_def list_member_iff split: option.splits)
next
  case True
  then obtain c cs where k: "rq_api_key rq = Some (c # cs)"
    by blast
  show ?thesis
  proof (cases "key_verify hm env now (c # cs) t")
    case (Inr x)
    then show ?thesis
      using verify_grants [of hm env now "c # cs" t]
      by (cases x) (auto simp: resolve_identity_def require_admin_def require_role_def admin_by_key_def k list_member_iff
          list_ex_iff)
  qed (simp add: resolve_identity_def require_admin_def require_role_def k)
qed

end
