(* ===== verification/Auth.thy ===== *)
theory Auth
  imports Api_Keys
begin

text \<open>
  \<open>api/routers/auth.py\<close>: the user store, password check, login, refresh and logout. \<open>bh\<close> and \<open>bcheck\<close> are bcrypt's
  hash (with the salt of the call) and check (which may raise); \<open>clk\<close> is \<open>time.monotonic()\<close>, counted from the boot of the machine; a
  Redis call is its outcome. The decorators that limit logins and logouts are the library's and not modelled.
\<close>

section \<open>Users\<close>

record user =
  us_hash :: "string option"
  us_roles :: "string list option"

type_synonym users = "(string, user) pydict"

text \<open>The file: absent or not accessible, not readable, or its content.\<close>

datatype users_file = NoUsersFile | BadUsersFile | UsersFile users

definition weak_defaults :: "string list" where
  "weak_defaults = [''admin123'', ''analyst123'']"

definition pw_or_default :: "string option \<Rightarrow> string \<Rightarrow> string" where
  "pw_or_default env dflt = (case env of None \<Rightarrow> dflt | Some pw \<Rightarrow> if pw = [] then dflt else pw)"

definition env_users :: "bool \<Rightarrow> (string \<Rightarrow> string) \<Rightarrow> string option \<Rightarrow> string option \<Rightarrow> users result" where
  "env_users production bh admin_env analyst_env =
     (let admin_pw = pw_or_default admin_env ''admin123''; analyst_pw = pw_or_default analyst_env ''analyst123''
      in if production \<and> (admin_pw \<in> set weak_defaults \<or> analyst_pw \<in> set weak_defaults) then Inl RuntimeError
         else Inr [(''admin'', \<lparr>us_hash = Some (bh admin_pw), us_roles = Some [''admin'', ''analyst'']\<rparr>),
                   (''analyst'', \<lparr>us_hash = Some (bh analyst_pw), us_roles = Some [''analyst'']\<rparr>)])"

definition load_users :: "bool \<Rightarrow> (string \<Rightarrow> string) \<Rightarrow> string option \<Rightarrow> string option \<Rightarrow> users_file \<Rightarrow> users result" where
  "load_users production bh admin_env analyst_env uf =
     (case uf of
        UsersFile (u # us) \<Rightarrow> Inr (u # us)
      | _ \<Rightarrow> env_users production bh admin_env analyst_env)"

text \<open>The cache and the monotonic time of its last load, initially empty and 0.\<close>

type_synonym users_cache = "users \<times> time"

definition init_users_cache :: users_cache where
  "init_users_cache = ([], 0)"

definition get_users :: "time \<Rightarrow> users result \<Rightarrow> users_cache \<Rightarrow> users result \<times> users_cache" where
  "get_users clk loaded c =
     (if seconds 60 < clk - snd c
      then (case loaded of Inl e \<Rightarrow> (Inl e, c) | Inr us \<Rightarrow> (Inr us, (us, clk)))
      else (Inr (fst c), c))"

section \<open>Passwords\<close>

text \<open>Bytes of the UTF-8 encoding, for text of the Latin-1 range.\<close>

definition utf8_size :: "string \<Rightarrow> nat" where
  "utf8_size s = sum_list (map (\<lambda>c. if (of_char c :: nat) < 128 then 1 else 2) s)"

definition authenticate :: "(string \<Rightarrow> string \<Rightarrow> bool result) \<Rightarrow> string \<Rightarrow> string \<Rightarrow> time \<Rightarrow> users result \<Rightarrow> users_cache
    \<Rightarrow> user option result \<times> users_cache" where
  "authenticate bcheck username password clk loaded c =
     (if 72 < utf8_size password then (Inr None, c)
      else seq_res (get_users clk loaded c) (\<lambda>us c'.
        (case map_of us username of
           None \<Rightarrow> Inr None
         | Some u \<Rightarrow>
             (case us_hash u of
                None \<Rightarrow> Inl KeyError
              | Some h \<Rightarrow> bind_result (bcheck password h) (\<lambda>good. Inr (if good then Some u else None))), c')))"

definition login :: "(claims \<Rightarrow> string) \<Rightarrow> (string \<Rightarrow> string \<Rightarrow> bool result) \<Rightarrow> time \<Rightarrow> time \<Rightarrow> uuid \<Rightarrow> users result \<Rightarrow> jwt_handler
    \<Rightarrow> string \<Rightarrow> string \<Rightarrow> users_cache \<Rightarrow> string result \<times> users_cache" where
  "login enc bcheck now clk jti loaded h username password c =
     (if username = [] \<or> password = [] then (Inl (HTTPException 400), c)
      else seq_res (authenticate bcheck username password clk loaded c) (\<lambda>u c'.
        (case u of
           None \<Rightarrow> Inl (HTTPException 401)
         | Some u \<Rightarrow>
             (case us_roles u of
                None \<Rightarrow> Inl KeyError
              | Some rs \<Rightarrow> Inr (create_token enc now jti username rs h)), c')))"

section \<open>Refresh\<close>

definition forwarded_ip :: "string \<Rightarrow> string" where
  "forwarded_ip s = strip (rev (takeWhile (\<lambda>c. c \<noteq> CHR '','') (rev s)))"

definition client_ip :: "bool \<Rightarrow> string option \<Rightarrow> string option \<Rightarrow> string" where
  "client_ip trust_proxy forwarded host =
     (if trust_proxy \<and> forwarded \<noteq> None \<and> forwarded \<noteq> Some [] then forwarded_ip (the forwarded)
      else (case host of None \<Rightarrow> ''unknown'' | Some h \<Rightarrow> h))"

text \<open>\<open>redis\<close>: \<open>None\<close> when no URL is set, \<open>Some None\<close> when the call fails, else the number of requests in the window.\<close>

type_synonym rate_store = "(string, time list) pydict"

definition rate_store_cap :: nat where
  "rate_store_cap = 10000"

fun evict_oldest :: "rate_store \<Rightarrow> rate_store" where
  "evict_oldest [] = []"
| "evict_oldest (e # d) = (if rate_store_cap < length (e # d) then evict_oldest d else e # d)"

definition local_rate_limit :: "time \<Rightarrow> string \<Rightarrow> rate_store \<Rightarrow> unit result \<times> rate_store" where
  "local_rate_limit clk ip d =
     (let ts = filter (\<lambda>t. clk - t < seconds 60) (case map_of d ip of None \<Rightarrow> [] | Some ts \<Rightarrow> ts)
      in if 10 \<le> length ts then (Inl (HTTPException 429), d)
         else (Inr (), evict_oldest (dict_move_to_end ip (dict_put ip (ts @ [clk]) d))))"

definition check_rate_limit :: "nat option option \<Rightarrow> time \<Rightarrow> string \<Rightarrow> rate_store \<Rightarrow> unit result \<times> rate_store" where
  "check_rate_limit redis clk ip d =
     (case redis of
        Some (Some n) \<Rightarrow> ((if 10 < n then Inl (HTTPException 429) else Inr ()), d)
      | _ \<Rightarrow> local_rate_limit clk ip d)"

definition max_session_lifetime :: time where
  "max_session_lifetime = seconds (24 * 3600)"

definition session_too_old :: "time \<Rightarrow> claims \<Rightarrow> bool" where
  "session_too_old now c = (case cl_iat c of None \<Rightarrow> False | Some i \<Rightarrow> max_session_lifetime < now - seconds i)"

text \<open>\<open>str(payload.get("sub", ""))\<close>; the library rejects a subject that is not a text.\<close>

definition subject_of :: "claims \<Rightarrow> string" where
  "subject_of c = (case cl_sub c of None \<Rightarrow> [] | Some s \<Rightarrow> s)"

definition user_roles :: "user \<Rightarrow> string list" where
  "user_roles u = (case us_roles u of None \<Rightarrow> [] | Some rs \<Rightarrow> rs)"

record auth_state =
  au_rate :: rate_store
  au_users :: users_cache
  au_jwt :: "jwt_handler \<times> jwt_world"

definition refresh :: "verifier \<Rightarrow> (claims \<Rightarrow> string) \<Rightarrow> bool \<Rightarrow> bool \<Rightarrow> nat option option \<Rightarrow> time \<Rightarrow> time \<Rightarrow> uuid \<Rightarrow> users result
    \<Rightarrow> string \<Rightarrow> string \<Rightarrow> auth_state \<Rightarrow> string result \<times> auth_state" where
  "refresh sg enc ok1 ok2 redis now clk jti loaded ip tok s =
     (case check_rate_limit redis clk ip (au_rate s) of
        (Inl e, d) \<Rightarrow> (Inl e, s\<lparr>au_rate := d\<rparr>)
      | (Inr _, d) \<Rightarrow>
          (case verify_token sg ok1 now tok (au_jwt s) of
             (Inl e, j) \<Rightarrow> (Inl e, s\<lparr>au_rate := d, au_jwt := j\<rparr>)
           | (Inr c, j) \<Rightarrow>
               if session_too_old now c then (Inl (HTTPException 401), s\<lparr>au_rate := d, au_jwt := j\<rparr>)
               else (case get_users clk loaded (au_users s) of
                       (Inl e, uc) \<Rightarrow> (Inl e, s\<lparr>au_rate := d, au_users := uc, au_jwt := j\<rparr>)
                     | (Inr us, uc) \<Rightarrow>
                         (case map_of us (subject_of c) of
                            None \<Rightarrow> (Inl (HTTPException 401), s\<lparr>au_rate := d, au_users := uc, au_jwt := j\<rparr>)
                          | Some u \<Rightarrow>
                              (let j' = revoke_token sg ok2 now tok j
                               in (Inr (create_token enc now jti (subject_of c) (user_roles u) (fst j')),
                                   s\<lparr>au_rate := d, au_users := uc, au_jwt := j'\<rparr>))))))"

definition logout :: "verifier \<Rightarrow> bool \<Rightarrow> time \<Rightarrow> string \<Rightarrow> auth_state \<Rightarrow> auth_state" where
  "logout sg ok now tok s = s\<lparr>au_jwt := revoke_token sg ok now tok (au_jwt s)\<rparr>"

section \<open>Who gets a token\<close>

text \<open>A login yields a token only for the password of a stored user: the name is in the user store, the password has at
  most 72 bytes and bcrypt accepts it against that user's hash; the token then carries that name and exactly the
  stored roles.\<close>

theorem login_needs_password:
  "case fst (login enc bcheck now clk jti loaded h username password c) of
     Inl _ \<Rightarrow> True
   | Inr tok \<Rightarrow>
       (case fst (get_users clk loaded c) of
          Inl _ \<Rightarrow> False
        | Inr us \<Rightarrow>
            (case map_of us username of
               None \<Rightarrow> False
             | Some u \<Rightarrow> username \<noteq> [] \<and> utf8_size password \<le> 72
                 \<and> map_option (bcheck password) (us_hash u) = Some (Inr True)
                 \<and> map_option (\<lambda>rs. create_token enc now jti username rs h) (us_roles u) = Some tok))"
proof (cases "username = [] \<or> password = [] \<or> 72 < utf8_size password")
  case True
  then show ?thesis by (auto simp: login_def authenticate_def)
next
  case False
  obtain r c' where g: "get_users clk loaded c = (r, c')"
    by (cases "get_users clk loaded c")
  show ?thesis
  proof (cases r)
    case (Inr us)
    then show ?thesis
      using False
      by (cases "map_of us username"; cases "us_hash (the (map_of us username))";
          cases "bcheck password (the (us_hash (the (map_of us username))))")
        (auto simp: login_def authenticate_def g split: option.splits)
  qed (use False in \<open>simp add: login_def authenticate_def g\<close>)
qed

text \<open>No weak default in production: the built-in accounts are made only with passwords that are not the well-known
  defaults; otherwise the load fails.\<close>

theorem production_rejects_defaults:
  "case load_users True bh admin_env analyst_env uf of
     Inl e \<Rightarrow> e = RuntimeError
   | Inr us \<Rightarrow> uf = UsersFile us \<or>
       (case (admin_env, analyst_env) of
          (Some a, Some b) \<Rightarrow> a \<noteq> [] \<and> b \<noteq> [] \<and> a \<noteq> ''admin123'' \<and> b \<noteq> ''admin123'' \<and> a \<noteq> ''analyst123'' \<and> b \<noteq> ''analyst123''
            \<and> us = [(''admin'', \<lparr>us_hash = Some (bh a), us_roles = Some [''admin'', ''analyst'']\<rparr>),
                    (''analyst'', \<lparr>us_hash = Some (bh b), us_roles = Some [''analyst'']\<rparr>)]
        | _ \<Rightarrow> False)"
proof -
  have "case env_users True bh admin_env analyst_env of
     Inl e \<Rightarrow> e = RuntimeError
   | Inr us \<Rightarrow>
       (case (admin_env, analyst_env) of
          (Some a, Some b) \<Rightarrow> a \<noteq> [] \<and> b \<noteq> [] \<and> a \<noteq> ''admin123'' \<and> b \<noteq> ''admin123'' \<and> a \<noteq> ''analyst123'' \<and> b \<noteq> ''analyst123''
            \<and> us = [(''admin'', \<lparr>us_hash = Some (bh a), us_roles = Some [''admin'', ''analyst'']\<rparr>),
                    (''analyst'', \<lparr>us_hash = Some (bh b), us_roles = Some [''analyst'']\<rparr>)]
        | _ \<Rightarrow> False)"
    by (cases admin_env; cases analyst_env) (simp_all add: env_users_def pw_or_default_def weak_defaults_def Let_def)
  then show ?thesis
    by (cases uf) (auto simp: load_users_def split: list.split sum.splits)
qed

text \<open>In the first minute after the machine has booted nobody can log in: the cache is empty, its load time is 0 and the
  monotonic clock has not passed 60 seconds, so the user store is never read.\<close>

theorem no_login_after_boot:
  assumes "clk \<le> seconds 60"
  shows "\<not> is_ok (fst (login enc bcheck now clk jti loaded h username password init_users_cache))"
  using assms by (simp add: login_def authenticate_def get_users_def init_users_cache_def)

lemma no_login_after_boot_witness:
  "\<not> is_ok (fst (login (\<lambda>c. ''tok'') (\<lambda>p h. Inr True) 0 59000000 ''j''
     (load_users False (\<lambda>p. p) None None NoUsersFile) (fst (js_auth demo_jwt)) ''admin'' ''admin123'' init_users_cache))"
  by (rule no_login_after_boot) (simp add: seconds_def)

section \<open>Sessions\<close>

lemma verify_token_decodes:
  "fst (verify_token sg ok now tok js) = Inr c \<Longrightarrow> jwt_decode sg True now tok = Inr c \<and> cl_jti c \<noteq> None"
  by (auto simp: verify_token_def Let_def split: sum.splits option.splits if_splits)

lemma decode_unexpired: "jwt_decode sg True now tok = Inr c \<Longrightarrow> cl_exp c = Some e \<Longrightarrow> now < seconds e"
  by (auto simp: jwt_decode_def split: option.splits if_splits)

lemma token_lifetime:
  "cl_exp (token_claims t jti sub roles h) = Some (t div 1000000 + 60 * jh_expire_minutes h)"
  "cl_iat (token_claims t jti sub roles h) = Some (t div 1000000)"
  by (simp_all add: token_claims_def seconds_def)

text \<open>The 24 hour cap on a session never applies: while the server's tokens live at most 24 hours (15 minutes by
  default), a token that still verifies is never too old for a refresh. As every refresh issues its token anew,
  a chain of refreshes has no end.\<close>

theorem session_cap_unreachable:
  assumes "sg (create_token enc t jti sub roles h) = Some (token_claims t jti sub roles h)"
    and "jh_expire_minutes h \<le> 1440"
    and "fst (verify_token sg ok now (create_token enc t jti sub roles h) js) = Inr c"
  shows "\<not> session_too_old now c"
proof -
  have d: "jwt_decode sg True now (create_token enc t jti sub roles h) = Inr c"
    using verify_token_decodes [OF assms(3)] by blast
  then have c: "c = token_claims t jti sub roles h"
    using decode_signed assms(1) by fastforce
  have "now < seconds (t div 1000000 + 60 * jh_expire_minutes h)"
    using decode_unexpired [OF d] by (simp add: c token_lifetime)
  then show ?thesis
    using assms(2) by (simp add: session_too_old_def c token_lifetime max_session_lifetime_def seconds_def)
qed

definition demo_enc :: "claims \<Rightarrow> string" where
  "demo_enc c = ''T''"

definition demo_claims :: claims where
  "demo_claims = token_claims 0 ''j'' ''admin'' [''admin''] (fst (js_auth demo_jwt))"

lemma demo_claims_eval: "demo_claims = the (demo_verifier ''T'')"
  by (simp add: demo_claims_def token_claims_def demo_jwt_def demo_verifier_def seconds_def)

lemma demo_accepts: "fst (verify_token demo_verifier True 5000000 ''T'' (js_auth demo_jwt)) = Inr demo_claims"
  by (simp add: demo_claims_eval verify_token_def jwt_decode_def demo_verifier_def demo_jwt_def seconds_def
      prune_revoked_def dict_has_def)

lemma session_cap_unreachable_witness: "\<not> session_too_old 5000000 demo_claims"
proof -
  let ?h = "fst (js_auth demo_jwt)"
  have t: "create_token demo_enc 0 ''j'' ''admin'' [''admin''] ?h = ''T''"
    by (simp add: create_token_def demo_enc_def)
  have v: "demo_verifier ''T'' = Some demo_claims"
    by (simp add: demo_claims_eval demo_verifier_def)
  show ?thesis
    using session_cap_unreachable [of demo_verifier demo_enc 0 "''j''" "''admin''" "[''admin'']" ?h True 5000000 "js_auth demo_jwt"
        demo_claims] v demo_accepts
    by (simp add: t demo_claims_def) (simp add: demo_jwt_def)
qed

text \<open>The parts of a successful refresh.\<close>

lemma refresh_success:
  assumes "refresh sg enc ok1 ok2 redis now clk jti loaded ip tok s = (Inr tok', s')"
  obtains c where "fst (verify_token sg ok1 now tok (au_jwt s)) = Inr c"
    and "au_jwt s' = revoke_token sg ok2 now tok (snd (verify_token sg ok1 now tok (au_jwt s)))"
proof -
  obtain a d where a: "check_rate_limit redis clk ip (au_rate s) = (a, d)"
    by (cases "check_rate_limit redis clk ip (au_rate s)")
  obtain v j where v: "verify_token sg ok1 now tok (au_jwt s) = (v, j)"
    by (cases "verify_token sg ok1 now tok (au_jwt s)")
  obtain g uc where g: "get_users clk loaded (au_users s) = (g, uc)"
    by (cases "get_users clk loaded (au_users s)")
  show thesis
    using assms that unfolding refresh_def a v g Let_def
    by (cases a; cases v; cases g) (auto split: if_splits option.splits)
qed

lemma wf_prune_revoked: "wf_dict (jh_revoked (fst s)) \<Longrightarrow> wf_dict (jh_revoked (fst (prune_revoked ok now s)))"
  by (cases s) (simp add: prune_revoked_def Let_def)

lemma wf_verify_token: "wf_dict (jh_revoked (fst s)) \<Longrightarrow> wf_dict (jh_revoked (fst (snd (verify_token sg ok now tok s))))"
  by (simp add: verify_token_def Let_def wf_prune_revoked split: sum.split option.split)

lemma tmp_verify_token: "jh_in_tmp (fst (snd (verify_token sg ok now tok s))) = jh_in_tmp (fst s)"
  by (cases s) (simp add: verify_token_def prune_revoked_def Let_def split: sum.split option.split)

text \<open>C20: token rotation: after a refresh of a genuine token has succeeded, the old token is refused by its server process for
  ever, whatever operations, failures and delays follow. Restarts are covered when the refresh could save the blocklist, no
  other process writes the file, and each start uses the same directory and either reads the file or fails; token
  identifiers are unique and the clock does not go back. A failing save is
  only logged and the refresh still answers, and then a restart accepts the old token again (\<open>unsaved_refresh_forgets\<close>).\<close>

theorem refreshed_token_dies:
  assumes "unique_jti sg" and "sg tok = Some c" and "cl_exp c = Some e"
    and "wf_dict (jh_revoked (fst (au_jwt s)))"
    and "refresh sg enc ok1 saved redis now clk jti loaded ip tok s = (Inr tok', s')"
    and "list_all (keeps_record saved (jh_in_tmp (fst (au_jwt s)))) ops"
  shows "case run (jwt_step sg) \<lparr>js_now = now, js_auth = au_jwt s'\<rparr> ops of u \<Rightarrow>
    fst (verify_token sg ok (js_now u) tok (js_auth u)) = Inl (HTTPException 401)"
proof -
  obtain c' where v: "fst (verify_token sg ok1 now tok (au_jwt s)) = Inr c'"
    and j: "au_jwt s' = revoke_token sg saved now tok (snd (verify_token sg ok1 now tok (au_jwt s)))"
    using refresh_success [OF assms(5)] by blast
  have d: "jwt_decode sg True now tok = Inr c'" and "cl_jti c' \<noteq> None"
    using verify_token_decodes [OF v] by auto
  moreover have c': "c' = c"
    using decode_signed [OF d] assms(2) by simp
  ultimately obtain i where i: "cl_jti c = Some i"
    by auto
  have dead: "jti_expires sg i (seconds e) \<and> blocked saved (jh_in_tmp (fst (au_jwt s))) i (seconds e) (au_jwt s')"
    using revoked_is_dead [OF assms(1) d [unfolded c'] i assms(3) wf_verify_token [OF assms(4)], of saved sg ok1 now tok]
    unfolding j tmp_verify_token .
  show ?thesis
    using blocked_refused_forever [of sg i "seconds e" saved "jh_in_tmp (fst (au_jwt s))" "\<lparr>js_now = now, js_auth = au_jwt s'\<rparr>"
        tok c ops ok] dead assms(2,6) i
    by simp
qed

definition demo_auth :: auth_state where
  "demo_auth = \<lparr>au_rate = [], au_users = ([(''admin'', \<lparr>us_hash = None, us_roles = Some [''analyst'']\<rparr>)], 0), au_jwt = js_auth demo_jwt\<rparr>"

lemma demo_refresh:
  "fst (refresh demo_verifier demo_enc True True None 5000000 5000000 ''j'' (Inr []) ''ip'' ''T'' demo_auth) = Inr ''T''"
  by (simp add: refresh_def demo_auth_def check_rate_limit_def local_rate_limit_def verify_token_def jwt_decode_def
      demo_verifier_def seconds_def demo_jwt_def prune_revoked_def dict_has_def session_too_old_def max_session_lifetime_def
      get_users_def subject_of_def create_token_def demo_enc_def Let_def)

lemma refreshed_token_dies_witness:
  "case run (jwt_step demo_verifier) \<lparr>js_now = 5000000, js_auth = au_jwt (snd (refresh demo_verifier demo_enc True True None
      5000000 5000000 ''j'' (Inr []) ''ip'' ''T'' demo_auth))\<rparr> [Tick 3, Restart False True Readable] of u \<Rightarrow>
    fst (verify_token demo_verifier True (js_now u) ''T'' (js_auth u)) = Inl (HTTPException 401)"
proof -
  let ?r = "refresh demo_verifier demo_enc True True None 5000000 5000000 ''j'' (Inr []) ''ip'' ''T'' demo_auth"
  have r: "?r = (Inr ''T'', snd ?r)"
    using demo_refresh by (simp add: prod_eq_iff)
  have c: "demo_verifier ''T'' = Some (the (demo_verifier ''T''))" "cl_exp (the (demo_verifier ''T'')) = Some 900"
    by (simp_all add: demo_verifier_def)
  have w: "wf_dict (jh_revoked (fst (au_jwt demo_auth)))"
    and "list_all (keeps_record True (jh_in_tmp (fst (au_jwt demo_auth)))) [Tick 3, Restart False True Readable]"
    by (simp_all add: demo_auth_def demo_jwt_def)
  then show ?thesis
    using refreshed_token_dies [OF demo_unique_jti c w r] by blast
qed

text \<open>The refresh does not see that the blocklist could not be saved: it answers the new token, and after a restart the old
  one is accepted too.\<close>

lemma unsaved_refresh_forgets:
  "case refresh demo_verifier demo_enc True False None 5000000 5000000 ''j'' (Inr []) ''ip'' ''T'' demo_auth of (answer, s') \<Rightarrow>
     answer = Inr ''T'' \<and>
     (case run (jwt_step demo_verifier) \<lparr>js_now = 5000000, js_auth = au_jwt s'\<rparr> [Restart False True Readable] of u \<Rightarrow>
        is_ok (fst (verify_token demo_verifier True (js_now u) ''T'' (js_auth u))))"
  by (simp add: refresh_def demo_auth_def check_rate_limit_def local_rate_limit_def verify_token_def jwt_decode_def
      demo_verifier_def seconds_def demo_jwt_def prune_revoked_def dict_has_def session_too_old_def max_session_lifetime_def
      get_users_def subject_of_def create_token_def demo_enc_def revoke_token_def block_def save_blocklist_def
      open_blocklist_def seen_def dir_file_def load_blocklist_def Let_def)

section \<open>The rate limiter of refresh\<close>

definition rate_ok :: "rate_store \<Rightarrow> bool" where
  "rate_ok d \<longleftrightarrow> wf_dict d \<and> length d \<le> rate_store_cap \<and> (\<forall>p \<in> set d. length (snd p) \<le> 10)"

lemma evict_oldest_drop: "evict_oldest d = drop (length d - rate_store_cap) d"
  by (induction d) (auto simp: Suc_diff_le)

lemma rate_ok_evict:
  assumes "wf_dict d" "\<forall>p \<in> set d. length (snd p) \<le> 10"
  shows "rate_ok (evict_oldest d)"
  using assms set_drop_subset [of "length d - rate_store_cap" d]
  by (auto simp: rate_ok_def evict_oldest_drop wf_dict_def drop_map [symmetric] rate_store_cap_def)

lemma set_dict_put_subset: "set (dict_put k v d) \<subseteq> insert (k, v) (set d)"
  by (induction d) (auto split: if_splits)

lemma set_move_to_end: "set (dict_move_to_end k d) \<subseteq> set d"
  by (auto simp: dict_move_to_end_def dict_del_def split: option.splits dest: map_of_SomeD)

lemma rate_ok_local:
  assumes "rate_ok d"
  shows "rate_ok (snd (local_rate_limit clk ip d))"
proof -
  have "rate_ok (evict_oldest (dict_move_to_end ip (dict_put ip ts d)))" if "length ts \<le> 10" for ts
    using assms that set_dict_put_subset [of ip ts d] set_move_to_end [of ip "dict_put ip ts d"]
    by (intro rate_ok_evict) (auto simp: rate_ok_def)
  then show ?thesis
    using assms by (simp add: local_rate_limit_def Let_def)
qed

lemma rate_ok_check: "rate_ok d \<Longrightarrow> rate_ok (snd (check_rate_limit redis clk ip d))"
  by (auto simp: check_rate_limit_def rate_ok_local split: option.split)

fun rate_step :: "nat option option \<times> time \<times> string \<Rightarrow> rate_store \<Rightarrow> rate_store" where
  "rate_step (redis, clk, ip) d = snd (check_rate_limit redis clk ip d)"

lemma rate_ok_step: "rate_ok d \<Longrightarrow> rate_ok (rate_step e d)"
  by (cases e) (simp add: rate_ok_check)

interpretation refresh_rate: machine rate_step "\<lambda>d. d = []" rate_ok
  by unfold_locales (simp add: rate_ok_def, rule rate_ok_step)

text \<open>The limiter's memory is bounded: whatever requests arrive, from however many addresses, it holds at most 10,000
  addresses, each once and with at most 10 times.\<close>

theorem rate_store_bounded:
  "case run rate_step [] reqs of d \<Rightarrow>
     length d \<le> 10000 \<and> distinct (map fst d) \<and> list_all (\<lambda>(ip, ts). length ts \<le> 10) d"
  using refresh_rate.reachable_inv [of "[]" reqs]
  by (auto simp: rate_ok_def rate_store_cap_def wf_dict_def list_all_iff)

end
