(* ===== verification/Iso_Time.thy ===== *)
theory Iso_Time
  imports Prelude
begin

text \<open>
  \<open>datetime.isoformat()\<close> of an instant in UTC, as the repositories store it: the calendar date by counting years and
  months, zero-padded fields, and a fraction only when it is not zero. Instants count from 1970 as in the rest of the
  development; the range of Python's dates is the years 1 to 9999. The section's result is that comparing the
  texts compares the instants.
\<close>

section \<open>The calendar\<close>

definition leap :: "nat \<Rightarrow> bool" where
  "leap y \<longleftrightarrow> 4 dvd y \<and> (\<not> 100 dvd y \<or> 400 dvd y)"

definition year_len :: "nat \<Rightarrow> nat" where
  "year_len y = (if leap y then 366 else 365)"

function year_day :: "nat \<Rightarrow> nat \<Rightarrow> nat \<times> nat" where
  "year_day y n = (if n < year_len y then (y, n) else year_day (Suc y) (n - year_len y))"
  by pat_completeness auto
termination
  by (relation "measure snd") (auto simp: year_len_def)

declare year_day.simps [simp del]

definition month_lens :: "nat \<Rightarrow> nat list" where
  "month_lens y = [31, if leap y then 29 else 28, 31, 30, 31, 30, 31, 31, 30, 31, 30, 31]"

fun month_day :: "nat list \<Rightarrow> nat \<Rightarrow> nat \<Rightarrow> nat \<times> nat" where
  "month_day [] m n = (m, Suc n)"
| "month_day (l # ls) m n = (if n < l then (m, Suc n) else month_day ls (Suc m) (n - l))"

section \<open>The text\<close>

text \<open>\<open>n\<close> in \<open>k\<close> digits.\<close>

fun pad :: "nat \<Rightarrow> nat \<Rightarrow> string" where
  "pad 0 n = []"
| "pad (Suc k) n = pad k (n div 10) @ [char_of (48 + n mod 10)]"

definition date_text :: "nat \<Rightarrow> string" where
  "date_text days =
     (case year_day 1 days of (y, n) \<Rightarrow>
        (case month_day (month_lens y) 1 n of (m, d) \<Rightarrow> pad 4 y @ ''-'' @ pad 2 m @ ''-'' @ pad 2 d))"

definition clock_text :: "nat \<Rightarrow> string" where
  "clock_text s = pad 2 (s div 3600) @ '':'' @ pad 2 (s div 60 mod 60) @ '':'' @ pad 2 (s mod 60)"

definition fraction_text :: "nat \<Rightarrow> string" where
  "fraction_text us = (if us = 0 then ''+00:00'' else ''.'' @ pad 6 us @ ''+00:00'')"

definition day_us :: int where
  "day_us = 86400 * 1000000"

text \<open>Microseconds since the first instant of year 1.\<close>

definition since_year_one :: "time \<Rightarrow> nat" where
  "since_year_one t = nat (t + 719162 * day_us)"

definition iso_text :: "time \<Rightarrow> string" where
  "iso_text t =
     (let n = since_year_one t; us = n mod 1000000; s = n div 1000000
      in date_text (s div 86400) @ ''T'' @ clock_text (s mod 86400) @ fraction_text us)"

definition in_range :: "time \<Rightarrow> bool" where
  "in_range t \<longleftrightarrow> - 719162 * day_us \<le> t \<and> t < (3652059 - 719162) * day_us"

section \<open>Order of texts\<close>

lemma less_div_mod: "(n :: nat) < m \<longleftrightarrow> n div k < m div k \<or> n div k = m div k \<and> n mod k < m mod k"
proof -
  have "n < m" if "n div k < m div k"
    using that div_le_mono [of m n k] by (meson not_less)
  moreover have "n < m \<longleftrightarrow> n mod k < m mod k" if "n div k = m div k"
    using that by (metis div_mult_mod_eq nat_add_left_cancel_less)
  moreover have "n div k \<le> m div k" if "n < m"
    using that by (simp add: div_le_mono)
  ultimately show ?thesis
    by (meson le_neq_implies_less less_irrefl)
qed

lemma eq_div_mod: "(n :: nat) = m \<longleftrightarrow> n div k = m div k \<and> n mod k = m mod k"
  by (metis div_mult_mod_eq)

lemma append_less_iff:
  fixes x y :: "'a::linorder list"
  assumes "length x = length y"
  shows "x @ u < y @ v \<longleftrightarrow> x < y \<or> x = y \<and> u < v"
  using assms by (induction x y rule: list_induct2) auto

lemma length_pad [simp]: "length (pad k n) = k"
  by (induction k arbitrary: n) auto

lemma digit_less_iff: "a < 10 \<Longrightarrow> b < 10 \<Longrightarrow> (char_of (48 + a) < (char_of (48 + b) :: char)) \<longleftrightarrow> a < (b :: nat)"
  unfolding less_char_def of_char_of by simp

lemma digit_eq_iff: "a < 10 \<Longrightarrow> b < 10 \<Longrightarrow> (char_of (48 + a) = (char_of (48 + b) :: char)) \<longleftrightarrow> a = (b :: nat)"
  by (metis digit_less_iff less_irrefl linorder_cases)

lemma pad_eq_iff: "n < 10 ^ k \<Longrightarrow> m < 10 ^ k \<Longrightarrow> pad k n = pad k m \<longleftrightarrow> n = m"
proof (induction k arbitrary: n m)
  case (Suc k)
  have "n div 10 < 10 ^ k" "m div 10 < 10 ^ k"
    using Suc.prems by (simp_all add: less_mult_imp_div_less mult.commute)
  then have "pad (Suc k) n = pad (Suc k) m \<longleftrightarrow> n div 10 = m div 10 \<and> n mod 10 = m mod 10"
    using Suc.IH by (simp add: digit_eq_iff)
  then show ?case
    by (simp only: eq_div_mod [of n m 10])
qed simp

lemma pad_less_iff: "n < 10 ^ k \<Longrightarrow> m < 10 ^ k \<Longrightarrow> pad k n < pad k m \<longleftrightarrow> n < m"
proof (induction k arbitrary: n m)
  case (Suc k)
  have b: "n div 10 < 10 ^ k" "m div 10 < 10 ^ k"
    using Suc.prems by (simp_all add: less_mult_imp_div_less mult.commute)
  have "pad (Suc k) n < pad (Suc k) m \<longleftrightarrow> n div 10 < m div 10 \<or> n div 10 = m div 10 \<and> n mod 10 < m mod 10"
    using Suc.IH [OF b] pad_eq_iff [OF b] by (simp add: append_less_iff digit_less_iff)
  also have "\<dots> \<longleftrightarrow> n < m"
    by (rule less_div_mod [symmetric])
  finally show ?case .
qed simp

section \<open>Order of dates\<close>

definition days_before :: "nat \<Rightarrow> nat" where
  "days_before y = 365 * y + y div 4 - y div 100 + y div 400"

lemma days_before_Suc: "days_before (Suc y) = days_before y + year_len (Suc y)"
proof -
  have "y div 100 \<le> 365 * y + y div 4" "Suc y div 100 \<le> 365 * Suc y + Suc y div 4"
    using div_le_dividend [of y 100] div_le_dividend [of "Suc y" 100] by linarith+
  moreover have "4 dvd Suc y" if "100 dvd Suc y"
    using that by (rule dvd_trans [rotated]) simp
  ultimately show ?thesis
    unfolding days_before_def year_len_def leap_def div_Suc dvd_eq_mod_eq_0
    by (auto simp: algebra_simps)
qed

lemma year_day_days: "year_day (Suc y) n = (z, r) \<Longrightarrow> r < year_len z \<and> y < z \<and> days_before y + n = days_before (z - 1) + r"
proof (induction n arbitrary: y rule: less_induct)
  case (less n)
  show ?case
  proof (cases "n < year_len (Suc y)")
    case True
    then show ?thesis using less.prems by (auto simp: year_day.simps [of "Suc y"])
  next
    case False
    then have "year_day (Suc (Suc y)) (n - year_len (Suc y)) = (z, r)"
      using less.prems by (simp add: year_day.simps [of "Suc y"])
    moreover have "n - year_len (Suc y) < n"
      using False by (simp add: year_len_def split: if_splits)
    ultimately show ?thesis
      using less.IH [of "n - year_len (Suc y)" "Suc y"] False by (simp add: days_before_Suc)
  qed
qed

lemma days_before_mono: "y \<le> z \<Longrightarrow> days_before y \<le> days_before z"
  by (induction rule: dec_induct) (simp_all add: days_before_Suc)

lemma year_day_bound:
  assumes "n < 3652059"
  shows "fst (year_day 1 n) < 10000"
proof (rule ccontr)
  obtain z r where z: "year_day (Suc 0) n = (z, r)"
    by (cases "year_day (Suc 0) n")
  have v: "days_before 9999 = 3652059" and v0: "days_before 0 = 0"
    by (simp_all add: days_before_def)
  assume "\<not> fst (year_day 1 n) < 10000"
  then have "days_before 9999 \<le> days_before (z - 1)"
    using z by (intro days_before_mono) simp
  then show False
    using year_day_days [OF z] assms v by (simp add: v0)
qed

lemma year_day_less:
  assumes "n < m" "year_day 1 n = (y, a)" "year_day 1 m = (z, b)"
  shows "y < z \<or> y = z \<and> a < b"
proof -
  have n: "a < year_len y" "0 < y" "n = days_before (y - 1) + a"
    using year_day_days [of 0 n y a] assms(2) by (auto simp: days_before_def)
  have m: "b < year_len z" "0 < z" "m = days_before (z - 1) + b"
    using year_day_days [of 0 m z b] assms(3) by (auto simp: days_before_def)
  have "y \<le> z"
  proof (rule ccontr)
    assume "\<not> y \<le> z"
    then have "days_before z \<le> days_before (y - 1)"
      by (intro days_before_mono) simp
    moreover have "days_before z = days_before (z - 1) + year_len z"
      using m(2) days_before_Suc [of "z - 1"] by simp
    ultimately show False
      using assms(1) n m by simp
  qed
  then show ?thesis
    using assms(1) n(3) m(3) by (cases "y = z") auto
qed

lemma month_day_bounds:
  "n < sum_list ls \<Longrightarrow> list_all (\<lambda>l. l \<le> 31) ls \<Longrightarrow> month_day ls m n = (x, a) \<Longrightarrow> m \<le> x \<and> x < m + length ls \<and> a \<le> 31"
  by (induction ls m n rule: month_day.induct) (fastforce split: if_splits)+

lemma month_day_start: "month_day ls m n = (x, a) \<Longrightarrow> m \<le> x \<and> 1 \<le> a"
  by (induction ls m n rule: month_day.induct) (auto split: if_splits)

lemma month_day_less:
  "n < k \<Longrightarrow> k < sum_list ls \<Longrightarrow> month_day ls m n = (x, a) \<Longrightarrow> month_day ls m k = (y, b) \<Longrightarrow> x < y \<or> x = y \<and> a < b"
proof (induction ls m n arbitrary: k rule: month_day.induct)
  case (2 l ls m n)
  show ?case
  proof (cases "n < l")
    case True
    then show ?thesis
      using 2 month_day_start [of ls "Suc m" "k - l" y b] by (auto split: if_splits)
  next
    case False
    then show ?thesis
      using "2.IH" [OF False, of "k - l"] "2.prems" by simp
  qed
qed simp

text \<open>The texts of two dates compare as the dates.\<close>

lemma date_parts:
  assumes "days < 3652059" "year_day 1 days = (y, n)" "month_day (month_lens y) 1 n = (m, d)"
  shows "y < 10 ^ 4 \<and> m < 10 ^ 2 \<and> d < 10 ^ 2 \<and> n < sum_list (month_lens y)"
proof -
  have n: "n < sum_list (month_lens y)"
    using year_day_days [of 0 days y n] assms(2) by (simp add: year_len_def month_lens_def split: if_splits)
  moreover have "list_all (\<lambda>l. l \<le> 31) (month_lens y)" "length (month_lens y) = 12"
    by (simp_all add: month_lens_def)
  ultimately show ?thesis
    using month_day_bounds [OF n _ assms(3)] year_day_bound [OF assms(1)] assms(2) by simp
qed

lemma length_date_text [simp]: "length (date_text days) = 10"
  by (simp add: date_text_def split: prod.split)

lemma length_clock_text [simp]: "length (clock_text s) = 8"
  by (simp add: clock_text_def)

lemma date_text_less:
  assumes "days < days'" "days' < 3652059"
  shows "date_text days < date_text days'"
proof -
  obtain y n where y: "year_day 1 days = (y, n)" by (cases "year_day 1 days")
  obtain y' n' where y': "year_day 1 days' = (y', n')" by (cases "year_day 1 days'")
  obtain m d where m: "month_day (month_lens y) 1 n = (m, d)" by (cases "month_day (month_lens y) 1 n")
  obtain m' d' where m': "month_day (month_lens y') 1 n' = (m', d')" by (cases "month_day (month_lens y') 1 n'")
  have b: "y < 10 ^ 4" "m < 10 ^ 2" "d < 10 ^ 2"
    using date_parts [OF _ y m] assms by auto
  have b': "y' < 10 ^ 4" "m' < 10 ^ 2" "d' < 10 ^ 2" "n' < sum_list (month_lens y')"
    using date_parts [OF _ y' m'] assms by auto
  have "y < y' \<or> y = y' \<and> (m < m' \<or> m = m' \<and> d < d')"
    using year_day_less [OF assms(1) y y'] month_day_less [of n n' "month_lens y'" 1 m d m' d'] m m' b'(4) by auto
  then show ?thesis
    unfolding date_text_def y y' m m'
    by (simp add: append_less_iff pad_less_iff [OF b(1) b'(1)] pad_less_iff [OF b(2) b'(2)] pad_less_iff [OF b(3) b'(3)]
        pad_eq_iff [OF b(1) b'(1)] pad_eq_iff [OF b(2) b'(2)] m m' del: pad.simps One_nat_def)
qed

lemma clock_text_less:
  assumes "s < s'" "s' < 86400"
  shows "clock_text s < clock_text s'"
proof -
  have b: "s div 3600 < 10 ^ 2" "s' div 3600 < 10 ^ 2" "s div 60 mod 60 < 10 ^ 2" "s' div 60 mod 60 < 10 ^ 2"
    "s mod 60 < 10 ^ 2" "s' mod 60 < 10 ^ 2"
    using assms by (auto intro: less_trans [OF mod_less_divisor])
  have "s div 60 < s' div 60 \<or> s div 60 = s' div 60 \<and> s mod 60 < s' mod 60"
    using assms(1) less_div_mod [of s s' 60] by simp
  moreover have "s div 60 < s' div 60 \<longleftrightarrow> s div 3600 < s' div 3600 \<or> s div 3600 = s' div 3600 \<and> s div 60 mod 60 < s' div 60 mod 60"
    using less_div_mod [of "s div 60" "s' div 60" 60] by (simp add: div_mult2_eq [symmetric])
  ultimately have "s div 3600 < s' div 3600 \<or> s div 3600 = s' div 3600 \<and> (s div 60 mod 60 < s' div 60 mod 60
      \<or> s div 60 mod 60 = s' div 60 mod 60 \<and> s mod 60 < s' mod 60)"
    using div_mult2_eq [of s 60 60] div_mult2_eq [of s' 60 60] by auto
  then show ?thesis
    unfolding clock_text_def
    by (simp add: append_less_iff pad_less_iff [OF b(1) b(2)] pad_less_iff [OF b(3) b(4)] pad_less_iff [OF b(5) b(6)]
        pad_eq_iff [OF b(1) b(2)] pad_eq_iff [OF b(3) b(4)] del: pad.simps)
qed

lemma fraction_text_less:
  assumes "us < us'" "us' < 1000000"
  shows "fraction_text us < fraction_text us'"
proof (cases "us = 0")
  case True
  then show ?thesis using assms by (simp add: fraction_text_def less_char_def)
next
  case False
  have b: "us < 10 ^ 6" "us' < 10 ^ 6"
    using assms by simp_all
  show ?thesis
    using assms(1) False unfolding fraction_text_def
    by (simp add: append_less_iff pad_less_iff [OF b] pad_eq_iff [OF b] del: pad.simps)
qed

lemma iso_text_less:
  assumes "in_range a" "in_range b" "a < b"
  shows "iso_text a < iso_text b"
proof -
  define n m where "n = since_year_one a" and "m = since_year_one b"
  have nm: "n < m" "m < 3652059 * 86400 * 1000000"
    using assms unfolding n_def m_def since_year_one_def in_range_def day_us_def by auto
  define s t where "s = n div 1000000" and "t = m div 1000000"
  have "s < t \<or> s = t \<and> n mod 1000000 < m mod 1000000"
    using nm(1) less_div_mod [of n m 1000000] by (simp add: s_def t_def)
  moreover have "s < t \<longleftrightarrow> s div 86400 < t div 86400 \<or> s div 86400 = t div 86400 \<and> s mod 86400 < t mod 86400"
    by (rule less_div_mod)
  moreover have "t div 86400 < 3652059"
    using nm(2) by (simp add: t_def less_mult_imp_div_less)
  ultimately show ?thesis
    unfolding iso_text_def Let_def n_def [symmetric] m_def [symmetric] s_def [symmetric] t_def [symmetric]
    using date_text_less [of "s div 86400" "t div 86400"] clock_text_less [of "s mod 86400" "t mod 86400"]
      fraction_text_less [of "n mod 1000000" "m mod 1000000"]
    by (auto simp: append_less_iff)
qed

lemma iso_text_less_iff: "in_range a \<Longrightarrow> in_range b \<Longrightarrow> iso_text a < iso_text b \<longleftrightarrow> a < b"
  using iso_text_less [of a b] iso_text_less [of b a] by (cases a b rule: linorder_cases) auto

end
