(* ===== verification/Enrollment.thy ===== *)
theory Enrollment
  imports Api_Keys Iso_Time
begin

text \<open>
  Enrollment of agents: \<open>storage/repositories/enrollment_tokens.py\<close>, \<open>enrollment_store.py\<close> and
  \<open>api/routers/enrollment.py\<close>. A row keeps the instants whose \<open>isoformat\<close> texts the table stores, so what is read back is
  the instant itself; the one statement that compares the texts compares them here. The X.509 library is a
  parameter: reading a request and what it accepts as a name; a certificate stands for its PEM text.
\<close>

section \<open>The token table\<close>

record token_row =
  et_id :: string
  et_hash :: string
  et_created_at :: time
  et_expires_at :: time
  et_created_by :: string

definition hash_token :: "hmac \<Rightarrow> string \<Rightarrow> string \<Rightarrow> string result" where
  "hash_token hm env raw = bind_result (load_hmac_secret env) (\<lambda>secret. Inr (hm secret (''enroll:'' @ raw)))"

definition token_create :: "hmac \<Rightarrow> string \<Rightarrow> time \<Rightarrow> uuid \<Rightarrow> string \<Rightarrow> time \<Rightarrow> string \<Rightarrow> token_row list
    \<Rightarrow> string result \<times> token_row list" where
  "token_create hm env now tid raw expires_at created_by t =
     (case hash_token hm env raw of
        Inl e \<Rightarrow> (Inl e, t)
      | Inr h \<Rightarrow>
          if list_ex (\<lambda>r. et_id r = tid \<or> et_hash r = h) t then (Inl (OtherError ''IntegrityError''), t)
          else (Inr tid, t @ [\<lparr>et_id = tid, et_hash = h, et_created_at = now, et_expires_at = expires_at,
                                et_created_by = created_by\<rparr>]))"

text \<open>One \<open>DELETE\<close>: the rows with the hash whose expiry text is greater than the text of the current instant.\<close>

definition token_matches :: "string \<Rightarrow> time \<Rightarrow> token_row \<Rightarrow> bool" where
  "token_matches h now r \<longleftrightarrow> et_hash r = h \<and> iso_text now < iso_text (et_expires_at r)"

definition verify_and_consume :: "hmac \<Rightarrow> string \<Rightarrow> time \<Rightarrow> string \<Rightarrow> token_row list \<Rightarrow> bool result \<times> token_row list" where
  "verify_and_consume hm env now raw t =
     (case hash_token hm env raw of
        Inl e \<Rightarrow> (Inl e, t)
      | Inr h \<Rightarrow> (Inr (length (filter (token_matches h now) t) = 1), filter (\<lambda>r. \<not> token_matches h now r) t))"

definition token_verify :: "hmac \<Rightarrow> string \<Rightarrow> time \<Rightarrow> string \<Rightarrow> token_row list \<Rightarrow> bool result" where
  "token_verify hm env now raw t =
     bind_result (hash_token hm env raw) (\<lambda>h.
       Inr (case find (\<lambda>r. et_hash r = h) t of None \<Rightarrow> False | Some r \<Rightarrow> now \<le> et_expires_at r))"

definition token_revoke :: "uuid \<Rightarrow> token_row list \<Rightarrow> bool \<times> token_row list" where
  "token_revoke tid t = (list_ex (\<lambda>r. et_id r = tid) t, filter (\<lambda>r. et_id r \<noteq> tid) t)"

text \<open>The listing: identifier, dates and creator; the expired rows are deleted on the way.\<close>

definition list_active :: "time \<Rightarrow> token_row list \<Rightarrow> (string \<times> time \<times> time \<times> string) list \<times> token_row list" where
  "list_active now t =
     (let expired = map et_id (filter (\<lambda>r. et_expires_at r < now) t)
      in (map (\<lambda>r. (et_id r, et_created_at r, et_expires_at r, et_created_by r)) (filter (\<lambda>r. now \<le> et_expires_at r) t),
          filter (\<lambda>r. et_id r \<notin> set expired) t))"

section \<open>The store\<close>

definition is_hex :: "char \<Rightarrow> bool" where
  "is_hex c \<longleftrightarrow> c \<in> set ''0123456789abcdef''"

definition is_safe_token :: "string \<Rightarrow> bool" where
  "is_safe_token token \<longleftrightarrow> length token = 64 \<and> list_all is_hex token"

definition create_enrollment :: "hmac \<Rightarrow> string \<Rightarrow> int \<Rightarrow> time \<Rightarrow> uuid \<Rightarrow> string \<Rightarrow> string \<Rightarrow> int option \<Rightarrow> token_row list
    \<Rightarrow> (string \<times> string) result \<times> token_row list" where
  "create_enrollment hm env default_ttl now tid raw created_by ttl_hours t =
     (let ttl = (case ttl_hours of None \<Rightarrow> default_ttl | Some n \<Rightarrow> n)
      in seq_res (token_create hm env now tid raw (now + seconds (3600 * ttl)) created_by t) (\<lambda>i t'. (Inr (raw, i), t')))"

definition validate_token :: "hmac \<Rightarrow> string \<Rightarrow> time \<Rightarrow> string \<Rightarrow> token_row list \<Rightarrow> bool result" where
  "validate_token hm env now raw t = (if \<not> is_safe_token raw then Inr False else token_verify hm env now raw t)"

definition validate_and_consume :: "hmac \<Rightarrow> string \<Rightarrow> time \<Rightarrow> string \<Rightarrow> token_row list \<Rightarrow> bool result \<times> token_row list" where
  "validate_and_consume hm env now raw t =
     (if \<not> is_safe_token raw then (Inr False, t) else verify_and_consume hm env now raw t)"

section \<open>Certificates\<close>

definition is_alnum :: "char \<Rightarrow> bool" where
  "is_alnum c \<longleftrightarrow> (CHR ''a'' \<le> c \<and> c \<le> CHR ''z'') \<or> (CHR ''A'' \<le> c \<and> c \<le> CHR ''Z'') \<or> (CHR ''0'' \<le> c \<and> c \<le> CHR ''9'')"

text \<open>The pattern between its anchors: letters and digits at both ends, letters, digits, hyphens and dots between.\<close>

definition hostname_chars :: "string \<Rightarrow> bool" where
  "hostname_chars s \<longleftrightarrow> s \<noteq> [] \<and> length s \<le> 253 \<and> is_alnum (hd s) \<and> is_alnum (last s)
     \<and> list_all (\<lambda>c. is_alnum c \<or> c = CHR ''-'' \<or> c = CHR ''.'') s"

text \<open>\<open>re.match\<close> with a final \<open>$\<close> also accepts one line feed at the end.\<close>

definition hostname_re :: "string \<Rightarrow> bool" where
  "hostname_re s \<longleftrightarrow> hostname_chars s \<or> (s \<noteq> [] \<and> last s = CHR 0x0A \<and> hostname_chars (butlast s))"

record csr_info =
  cs_key :: string
  cs_signature_valid :: bool

record certificate =
  ct_subject :: string
  ct_issuer :: string
  ct_key :: string
  ct_serial :: nat
  ct_from :: time
  ct_until :: time
  ct_alt_name :: string
  ct_is_ca :: bool

record ca =
  ca_subject :: string
  ca_is_rsa :: bool

record x509_lib =
  xl_load_csr :: "string \<Rightarrow> csr_info option"
  xl_name_ok :: "string \<Rightarrow> bool"

definition sign_csr :: "x509_lib \<Rightarrow> ca \<Rightarrow> time \<Rightarrow> nat \<Rightarrow> string \<Rightarrow> string \<Rightarrow> certificate result" where
  "sign_csr lib ca now serial csr_pem hostname =
     (if \<not> hostname_re hostname then Inl ValueError
      else case xl_load_csr lib csr_pem of
             None \<Rightarrow> Inl ValueError
           | Some csr \<Rightarrow>
               if \<not> cs_signature_valid csr then Inl ValueError
               else if \<not> ca_is_rsa ca then Inl ValueError
               else if \<not> xl_name_ok lib hostname then Inl ValueError
               else Inr \<lparr>ct_subject = hostname, ct_issuer = ca_subject ca, ct_key = cs_key csr, ct_serial = serial,
                 ct_from = now, ct_until = now + seconds (365 * 86400), ct_alt_name = hostname, ct_is_ca = False\<rparr>)"

section \<open>The routes\<close>

definition create_enrollment_token :: "hmac \<Rightarrow> string \<Rightarrow> int \<Rightarrow> time \<Rightarrow> uuid \<Rightarrow> string \<Rightarrow> int option \<Rightarrow> identity result
    \<Rightarrow> token_row list \<Rightarrow> (string \<times> string) result \<times> token_row list" where
  "create_enrollment_token hm env default_ttl now tid raw expires_in auth t =
     (case auth of
        Inl e \<Rightarrow> (Inl e, t)
      | Inr i \<Rightarrow>
          if (case expires_in of None \<Rightarrow> False | Some n \<Rightarrow> n < 1 \<or> 8760 < n) then (Inl (HTTPException 422), t)
          else create_enrollment hm env default_ttl now tid raw
                 (case identity_sub i of None \<Rightarrow> ''unknown'' | Some s \<Rightarrow> s) expires_in t)"

definition list_enrollment_tokens :: "time \<Rightarrow> identity result \<Rightarrow> token_row list
    \<Rightarrow> (string \<times> time \<times> time \<times> string) list result \<times> token_row list" where
  "list_enrollment_tokens now auth t =
     (case auth of Inl e \<Rightarrow> (Inl e, t) | Inr i \<Rightarrow> (case list_active now t of (l, t') \<Rightarrow> (Inr l, t')))"

definition revoke_enrollment_token :: "uuid \<Rightarrow> identity result \<Rightarrow> token_row list \<Rightarrow> unit result \<times> token_row list" where
  "revoke_enrollment_token tid auth t =
     (case auth of
        Inl e \<Rightarrow> (Inl e, t)
      | Inr i \<Rightarrow> (case token_revoke tid t of (found, t') \<Rightarrow> (if found then Inr () else Inl (HTTPException 404), t')))"

definition get_ca_cert :: "hmac \<Rightarrow> string \<Rightarrow> time \<Rightarrow> string \<Rightarrow> string \<Rightarrow> token_row list \<Rightarrow> string result" where
  "get_ca_cert hm env now ca_pem raw t =
     bind_result (validate_token hm env now raw t) (\<lambda>ok. if ok then Inr ca_pem else Inl (HTTPException 404))"

record enroll_body =
  eb_csr :: string
  eb_hostname :: string

text \<open>The request body is checked before the handler runs; the pattern there has no line feed exception.\<close>

definition body_ok :: "enroll_body \<Rightarrow> bool" where
  "body_ok b \<longleftrightarrow> length (eb_csr b) \<le> 8192 \<and> length (eb_hostname b) \<le> 253 \<and> hostname_chars (eb_hostname b)"

definition sign_agent_csr :: "x509_lib \<Rightarrow> ca \<Rightarrow> hmac \<Rightarrow> string \<Rightarrow> time \<Rightarrow> nat \<Rightarrow> enroll_body \<Rightarrow> string \<Rightarrow> token_row list
    \<Rightarrow> certificate result \<times> token_row list" where
  "sign_agent_csr lib ca hm env now serial b raw t =
     (if \<not> body_ok b then (Inl (HTTPException 422), t)
      else seq_res (validate_and_consume hm env now raw t) (\<lambda>ok t'.
        if \<not> ok then (Inl (HTTPException 404), t')
        else (case sign_csr lib ca now serial (eb_csr b) (eb_hostname b) of
                Inl e \<Rightarrow> Inl (if e = ValueError then HTTPException 422 else e)
              | Inr cert \<Rightarrow> Inr cert, t')))"

section \<open>A token enrols one agent\<close>

datatype enroll_op =
    ECreate time uuid string "int option" "identity result"
  | ESign time nat enroll_body string
  | ERevoke uuid "identity result"
  | EList time "identity result"

fun enroll_step :: "x509_lib \<Rightarrow> ca \<Rightarrow> hmac \<Rightarrow> string \<Rightarrow> int \<Rightarrow> enroll_op \<Rightarrow> token_row list \<Rightarrow> token_row list" where
  "enroll_step lib ca hm env ttl (ECreate now tid raw ex auth) t = snd (create_enrollment_token hm env ttl now tid raw ex auth t)"
| "enroll_step lib ca hm env ttl (ESign now serial b raw) t = snd (sign_agent_csr lib ca hm env now serial b raw t)"
| "enroll_step lib ca hm env ttl (ERevoke tid auth) t = snd (revoke_enrollment_token tid auth t)"
| "enroll_step lib ca hm env ttl (EList now auth) t = snd (list_enrollment_tokens now auth t)"

text \<open>Certificates issued in a history for tokens with hash \<open>h\<close>, and requests to create such a token.\<close>

fun issues :: "x509_lib \<Rightarrow> ca \<Rightarrow> hmac \<Rightarrow> string \<Rightarrow> string \<Rightarrow> enroll_op \<Rightarrow> token_row list \<Rightarrow> nat" where
  "issues lib ca hm env h (ESign now serial b raw) t =
     (if is_ok (fst (sign_agent_csr lib ca hm env now serial b raw t)) \<and> hash_token hm env raw = Inr h then 1 else 0)"
| "issues lib ca hm env h _ t = 0"

fun issued_for :: "x509_lib \<Rightarrow> ca \<Rightarrow> hmac \<Rightarrow> string \<Rightarrow> int \<Rightarrow> string \<Rightarrow> enroll_op list \<Rightarrow> token_row list \<Rightarrow> nat" where
  "issued_for lib ca hm env ttl h [] t = 0"
| "issued_for lib ca hm env ttl h (e # es) t =
     issues lib ca hm env h e t + issued_for lib ca hm env ttl h es (enroll_step lib ca hm env ttl e t)"

fun creates :: "hmac \<Rightarrow> string \<Rightarrow> string \<Rightarrow> enroll_op \<Rightarrow> nat" where
  "creates hm env h (ECreate now tid raw ex auth) = (if hash_token hm env raw = Inr h then 1 else 0)"
| "creates hm env h _ = 0"

definition hash_rows :: "string \<Rightarrow> token_row list \<Rightarrow> nat" where
  "hash_rows h t = length (filter (\<lambda>r. et_hash r = h) t)"

lemma hash_rows_filter: "hash_rows h (filter P t) \<le> hash_rows h t"
  by (induction t) (auto simp: hash_rows_def)

lemma hash_rows_consume:
  "hash_rows h (filter (\<lambda>r. \<not> token_matches h now r) t) + length (filter (token_matches h now) t) = hash_rows h t"
  by (induction t) (auto simp: hash_rows_def token_matches_def)

lemma hash_rows_create:
  "hash_rows h (snd (create_enrollment_token hm env ttl now tid raw ex auth t)) \<le>
     hash_rows h t + (if hash_token hm env raw = Inr h then 1 else 0)"
proof -
  define k where "k = hash_rows h t + (if hash_token hm env raw = Inr h then 1 else (0 :: nat))"
  have "hash_rows h (snd (token_create hm env now tid raw e cb t)) \<le> k" for e cb
    by (simp add: token_create_def hash_rows_def k_def split: sum.split)
  moreover have "snd (seq_res p (\<lambda>i t'. (Inr (raw, i), t'))) = snd p" for p :: "string result \<times> token_row list"
    by (cases p; cases "fst p") auto
  moreover have "hash_rows h t \<le> k"
    by (simp add: k_def)
  ultimately have "hash_rows h (snd (create_enrollment_token hm env ttl now tid raw ex auth t)) \<le> k"
    unfolding create_enrollment_token_def create_enrollment_def Let_def by (cases auth) simp_all
  then show ?thesis by (simp only: k_def)
qed

lemma hash_rows_validate:
  "hash_rows h (snd (validate_and_consume hm env now raw t)) +
     (if fst (validate_and_consume hm env now raw t) = Inr True \<and> hash_token hm env raw = Inr h then 1 else 0) \<le> hash_rows h t"
proof (cases "hash_token hm env raw")
  case (Inr g)
  then show ?thesis
    using hash_rows_consume [of h now t] hash_rows_filter [of h "\<lambda>r. \<not> token_matches g now r" t]
    by (auto simp: validate_and_consume_def verify_and_consume_def)
qed (simp add: validate_and_consume_def verify_and_consume_def)

lemma sign_agent_csr_table:
  "snd (sign_agent_csr lib ca hm env now serial b raw t) = t \<and> \<not> is_ok (fst (sign_agent_csr lib ca hm env now serial b raw t)) \<or>
   snd (sign_agent_csr lib ca hm env now serial b raw t) = snd (validate_and_consume hm env now raw t) \<and>
   (is_ok (fst (sign_agent_csr lib ca hm env now serial b raw t)) \<longrightarrow> fst (validate_and_consume hm env now raw t) = Inr True)"
  unfolding sign_agent_csr_def
  by (cases "validate_and_consume hm env now raw t"; cases "fst (validate_and_consume hm env now raw t)")
    (auto split: sum.split)

lemma hash_rows_sign:
  "hash_rows h (snd (sign_agent_csr lib ca hm env now serial b raw t)) + issues lib ca hm env h (ESign now serial b raw) t
     \<le> hash_rows h t"
  using sign_agent_csr_table [of lib ca hm env now serial b raw t] hash_rows_validate [of h hm env now raw t]
  by (auto split: if_splits)

lemma hash_rows_step:
  "hash_rows h (enroll_step lib ca hm env ttl e t) + issues lib ca hm env h e t \<le> hash_rows h t + creates hm env h e"
proof (cases e)
  case (ESign now serial b raw)
  then show ?thesis
    using hash_rows_sign [of h lib ca hm env now serial b raw t] by simp
next
  case (ECreate now tid raw ex auth)
  then show ?thesis
    using hash_rows_create [of h hm env ttl now tid raw ex auth t] by simp
next
  case (ERevoke tid auth)
  then show ?thesis
    by (cases auth) (simp_all add: revoke_enrollment_token_def token_revoke_def hash_rows_filter)
next
  case (EList now auth)
  then show ?thesis
    by (cases auth) (simp_all add: list_enrollment_tokens_def list_active_def Let_def hash_rows_filter)
qed

lemma issued_bounded:
  "issued_for lib ca hm env ttl h ops t \<le> hash_rows h t + sum_list (map (creates hm env h) ops)"
proof (induction ops arbitrary: t)
  case (Cons e ops)
  then show ?case
    using hash_rows_step [of h lib ca hm env ttl e t] Cons.IH [of "enroll_step lib ca hm env ttl e t"]
    unfolding issued_for.simps list.map sum_list.Cons by linarith
qed simp

text \<open>C8: an enrollment token is good for one certificate: over any history of creations, signatures, revocations and
  listings, by anyone and in any order, the certificates issued against tokens with a given hash are at most as
  many as the tokens created with it.\<close>

theorem token_enrols_once:
  "issued_for lib ca hm env ttl h ops [] \<le> sum_list (map (creates hm env h) ops)"
  using issued_bounded [of lib ca hm env ttl h ops "[]"] by (simp add: hash_rows_def)

text \<open>The deletion that consumes a token compares texts, and that is the comparison of the instants: for dates
  of the years 1 to 9999 the \<open>isoformat\<close> text of the current instant sorts before the stored expiry exactly when
  the token has not expired, with or without fractions of a second.\<close>

theorem consume_compares_instants:
  assumes "in_range now" and "in_range (et_expires_at r)"
  shows "token_matches h now r = (et_hash r = h \<and> now < et_expires_at r)"
  using iso_text_less_iff [OF assms] by (simp add: token_matches_def)

definition demo_token_row :: token_row where
  "demo_token_row = \<lparr>et_id = ''i'', et_hash = ''h'', et_created_at = 0, et_expires_at = 3600000001, et_created_by = ''root''\<rparr>"

lemma consume_compares_instants_witness: "token_matches ''h'' 3600000000 demo_token_row"
  by (subst consume_compares_instants) (simp_all add: demo_token_row_def in_range_def day_us_def)

text \<open>At the very instant of expiry the check that fetches the CA still accepts the token, the one that signs does not.\<close>

lemma expiry_instant_differs:
  "hash_token hm env raw = Inr (et_hash r) \<Longrightarrow> token_verify hm env (et_expires_at r) raw [r] = Inr True \<and>
   fst (verify_and_consume hm env (et_expires_at r) raw [r]) = Inr False"
  by (simp add: token_verify_def verify_and_consume_def token_matches_def)

text \<open>A request that fails to be signed uses up its token: the token is deleted before the signing is tried, so after a
  422 for an invalid CSR the same token is refused, although the route documents that it is consumed after
  a successful signing.\<close>

theorem failed_csr_burns_token:
  assumes "distinct (map et_hash t)" and "body_ok b"
    and "fst (validate_and_consume hm env now raw t) = Inr True"
    and "xl_load_csr lib (eb_csr b) = None"
  shows "fst (sign_agent_csr lib ca hm env now serial b raw t) = Inl (HTTPException 422) \<and>
    fst (validate_and_consume hm env now' raw (snd (sign_agent_csr lib ca hm env now serial b raw t))) = Inr False"
proof -
  obtain t' where v: "validate_and_consume hm env now raw t = (Inr True, t')"
    using assms(3) by (cases "validate_and_consume hm env now raw t") simp
  have e: "sign_agent_csr lib ca hm env now serial b raw t = (Inl (HTTPException 422), t')"
    using assms(2,4) by (simp add: sign_agent_csr_def v sign_csr_def)
  obtain h where s: "is_safe_token raw" and h: "hash_token hm env raw = Inr h"
    using v by (cases "hash_token hm env raw") (auto simp: validate_and_consume_def verify_and_consume_def split: if_splits)
  have t': "t' = filter (\<lambda>r. \<not> token_matches h now r) t" and one: "length (filter (token_matches h now) t) = 1"
    using v by (simp_all add: validate_and_consume_def verify_and_consume_def h s)
  have "hash_rows h t \<le> 1"
    using assms(1) by (induction t) (auto simp: hash_rows_def filter_empty_conv, metis image_eqI)
  then have "hash_rows h t' = 0"
    using hash_rows_consume [of h now t] one by (simp add: t')
  then have "filter (token_matches h now') t' = []"
    by (auto simp: hash_rows_def token_matches_def filter_empty_conv)
  then show ?thesis
    by (simp add: e validate_and_consume_def verify_and_consume_def h s)
qed

definition demo_x509 :: x509_lib where
  "demo_x509 = \<lparr>xl_load_csr = (\<lambda>s. if s = ''good'' then Some \<lparr>cs_key = ''k'', cs_signature_valid = True\<rparr> else None),
     xl_name_ok = (\<lambda>s. True)\<rparr>"

definition demo_raw :: string where
  "demo_raw = replicate 64 (CHR ''a'')"

definition demo_tokens :: "token_row list" where
  "demo_tokens = [demo_token_row\<lparr>et_hash := ''h:enroll:'' @ demo_raw\<rparr>]"

lemma demo_token_valid: "validate_and_consume demo_hmac demo_env 3600000000 demo_raw demo_tokens = (Inr True, [])"
proof -
  have "hash_token demo_hmac demo_env demo_raw = Inr (''h:enroll:'' @ demo_raw)"
    by (simp add: hash_token_def load_hmac_secret_def demo_env_def demo_hmac_def)
  moreover have "is_safe_token demo_raw"
    by (simp add: is_safe_token_def demo_raw_def is_hex_def list_all_iff)
  moreover have "token_matches h 3600000000 (demo_token_row\<lparr>et_hash := h\<rparr>)" for h
    using iso_text_less_iff [of 3600000000 3600000001] by (simp add: token_matches_def demo_token_row_def in_range_def day_us_def)
  ultimately show ?thesis
    by (simp add: validate_and_consume_def verify_and_consume_def demo_tokens_def)
qed

lemma failed_csr_burns_token_witness:
  "fst (validate_and_consume demo_hmac demo_env 3600000000 demo_raw (snd (sign_agent_csr demo_x509 \<lparr>ca_subject = ''OSEye CA'',
     ca_is_rsa = True\<rparr> demo_hmac demo_env 3600000000 1 \<lparr>eb_csr = ''bad'', eb_hostname = ''host-1''\<rparr> demo_raw demo_tokens))) = Inr False"
  using failed_csr_burns_token [of demo_tokens "\<lparr>eb_csr = ''bad'', eb_hostname = ''host-1''\<rparr>" demo_hmac demo_env 3600000000 demo_raw
      demo_x509]
  by (simp add: demo_token_valid demo_x509_def body_ok_def hostname_chars_def is_alnum_def) (simp add: demo_tokens_def)

text \<open>What an issued certificate is: the request carried a well-formed token whose row was in the table and is gone, a
  host name of letters, digits, hyphens and dots, and a CSR whose signature verifies; the certificate names that
  host and nothing else, carries the key of the CSR, lasts 365 days and is not a CA.\<close>

theorem certificate_sound:
  "case sign_agent_csr lib ca hm env now serial b raw t of
     (Inl _, _) \<Rightarrow> True
   | (Inr cert, t') \<Rightarrow>
       is_safe_token raw \<and> Suc (length t') = length t
       \<and> ct_subject cert = eb_hostname b \<and> ct_alt_name cert = eb_hostname b \<and> \<not> ct_is_ca cert
       \<and> list_all (\<lambda>c. is_alnum c \<or> c = CHR ''-'' \<or> c = CHR ''.'') (eb_hostname b)
       \<and> map_option (\<lambda>csr. (cs_key csr, cs_signature_valid csr)) (xl_load_csr lib (eb_csr b)) = Some (ct_key cert, True)
       \<and> ct_until cert - ct_from cert = seconds (365 * 86400)"
proof (cases "sign_agent_csr lib ca hm env now serial b raw t")
  case (Pair r t')
  show ?thesis
  proof (cases r)
    case (Inr cert)
    have bo: "body_ok b"
      using Pair Inr by (simp add: sign_agent_csr_def split: if_splits)
    obtain ok t'' where v: "validate_and_consume hm env now raw t = (Inr ok, t'')"
      using Pair Inr bo
      by (cases "validate_and_consume hm env now raw t"; cases "fst (validate_and_consume hm env now raw t)")
        (auto simp: sign_agent_csr_def)
    have okt: "ok" "t' = t''" and c: "sign_csr lib ca now serial (eb_csr b) (eb_hostname b) = Inr cert"
      using Pair Inr bo by (auto simp: sign_agent_csr_def v split: if_splits sum.splits)
    obtain h where "is_safe_token raw" and one: "length (filter (token_matches h now) t) = 1"
      and t': "t' = filter (\<lambda>r. \<not> token_matches h now r) t"
      using v okt by (cases "hash_token hm env raw") (auto simp: validate_and_consume_def verify_and_consume_def split: if_splits)
    moreover have "Suc (length t') = length t"
      using sum_length_filter_compl [of "token_matches h now" t] one by (simp add: t')
    ultimately show ?thesis
      using Pair Inr bo c by (auto simp: sign_csr_def body_ok_def hostname_chars_def split: if_splits option.splits)
  qed (simp add: Pair)
qed

end
