(* ===== verification/Ws_Manager.thy ===== *)
theory Ws_Manager
  imports Api_Keys
begin

text \<open>
  Live streams to browsers: \<open>api/ws/manager.py\<close> and the endpoints \<open>api/ws/alerts.py\<close> and
  \<open>api/ws/decisions.py\<close>. A socket is a number; the registry's Python sets are lists without duplicates; the user a
  socket carries in its \<open>state\<close> is a dictionary of the model. Whether a send to a socket succeeds is an
  argument. The operations under the manager's lock are single steps.
\<close>

section \<open>The registry\<close>

record ws_manager =
  wm_conns :: "nat list"
  wm_per_user :: "(string, nat list) pydict"
  wm_sub :: "(nat, string option) pydict"
  wm_redis :: bool

definition max_global :: nat where
  "max_global = 500"

definition max_per_user :: nat where
  "max_per_user = 5"

definition user_conns :: "string \<Rightarrow> ws_manager \<Rightarrow> nat list" where
  "user_conns u m = (case map_of (wm_per_user m) u of None \<Rightarrow> [] | Some c \<Rightarrow> c)"

text \<open>The result is the code with which an over-full connection is closed.\<close>

definition ws_connect :: "nat \<Rightarrow> string option \<Rightarrow> ws_manager \<Rightarrow> nat option \<times> ws_manager" where
  "ws_connect ws user m =
     (if max_global \<le> length (wm_conns m) then (Some 4008, m)
      else case user of
             Some u \<Rightarrow>
               if max_per_user \<le> length (user_conns u m) then (Some 4008, m)
               else (None, m\<lparr>wm_per_user := dict_put u (append_new ws (user_conns u m)) (wm_per_user m),
                             wm_conns := append_new ws (wm_conns m), wm_sub := dict_put ws (Some u) (wm_sub m)\<rparr>)
           | None \<Rightarrow> (None, m\<lparr>wm_conns := append_new ws (wm_conns m), wm_sub := dict_put ws None (wm_sub m)\<rparr>))"

definition ws_discard :: "nat \<Rightarrow> nat list \<Rightarrow> nat list" where
  "ws_discard ws = filter (\<lambda>w. w \<noteq> ws)"

definition ws_disconnect :: "nat \<Rightarrow> ws_manager \<Rightarrow> ws_manager" where
  "ws_disconnect ws m =
     (let m' = m\<lparr>wm_conns := ws_discard ws (wm_conns m)\<rparr>
      in case map_of (wm_sub m) ws of
           Some (Some u) \<Rightarrow>
             (case map_of (wm_per_user m) u of
                None \<Rightarrow> m'
              | Some c \<Rightarrow>
                  (let c' = ws_discard ws c
                   in if c' = [] then m'\<lparr>wm_per_user := dict_del u (wm_per_user m)\<rparr>
                      else m'\<lparr>wm_per_user := dict_put u c' (wm_per_user m)\<rparr>))
         | _ \<Rightarrow> m')"

section \<open>Broadcasts\<close>

text \<open>The deliveries, and the registry without the sockets whose send failed.\<close>

definition broadcast_local :: "(nat \<Rightarrow> bool) \<Rightarrow> 'm \<Rightarrow> ws_manager \<Rightarrow> (nat \<times> 'm) list \<times> ws_manager" where
  "broadcast_local ok msg m =
     (map (\<lambda>w. (w, msg)) (filter ok (wm_conns m)), fold ws_disconnect (filter (\<lambda>w. \<not> ok w) (wm_conns m)) m)"

text \<open>A broadcast by the server with number \<open>i\<close> among servers that share one Redis channel: to its own sockets, then
  through Redis to every server that subscribes, itself included. \<open>redis_ok\<close>: the publication succeeds.\<close>

fun deliver_all :: "(nat \<Rightarrow> bool) \<Rightarrow> 'm \<Rightarrow> ws_manager list \<Rightarrow> (nat \<times> 'm) list \<times> ws_manager list" where
  "deliver_all ok msg [] = ([], [])"
| "deliver_all ok msg (m # ms) =
     (if wm_redis m
      then (case broadcast_local ok msg m of (d, m') \<Rightarrow> case deliver_all ok msg ms of (ds, ms') \<Rightarrow> (d @ ds, m' # ms'))
      else (case deliver_all ok msg ms of (ds, ms') \<Rightarrow> (ds, m # ms')))"

definition ws_broadcast :: "(nat \<Rightarrow> bool) \<Rightarrow> bool \<Rightarrow> 'm \<Rightarrow> nat \<Rightarrow> ws_manager list \<Rightarrow> (nat \<times> 'm) list \<times> ws_manager list" where
  "ws_broadcast ok redis_ok msg i ms =
     (case broadcast_local ok msg (ms ! i) of
        (d, m') \<Rightarrow>
          (if wm_redis (ms ! i) \<and> redis_ok
           then (case deliver_all ok msg (ms[i := m']) of (ds, ms') \<Rightarrow> (d @ ds, ms'))
           else (d, ms[i := m'])))"

section \<open>The endpoints\<close>

definition ws_roles :: "string list" where
  "ws_roles = [''analyst'', ''admin'']"

text \<open>What the first frame leads to: a close code, an exception out of the handler, or a subject to register. The key
  repository answers a dictionary; the handler reads the attribute \<open>name\<close> of it, which a dictionary does not
  have.\<close>

datatype ws_outcome = Closed nat | Crashed exn | Admitted "string option"

definition admit :: "string option \<Rightarrow> string list \<Rightarrow> ws_outcome" where
  "admit sub roles = (if list_ex (\<lambda>r. r \<in> set ws_roles) roles then Admitted sub else Closed 4003)"

definition ws_identify :: "(string \<Rightarrow> key_info option result) option \<Rightarrow> (string \<Rightarrow> 's \<Rightarrow> claims result \<times> 's) \<Rightarrow> string \<Rightarrow> 's
    \<Rightarrow> ws_outcome \<times> 's" where
  "ws_identify repo check token s =
     (if starts_with token ''osk_''
      then ((case repo of
               None \<Rightarrow> Closed 4001
             | Some vf \<Rightarrow>
                 (case vf token of
                    Inl _ \<Rightarrow> Closed 4001
                  | Inr None \<Rightarrow> Closed 4001
                  | Inr (Some info) \<Rightarrow> Crashed AttributeError)), s)
      else (case check token s of
              (Inl _, s') \<Rightarrow> (Closed 4001, s')
            | (Inr c, s') \<Rightarrow> (admit (cl_sub c) (case cl_roles c of None \<Rightarrow> [] | Some rs \<Rightarrow> rs), s')))"

text \<open>\<open>frame\<close>: the first text frame, \<open>None\<close> when none came within five seconds.\<close>

definition ws_alerts :: "(string \<Rightarrow> key_info option result) option \<Rightarrow> (string \<Rightarrow> 's \<Rightarrow> claims result \<times> 's) \<Rightarrow> string option
    \<Rightarrow> 's \<Rightarrow> ws_outcome \<times> 's" where
  "ws_alerts repo check frame s =
     (case frame of
        None \<Rightarrow> (Closed 4001, s)
      | Some token \<Rightarrow>
          if token = [] then (Closed 4001, s)
          else if 4096 < length token then (Closed 1008, s)
          else ws_identify repo check token s)"

definition ws_decisions :: "(string \<Rightarrow> key_info option result) option \<Rightarrow> (string \<Rightarrow> 's \<Rightarrow> claims result \<times> 's) \<Rightarrow> string option
    \<Rightarrow> 's \<Rightarrow> ws_outcome \<times> 's" where
  "ws_decisions repo check frame s =
     (case frame of
        None \<Rightarrow> (Closed 4001, s)
      | Some token \<Rightarrow>
          if token = [] \<or> 4096 < length token then (Closed (if token = [] then 4001 else 1008), s)
          else ws_identify repo check token s)"

section \<open>Slots\<close>

text \<open>Both caps hold, and a user's slots are exactly the user's connected sockets.\<close>

definition slots_ok :: "ws_manager \<Rightarrow> bool" where
  "slots_ok m \<longleftrightarrow> distinct (wm_conns m) \<and> length (wm_conns m) \<le> max_global \<and> wf_dict (wm_per_user m)
     \<and> (\<forall>u. distinct (user_conns u m) \<and> length (user_conns u m) \<le> max_per_user
          \<and> set (user_conns u m) = {w \<in> set (wm_conns m). map_of (wm_sub m) w = Some (Some u)})
     \<and> (\<forall>u c. map_of (wm_per_user m) u = Some c \<longrightarrow> c \<noteq> [])"

lemma length_append_new: "length (append_new x xs) \<le> Suc (length xs)"
  by (simp add: append_new_def)

lemma user_conns_put:
  "user_conns u (m\<lparr>wm_per_user := dict_put v c (wm_per_user m), wm_conns := cs, wm_sub := s\<rparr>) = (if u = v then c else user_conns u m)"
  by (simp add: user_conns_def)

lemma slots_ok_connect:
  assumes "slots_ok m" "ws \<notin> set (wm_conns m)"
  shows "slots_ok (snd (ws_connect ws user m))"
proof (cases "max_global \<le> length (wm_conns m)")
  case True
  then show ?thesis using assms by (simp add: ws_connect_def)
next
  case False
  show ?thesis
  proof (cases user)
    case None
    have "user_conns u (m\<lparr>wm_conns := cs, wm_sub := s\<rparr>) = user_conns u m" for u cs s
      by (simp add: user_conns_def)
    then show ?thesis
      using assms False None by (auto simp: slots_ok_def ws_connect_def append_new_def)
  next
    case (Some v)
    have "length (append_new ws (user_conns v m)) \<le> max_per_user" if "\<not> max_per_user \<le> length (user_conns v m)"
      using that length_append_new [of ws "user_conns v m"] by simp
    then show ?thesis
      using assms False Some
      by (auto simp: slots_ok_def ws_connect_def user_conns_put) (auto simp: append_new_def)
  qed
qed

lemma user_conns_disconnect:
  "user_conns u (ws_disconnect ws m) =
     (if map_of (wm_sub m) ws = Some (Some u) then ws_discard ws (user_conns u m) else user_conns u m)"
  unfolding ws_disconnect_def Let_def
  by (auto simp: user_conns_def ws_discard_def split: option.split)

lemma ws_disconnect_rest [simp]:
  "wm_conns (ws_disconnect ws m) = ws_discard ws (wm_conns m)" "wm_sub (ws_disconnect ws m) = wm_sub m"
  "wm_redis (ws_disconnect ws m) = wm_redis m"
  by (auto simp: ws_disconnect_def Let_def split: option.split)

lemma ws_disconnect_per_user:
  assumes "wf_dict (wm_per_user m)" "\<forall>u c. map_of (wm_per_user m) u = Some c \<longrightarrow> c \<noteq> []"
  shows "wf_dict (wm_per_user (ws_disconnect ws m)) \<and> (\<forall>u c. map_of (wm_per_user (ws_disconnect ws m)) u = Some c \<longrightarrow> c \<noteq> [])"
  using assms unfolding ws_disconnect_def Let_def
  by (auto split: option.split)

lemma slots_ok_disconnect:
  assumes "slots_ok m"
  shows "slots_ok (ws_disconnect ws m)"
proof -
  have "length (ws_discard ws c) \<le> n" if "length c \<le> n" for c :: "nat list" and n
    using order_trans [OF length_filter_le that] by (simp add: ws_discard_def)
  moreover have "set (ws_discard ws c) = set c - {ws}" "distinct c \<Longrightarrow> distinct (ws_discard ws c)" for c :: "nat list"
    by (auto simp: ws_discard_def)
  ultimately show ?thesis
    using assms ws_disconnect_per_user [of m ws]
    by (auto simp: slots_ok_def user_conns_disconnect)
qed

text \<open>What happens to one server's registry. A socket is registered once: each connection is a new object.\<close>

datatype ws_op = WConnect nat "string option" | WDisconnect nat | WBroadcast "nat list"

fun ws_step :: "ws_op \<Rightarrow> ws_manager \<Rightarrow> ws_manager" where
  "ws_step (WConnect ws user) m = (if ws \<in> set (wm_conns m) then m else snd (ws_connect ws user m))"
| "ws_step (WDisconnect ws) m = ws_disconnect ws m"
| "ws_step (WBroadcast broken) m = snd (broadcast_local (\<lambda>w. w \<notin> set broken) () m)"

definition empty_ws :: "bool \<Rightarrow> ws_manager" where
  "empty_ws redis = \<lparr>wm_conns = [], wm_per_user = [], wm_sub = [], wm_redis = redis\<rparr>"

lemma slots_ok_fold: "slots_ok m \<Longrightarrow> slots_ok (fold ws_disconnect ws m)"
  by (induction ws arbitrary: m) (auto intro: slots_ok_disconnect)

lemma slots_ok_step: "slots_ok m \<Longrightarrow> slots_ok (ws_step e m)"
  by (cases e) (auto simp: broadcast_local_def intro: slots_ok_connect slots_ok_disconnect slots_ok_fold)

lemma slots_ok_empty: "slots_ok (empty_ws redis)"
  by (simp add: slots_ok_def empty_ws_def user_conns_def)

interpretation ws_slots: machine ws_step "\<lambda>m. m = empty_ws redis" slots_ok
  for redis
  by unfold_locales (auto intro: slots_ok_empty slots_ok_step)

text \<open>C40: connection slots: after any connections, disconnections and broadcasts with failing sockets, at most 500 sockets
  are connected and at most 5 of any user, and a user's slots are exactly the user's connected sockets, so every
  disconnection gives its slot back and no refused connection takes one.\<close>

theorem slots_bounded:
  "case run ws_step (empty_ws redis) ops of m \<Rightarrow>
     length (wm_conns m) \<le> 500 \<and> length (user_conns u m) \<le> 5 \<and>
     set (user_conns u m) = {w \<in> set (wm_conns m). map_of (wm_sub m) w = Some (Some u)}"
  using ws_slots.reachable_inv [of "empty_ws redis" redis ops]
  by (simp add: slots_ok_def max_global_def max_per_user_def)

section \<open>Admission\<close>

text \<open>A live stream opens only to analysts and administrators: a socket is registered only after its first frame was
  a token of at most 4096 characters that the handler verifies and whose claims carry one of the two roles.\<close>

theorem stream_needs_role:
  "case fst (ws_alerts repo (\<lambda>tok. verify_token sg ok now tok) frame js) of
     Admitted sub \<Rightarrow>
       (case frame of
          None \<Rightarrow> False
        | Some tok \<Rightarrow>
            length tok \<le> 4096 \<and>
            (case fst (verify_token sg ok now tok js) of
               Inl _ \<Rightarrow> False
             | Inr c \<Rightarrow> cl_sub c = sub \<and> (case cl_roles c of None \<Rightarrow> False | Some rs \<Rightarrow> ''analyst'' \<in> set rs \<or> ''admin'' \<in> set rs)))
   | _ \<Rightarrow> True"
proof (cases "\<exists>tok. frame = Some tok \<and> tok \<noteq> [] \<and> length tok \<le> 4096")
  case False
  then have "\<not> (\<exists>sub. fst (ws_alerts repo (\<lambda>tok. verify_token sg ok now tok) frame js) = Admitted sub)"
    by (cases frame) (auto simp: ws_alerts_def)
  then show ?thesis
    by (auto split: ws_outcome.split)
next
  case True
  then obtain tok where f: "frame = Some tok" "tok \<noteq> []" "length tok \<le> 4096"
    by blast
  show ?thesis
  proof (cases "starts_with tok ''osk_''")
    case True
    then show ?thesis
      using f by (simp add: ws_alerts_def ws_identify_def split: option.split sum.split)
  next
    case False
    obtain v j where v: "verify_token sg ok now tok js = (v, j)"
      by (cases "verify_token sg ok now tok js")
    show ?thesis
      using f False unfolding ws_alerts_def ws_identify_def
      by (cases v; cases "cl_roles (projr v)") (auto simp: v admit_def ws_roles_def list_ex_iff)
  qed
qed

lemma both_streams_alike: "ws_decisions repo check frame s = ws_alerts repo check frame s"
  by (simp add: ws_decisions_def ws_alerts_def split: option.split)

text \<open>API keys never open a stream: both endpoints accept frames that start with \<open>osk_\<close> and look the key up, but for a
  valid key the handler raises an \<open>AttributeError\<close> on the dictionary that the lookup returns.\<close>

theorem api_key_stream_crashes:
  "fst (ws_alerts (Some (\<lambda>raw. key_verify demo_hmac demo_env now raw (demo_keys None))) check (Some ''osk_abc'') s) =
     Crashed AttributeError"
  by (simp add: ws_alerts_def ws_identify_def demo_verify)

section \<open>Duplicates\<close>

lemma broadcast_all: "broadcast_local (\<lambda>_. True) msg m = (map (\<lambda>w. (w, msg)) (wm_conns m), m)"
  by (simp add: broadcast_local_def)

lemma count_deliveries: "count_list (map (\<lambda>w. (w, msg)) ws) (w, msg) = count_list ws w"
  by (induction ws) auto

lemma deliver_all_counts:
  "\<forall>m \<in> set ms. wm_redis m \<Longrightarrow>
   count_list (fst (deliver_all (\<lambda>_. True) msg ms)) (w, msg) = sum_list (map (\<lambda>m. count_list (wm_conns m) w) ms)
   \<and> snd (deliver_all (\<lambda>_. True) msg ms) = ms"
  by (induction ms) (auto simp: broadcast_all count_deliveries split: prod.split)

text \<open>With Redis every client of the broadcasting server receives each message twice and the clients of the other
  servers once: the server sends to its own sockets and then again when its own subscription delivers the
  message it has just published.\<close>

theorem redis_broadcast_duplicates:
  assumes "i < length ms" and "list_all wm_redis ms"
  shows "count_list (fst (ws_broadcast (\<lambda>_. True) True msg i ms)) (w, msg) =
     count_list (wm_conns (ms ! i)) w + sum_list (map (\<lambda>m. count_list (wm_conns m) w) ms)"
proof -
  have "wm_redis (ms ! i)" "\<forall>m \<in> set ms. wm_redis m"
    using assms by (auto simp: list_all_iff)
  then show ?thesis
    using deliver_all_counts [of ms msg w]
    by (cases "deliver_all (\<lambda>_. True) msg ms") (simp add: ws_broadcast_def broadcast_all count_deliveries split: prod.split)
qed

lemma redis_broadcast_duplicates_witness:
  "count_list (fst (ws_broadcast (\<lambda>_. True) True ''m'' 0
      [snd (ws_connect 7 (Some ''ana'') (empty_ws True)), snd (ws_connect 8 None (empty_ws True))])) (7, ''m'') = 2"
  by (subst redis_broadcast_duplicates)
    (simp_all add: ws_connect_def empty_ws_def max_global_def max_per_user_def user_conns_def append_new_def)

end
