(* ===== verification/Memory_Bus.thy ===== *)
theory Memory_Bus
  imports Machines
begin

text \<open>
  \<open>bus/memory_bus.py\<close>: the event bus without Redis. Every subscription has a queue, numbered; a queue holds messages
  and, after \<open>close\<close>, the sentinel \<open>None\<close>. The queues are unbounded, so putting never waits. A reader is advanced
  one loop iteration at a time; an iteration that finds its queue empty waits (at most a second) and changes nothing.
\<close>

section \<open>The bus\<close>

text \<open>\<open>fnmatch\<close> on the wildcards \<open>*\<close> and \<open>?\<close>; character classes are not used by any subscription.\<close>

fun glob :: "string \<Rightarrow> string \<Rightarrow> bool" where
  "glob [] [] = True"
| "glob [] (c # cs) = False"
| "glob (p # ps) [] = (p = CHR ''*'' \<and> glob ps [])"
| "glob (p # ps) (c # cs) =
     (if p = CHR ''*'' then glob ps (c # cs) \<or> glob (p # ps) cs
      else (p = CHR ''?'' \<or> p = c) \<and> glob ps cs)"

record 'm mem_bus =
  mb_topics :: "(string, (nat, 'm option list) pydict) pydict"
  mb_patterns :: "(nat, string \<times> (string \<times> 'm) option list) pydict"
  mb_closed :: bool

definition new_bus :: "'m mem_bus" where
  "new_bus = \<lparr>mb_topics = [], mb_patterns = [], mb_closed = False\<rparr>"

definition topic_queues :: "string \<Rightarrow> 'm mem_bus \<Rightarrow> (nat, 'm option list) pydict" where
  "topic_queues topic b = (case map_of (mb_topics b) topic of None \<Rightarrow> [] | Some qs \<Rightarrow> qs)"

definition mb_publish :: "string \<Rightarrow> 'm \<Rightarrow> 'm mem_bus \<Rightarrow> 'm mem_bus" where
  "mb_publish topic msg b =
     (if mb_closed b then b
      else b\<lparr>mb_topics := map (\<lambda>(t, qs). (t, if t = topic then map (\<lambda>(i, q). (i, q @ [Some msg])) qs else qs)) (mb_topics b),
             mb_patterns := map (\<lambda>(i, pat, q). (i, pat, if glob pat topic then q @ [Some (topic, msg)] else q)) (mb_patterns b)\<rparr>)"

definition mb_publish_batch :: "string \<Rightarrow> 'm list \<Rightarrow> 'm mem_bus \<Rightarrow> 'm mem_bus" where
  "mb_publish_batch topic msgs b = fold (mb_publish topic) msgs b"

definition mb_subscribe :: "nat \<Rightarrow> string \<Rightarrow> 'm mem_bus \<Rightarrow> 'm mem_bus" where
  "mb_subscribe i topic b = b\<lparr>mb_topics := dict_put topic (dict_put i [] (topic_queues topic b)) (mb_topics b)\<rparr>"

definition mb_subscribe_pattern :: "nat \<Rightarrow> string \<Rightarrow> 'm mem_bus \<Rightarrow> 'm mem_bus" where
  "mb_subscribe_pattern i pat b = b\<lparr>mb_patterns := dict_put i (pat, []) (mb_patterns b)\<rparr>"

text \<open>One iteration of a reader: what it yields. A finished reader has removed its queue.\<close>

datatype 'a outcome = Finished | Waiting | Yielded 'a

definition drop_topic_queue :: "nat \<Rightarrow> string \<Rightarrow> 'm mem_bus \<Rightarrow> 'm mem_bus" where
  "drop_topic_queue i topic b =
     (case map_of (mb_topics b) topic of
        None \<Rightarrow> b
      | Some qs \<Rightarrow> b\<lparr>mb_topics := dict_put topic (dict_del i qs) (mb_topics b)\<rparr>)"

definition read_bytes :: "nat \<Rightarrow> string \<Rightarrow> 'm mem_bus \<Rightarrow> 'm outcome \<times> 'm mem_bus" where
  "read_bytes i topic b =
     (if mb_closed b then (Finished, drop_topic_queue i topic b)
      else case map_of (topic_queues topic b) i of
             Some (Some m # q) \<Rightarrow>
               (Yielded m, b\<lparr>mb_topics := dict_put topic (dict_put i q (topic_queues topic b)) (mb_topics b)\<rparr>)
           | Some (None # q) \<Rightarrow> (Finished, drop_topic_queue i topic b)
           | _ \<Rightarrow> (Waiting, b))"

definition read_tuples :: "nat \<Rightarrow> 'm mem_bus \<Rightarrow> (string \<times> 'm) outcome \<times> 'm mem_bus" where
  "read_tuples i b =
     (if mb_closed b then (Finished, b\<lparr>mb_patterns := dict_del i (mb_patterns b)\<rparr>)
      else case map_of (mb_patterns b) i of
             Some (pat, Some m # q) \<Rightarrow> (Yielded m, b\<lparr>mb_patterns := dict_put i (pat, q) (mb_patterns b)\<rparr>)
           | Some (pat, None # q) \<Rightarrow> (Finished, b\<lparr>mb_patterns := dict_del i (mb_patterns b)\<rparr>)
           | _ \<Rightarrow> (Waiting, b))"

definition mb_close :: "'m mem_bus \<Rightarrow> 'm mem_bus" where
  "mb_close b =
     b\<lparr>mb_closed := True,
       mb_topics := map (\<lambda>(t, qs). (t, map (\<lambda>(i, q). (i, q @ [None])) qs)) (mb_topics b),
       mb_patterns := map (\<lambda>(i, pat, q). (i, pat, q @ [None])) (mb_patterns b)\<rparr>"

section \<open>Histories\<close>

text \<open>Subscriptions get the numbers the history gives them; \<open>id(queue)\<close> is new for each.\<close>

datatype 'm bus_op =
    Pub string 'm
  | PubBatch string "'m list"
  | Sub nat string
  | SubPattern nat string
  | Read nat string
  | ReadPattern nat
  | Close

fun bus_step :: "'m bus_op \<Rightarrow> 'm mem_bus \<Rightarrow> 'm mem_bus" where
  "bus_step (Pub t m) b = mb_publish t m b"
| "bus_step (PubBatch t ms) b = mb_publish_batch t ms b"
| "bus_step (Sub i t) b = mb_subscribe i t b"
| "bus_step (SubPattern i p) b = mb_subscribe_pattern i p b"
| "bus_step (Read i t) b = snd (read_bytes i t b)"
| "bus_step (ReadPattern i) b = snd (read_tuples i b)"
| "bus_step Close b = mb_close b"

text \<open>What an operation publishes on a topic, and what it hands to the reader \<open>i\<close> of the topic.\<close>

fun published :: "string \<Rightarrow> 'm bus_op \<Rightarrow> 'm list" where
  "published t (Pub t' m) = (if t' = t then [m] else [])"
| "published t (PubBatch t' ms) = (if t' = t then ms else [])"
| "published t _ = []"

definition read_by :: "nat \<Rightarrow> string \<Rightarrow> 'm bus_op \<Rightarrow> 'm mem_bus \<Rightarrow> 'm list" where
  "read_by i t e b =
     (case e of
        Read j t' \<Rightarrow> (if j = i \<and> t' = t then (case fst (read_bytes i t b) of Yielded m \<Rightarrow> [m] | _ \<Rightarrow> []) else [])
      | _ \<Rightarrow> [])"

fun yields :: "nat \<Rightarrow> string \<Rightarrow> 'm bus_op list \<Rightarrow> 'm mem_bus \<Rightarrow> 'm list" where
  "yields i t [] b = []"
| "yields i t (e # es) b = read_by i t e b @ yields i t es (bus_step e b)"

text \<open>The history neither closes the bus nor reuses the subscription's number.\<close>

fun keeps_sub :: "nat \<Rightarrow> 'm bus_op \<Rightarrow> bool" where
  "keeps_sub i (Sub j t) = (j \<noteq> i)"
| "keeps_sub i Close = False"
| "keeps_sub i _ = True"

text \<open>The queue of the subscription holds exactly these messages.\<close>

definition waiting :: "nat \<Rightarrow> string \<Rightarrow> 'm mem_bus \<Rightarrow> 'm list \<Rightarrow> bool" where
  "waiting i t b ms \<longleftrightarrow> \<not> mb_closed b \<and> map_of (topic_queues t b) i = Some (map Some ms)"

lemma topic_queues_put: "topic_queues t (b\<lparr>mb_topics := dict_put t' qs (mb_topics b)\<rparr>) = (if t' = t then qs else topic_queues t b)"
  by (simp add: topic_queues_def)

lemma topic_queues_drop:
  "topic_queues t (drop_topic_queue i t' b) = (if t' = t then dict_del i (topic_queues t b) else topic_queues t b)"
  by (auto simp: topic_queues_def drop_topic_queue_def dict_del_def split: option.split)

lemma drop_topic_queue_closed [simp]: "mb_closed (drop_topic_queue i t b) = mb_closed b"
  by (simp add: drop_topic_queue_def split: option.split)

lemma topic_queues_publish:
  "\<not> mb_closed b \<Longrightarrow> map_of (topic_queues t (mb_publish t' m b)) i =
     map_option (\<lambda>q. if t' = t then q @ [Some m] else q) (map_of (topic_queues t b) i)"
  unfolding mb_publish_def topic_queues_def
  by (auto simp: map_of_map_values option.map_ident split: option.split)

lemma waiting_publish:
  "waiting i t b ms \<Longrightarrow> waiting i t (mb_publish t' m b) (ms @ (if t' = t then [m] else []))"
  by (simp add: waiting_def topic_queues_publish) (simp add: mb_publish_def)

lemma waiting_batch: "waiting i t b ms \<Longrightarrow> waiting i t (mb_publish_batch t' new b) (ms @ (if t' = t then new else []))"
proof (induction new arbitrary: b ms)
  case (Cons m new)
  then show ?case
    using Cons.IH [OF waiting_publish [OF Cons.prems, of t' m]] by (simp add: mb_publish_batch_def split: if_splits)
qed (simp add: mb_publish_batch_def)

lemma waiting_step:
  assumes "waiting i t b ms" "keeps_sub i e"
  shows "\<exists>rest. ms @ published t e = read_by i t e b @ rest \<and> waiting i t (bus_step e b) rest"
proof (cases e)
  case (Pub t' m)
  then show ?thesis using waiting_publish [OF assms(1), of t' m] by (simp add: read_by_def)
next
  case (PubBatch t' new)
  then show ?thesis using waiting_batch [OF assms(1), of t' new] by (simp add: read_by_def)
next
  case (Sub j t')
  then show ?thesis using assms by (simp add: waiting_def mb_subscribe_def topic_queues_put read_by_def)
next
  case (SubPattern j p)
  then show ?thesis using assms by (simp add: waiting_def mb_subscribe_pattern_def topic_queues_def read_by_def)
next
  case (Read j t')
  show ?thesis
  proof (cases "j = i \<and> t' = t")
    case True
    then show ?thesis
      using assms Read by (cases ms) (auto simp: waiting_def read_by_def read_bytes_def topic_queues_put)
  next
    case False
    have "map_of (topic_queues t (snd (read_bytes j t' b))) i = map_of (topic_queues t b) i"
      using False unfolding read_bytes_def
      by (auto simp: topic_queues_put topic_queues_drop split: option.split list.split)
    moreover have "mb_closed (snd (read_bytes j t' b)) = mb_closed b"
      unfolding read_bytes_def by (auto split: option.split list.split)
    ultimately show ?thesis
      using False assms(1) Read by (auto simp: waiting_def read_by_def)
  qed
next
  case (ReadPattern j)
  have "mb_topics (snd (read_tuples j b)) = mb_topics b \<and> mb_closed (snd (read_tuples j b)) = mb_closed b"
    unfolding read_tuples_def by (auto split: option.split list.split prod.split)
  then show ?thesis
    using assms ReadPattern by (auto simp: waiting_def topic_queues_def read_by_def)
next
  case Close
  then show ?thesis using assms(2) by simp
qed

lemma waiting_run:
  "waiting i t b ms \<Longrightarrow> list_all (keeps_sub i) es \<Longrightarrow>
   \<exists>rest. ms @ concat (map (published t) es) = yields i t es b @ rest \<and> waiting i t (run bus_step b es) rest"
proof (induction es arbitrary: b ms)
  case (Cons e es)
  then obtain r where r: "ms @ published t e = read_by i t e b @ r" "waiting i t (bus_step e b) r"
    using waiting_step [of i t b ms e] by auto
  then obtain rest where rest: "r @ concat (map (published t) es) = yields i t es (bus_step e b) @ rest"
    "waiting i t (run bus_step (bus_step e b) es) rest"
    using Cons.IH [of "bus_step e b" r] Cons.prems(2) by auto
  have "ms @ concat (map (published t) (e # es)) = (ms @ published t e) @ concat (map (published t) es)"
    by simp
  also have "\<dots> = yields i t (e # es) b @ rest"
    using rest(1) by (simp add: r(1))
  finally show ?case
    using rest(2) by auto
qed simp

text \<open>C25: a subscriber gets every message, once and in order: from its subscription on and while the bus is open, whatever
  else is published, subscribed and read in between, what the reader has got is a prefix of what was published
  on its topic, and its queue holds exactly the rest.\<close>

theorem subscriber_gets_all:
  assumes "\<not> mb_closed b" and "list_all (keeps_sub i) es"
  shows "\<exists>rest. concat (map (published t) es) = yields i t es (mb_subscribe i t b) @ rest \<and>
    map_of (topic_queues t (run bus_step (mb_subscribe i t b) es)) i = Some (map Some rest)"
proof -
  have "waiting i t (mb_subscribe i t b) []"
    using assms(1) by (simp add: waiting_def mb_subscribe_def topic_queues_put)
  then show ?thesis
    using waiting_run [of i t "mb_subscribe i t b" "[]" es] assms(2) by (auto simp: waiting_def)
qed

lemma subscriber_gets_all_witness:
  "\<exists>rest. [1 :: int, 2, 3] = yields 0 ''t'' [Pub ''t'' 1, Sub 1 ''t'', Read 0 ''t'', PubBatch ''t'' [2, 3], Read 0 ''t'']
     (mb_subscribe 0 ''t'' new_bus) @ rest"
  using subscriber_gets_all [of new_bus 0 "[Pub ''t'' 1, Sub 1 ''t'', Read 0 ''t'', PubBatch ''t'' [2, 3], Read 0 ''t'']" "''t''"]
  by (auto simp: new_bus_def)

text \<open>Closing drops what is still queued: a reader finishes at its next iteration.\<close>

lemma close_drops_queue: "fst (read_bytes i t (mb_close b)) = Finished"
  by (simp add: read_bytes_def mb_close_def)

lemma publish_after_close: "mb_publish t m (mb_close b) = mb_close b"
  by (simp add: mb_publish_def mb_close_def)

end
