(* ===== verification/Policy.thy ===== *)
theory Policy
  imports Bus Api_Keys
begin

text \<open>
  Surveillance profiles and their delivery to agents: \<open>policy/engine.py\<close>, \<open>policy/rule_signer.py\<close> and
  \<open>api/routers/policies.py\<close>. A loaded profile is its name and its JSON form; reading and validating a file is its
  outcome. \<open>dumps\<close> is the serialiser (which may raise), the signing key a function on its output. The two sets of
  agents, local and shared through Redis, are lists without duplicates.
\<close>

section \<open>The rule set\<close>

definition profile_autonomy :: "(string \<times> string) list" where
  "profile_autonomy =
     [(''investigation'', ''always_act''), (''compliance'', ''critical_high''), (''workstation'', ''critical_only''),
      (''desktop'', ''critical_only''), (''laptop'', ''critical_only''), (''server'', ''critical_only''),
      (''webserver'', ''critical_only''), (''database'', ''critical_only''), (''fileserver'', ''critical_only''),
      (''dns'', ''critical_only''), (''mail'', ''critical_only''), (''container'', ''critical_only''),
      (''minimal'', ''log_only''), (''stealth'', ''log_only'')]"

definition budget :: "int \<Rightarrow> rat \<Rightarrow> int \<Rightarrow> int \<Rightarrow> int \<Rightarrow> int \<Rightarrow> int \<Rightarrow> json" where
  "budget rules cpu buffer batch micros groups events =
     JObj [(''max_rules'', JInt rules), (''cpu_budget_pct'', JNum cpu), (''buffer_mb'', JInt buffer),
       (''batch_size'', JInt batch), (''budget_per_event_micros'', JInt micros), (''max_correlation_groups'', JInt groups),
       (''max_correlation_events'', JInt events)]"

definition budget_investigation :: json where
  "budget_investigation = budget 100 2 100 1000 200 2000 20000"

definition budget_minimal :: json where
  "budget_minimal = budget 20 (1/2) 20 500 50 500 5000"

definition budget_default :: json where
  "budget_default = budget 50 1 50 1000 100 1000 10000"

definition profile_budget :: "(string \<times> json) list" where
  "profile_budget =
     [(''investigation'', budget_investigation), (''minimal'', budget_minimal), (''stealth'', budget_minimal)]"

definition budget_for_profile :: "string \<Rightarrow> json" where
  "budget_for_profile name = (case map_of profile_budget name of None \<Rightarrow> budget_default | Some b \<Rightarrow> b)"

text \<open>The signing key: what loading its file comes to.\<close>

datatype 'k key_file = Ed25519Key 'k | NoCryptography | PasswordProtected | KeyUnusable

definition load_key :: "'k key_file option \<Rightarrow> 'k option result" where
  "load_key file =
     (case file of
        None \<Rightarrow> Inr None
      | Some (Ed25519Key k) \<Rightarrow> Inr (Some k)
      | Some PasswordProtected \<Rightarrow> Inl RuntimeError
      | Some _ \<Rightarrow> Inr None)"

text \<open>The rule files: a list of rules, one rule, anything else, or a file that does not load (\<open>None\<close>).\<close>

fun add_rules :: "json option \<Rightarrow> json list \<Rightarrow> json list" where
  "add_rules (Some (JList rs)) acc = acc @ rs"
| "add_rules (Some (JObj kvs)) acc = acc @ [JObj kvs]"
| "add_rules _ acc = acc"

definition load_agent_rules :: "json option list option \<Rightarrow> json list" where
  "load_agent_rules dir = (case dir of None \<Rightarrow> [] | Some files \<Rightarrow> fold add_rules files [])"

definition canonical :: "int \<Rightarrow> json list \<Rightarrow> json" where
  "canonical v rules = JObj [(''rules'', JList rules), (''version'', JInt v)]"

definition build_ruleset :: "(json \<Rightarrow> string result) \<Rightarrow> (string \<Rightarrow> string) option \<Rightarrow> json option list option \<Rightarrow> int
    \<Rightarrow> json result" where
  "build_ruleset dumps key dir v =
     (let rules = load_agent_rules dir
      in bind_result (dumps (canonical v rules)) (\<lambda>text.
           let rs = JObj [(''version'', JInt v), (''rules'', JList rules),
                          (''signature'', jopt (\<lambda>sign. JStr (sign text)) key)]
           in bind_result (dumps rs) (\<lambda>_. Inr rs)))"

section \<open>The engine\<close>

record profile =
  pf_name :: string
  pf_dump :: "(string, json) pydict"

text \<open>The signer is \<open>None\<close> or the outcome of \<open>build_ruleset\<close> at the time of a push.\<close>

record policy_engine =
  pe_profiles :: "(string, profile) pydict"
  pe_known :: "string list"
  pe_default :: string
  pe_redis_url :: bool

definition load_profiles :: "profile option list \<Rightarrow> policy_engine \<Rightarrow> policy_engine" where
  "load_profiles files e =
     e\<lparr>pe_profiles := fold (\<lambda>f ps. case f of None \<Rightarrow> ps | Some p \<Rightarrow> dict_put (pf_name p) p ps) files (pe_profiles e)\<rparr>"

definition get_profile :: "policy_engine \<Rightarrow> string \<Rightarrow> profile option" where
  "get_profile e name = map_of (pe_profiles e) name"

definition list_profiles :: "policy_engine \<Rightarrow> profile list" where
  "list_profiles e = sort_key pf_name (map snd (pe_profiles e))"

definition seed_known_agents :: "string list \<Rightarrow> policy_engine \<Rightarrow> policy_engine" where
  "seed_known_agents cns e = e\<lparr>pe_known := append_all_new cns (pe_known e)\<rparr>"

definition unregister_agent :: "string \<Rightarrow> policy_engine \<Rightarrow> policy_engine" where
  "unregister_agent cn e = e\<lparr>pe_known := filter (\<lambda>c. c \<noteq> cn) (pe_known e)\<rparr>"

definition push_payload :: "string \<Rightarrow> profile \<Rightarrow> json option \<Rightarrow> (string, json) pydict" where
  "push_payload name p rule_set =
     (let d = dict_put ''role'' (JStr name)
                (dict_put ''budget'' (budget_for_profile name)
                  (dict_put ''autonomy''
                    (JStr (case map_of profile_autonomy name of None \<Rightarrow> ''critical_only'' | Some a \<Rightarrow> a)) (pf_dump p)))
      in case rule_set of None \<Rightarrow> d | Some rs \<Rightarrow> dict_put ''rule_set'' rs d)"

definition push_topic :: "string \<Rightarrow> string" where
  "push_topic cn = ''policy:push:'' @ cn"

definition push_to_agent :: "(nat \<Rightarrow> bool) \<Rightarrow> json result option \<Rightarrow> string \<Rightarrow> string \<Rightarrow> policy_engine \<times> bus_log
    \<Rightarrow> unit result \<times> (policy_engine \<times> bus_log)" where
  "push_to_agent ok signer cn name s =
     (case s of (e, b) \<Rightarrow>
        (case get_profile e name of
           None \<Rightarrow> (Inl KeyError, s)
         | Some p \<Rightarrow>
             (case signer of
                Some (Inl _) \<Rightarrow> (Inr (), s)
              | _ \<Rightarrow>
                  (case publish ok (push_topic cn) (JObj (push_payload name p (map_option projr signer))) b of
                     (False, b') \<Rightarrow> (Inl RuntimeError, (e, b'))
                   | (True, b') \<Rightarrow> (Inr (), (e\<lparr>pe_known := append_new cn (pe_known e)\<rparr>, b'))))))"

definition push_default_to_agent :: "(nat \<Rightarrow> bool) \<Rightarrow> json result option \<Rightarrow> string \<Rightarrow> policy_engine \<times> bus_log
    \<Rightarrow> unit result \<times> (policy_engine \<times> bus_log)" where
  "push_default_to_agent ok signer cn s =
     (case get_profile (fst s) (pe_default (fst s)) of
        None \<Rightarrow> (Inl RuntimeError, s)
      | Some _ \<Rightarrow> push_to_agent ok signer cn (pe_default (fst s)) s)"

text \<open>The broadcast: \<open>redis\<close> is the shared set, \<open>None\<close> when Redis fails. The result maps an agent to whether its push
  succeeded (\<open>"ok"\<close>) or raised.\<close>

definition push_targets :: "string list option \<Rightarrow> policy_engine \<Rightarrow> string list" where
  "push_targets redis e =
     (case redis of
        Some cns \<Rightarrow> if pe_redis_url e then append_all_new cns (pe_known e) else pe_known e
      | None \<Rightarrow> pe_known e)"

fun push_each :: "(nat \<Rightarrow> bool) \<Rightarrow> json result option \<Rightarrow> string \<Rightarrow> string list \<Rightarrow> policy_engine \<times> bus_log
    \<Rightarrow> (string \<times> bool) list \<times> (policy_engine \<times> bus_log)" where
  "push_each ok signer name [] s = ([], s)"
| "push_each ok signer name (cn # cns) s =
     (case push_to_agent ok signer cn name s of
        (r, s') \<Rightarrow> (case push_each ok signer name cns s' of (rs, s'') \<Rightarrow> ((cn, is_ok r) # rs, s'')))"

definition push_to_all :: "(nat \<Rightarrow> bool) \<Rightarrow> json result option \<Rightarrow> string list option \<Rightarrow> string \<Rightarrow> policy_engine \<times> bus_log
    \<Rightarrow> (string \<times> bool) list result \<times> (policy_engine \<times> bus_log)" where
  "push_to_all ok signer redis name s =
     (case get_profile (fst s) name of
        None \<Rightarrow> (Inl KeyError, s)
      | Some _ \<Rightarrow>
          (case push_each ok signer name (push_targets redis (fst s)) s of (rs, s') \<Rightarrow> (Inr rs, s')))"

section \<open>The routes\<close>

definition list_profiles_route :: "identity result \<Rightarrow> policy_engine option \<Rightarrow> profile list result" where
  "list_profiles_route auth engine =
     bind_result auth (\<lambda>_. case engine of None \<Rightarrow> Inl (HTTPException 503) | Some e \<Rightarrow> Inr (list_profiles e))"

definition get_profile_route :: "string \<Rightarrow> identity result \<Rightarrow> policy_engine option \<Rightarrow> profile result" where
  "get_profile_route name auth engine =
     bind_result auth (\<lambda>_. case engine of
         None \<Rightarrow> Inl (HTTPException 503)
       | Some e \<Rightarrow> (case get_profile e name of None \<Rightarrow> Inl (HTTPException 404) | Some p \<Rightarrow> Inr p))"

text \<open>The answer is the target named in the response.\<close>

definition apply_profile :: "(nat \<Rightarrow> bool) \<Rightarrow> json result option \<Rightarrow> string list option \<Rightarrow> string \<Rightarrow> string option \<Rightarrow> identity result
    \<Rightarrow> policy_engine \<times> bus_log \<Rightarrow> string result \<times> (policy_engine \<times> bus_log)" where
  "apply_profile ok signer redis name agent_cn auth s =
     (case auth of
        Inl e \<Rightarrow> (Inl e, s)
      | Inr _ \<Rightarrow>
          (case get_profile (fst s) name of
             None \<Rightarrow> (Inl (HTTPException 404), s)
           | Some _ \<Rightarrow>
               (case agent_cn of
                  Some cn \<Rightarrow>
                    (case push_to_agent ok signer cn name s of
                       (Inl e, s') \<Rightarrow> (Inl (if e = KeyError then HTTPException 404 else e), s')
                     | (Inr _, s') \<Rightarrow> (Inr cn, s'))
                | None \<Rightarrow>
                    (case push_to_all ok signer redis name s of
                       (Inl e, s') \<Rightarrow> (Inl (if e = KeyError then HTTPException 404 else e), s')
                     | (Inr _, s') \<Rightarrow> (Inr ''all'', s')))))"

section \<open>Delivery\<close>

lemma push_step:
  "get_profile e name = Some p \<Longrightarrow> push_to_agent ok (map_option Inr rset) cn name (e, b) =
     (if ok (attempts b)
      then (Inr (), (e\<lparr>pe_known := append_new cn (pe_known e)\<rparr>,
              b\<lparr>attempts := Suc (attempts b), sent := sent b @ [(push_topic cn, JObj (push_payload name p rset))]\<rparr>))
      else (Inl RuntimeError, (e, b\<lparr>attempts := Suc (attempts b)\<rparr>)))"
  by (cases rset) (simp_all add: push_to_agent_def publish_def)

lemma push_each_delivers:
  assumes "get_profile e name = Some p"
  shows "case push_each ok (map_option Inr rset) name cns (e, b) of (rs, (e', b')) \<Rightarrow>
     map fst rs = cns \<and> pe_profiles e' = pe_profiles e \<and>
     set (pe_known e') = set (pe_known e) \<union> {cn. (cn, True) \<in> set rs} \<and>
     sent b' = sent b @ map (\<lambda>r. (push_topic (fst r), JObj (push_payload name p rset))) (filter snd rs)"
  using assms
proof (induction cns arbitrary: e b)
  case (Cons cn cns)
  show ?case
  proof (cases "ok (attempts b)")
    case True
    define s1 where "s1 = (e\<lparr>pe_known := append_new cn (pe_known e)\<rparr>,
      b\<lparr>attempts := Suc (attempts b), sent := sent b @ [(push_topic cn, JObj (push_payload name p rset))]\<rparr>)"
    have "get_profile (fst s1) name = Some p"
      using Cons.prems by (simp add: get_profile_def s1_def)
    from Cons.IH [OF this, of "snd s1"] show ?thesis
      using True unfolding push_each.simps push_step [OF Cons.prems] s1_def
      by (cases "push_each ok (map_option Inr rset) name cns s1") (auto simp: s1_def)
  next
    case False
    from Cons.IH [OF Cons.prems, of "b\<lparr>attempts := Suc (attempts b)\<rparr>"] show ?thesis
      using False unfolding push_each.simps push_step [OF Cons.prems]
      by (cases "push_each ok (map_option Inr rset) name cns (e, b\<lparr>attempts := Suc (attempts b)\<rparr>)") auto
  qed
qed simp

text \<open>A broadcast isolates its agents: pushing a loaded profile tries every target once, in order; exactly the targets
  reported \<open>ok\<close> got one message, with the profile, its autonomy, budget and rule set, on their own topic, and they
  are the ones added to the known agents. A profile that is not loaded changes nothing.\<close>

theorem broadcast_isolated:
  "case push_to_all ok (map_option Inr rset) redis name (e, b) of
     (Inl x, s') \<Rightarrow> get_profile e name = None \<and> x = KeyError \<and> s' = (e, b)
   | (Inr rs, (e', b')) \<Rightarrow>
       map fst rs = push_targets redis e \<and>
       set (pe_known e') = set (pe_known e) \<union> {cn. (cn, True) \<in> set rs} \<and>
       sent b' = sent b @ map (\<lambda>r. (push_topic (fst r), JObj (push_payload name (the (get_profile e name)) rset))) (filter snd rs)"
proof (cases "get_profile e name")
  case (Some p)
  then show ?thesis
    using push_each_delivers [OF Some, where ok = ok and rset = rset and cns = "push_targets redis e" and b = b]
    by (auto simp: push_to_all_def split: prod.splits)
qed (simp add: push_to_all_def)

lemma push_each_failed:
  assumes "get_profile e name = Some p"
  shows "push_each ok (Some (Inl x)) name cns (e, b) = (map (\<lambda>cn. (cn, True)) cns, (e, b))"
  by (induction cns) (simp_all add: push_to_agent_def assms)

text \<open>When the rule set cannot be built nothing is sent and success is reported: the push to each agent returns without
  publishing, and the broadcast answers \<open>ok\<close> for every target.\<close>

theorem ruleset_failure_reported_ok:
  "push_to_all ok (Some (Inl x)) redis name (e, b) =
     (case get_profile e name of
        None \<Rightarrow> (Inl KeyError, (e, b))
      | Some _ \<Rightarrow> (Inr (map (\<lambda>cn. (cn, True)) (push_targets redis e)), (e, b)))"
  by (cases "get_profile e name") (simp_all add: push_to_all_def push_each_failed)

lemma push_payload_keeps_rule_set: "map_of (push_payload name p (Some rs)) ''rule_set'' = Some rs"
  by (simp add: push_payload_def Let_def)

text \<open>A pushed rule set verifies: the payload's \<open>rule_set\<close> is the one built, and its signature is the key's signature of
  the canonical text of the very version and rules it carries; without a key the signature is null.\<close>

theorem pushed_ruleset_verifies:
  "case build_ruleset dumps key dir v of
     Inl _ \<Rightarrow> True
   | Inr rs \<Rightarrow>
       jfield (JObj (push_payload name p (Some rs))) ''rule_set'' = Some rs \<and>
       (case (jfield rs ''version'', jfield rs ''rules'', jfield rs ''signature'') of
          (Some (JInt v'), Some (JList rules), Some sig) \<Rightarrow>
            (case dumps (canonical v' rules) of
               Inl _ \<Rightarrow> False
             | Inr text \<Rightarrow> sig = (case key of None \<Rightarrow> JNull | Some sign \<Rightarrow> JStr (sign text)))
        | _ \<Rightarrow> False)"
proof (cases "dumps (canonical v (load_agent_rules dir))")
  case (Inr body)
  then show ?thesis
    by (cases "build_ruleset dumps key dir v"; cases key)
      (auto simp: build_ruleset_def Let_def push_payload_keeps_rule_set)
qed (simp add: build_ruleset_def)

lemma list_profiles_sorted: "sorted (map pf_name (list_profiles e))"
  by (simp add: list_profiles_def)

end
