(* ===== verification/Plugins.thy ===== *)
theory Plugins
  imports Api_Keys
begin

text \<open>
  Plugins: \<open>plugin/verifier.py\<close>, \<open>plugin/manager.py\<close>, the start and stop of \<open>plugin/sandbox.py\<close> and
  \<open>api/routers/plugins.py\<close>. A path is a directory, a stem and a suffix, the file system a dictionary of contents. A
  trusted key is the check of a signature against a content. The number of a started process, or the failure to
  start it, is an argument; the limits and namespaces of the child are the operating system's.
\<close>

section \<open>Signatures\<close>

datatype path = Path string string string

type_synonym files = "(path, string) pydict"

fun stem :: "path \<Rightarrow> string" where
  "stem (Path d s x) = s"

fun with_suffix :: "string \<Rightarrow> path \<Rightarrow> path" where
  "with_suffix y (Path d s x) = Path d s y"

fun in_dir :: "string \<Rightarrow> path \<Rightarrow> path" where
  "in_dir e (Path d s x) = Path e s x"

text \<open>A key, given the signature and the content.\<close>

type_synonym trusted_key = "string \<Rightarrow> string \<Rightarrow> bool"

text \<open>The key files of the directory, in order: \<open>None\<close> for one that is unreadable or no Ed25519 key.\<close>

definition load_trusted_keys :: "trusted_key option list option \<Rightarrow> trusted_key list" where
  "load_trusted_keys dir = (case dir of None \<Rightarrow> [] | Some files \<Rightarrow> List.map_filter (\<lambda>k. k) files)"

definition verify_plugin :: "trusted_key list \<Rightarrow> files \<Rightarrow> path \<Rightarrow> path \<Rightarrow> bool result" where
  "verify_plugin trusted fs plugin sig =
     (if trusted = [] then Inr False
      else case map_of fs sig of
             None \<Rightarrow> Inr False
           | Some s \<Rightarrow>
               if 256 < length s then Inl ValueError
               else (case map_of fs plugin of
                       None \<Rightarrow> Inr False
                     | Some c \<Rightarrow> Inr (list_ex (\<lambda>key. key s c) trusted)))"

section \<open>Names\<close>

definition id_start :: "char \<Rightarrow> bool" where
  "id_start c \<longleftrightarrow> (let n = of_char c :: nat in (97 \<le> n \<and> n \<le> 122) \<or> (65 \<le> n \<and> n \<le> 90) \<or> n = 95 \<or> n = 170 \<or> n = 181
     \<or> n = 186 \<or> (192 \<le> n \<and> n \<noteq> 215 \<and> n \<noteq> 247))"

definition id_part :: "char \<Rightarrow> bool" where
  "id_part c \<longleftrightarrow> id_start c \<or> (let n = of_char c :: nat in (48 \<le> n \<and> n \<le> 57) \<or> n = 183)"

definition is_identifier :: "string \<Rightarrow> bool" where
  "is_identifier s \<longleftrightarrow> s \<noteq> [] \<and> id_start (hd s) \<and> list_all id_part s"

definition python_keywords :: "string list" where
  "python_keywords =
     [''False'', ''None'', ''True'', ''and'', ''as'', ''assert'', ''async'', ''await'', ''break'', ''class'', ''continue'',
      ''def'', ''del'', ''elif'', ''else'', ''except'', ''finally'', ''for'', ''from'', ''global'', ''if'', ''import'', ''in'',
      ''is'', ''lambda'', ''nonlocal'', ''not'', ''or'', ''pass'', ''raise'', ''return'', ''try'', ''while'', ''with'', ''yield'']"

definition reserved_names :: "string list" where
  "reserved_names = [''os'', ''sys'', ''builtins'', ''importlib'', ''subprocess'', ''socket'', ''pathlib'']"

definition importable :: "string \<Rightarrow> bool" where
  "importable s \<longleftrightarrow> is_identifier s \<and> s \<notin> set python_keywords"

section \<open>The manager\<close>

datatype plugin_status = LOADED | RUNNING | STOPPED | ERROR

record plugin_info =
  pi_name :: string
  pi_path :: path
  pi_status :: plugin_status
  pi_pid :: "nat option"
  pi_error :: bool

text \<open>\<open>pm_alive\<close>: the processes that run.\<close>

record plugin_manager =
  pm_dir :: string
  pm_require :: bool
  pm_verifier :: "trusted_key list option"
  pm_plugins :: "(string, plugin_info) pydict"
  pm_sandboxes :: "(string, nat) pydict"
  pm_alive :: "nat list"
  pm_files :: files

definition put_plugin :: "plugin_info \<Rightarrow> plugin_manager \<Rightarrow> plugin_manager" where
  "put_plugin i m = m\<lparr>pm_plugins := dict_put (pi_name i) i (pm_plugins m)\<rparr>"

definition new_info :: "string \<Rightarrow> path \<Rightarrow> plugin_status \<Rightarrow> plugin_info" where
  "new_info name p st = \<lparr>pi_name = name, pi_path = p, pi_status = st, pi_pid = None, pi_error = (st = ERROR)\<rparr>"

definition needs_verify :: "bool \<Rightarrow> path \<Rightarrow> plugin_manager \<Rightarrow> bool result" where
  "needs_verify verify p m =
     (let sig = with_suffix ''.sig'' p
      in if verify \<and> pm_require m
         then (if pm_verifier m = None then Inl ValueError
               else if \<not> dict_has (pm_files m) sig then Inl ValueError else Inr True)
         else Inr (verify \<and> pm_verifier m \<noteq> None \<and> dict_has (pm_files m) sig))"

definition install :: "bool \<Rightarrow> bool \<Rightarrow> path \<Rightarrow> plugin_manager \<Rightarrow> plugin_info result \<times> plugin_manager" where
  "install copy_ok verify p m =
     (case map_of (pm_files m) p of
        None \<Rightarrow> (Inl (OtherError ''FileNotFoundError''), m)
      | Some c \<Rightarrow>
          if \<not> (importable (stem p) \<and> \<not> starts_with (stem p) ''_'') then (Inl ValueError, m)
          else if stem p \<in> set reserved_names then (Inl ValueError, m)
          else (case needs_verify verify p m of
                  Inl e \<Rightarrow> (Inl e, m)
                | Inr needed \<Rightarrow>
                    if 10 * 1024 * 1024 < length c then (Inl ValueError, m)
                    else if \<not> copy_ok then (Inl (OtherError ''PermissionError''), m)
                    else (let dest = in_dir (pm_dir m) p; m1 = m\<lparr>pm_files := dict_put dest c (pm_files m)\<rparr>;
                              done1 = put_plugin (new_info (stem p) dest LOADED) m1
                          in if needed
                             then (case verify_plugin (the (pm_verifier m)) (pm_files m1) dest (with_suffix ''.sig'' p) of
                                     Inl e \<Rightarrow> (Inl e, m1)
                                   | Inr False \<Rightarrow> (Inl ValueError, m1\<lparr>pm_files := dict_del dest (pm_files m1)\<rparr>)
                                   | Inr True \<Rightarrow> (Inr (new_info (stem p) dest LOADED), done1))
                             else (Inr (new_info (stem p) dest LOADED), done1))))"

text \<open>Starting gives the number of the new process or fails.\<close>

definition enable_plugin :: "nat option \<Rightarrow> string \<Rightarrow> plugin_manager \<Rightarrow> plugin_info result \<times> plugin_manager" where
  "enable_plugin started name m =
     (case map_of (pm_plugins m) name of
        None \<Rightarrow> (Inl KeyError, m)
      | Some i \<Rightarrow>
          if pi_status i = RUNNING then (Inl RuntimeError, m)
          else (case started of
                  None \<Rightarrow> (Inl (OtherError ''OSError''), m\<lparr>pm_plugins := dict_put name (i\<lparr>pi_status := ERROR, pi_error := True\<rparr>) (pm_plugins m)\<rparr>)
                | Some pid \<Rightarrow>
                    (let i' = i\<lparr>pi_status := RUNNING, pi_pid := Some pid, pi_error := False\<rparr>
                     in (Inr i', m\<lparr>pm_plugins := dict_put name i' (pm_plugins m),
                                   pm_sandboxes := dict_put name pid (pm_sandboxes m), pm_alive := pm_alive m @ [pid]\<rparr>))))"

definition stop_sandbox :: "string \<Rightarrow> plugin_manager \<Rightarrow> plugin_manager" where
  "stop_sandbox name m =
     (case map_of (pm_sandboxes m) name of
        None \<Rightarrow> m
      | Some pid \<Rightarrow> m\<lparr>pm_sandboxes := dict_del name (pm_sandboxes m), pm_alive := filter (\<lambda>p. p \<noteq> pid) (pm_alive m)\<rparr>)"

definition disable_plugin :: "string \<Rightarrow> plugin_manager \<Rightarrow> plugin_info result \<times> plugin_manager" where
  "disable_plugin name m =
     (case map_of (pm_plugins m) name of
        None \<Rightarrow> (Inl KeyError, m)
      | Some i \<Rightarrow>
          (let m1 = stop_sandbox name m; i' = i\<lparr>pi_status := STOPPED, pi_pid := None\<rparr>
           in (Inr i', m1\<lparr>pm_plugins := dict_put name i' (pm_plugins m1)\<rparr>)))"

definition delete_plugin :: "bool \<Rightarrow> string \<Rightarrow> plugin_manager \<Rightarrow> unit result \<times> plugin_manager" where
  "delete_plugin unlink_ok name m =
     (case map_of (pm_plugins m) name of
        None \<Rightarrow> (Inl KeyError, m)
      | Some i \<Rightarrow>
          (let m1 = stop_sandbox name m
           in (Inr (), m1\<lparr>pm_files := (if unlink_ok then dict_del (pi_path i) (pm_files m1) else pm_files m1),
                          pm_plugins := dict_del name (pm_plugins m1)\<rparr>)))"

section \<open>Discovery at start\<close>

text \<open>The verdict of the verifier is not looked at: only an exception of it counts.\<close>

definition discover_one :: "path \<Rightarrow> plugin_manager \<Rightarrow> plugin_manager" where
  "discover_one p m =
     (if \<not> importable (stem p) then m
      else if \<not> pm_require m then put_plugin (new_info (stem p) p LOADED) m
      else let sig = with_suffix ''.sig'' p
           in if \<not> dict_has (pm_files m) sig then put_plugin (new_info (stem p) p ERROR) m
              else (case pm_verifier m of
                      None \<Rightarrow> put_plugin (new_info (stem p) p LOADED) m
                    | Some trusted \<Rightarrow>
                        (case verify_plugin trusted (pm_files m) p sig of
                           Inl _ \<Rightarrow> put_plugin (new_info (stem p) p ERROR) m
                         | Inr _ \<Rightarrow> put_plugin (new_info (stem p) p LOADED) m)))"

fun is_plugin_file :: "string \<Rightarrow> path \<Rightarrow> bool" where
  "is_plugin_file dir (Path d s x) = (d = dir \<and> x = ''.py'')"

definition discover :: "plugin_manager \<Rightarrow> plugin_manager" where
  "discover m = fold discover_one (sort_key stem (filter (is_plugin_file (pm_dir m)) (map fst (pm_files m)))) m"

definition new_manager :: "string \<Rightarrow> bool \<Rightarrow> trusted_key list option \<Rightarrow> files \<Rightarrow> plugin_manager" where
  "new_manager dir require verifier fs =
     discover \<lparr>pm_dir = dir, pm_require = require, pm_verifier = verifier, pm_plugins = [], pm_sandboxes = [], pm_alive = [],
       pm_files = fs\<rparr>"

section \<open>The routes\<close>

text \<open>An upload: the file name is the stem and the suffix; \<open>tmp\<close> is a directory made for the request.\<close>

definition safe_stem :: "string \<Rightarrow> bool" where
  "safe_stem s \<longleftrightarrow> s \<noteq> [] \<and> list_all (\<lambda>c. (CHR ''a'' \<le> c \<and> c \<le> CHR ''z'') \<or> (CHR ''A'' \<le> c \<and> c \<le> CHR ''Z'')
     \<or> (CHR ''0'' \<le> c \<and> c \<le> CHR ''9'') \<or> c = CHR ''_'' \<or> c = CHR ''-'') s"

definition route_error :: "exn \<Rightarrow> exn" where
  "route_error e = (if e = ValueError \<or> e = OtherError ''PermissionError'' then HTTPException 422 else e)"

definition upload_plugin :: "bool \<Rightarrow> string \<Rightarrow> string \<Rightarrow> string \<Rightarrow> string \<Rightarrow> bool \<Rightarrow> identity result \<Rightarrow> plugin_manager
    \<Rightarrow> plugin_info result \<times> plugin_manager" where
  "upload_plugin copy_ok tmp name suffix content verify auth m =
     (case auth of
        Inl e \<Rightarrow> (Inl e, m)
      | Inr _ \<Rightarrow>
          if \<not> (safe_stem name \<and> suffix = ''.py'') then (Inl (HTTPException 422), m)
          else if 1024 * 1024 < length content then (Inl (HTTPException 413), m)
          else (let staged = Path tmp name suffix
                in case install copy_ok verify staged (m\<lparr>pm_files := dict_put staged content (pm_files m)\<rparr>) of
                     (Inl e, m') \<Rightarrow> (Inl (route_error e), m'\<lparr>pm_files := dict_del staged (pm_files m')\<rparr>)
                   | (Inr i, m') \<Rightarrow> (Inr i, m'\<lparr>pm_files := dict_del staged (pm_files m')\<rparr>)))"

text \<open>\<open>inside\<close>: the resolved path lies under the upload directory.\<close>

definition install_plugin :: "bool \<Rightarrow> bool \<Rightarrow> path \<Rightarrow> bool \<Rightarrow> identity result \<Rightarrow> plugin_manager
    \<Rightarrow> plugin_info result \<times> plugin_manager" where
  "install_plugin inside copy_ok p verify auth m =
     (case auth of
        Inl e \<Rightarrow> (Inl e, m)
      | Inr _ \<Rightarrow>
          if \<not> inside then (Inl (HTTPException 403), m)
          else if \<not> dict_has (pm_files m) p then (Inl (HTTPException 422), m)
          else (case install copy_ok verify p m of
                  (Inl e, m') \<Rightarrow>
                    (Inl (if e = OtherError ''PermissionError'' then HTTPException 403
                          else if e = ValueError then HTTPException 422 else e), m')
                | (Inr i, m') \<Rightarrow> (Inr i, m')))"

definition enable_route :: "nat option \<Rightarrow> string \<Rightarrow> identity result \<Rightarrow> plugin_manager \<Rightarrow> plugin_info result \<times> plugin_manager" where
  "enable_route started name auth m =
     (case auth of
        Inl e \<Rightarrow> (Inl e, m)
      | Inr _ \<Rightarrow> if \<not> dict_has (pm_plugins m) name then (Inl (HTTPException 404), m) else enable_plugin started name m)"

definition disable_route :: "string \<Rightarrow> identity result \<Rightarrow> plugin_manager \<Rightarrow> plugin_info result \<times> plugin_manager" where
  "disable_route name auth m =
     (case auth of
        Inl e \<Rightarrow> (Inl e, m)
      | Inr _ \<Rightarrow> if \<not> dict_has (pm_plugins m) name then (Inl (HTTPException 404), m) else disable_plugin name m)"

definition delete_route :: "bool \<Rightarrow> string \<Rightarrow> identity result \<Rightarrow> plugin_manager \<Rightarrow> unit result \<times> plugin_manager" where
  "delete_route unlink_ok name auth m =
     (case auth of
        Inl e \<Rightarrow> (Inl e, m)
      | Inr _ \<Rightarrow> if \<not> dict_has (pm_plugins m) name then (Inl (HTTPException 404), m) else delete_plugin unlink_ok name m)"

section \<open>What installation guarantees\<close>

text \<open>C23: where signatures are required, an installation for which the caller requests verification succeeds only if a
  trusted key accepts the signature beside the plugin over exactly the bytes copied into the plugin directory. With or
  without verification the name is an importable identifier other than \<open>os\<close>, \<open>sys\<close>, \<open>builtins\<close>, \<open>importlib\<close>, \<open>subprocess\<close>,
  \<open>socket\<close> and \<open>pathlib\<close>, the bytes are copied unchanged, and the plugin is registered but not started. The request comes
  from the caller of the route: \<open>unsigned_upload_installed\<close>.\<close>

theorem install_needs_signature:
  assumes "pm_require m"
  shows "case install copy_ok verify p m of
     (Inl _, _) \<Rightarrow> True
   | (Inr i, m') \<Rightarrow>
       (case map_of (pm_files m) p of
          None \<Rightarrow> False
        | Some c \<Rightarrow>
            map_of (pm_files m') (in_dir (pm_dir m) p) = Some c \<and>
            map_of (pm_plugins m') (stem p) = Some i \<and> pi_status i = LOADED \<and> pm_alive m' = pm_alive m \<and>
            importable (stem p) \<and>
            stem p \<notin> {''os'', ''sys'', ''builtins'', ''importlib'', ''subprocess'', ''socket'', ''pathlib''} \<and>
            (if verify
             then (case (pm_verifier m, map_of (dict_put (in_dir (pm_dir m) p) c (pm_files m)) (with_suffix ''.sig'' p)) of
                     (Some trusted, Some sig) \<Rightarrow> list_ex (\<lambda>key. key sig c) trusted
                   | _ \<Rightarrow> False)
             else True))"
proof (cases "map_of (pm_files m) p")
  case (Some c)
  show ?thesis
  proof (cases "importable (stem p) \<and> \<not> starts_with (stem p) ''_'' \<and> stem p \<notin> set reserved_names \<and>
      needs_verify verify p m = Inr verify \<and> length c \<le> 10 * 1024 * 1024 \<and> copy_ok")
    case True
    show ?thesis
    proof (cases verify)
      case verified: True
      then obtain trusted where v: "pm_verifier m = Some trusted"
        using True assms by (auto simp: needs_verify_def split: if_splits)
      show ?thesis
        using True Some v verified
        by (cases "verify_plugin trusted (dict_put (in_dir (pm_dir m) p) c (pm_files m)) (in_dir (pm_dir m) p) (with_suffix ''.sig'' p)")
          (auto simp: install_def Let_def put_plugin_def new_info_def verify_plugin_def reserved_names_def
            split: if_splits option.splits bool.split)
    next
      case False
      then show ?thesis
        using True Some by (simp add: install_def Let_def put_plugin_def new_info_def reserved_names_def)
    qed
  next
    case False
    have "needs_verify verify p m = Inr verify \<or> (\<exists>e. needs_verify verify p m = Inl e)"
      using assms by (cases verify) (simp_all add: needs_verify_def Let_def)
    with False have "\<exists>e. install copy_ok verify p m = (Inl e, m)"
      by (auto simp: install_def Some)
    then show ?thesis by auto
  qed
qed (simp add: install_def)

definition demo_key :: trusted_key where
  "demo_key sig c \<longleftrightarrow> sig = ''signed:'' @ c"

definition demo_manager :: "files \<Rightarrow> plugin_manager" where
  "demo_manager fs = \<lparr>pm_dir = ''plugins'', pm_require = True, pm_verifier = Some [demo_key], pm_plugins = [], pm_sandboxes = [],
     pm_alive = [], pm_files = fs\<rparr>"

definition demo_files :: files where
  "demo_files = [(Path ''up'' ''scan'' ''.py'', ''x''), (Path ''up'' ''scan'' ''.sig'', ''signed:x'')]"

lemma demo_importable: "importable ''scan''" "\<not> starts_with ''scan'' ''_''" "''scan'' \<notin> set reserved_names"
  by (simp_all add: importable_def is_identifier_def id_start_def id_part_def python_keywords_def reserved_names_def)

lemma demo_install: "fst (install True True (Path ''up'' ''scan'' ''.py'') (demo_manager demo_files)) =
    Inr (new_info ''scan'' (Path ''plugins'' ''scan'' ''.py'') LOADED)"
  by (simp add: install_def demo_manager_def demo_files_def demo_importable needs_verify_def dict_has_def verify_plugin_def demo_key_def Let_def)

lemma install_needs_signature_witness:
  "map_of (pm_files (snd (install True True (Path ''up'' ''scan'' ''.py'') (demo_manager demo_files)))) (Path ''plugins'' ''scan'' ''.py'')
     = Some ''x''"
  using install_needs_signature [where m = "demo_manager demo_files" and copy_ok = True and verify = True and p = "Path ''up'' ''scan'' ''.py''"] demo_install
  by (cases "install True True (Path ''up'' ''scan'' ''.py'') (demo_manager demo_files)")
    (simp add: demo_manager_def demo_files_def)

text \<open>Both routes hand the caller's \<open>verify\<close> to \<open>install\<close>, which then ignores that signatures are required: an upload with
  \<open>verify=false\<close> installs a plugin without any signature.\<close>

lemma unsigned_upload_installed:
  "case upload_plugin True ''tmp'' ''scan'' ''.py'' ''x'' False (Inr who) (demo_manager []) of (answer, m) \<Rightarrow>
     answer = Inr (new_info ''scan'' (Path ''plugins'' ''scan'' ''.py'') LOADED) \<and> pm_require m \<and>
     pm_files m = [(Path ''plugins'' ''scan'' ''.py'', ''x'')]"
  by (simp add: upload_plugin_def safe_stem_def install_def demo_manager_def demo_importable needs_verify_def put_plugin_def
      dict_del_def Let_def)

section \<open>What a restart does\<close>

text \<open>A restart loads plugins whose signature no key accepts: discovery calls the verifier and ignores its answer, so a
  plugin file with any signature file of at most 256 bytes is registered as loaded, whatever the keys say.\<close>

theorem restart_loads_bad_signature:
  assumes "importable name" and "length sig \<le> 256"
  shows "map_option pi_status (map_of (pm_plugins (new_manager dir True verifier
      [(Path dir name ''.py'', content), (Path dir name ''.sig'', sig)])) name) = Some LOADED"
  using assms
  by (simp add: new_manager_def discover_def discover_one_def dict_has_def put_plugin_def new_info_def verify_plugin_def Let_def
      split: option.split sum.split)

lemma restart_loads_bad_signature_witness:
  "map_option pi_status (map_of (pm_plugins (new_manager ''plugins'' True (Some [\<lambda>sig c. False])
      [(Path ''plugins'' ''scan'' ''.py'', ''evil''), (Path ''plugins'' ''scan'' ''.sig'', ''junk'')])) ''scan'') = Some LOADED"
  by (rule restart_loads_bad_signature) (simp_all add: demo_importable)

text \<open>A plugin that discovery marks as an error, because its signature is missing, can be started all the same: enabling
  only checks that it is not running.\<close>

theorem unsigned_plugin_starts:
  assumes "importable name"
  shows "case enable_plugin (Some pid) name (new_manager dir True verifier [(Path dir name ''.py'', content)]) of
     (Inl _, _) \<Rightarrow> False
   | (Inr i, m) \<Rightarrow> pi_status i = RUNNING \<and> pm_alive m = [pid]"
  using assms
  by (simp add: new_manager_def discover_def discover_one_def dict_has_def put_plugin_def new_info_def enable_plugin_def Let_def)

lemma unsigned_plugin_starts_witness:
  "case enable_plugin (Some 7) ''scan'' (new_manager ''plugins'' True None [(Path ''plugins'' ''scan'' ''.py'', ''evil'')]) of
     (Inl _, _) \<Rightarrow> False
   | (Inr i, m) \<Rightarrow> pi_status i = RUNNING \<and> pm_alive m = [7]"
  by (rule unsigned_plugin_starts) (simp add: demo_importable)

text \<open>The upload route cannot install a signed plugin: where signatures are required it succeeds only for requests that
  switch the verification off, because the staged file has no signature beside it.\<close>

theorem upload_only_unverified:
  assumes "pm_require m" and "\<not> dict_has (pm_files m) (Path tmp name ''.sig'')"
  shows "is_ok (fst (upload_plugin copy_ok tmp name suffix content verify auth m)) \<longrightarrow> \<not> verify"
proof (cases "suffix = ''.py'' \<and> verify")
  case True
  have "needs_verify True (Path tmp name ''.py'') (m\<lparr>pm_files := dict_put (Path tmp name ''.py'') content (pm_files m)\<rparr>) = Inl ValueError"
    using assms by (simp add: needs_verify_def)
  then have "\<not> is_ok (fst (install copy_ok True (Path tmp name ''.py'') (m\<lparr>pm_files := dict_put (Path tmp name ''.py'') content (pm_files m)\<rparr>)))"
    by (simp add: install_def)
  then show ?thesis
    using True by (cases auth) (auto simp: upload_plugin_def Let_def split: prod.split sum.split)
qed (cases auth; auto simp: upload_plugin_def)

lemma upload_only_unverified_witness:
  "\<not> is_ok (fst (upload_plugin True ''tmp'' ''scan'' ''.py'' ''x'' True (Inr (ByKey ''root'' [''admin''])) (demo_manager [])))"
  using upload_only_unverified [of "demo_manager []" "''tmp''" "''scan''" True "''.py''" "''x''" True]
  by (auto simp: demo_manager_def dict_has_def)

text \<open>Installing over a running plugin orphans its process: the registration is replaced, so the plugin can be enabled
  again; disabling and deleting it then stop the second process only, and the first keeps running unknown to
  the manager.\<close>

theorem reinstall_orphans_process:
  "case demo_manager demo_files of m0 \<Rightarrow>
   case install True True (Path ''up'' ''scan'' ''.py'') m0 of (_, m1) \<Rightarrow>
   case enable_plugin (Some 1) ''scan'' m1 of (_, m2) \<Rightarrow>
   case install True True (Path ''up'' ''scan'' ''.py'') m2 of (_, m3) \<Rightarrow>
   case enable_plugin (Some 2) ''scan'' m3 of (_, m4) \<Rightarrow>
   case delete_plugin True ''scan'' m4 of (_, m5) \<Rightarrow>
     pm_alive m5 = [1] \<and> pm_plugins m5 = [] \<and> pm_sandboxes m5 = []"
  by (simp add: install_def demo_manager_def demo_files_def demo_importable needs_verify_def dict_has_def verify_plugin_def
      demo_key_def put_plugin_def new_info_def enable_plugin_def delete_plugin_def stop_sandbox_def dict_del_def Let_def)

end
