(* ===== verification/Adapters.thy ===== *)
theory Adapters
  imports Schema Py_Int Secret_Masker
begin

text \<open>
  The collectors' adapters, \<open>normalizer/adapters/\<close>: from a raw JSON payload to an event. \<open>loads\<close> is the JSON parser
  (which may raise), \<open>other\<close> is \<open>str\<close> on values whose text no property depends on. The identifier of the new event
  and the server's clock are arguments. Text of the Latin-1 range; the arrow in two resource texts, which is outside
  it, stands as its UTF-8 bytes.
\<close>

section \<open>Reading a payload\<close>

definition py_lower :: "string \<Rightarrow> string" where
  "py_lower = List.map (\<lambda>c. let n = of_char c :: nat
     in if (65 \<le> n \<and> n \<le> 90) \<or> (192 \<le> n \<and> n \<le> 222 \<and> n \<noteq> 215) then char_of (n + 32) else c)"

definition py_upper :: "string \<Rightarrow> string" where
  "py_upper s = concat (List.map (\<lambda>c. let n = of_char c :: nat
     in if (97 \<le> n \<and> n \<le> 122) \<or> (224 \<le> n \<and> n \<le> 254 \<and> n \<noteq> 247) then [char_of (n - 32)]
        else if n = 223 then ''SS'' else [c]) s)"

text \<open>\<open>int(x)\<close> of a number, and the coercion that never fails.\<close>

definition truncate :: "rat \<Rightarrow> int" where
  "truncate x = (if x < 0 then - \<lfloor>- x\<rfloor> else \<lfloor>x\<rfloor>)"

fun safe_int :: "int \<Rightarrow> json \<Rightarrow> int" where
  "safe_int dflt (JBool b) = (if b then 1 else 0)"
| "safe_int dflt (JInt n) = n"
| "safe_int dflt (JNum x) = truncate x"
| "safe_int dflt (JStr s) = (case parse_int s of None \<Rightarrow> dflt | Some n \<Rightarrow> n)"
| "safe_int dflt _ = dflt"

type_synonym payload = "(string, json) pydict"

definition get_int :: "payload \<Rightarrow> string \<Rightarrow> int" where
  "get_int d k = (case map_of d k of None \<Rightarrow> 0 | Some v \<Rightarrow> safe_int 0 v)"

text \<open>\<open>data.get(k, JNull)\<close>, \<open>str(data.get(k, dflt))\<close>, and the truthiness chain \<open>a or b\<close>.\<close>

definition get_raw :: "payload \<Rightarrow> string \<Rightarrow> json" where
  "get_raw d k = (case map_of d k of None \<Rightarrow> JNull | Some v \<Rightarrow> v)"

definition get_str :: "(json \<Rightarrow> string) \<Rightarrow> payload \<Rightarrow> string \<Rightarrow> string \<Rightarrow> string" where
  "get_str other d k dflt = (case map_of d k of None \<Rightarrow> dflt | Some v \<Rightarrow> py_str other v)"

definition py_or :: "json \<Rightarrow> json \<Rightarrow> json" where
  "py_or a b = (if py_bool a then a else b)"

definition agent_ts :: "int \<Rightarrow> payload \<Rightarrow> int" where
  "agent_ts now_ns d =
     (case map_of d ''timestamp_ns'' of
        None \<Rightarrow> now_ns
      | Some JNull \<Rightarrow> now_ns
      | Some v \<Rightarrow> (let ts = safe_int (- 1) v in if 0 < ts then ts else now_ns))"

text \<open>What every adapter is given beside the payload.\<close>

record adapter_env =
  ae_other :: "json \<Rightarrow> string"
  ae_event_id :: uuid
  ae_now_ns :: int
  ae_hostname :: string
  ae_agent_id :: uuid

text \<open>An event with the defaults of the model's fields.\<close>

definition fresh_event :: "adapter_env \<Rightarrow> int \<Rightarrow> string \<Rightarrow> string \<Rightarrow> string \<Rightarrow> string \<Rightarrow> string \<Rightarrow> universal_event" where
  "fresh_event env ts cat ty sev coll os_name =
     \<lparr>ev_event_id = ae_event_id env, ev_timestamp_ns = ts, ev_hostname = ae_hostname env, ev_agent_id = ae_agent_id env,
      ev_category = cat, ev_type = ty, ev_severity = sev, ev_collector = coll, ev_os = os_name, ev_uid = 0, ev_gid = 0,
      ev_pid = 0, ev_ppid = 0, ev_process_name = [], ev_executable = [], ev_cmdline = [], ev_cwd = [], ev_session_id = None,
      ev_resource = [], ev_result = ''success'', ev_file_hash_before = None, ev_file_hash_after = None, ev_src_ip = None,
      ev_src_port = None, ev_dst_ip = None, ev_dst_port = None, ev_protocol = None, ev_bytes_sent = None,
      ev_bytes_recv = None, ev_hash_chain = [], ev_signature = None, ev_ml_score = None, ev_risk_score = None,
      ev_rule_match_ids = [], ev_mitre_techniques = [], ev_ti_tags = [], ev_incident_chain_id = None, ev_extra = []\<rparr>"

text \<open>The model's constructor checks the literals and the ports.\<close>

definition build_event :: "universal_event \<Rightarrow> universal_event result" where
  "build_event e = (if valid_event e then Inr e else Inl ValidationError)"

type_synonym adapter = "adapter_env \<Rightarrow> payload \<Rightarrow> universal_event result"

definition lookup_or :: "(string \<times> string) list \<Rightarrow> string \<Rightarrow> string \<Rightarrow> string" where
  "lookup_or table k dflt = (case map_of table k of None \<Rightarrow> dflt | Some v \<Rightarrow> v)"

section \<open>Linux\<close>

definition procfs :: adapter where
  "procfs env d =
     build_event ((fresh_event env (ae_now_ns env) ''process'' ''snapshot'' ''info'' ''procfs'' ''linux'')
       \<lparr>ev_pid := get_int d ''pid'', ev_ppid := get_int d ''ppid'', ev_uid := get_int d ''uid'', ev_gid := get_int d ''gid'',
        ev_process_name := get_str (ae_other env) d ''name'' [], ev_executable := get_str (ae_other env) d ''exe'' [],
        ev_cmdline := mask (get_str (ae_other env) d ''cmdline'' [])\<rparr>)"

definition syscall_map :: "(string \<times> (string \<times> string)) list" where
  "syscall_map = [(''execve'', (''process'', ''exec'')), (''open'', (''file'', ''open'')), (''openat'', (''file'', ''open'')),
     (''connect'', (''network'', ''connect''))]"

definition auditd :: adapter where
  "auditd env d =
     (let record_type = py_upper (get_str (ae_other env) d ''type'' []);
          syscall = py_lower (get_str (ae_other env) d ''syscall'' []);
          ct = (case map_of syscall_map syscall of
                  Some ct \<Rightarrow> if record_type = ''SYSCALL'' then ct else (''process'', if syscall = [] then py_lower record_type else syscall)
                | None \<Rightarrow> (''process'', if syscall = [] then py_lower record_type else syscall))
      in build_event ((fresh_event env (agent_ts (ae_now_ns env) d) (fst ct) (snd ct) ''info'' ''auditd'' ''linux'')
       \<lparr>ev_pid := get_int d ''pid'', ev_ppid := get_int d ''ppid'', ev_uid := get_int d ''uid'', ev_gid := get_int d ''gid'',
        ev_process_name := get_str (ae_other env) d ''comm'' [], ev_executable := get_str (ae_other env) d ''exe'' [],
        ev_cmdline := mask (get_str (ae_other env) d ''cmdline'' [])\<rparr>))"

definition ebpf_map :: "(string \<times> (string \<times> string)) list" where
  "ebpf_map = [(''execve'', (''process'', ''exec'')), (''open'', (''file'', ''open'')), (''openat'', (''file'', ''open'')),
     (''connect'', (''network'', ''connect'')), (''unlink'', (''file'', ''delete'')), (''unlinkat'', (''file'', ''delete''))]"

text \<open>\<open>is_ip\<close>: the text is an address for the \<open>ipaddress\<close> module.\<close>

definition ebpf :: "(string \<Rightarrow> bool) \<Rightarrow> adapter" where
  "ebpf is_ip env d =
     (let s = get_str (ae_other env) d;
          raw_type = py_lower (s ''event_type'' []);
          ct = (case map_of ebpf_map raw_type of Some ct \<Rightarrow> ct | None \<Rightarrow> (''process'', raw_type));
          cmdline = (case map_of d ''args'' of
                       Some (JList as) \<Rightarrow> join '' '' (List.map (py_str (ae_other env)) as)
                     | _ \<Rightarrow> s ''cmdline'' []);
          executable = (if py_bool (get_raw d ''filename'') then py_str (ae_other env) (get_raw d ''filename'') else s ''exe'' []);
          resource = (if raw_type \<in> set [''open'', ''openat'', ''execve''] then s ''filename'' [] else s ''resource'' []);
          dst_ip = (if fst ct \<noteq> ''network'' \<or> get_raw d ''dst_ip'' = JNull then None
                    else let ip = py_str (ae_other env) (get_raw d ''dst_ip'') in if is_ip ip then Some ip else None);
          dst_port = (if fst ct \<noteq> ''network'' \<or> get_int d ''dst_port'' = 0 then None else Some (get_int d ''dst_port''))
      in build_event ((fresh_event env (ae_now_ns env) (fst ct) (snd ct) ''info'' ''ebpf'' ''linux'')
       \<lparr>ev_pid := get_int d ''pid'', ev_ppid := get_int d ''ppid'', ev_uid := get_int d ''uid'', ev_gid := get_int d ''gid'',
        ev_process_name := s ''comm'' [], ev_executable := executable, ev_resource := resource, ev_cmdline := mask cmdline,
        ev_dst_ip := dst_ip, ev_dst_port := dst_port\<rparr>))"

definition fanotify :: adapter where
  "fanotify env d =
     (let ty = get_str (ae_other env) d ''event_type'' []
      in build_event ((fresh_event env (agent_ts (ae_now_ns env) d) ''file'' ty
           (if ty \<in> set [''modify'', ''close_write''] then ''medium'' else ''info'') ''fanotify'' ''linux'')
       \<lparr>ev_pid := get_int d ''pid'', ev_resource := get_str (ae_other env) d ''path'' []\<rparr>))"

definition inotify :: adapter where
  "inotify env d =
     (let ty = get_str (ae_other env) d ''event_type'' [];
          res = py_or (get_raw d ''full_path'') (py_or (get_raw d ''base_path'') (JStr []))
      in build_event ((fresh_event env (agent_ts (ae_now_ns env) d) ''file'' ty
           (if ty \<in> set [''create'', ''delete'', ''moved_from'', ''moved_to''] then ''medium'' else ''info'') ''inotify'' ''linux'')
       \<lparr>ev_resource := py_str (ae_other env) res\<rparr>))"

definition map_priority :: "string \<Rightarrow> string" where
  "map_priority p =
     (if p \<in> set [''0'', ''1'', ''2''] then ''critical'' else if p = ''3'' then ''high'' else if p = ''4'' then ''medium'' else ''info'')"

definition journald :: adapter where
  "journald env d =
     (let comm = (case map_of d ''comm'' of None \<Rightarrow> JStr [] | Some v \<Rightarrow> v);
          ident = (case map_of d ''identifier'' of None \<Rightarrow> JStr [] | Some v \<Rightarrow> v)
      in build_event ((fresh_event env (agent_ts (ae_now_ns env) d) ''log'' ''journal_entry''
           (map_priority (get_str (ae_other env) d ''priority'' [])) ''journald'' ''linux'')
       \<lparr>ev_resource := get_str (ae_other env) d ''unit'' [], ev_process_name := py_str (ae_other env) (py_or comm ident),
        ev_pid := get_int d ''pid''\<rparr>))"

definition parse_port :: "string \<Rightarrow> int" where
  "parse_port s = (case parse_int s of None \<Rightarrow> 0 | Some n \<Rightarrow> n)"

text \<open>The text before and after the last occurrence of a separator.\<close>

fun rsplit :: "string \<Rightarrow> string \<Rightarrow> (string \<times> string) option" where
  "rsplit sep [] = None"
| "rsplit sep (c # cs) =
     (case rsplit sep cs of
        Some (a, b) \<Rightarrow> Some (c # a, b)
      | None \<Rightarrow> if starts_with (c # cs) sep then Some ([], drop (length sep) (c # cs)) else None)"

definition split_addr :: "string \<Rightarrow> string \<times> int" where
  "split_addr addr =
     (if addr = [] then ([], 0)
      else if hd addr = CHR ''['' then
        (case rsplit '']:'' addr of
           Some (a, b) \<Rightarrow> (tl a, parse_port b)
         | None \<Rightarrow> if last addr = CHR '']'' then (butlast (tl addr), 0) else (addr, 0))
      else (case rsplit '':'' addr of Some (a, b) \<Rightarrow> (a, parse_port b) | None \<Rightarrow> (addr, 0)))"

definition nonempty :: "string \<Rightarrow> string option" where
  "nonempty s = (if s = [] then None else Some s)"

definition nonzero :: "int \<Rightarrow> int option" where
  "nonzero n = (if n = 0 then None else Some n)"

definition netlink :: adapter where
  "netlink env d =
     (let src = split_addr (get_str (ae_other env) d ''local_addr'' []);
          dst = split_addr (get_str (ae_other env) d ''remote_addr'' [])
      in build_event ((fresh_event env (agent_ts (ae_now_ns env) d) ''network'' (get_str (ae_other env) d ''event'' []) ''info''
           ''netlink'' ''linux'')
       \<lparr>ev_src_ip := nonempty (fst src), ev_src_port := nonzero (snd src), ev_dst_ip := nonempty (fst dst),
        ev_dst_port := nonzero (snd dst), ev_protocol := nonempty (get_str (ae_other env) d ''proto'' [])\<rparr>))"

definition map_severity :: "string \<Rightarrow> string" where
  "map_severity s =
     (if s \<in> set [''emerg'', ''emergency'', ''alert'', ''critical'', ''crit''] then ''critical''
      else if s \<in> set [''err'', ''error''] then ''high'' else if s \<in> set [''warning'', ''warn''] then ''medium'' else ''info'')"

definition syslog :: adapter where
  "syslog env d =
     build_event ((fresh_event env (agent_ts (ae_now_ns env) d) ''log'' ''syslog_entry''
         (map_severity (get_str (ae_other env) d ''severity'' [])) ''syslog'' ''linux'')
       \<lparr>ev_resource := get_str (ae_other env) d ''program'' []\<rparr>)"

definition udev :: adapter where
  "udev env d =
     build_event ((fresh_event env (agent_ts (ae_now_ns env) d) ''device'' (get_str (ae_other env) d ''action'' []) ''info''
         ''udev'' ''linux'')
       \<lparr>ev_resource := get_str (ae_other env) d ''devpath'' []\<rparr>)"

end
