(* ===== verification/Desktop_Adapters.thy ===== *)
theory Desktop_Adapters
  imports Adapters
begin

text \<open>The Windows and macOS adapters, \<open>normalizer/adapters/windows/\<close> and \<open>normalizer/adapters/darwin/\<close>.\<close>

section \<open>Windows\<close>

text \<open>\<open>data.get(a) or data.get(b)\<close>, with a default in the last place where the code has one.\<close>

definition get_either :: "payload \<Rightarrow> string \<Rightarrow> string \<Rightarrow> json" where
  "get_either d a b = py_or (get_raw d a) (get_raw d b)"

definition get_either_str :: "(json \<Rightarrow> string) \<Rightarrow> payload \<Rightarrow> string \<Rightarrow> string \<Rightarrow> string \<Rightarrow> string" where
  "get_either_str other d a b dflt = py_str other (py_or (get_either d a b) (JStr dflt))"

definition etw_severity :: "(string \<times> string) list" where
  "etw_severity =
     [(''process_create'', ''info''), (''process_exit'', ''info''), (''logon_success'', ''info''), (''logon_failure'', ''medium''),
      (''logon_explicit_cred'', ''high''), (''permissions_changed'', ''medium''), (''service_installed'', ''high''),
      (''file_access'', ''low''), (''event'', ''info'')]"

definition etw_category :: "(string \<times> string) list" where
  "etw_category =
     [(''process_create'', ''process''), (''process_exit'', ''process''), (''logon_success'', ''user''), (''logon_failure'', ''user''),
      (''logon_explicit_cred'', ''user''), (''permissions_changed'', ''audit''), (''service_installed'', ''audit''),
      (''file_access'', ''file'')]"

definition etw :: adapter where
  "etw env d =
     (let ty = get_either_str (ae_other env) d ''event_type'' ''EventType'' ''event''
      in build_event ((fresh_event env (agent_ts (ae_now_ns env) d) (lookup_or etw_category ty ''audit'') ty
           (lookup_or etw_severity ty ''info'') ''etw'' ''windows'')
       \<lparr>ev_pid := safe_int 0 (get_either d ''pid'' ''PID''),
        ev_process_name := get_either_str (ae_other env) d ''provider'' ''Provider'' [],
        ev_resource := take 512 (get_either_str (ae_other env) d ''message'' ''Message'' [])\<rparr>))"

definition eventlog_severity :: "(string \<times> string) list" where
  "eventlog_severity = [(''error'', ''high''), (''warning'', ''medium''), (''information'', ''info''), (''audit_success'', ''info''),
     (''audit_failure'', ''high'')]"

definition eventlog :: adapter where
  "eventlog env d =
     (let ty = get_str (ae_other env) d ''event_type'' ''information''
      in build_event ((fresh_event env (agent_ts (ae_now_ns env) d) ''log'' ty (lookup_or eventlog_severity ty ''info'')
           ''eventlog'' ''windows'')
       \<lparr>ev_resource := get_str (ae_other env) d ''source'' []\<rparr>))"

definition fswatch_severity :: "(string \<times> string) list" where
  "fswatch_severity = [(''create'', ''low''), (''delete'', ''medium''), (''modify'', ''low''), (''rename'', ''low''), (''unknown'', ''info'')]"

definition backslash :: char where
  "backslash = CHR 0x5C"

definition sensitive_windows :: "string list" where
  "sensitive_windows = [backslash # ''System32'', backslash # ''SysWOW64'', backslash # ''Startup'', backslash # ''Services'']"

definition rstrip_backslash :: "string \<Rightarrow> string" where
  "rstrip_backslash s = rev (dropWhile (\<lambda>c. c = backslash) (rev s))"

definition fswatch :: adapter where
  "fswatch env d =
     (let path = get_str (ae_other env) d ''path'' []; name = get_str (ae_other env) d ''name'' [];
          ty = get_str (ae_other env) d ''event_type'' ''unknown'';
          full = (if name = [] then path else rstrip_backslash path @ [backslash] @ name);
          sev = lookup_or fswatch_severity ty ''info''
      in build_event ((fresh_event env (agent_ts (ae_now_ns env) d) ''file'' ty
           (if list_ex (contains full) sensitive_windows \<and> ty \<in> set [''create'', ''delete''] then ''high'' else sev)
           ''fswatch'' ''windows'')
       \<lparr>ev_resource := full\<rparr>))"

text \<open>The parts of a key path between slashes of either kind.\<close>

fun path_parts :: "string \<Rightarrow> string list" where
  "path_parts [] = [[]]"
| "path_parts (c # cs) =
     (if c = backslash \<or> c = CHR ''/'' then [] # path_parts cs
      else (case path_parts cs of [] \<Rightarrow> [[c]] | p # ps \<Rightarrow> (c # p) # ps))"

definition persistence_keys :: "string list" where
  "persistence_keys = [''Run'', ''RunOnce'', ''Winlogon'', ''Services'']"

definition registry :: adapter where
  "registry env d =
     (let hive = get_str (ae_other env) d ''hive'' []; key_path = get_str (ae_other env) d ''key_path'' []
      in build_event ((fresh_event env (agent_ts (ae_now_ns env) d) ''audit'' (get_str (ae_other env) d ''event_type'' ''key_changed'')
           (if list_ex (\<lambda>p. p \<in> set persistence_keys) (path_parts key_path) then ''high'' else ''medium'') ''registry'' ''windows'')
       \<lparr>ev_resource := hive @ [backslash] @ key_path\<rparr>))"

definition toolhelp32 :: adapter where
  "toolhelp32 env d =
     build_event ((fresh_event env (agent_ts (ae_now_ns env) d) ''process'' ''snapshot'' ''info'' ''toolhelp32'' ''windows'')
       \<lparr>ev_pid := get_int d ''pid'', ev_ppid := get_int d ''ppid'', ev_process_name := get_str (ae_other env) d ''name'' []\<rparr>)"

definition local_prefixes :: "string list" where
  "local_prefixes = [''127.'', ''0.0.0.0'', ''::'', ''10.'', ''192.168.'', ''172.'']"

definition arrow :: string where
  "arrow = [CHR '' '', CHR 0xE2, CHR 0x86, CHR 0x92, CHR '' '']"

definition connection_text :: "string \<Rightarrow> int \<Rightarrow> string \<Rightarrow> int \<Rightarrow> string" where
  "connection_text la lp ra rp = la @ '':'' @ show_int lp @ arrow @ ra @ '':'' @ show_int rp"

definition net_severity :: "string list \<Rightarrow> string \<Rightarrow> string" where
  "net_severity prefixes ra = (if ra \<noteq> [] \<and> \<not> list_ex (starts_with ra) prefixes then ''low'' else ''info'')"

definition winnetstat :: adapter where
  "winnetstat env d =
     (let s = get_str (ae_other env) d; la = s ''local_addr'' []; ra = s ''remote_addr'' [];
          lp = get_int d ''local_port''; rp = get_int d ''remote_port''; state = py_lower (s ''state'' [])
      in build_event ((fresh_event env (agent_ts (ae_now_ns env) d) ''network'' (if state = [] then ''connection'' else state)
           (net_severity local_prefixes ra) ''winnetstat'' ''windows'')
       \<lparr>ev_pid := get_int d ''pid'', ev_src_ip := Some la, ev_src_port := Some lp, ev_dst_ip := Some ra, ev_dst_port := Some rp,
        ev_protocol := Some (s ''proto'' ''tcp''), ev_resource := connection_text la lp ra rp\<rparr>))"

section \<open>macOS\<close>

definition darwinnet :: adapter where
  "darwinnet env d =
     (let s = get_str (ae_other env) d; la = s ''local_addr'' []; ra = s ''remote_addr'' [];
          lp = get_int d ''local_port''; rp = get_int d ''remote_port''; state = py_lower (s ''state'' [])
      in build_event ((fresh_event env (agent_ts (ae_now_ns env) d) ''network'' (if state = [] then ''connection'' else state)
           (net_severity (local_prefixes @ [''*'']) ra) ''darwinnet'' ''darwin'')
       \<lparr>ev_src_ip := Some la, ev_src_port := Some lp, ev_dst_ip := Some ra, ev_dst_port := Some rp,
        ev_protocol := Some (s ''proto'' ''tcp''), ev_resource := connection_text la lp ra rp\<rparr>))"

definition es_adapter :: adapter where
  "es_adapter env d =
     build_event ((fresh_event env (agent_ts (ae_now_ns env) d) ''audit'' (get_str (ae_other env) d ''event_type'' ''es_event'')
         ''info'' ''es'' ''darwin'')
       \<lparr>ev_resource := take 256 (get_str (ae_other env) d ''message'' [])\<rparr>)"

definition kqueue_severity :: "(string \<times> string) list" where
  "kqueue_severity = [(''write'', ''low''), (''delete'', ''medium''), (''rename'', ''low''), (''attrib'', ''low''), (''change'', ''info'')]"

definition sensitive_paths :: "string list" where
  "sensitive_paths = [''/etc/'', ''/usr/bin/'', ''/usr/sbin/'', ''/Library/LaunchAgents'', ''/Library/LaunchDaemons'', ''/System/'',
     ''/private/etc/'']"

definition kqueue :: adapter where
  "kqueue env d =
     (let path = get_str (ae_other env) d ''path'' []; ty = get_str (ae_other env) d ''event_type'' ''change''
      in build_event ((fresh_event env (agent_ts (ae_now_ns env) d) ''file'' ty
           (if list_ex (starts_with path) sensitive_paths then (if ty = ''delete'' then ''high'' else ''medium'')
            else lookup_or kqueue_severity ty ''info'') ''kqueue'' ''darwin'')
       \<lparr>ev_resource := path\<rparr>))"

definition ps_adapter :: adapter where
  "ps_adapter env d =
     build_event ((fresh_event env (agent_ts (ae_now_ns env) d) ''process'' ''snapshot'' ''info'' ''ps'' ''darwin'')
       \<lparr>ev_pid := get_int d ''pid'', ev_ppid := get_int d ''ppid'', ev_uid := get_int d ''uid'',
        ev_process_name := get_str (ae_other env) d ''name'' []\<rparr>)"

definition unifiedlog_severity :: "(string \<times> string) list" where
  "unifiedlog_severity = [(''fault'', ''critical''), (''error'', ''high''), (''warning'', ''medium''), (''info'', ''info''),
     (''debug'', ''info''), (''default'', ''info'')]"

definition elevated_processes :: "string list" where
  "elevated_processes = [''sudo'', ''sshd'', ''su'', ''login'', ''SecurityAgent'']"

definition unifiedlog :: adapter where
  "unifiedlog env d =
     (let process = get_str (ae_other env) d ''process'' []; level = py_lower (get_str (ae_other env) d ''level'' ''info'');
          sev = lookup_or unifiedlog_severity level ''info''
      in build_event ((fresh_event env (agent_ts (ae_now_ns env) d) ''log'' ''log''
           (if process \<in> set elevated_processes \<and> sev = ''info'' then ''medium'' else sev) ''unifiedlog'' ''darwin'')
       \<lparr>ev_pid := get_int d ''pid'', ev_process_name := process,
        ev_resource := take 512 (get_str (ae_other env) d ''message'' [])\<rparr>))"

end
