(* ===== verification/Normalizer.thy ===== *)
theory Normalizer
  imports Desktop_Adapters Bus
begin

text \<open>
  \<open>normalizer/engine.py\<close>: the registry of adapters, the check of the events, the dead-letter topic, and the loop of
  \<open>main.py\<close> that feeds it. \<open>uuid_of\<close> parses a UUID text to its canonical form. The built-in adapters are modelled; adapters
  added with \<open>register_adapter\<close> are any functions, and \<open>register_package\<close>, which looks for classes in a Python package and
  which only tests call, is not modelled.
\<close>

section \<open>The registry\<close>

type_synonym registry_key = "string \<times> string"

definition register_adapter :: "string \<Rightarrow> string \<Rightarrow> adapter \<Rightarrow> (registry_key, adapter) pydict \<Rightarrow> (registry_key, adapter) pydict" where
  "register_adapter os_name source a reg = dict_put (py_lower os_name, py_lower source) a reg"

definition builtin_adapters :: "(string \<Rightarrow> bool) \<Rightarrow> (string \<times> string \<times> adapter) list" where
  "builtin_adapters is_ip =
     [(''linux'', ''procfs'', procfs), (''linux'', ''auditd'', auditd), (''linux'', ''ebpf'', ebpf is_ip),
      (''linux'', ''fanotify'', fanotify), (''linux'', ''inotify'', inotify), (''linux'', ''netlink'', netlink),
      (''linux'', ''journald'', journald), (''linux'', ''syslog'', syslog), (''linux'', ''udev'', udev),
      (''windows'', ''toolhelp32'', toolhelp32), (''windows'', ''etw'', etw), (''windows'', ''registry'', registry),
      (''windows'', ''eventlog'', eventlog), (''windows'', ''fswatch'', fswatch), (''windows'', ''winnetstat'', winnetstat),
      (''darwin'', ''ps'', ps_adapter), (''darwin'', ''kqueue'', kqueue), (''darwin'', ''unifiedlog'', unifiedlog),
      (''darwin'', ''darwinnet'', darwinnet), (''darwin'', ''es'', es_adapter)]"

definition new_registry :: "(string \<Rightarrow> bool) \<Rightarrow> (registry_key, adapter) pydict" where
  "new_registry is_ip = fold (\<lambda>(o1, s, a). register_adapter o1 s a) (builtin_adapters is_ip) []"

section \<open>Processing\<close>

definition bad_port :: "int option \<Rightarrow> bool" where
  "bad_port p \<longleftrightarrow> (case p of None \<Rightarrow> False | Some n \<Rightarrow> n < 0 \<or> 65535 < n)"

definition negative :: "int option \<Rightarrow> bool" where
  "negative x \<longleftrightarrow> (case x of None \<Rightarrow> False | Some n \<Rightarrow> n < 0)"

definition event_error :: "universal_event \<Rightarrow> string option" where
  "event_error e =
     (if ev_timestamp_ns e \<le> 0 then Some (''invalid timestamp_ns='' @ show_int (ev_timestamp_ns e))
      else if negative (ev_bytes_sent e) then Some (''negative bytes_sent='' @ show_int (the (ev_bytes_sent e)))
      else if negative (ev_bytes_recv e) then Some (''negative bytes_recv='' @ show_int (the (ev_bytes_recv e)))
      else if bad_port (ev_dst_port e) then Some (''dst_port='' @ show_int (the (ev_dst_port e)) @ '' out of range [0, 65535]'')
      else if bad_port (ev_src_port e) then Some (''src_port='' @ show_int (the (ev_src_port e)) @ '' out of range [0, 65535]'')
      else None)"

text \<open>The server's side of the environment: \<open>ne_loads\<close> parses a payload, \<open>ne_dump\<close> is the event's JSON form, \<open>ne_hex\<close> the
  hexadecimal text of a payload.\<close>

record normalizer_env =
  ne_loads :: "string \<Rightarrow> json result"
  ne_other :: "json \<Rightarrow> string"
  ne_dump :: "universal_event \<Rightarrow> json"
  ne_hex :: "string \<Rightarrow> string"
  ne_uuid_of :: "string \<Rightarrow> uuid option"
  ne_hostname :: string
  ne_event_id :: uuid
  ne_now_ns :: int

definition dead_letter_message :: "normalizer_env \<Rightarrow> string \<Rightarrow> string \<Rightarrow> string \<Rightarrow> string \<Rightarrow> string \<Rightarrow> json" where
  "dead_letter_message env raw source os_name agent reason =
     JObj [(''reason'', JStr reason), (''source'', JStr source), (''os_name'', JStr os_name), (''agent_id'', JStr agent),
           (''payload_hex'', JStr (ne_hex env raw))]"

definition send_dead_letter :: "normalizer_env \<Rightarrow> (nat \<Rightarrow> bool) \<Rightarrow> string \<Rightarrow> string \<Rightarrow> string \<Rightarrow> string \<Rightarrow> string \<Rightarrow> bus_log \<Rightarrow> bus_log" where
  "send_dead_letter env ok raw source os_name agent reason b =
     snd (publish ok ''events:dead_letter'' (dead_letter_message env raw source os_name agent reason) b)"

definition run_adapter :: "normalizer_env \<Rightarrow> adapter \<Rightarrow> string \<Rightarrow> uuid \<Rightarrow> universal_event result" where
  "run_adapter env a raw agent =
     bind_result (ne_loads env raw) (\<lambda>v.
       case v of
         JObj d \<Rightarrow> a \<lparr>ae_other = ne_other env, ae_event_id = ne_event_id env, ae_now_ns = ne_now_ns env,
                      ae_hostname = ne_hostname env, ae_agent_id = agent\<rparr> d
       | _ \<Rightarrow> Inl AttributeError)"

definition normalize_event :: "normalizer_env \<Rightarrow> (registry_key, adapter) pydict \<Rightarrow> (nat \<Rightarrow> bool) \<Rightarrow> string \<Rightarrow> string \<Rightarrow> string \<Rightarrow> string
    \<Rightarrow> bus_log \<Rightarrow> universal_event option \<times> bus_log" where
  "normalize_event env reg ok raw source os_name agent b =
     (case map_of reg (py_lower os_name, py_lower source) of
        None \<Rightarrow> (None, b)
      | Some a \<Rightarrow>
          (case ne_uuid_of env agent of
             None \<Rightarrow> (None, b)
           | Some u \<Rightarrow>
               (case run_adapter env a raw u of
                  Inl _ \<Rightarrow> (None, b)
                | Inr e \<Rightarrow>
                    (case event_error e of
                       Some reason \<Rightarrow> (None, send_dead_letter env ok raw source os_name agent reason b)
                     | None \<Rightarrow>
                         (case publish ok ''events:normalized'' (ne_dump env e) b of
                            (True, b') \<Rightarrow> (Some e, b')
                          | (False, b') \<Rightarrow> (Some e, send_dead_letter env ok raw source os_name agent ''bus_publish_failed'' b'))))))"

text \<open>The loop of \<open>main.py\<close>: a message of the topic \<open>events:raw:...\<close>; the third part of the topic is the agent.\<close>

fun split_at_colons :: "string \<Rightarrow> string list" where
  "split_at_colons [] = [[]]"
| "split_at_colons (c # cs) =
     (if c = CHR '':'' then [] # split_at_colons cs
      else (case split_at_colons cs of [] \<Rightarrow> [[c]] | p # ps \<Rightarrow> (c # p) # ps))"

definition normalizer_loop_step :: "normalizer_env \<Rightarrow> (string \<Rightarrow> bool) \<Rightarrow> (nat \<Rightarrow> bool) \<Rightarrow> string \<times> string \<Rightarrow> bus_log \<Rightarrow> bus_log" where
  "normalizer_loop_step env is_ip ok m b =
     (case split_at_colons (fst m) of
        _ # _ # agent # _ \<Rightarrow> snd (normalize_event env (new_registry is_ip) ok (snd m) ''grpc'' ''linux'' agent b)
      | _ \<Rightarrow> snd (normalize_event env (new_registry is_ip) ok (snd m) ''grpc'' ''linux'' ''unknown'' b))"

section \<open>What the adapters produce\<close>

definition good_event :: "adapter_env \<Rightarrow> string \<Rightarrow> string \<Rightarrow> universal_event \<Rightarrow> bool" where
  "good_event env os_name coll e \<longleftrightarrow> valid_event e \<and> event_error e = None \<and> ev_os e = os_name \<and> ev_collector e = coll
     \<and> ev_hostname e = ae_hostname env \<and> ev_agent_id e = ae_agent_id env \<and> ev_event_id e = ae_event_id env"

lemma agent_ts_pos: "0 < now \<Longrightarrow> 0 < agent_ts now d"
  by (auto simp: agent_ts_def Let_def split: option.split json.split)

text \<open>The parts of an event the constructor's checks do not cover.\<close>

definition skeleton :: "adapter_env \<Rightarrow> string \<Rightarrow> string \<Rightarrow> universal_event \<Rightarrow> bool" where
  "skeleton env os_name coll e \<longleftrightarrow> 0 < ev_timestamp_ns e \<and> ev_bytes_sent e = None \<and> ev_bytes_recv e = None \<and> ev_os e = os_name
     \<and> ev_collector e = coll \<and> ev_hostname e = ae_hostname env \<and> ev_agent_id e = ae_agent_id env \<and> ev_event_id e = ae_event_id env"

lemma build_good: "build_event e' = Inr e \<Longrightarrow> skeleton env os_name coll e' \<Longrightarrow> good_event env os_name coll e"
  by (auto simp: build_event_def good_event_def skeleton_def event_error_def negative_def bad_port_def valid_event_def valid_port_def
      split: if_splits option.splits)

definition adapter_sound :: "string \<Rightarrow> string \<Rightarrow> adapter \<Rightarrow> bool" where
  "adapter_sound os_name coll a \<longleftrightarrow>
     (\<forall>env d e. 0 < ae_now_ns env \<longrightarrow> a env d = Inr e \<longrightarrow> good_event env os_name coll e)"

definition builds :: "adapter_env \<Rightarrow> string \<Rightarrow> string \<Rightarrow> universal_event result \<Rightarrow> bool" where
  "builds env os_name coll r \<longleftrightarrow> (\<forall>e. r = Inr e \<longrightarrow> good_event env os_name coll e)"

lemma soundI: "(\<And>env d. 0 < ae_now_ns env \<Longrightarrow> builds env os_name coll (a env d)) \<Longrightarrow> adapter_sound os_name coll a"
  by (auto simp: adapter_sound_def builds_def)

lemma builds_let: "(\<And>x. builds env os_name coll (f x)) \<Longrightarrow> builds env os_name coll (Let t f)"
  by (simp add: Let_def)

lemma builds_event: "skeleton env os_name coll e' \<Longrightarrow> builds env os_name coll (build_event e')"
  by (simp add: builds_def build_good)

lemma skeleton_fresh: "0 < ts \<Longrightarrow> skeleton env os_name coll (fresh_event env ts cat ty sev coll os_name)"
  by (simp add: skeleton_def fresh_event_def)

lemma procfs_sound: "adapter_sound ''linux'' ''procfs'' procfs"
  unfolding procfs_def
  by (intro soundI builds_let builds_event) (simp add: skeleton_def fresh_event_def)

lemma auditd_sound: "adapter_sound ''linux'' ''auditd'' auditd"
  unfolding auditd_def
  by (intro soundI builds_let builds_event) (simp add: skeleton_def fresh_event_def agent_ts_pos)

lemma ebpf_sound: "adapter_sound ''linux'' ''ebpf'' (ebpf is_ip)"
  unfolding ebpf_def
  by (intro soundI builds_let builds_event) (simp add: skeleton_def fresh_event_def)

lemma file_adapters_sound: "adapter_sound ''linux'' ''fanotify'' fanotify" "adapter_sound ''linux'' ''inotify'' inotify"
  unfolding fanotify_def inotify_def
  by (intro soundI builds_let builds_event; simp add: skeleton_def fresh_event_def agent_ts_pos)+

lemma log_adapters_sound: "adapter_sound ''linux'' ''journald'' journald" "adapter_sound ''linux'' ''syslog'' syslog"
  "adapter_sound ''linux'' ''netlink'' netlink" "adapter_sound ''linux'' ''udev'' udev"
  unfolding journald_def syslog_def netlink_def udev_def
  by (intro soundI builds_let builds_event; simp add: skeleton_def fresh_event_def agent_ts_pos)+

lemma windows_sound:
  "adapter_sound ''windows'' ''toolhelp32'' toolhelp32" "adapter_sound ''windows'' ''etw'' etw"
  "adapter_sound ''windows'' ''registry'' registry" "adapter_sound ''windows'' ''eventlog'' eventlog"
  "adapter_sound ''windows'' ''fswatch'' fswatch" "adapter_sound ''windows'' ''winnetstat'' winnetstat"
  unfolding toolhelp32_def etw_def registry_def eventlog_def fswatch_def winnetstat_def
  by (intro soundI builds_let builds_event; simp add: skeleton_def fresh_event_def agent_ts_pos)+

lemma darwin_sound:
  "adapter_sound ''darwin'' ''ps'' ps_adapter" "adapter_sound ''darwin'' ''kqueue'' kqueue"
  "adapter_sound ''darwin'' ''unifiedlog'' unifiedlog" "adapter_sound ''darwin'' ''darwinnet'' darwinnet"
  "adapter_sound ''darwin'' ''es'' es_adapter"
  unfolding ps_adapter_def kqueue_def unifiedlog_def darwinnet_def es_adapter_def
  by (intro soundI builds_let builds_event; simp add: skeleton_def fresh_event_def agent_ts_pos)+

lemmas all_sound = procfs_sound auditd_sound ebpf_sound file_adapters_sound log_adapters_sound windows_sound darwin_sound

section \<open>The built-in registry\<close>

lemma lower_names:
  "list_all (\<lambda>s. py_lower s = s) [''linux'', ''windows'', ''darwin'', ''procfs'', ''auditd'', ''ebpf'', ''fanotify'', ''inotify'',
     ''netlink'', ''journald'', ''syslog'', ''udev'', ''toolhelp32'', ''etw'', ''registry'', ''eventlog'', ''fswatch'',
     ''winnetstat'', ''ps'', ''kqueue'', ''unifiedlog'', ''darwinnet'', ''es'', ''grpc'']"
  by code_simp

lemma new_registry_eq: "new_registry is_ip = List.map (\<lambda>(o1, s, a). ((o1, s), a)) (builtin_adapters is_ip)"
proof -
  note n = lower_names [unfolded list.pred_inject simp_thms]
  show ?thesis
    unfolding new_registry_def builtin_adapters_def register_adapter_def by (simp add: n)
qed

lemma registry_sound:
  assumes "map_of (new_registry is_ip) (o1, src) = Some a"
  shows "adapter_sound o1 src a"
proof -
  have "((o1, src), a) \<in> set (new_registry is_ip)"
    using assms by (rule map_of_SomeD)
  then have "(o1, src, a) \<in> set (builtin_adapters is_ip)"
    by (auto simp: new_registry_eq)
  moreover have "list_all (\<lambda>(o1, src, a). adapter_sound o1 src a) (builtin_adapters is_ip)"
    unfolding builtin_adapters_def by (simp add: all_sound)
  ultimately show ?thesis
    by (auto simp: list_all_iff)
qed

lemma run_adapter_sound:
  assumes "adapter_sound o1 src a" "0 < ne_now_ns env" "run_adapter env a raw u = Inr e"
  shows "valid_event e \<and> event_error e = None \<and> ev_os e = o1 \<and> ev_collector e = src \<and> ev_agent_id e = u"
proof -
  define ae where "ae = \<lparr>ae_other = ne_other env, ae_event_id = ne_event_id env, ae_now_ns = ne_now_ns env,
    ae_hostname = ne_hostname env, ae_agent_id = u\<rparr>"
  obtain v where v: "ne_loads env raw = Inr v"
    using assms(3) by (cases "ne_loads env raw") (auto simp: run_adapter_def)
  obtain d where "v = JObj d"
    using assms(3) v by (cases v) (auto simp: run_adapter_def)
  then have "a ae d = Inr e"
    using assms(3) v by (simp add: run_adapter_def ae_def)
  moreover have "0 < ae_now_ns ae"
    using assms(2) by (simp add: ae_def)
  ultimately have "good_event ae o1 src e"
    using assms(1) unfolding adapter_sound_def by blast
  then show ?thesis
    by (simp add: good_event_def ae_def)
qed

text \<open>C26: what the normalizer lets through with its built-in adapters (and a clock past the epoch): for every payload, source and system, an event
  that is returned satisfies the model's constraints and the engine's own check, carries the system, the collector and
  the agent it was sent for, and is on the normalized topic, or else on the dead-letter topic when the bus failed, or
  nowhere when both failed. Every other payload is dropped without a trace on the bus: whenever no event is returned
  nothing is published, not even a dead letter, so the engine's check never rejects an event of a built-in adapter.\<close>

theorem normalized_events_valid:
  assumes "0 < ne_now_ns env"
  shows "case normalize_event env (new_registry is_ip) ok raw source os_name agent b of
     (None, b') \<Rightarrow> b' = b
   | (Some e, b') \<Rightarrow>
       valid_event e \<and> event_error e = None \<and> ev_os e = py_lower os_name \<and> ev_collector e = py_lower source
       \<and> ne_uuid_of env agent = Some (ev_agent_id e)
       \<and> (sent b' = sent b @ [(''events:normalized'', ne_dump env e)]
          \<or> sent b' = sent b @ [(''events:dead_letter'', dead_letter_message env raw source os_name agent ''bus_publish_failed'')]
          \<or> sent b' = sent b)"
proof (cases "map_of (new_registry is_ip) (py_lower os_name, py_lower source)")
  case (Some a)
  note sound = run_adapter_sound [OF registry_sound [OF Some] assms]
  show ?thesis
  proof (cases "ne_uuid_of env agent")
    case u: (Some u)
    show ?thesis
    proof (cases "run_adapter env a raw u")
      case (Inr e)
      then show ?thesis
        using sound [OF Inr] unfolding normalize_event_def Some u
        by (simp add: publish_def send_dead_letter_def)
    qed (simp add: normalize_event_def Some u)
  qed (simp add: normalize_event_def Some)
qed (simp add: normalize_event_def)

definition demo_normalizer :: normalizer_env where
  "demo_normalizer = \<lparr>ne_loads = (\<lambda>s. Inr (JObj [(''action'', JStr s)])), ne_other = (\<lambda>v. []), ne_dump = (\<lambda>e. JStr (ev_type e)),
     ne_hex = (\<lambda>s. s), ne_uuid_of = (\<lambda>s. Some s), ne_hostname = ''srv'', ne_event_id = ''e1'', ne_now_ns = 1\<rparr>"

lemma normalized_events_valid_witness:
  "case normalize_event demo_normalizer (new_registry (\<lambda>_. True)) (\<lambda>_. True) ''add'' ''udev'' ''linux'' ''a1'' empty_bus of
     (None, b') \<Rightarrow> b' = empty_bus
   | (Some e, b') \<Rightarrow> valid_event e \<and> ev_collector e = py_lower ''udev''"
  using normalized_events_valid [where env = demo_normalizer and is_ip = "\<lambda>_. True" and ok = "\<lambda>_. True" and raw = "''add''" and source = "''udev''"
      and os_name = "''linux''" and agent = "''a1''" and b = empty_bus]
  by (simp add: demo_normalizer_def split: prod.splits option.splits)

text \<open>The documents of the engine say that failed and invalid events, with ports out of range for instance, go to the
  dead-letter topic. An event with such a port fails already in its adapter, where the model is built, and is dropped.\<close>

lemma bad_port_fails: "ev_dst_port e = Some n \<Longrightarrow> 65535 < n \<Longrightarrow> build_event e = Inl ValidationError"
  by (simp add: build_event_def valid_event_def valid_port_def)

lemma winnetstat_bad_port: "65535 < n \<Longrightarrow> winnetstat env [(''remote_port'', JInt n)] = Inl ValidationError"
  unfolding winnetstat_def Let_def by (rule bad_port_fails [of _ n]) (simp_all add: get_int_def)

lemma out_of_range_port_dropped:
  assumes "65535 < n"
  shows "normalize_event (demo_normalizer\<lparr>ne_loads := (\<lambda>s. Inr (JObj [(''remote_port'', JInt n)]))\<rparr>) (new_registry is_ip) ok raw
     ''winnetstat'' ''windows'' agent b = (None, b)"
proof -
  note n = lower_names [unfolded list.pred_inject simp_thms]
  have "map_of (new_registry is_ip) (py_lower ''windows'', py_lower ''winnetstat'') = Some winnetstat"
    unfolding new_registry_eq builtin_adapters_def by (simp add: n)
  then show ?thesis
    unfolding normalize_event_def by (simp add: demo_normalizer_def run_adapter_def winnetstat_bad_port [OF assms])
qed

text \<open>With any other adapters, the check of the engine still holds for every event that is returned, and the events it rejects
  are the ones that go to the dead-letter topic.\<close>

lemma registered_events_checked:
  "case normalize_event env reg ok raw source os_name agent b of
     (None, b') \<Rightarrow> b' = b \<or> (\<exists>reason. b' = send_dead_letter env ok raw source os_name agent reason b)
   | (Some e, b') \<Rightarrow> event_error e = None"
  by (auto simp: normalize_event_def split: option.split sum.split prod.split bool.split)

text \<open>The deployed loop discards every raw event: it names the source \<open>grpc\<close>, for which no adapter is registered, so
  no message of the raw topics ever reaches an adapter, the check or the bus.\<close>

theorem grpc_payloads_discarded: "normalizer_loop_step env is_ip ok m b = b"
proof -
  note n = lower_names [unfolded list.pred_inject simp_thms]
  have "map_of (new_registry is_ip) (py_lower ''linux'', py_lower ''grpc'') = None"
    unfolding new_registry_eq builtin_adapters_def by (simp add: n)
  then show ?thesis
    by (simp add: normalizer_loop_step_def normalize_event_def split: list.split)
qed

text \<open>Public addresses of 172.0.0.0/8 outside the private block count as local.\<close>

lemma public_172_is_local: "net_severity local_prefixes ''172.217.16.142'' = ''info''"
  by (simp add: net_severity_def local_prefixes_def)

end
