(* ===== verification/Alert_Repo.thy ===== *)
theory Alert_Repo
  imports Schema Api_Keys Iso_Time
begin

text \<open>
  \<open>storage/repositories/alerts.py\<close> and \<open>api/routers/alerts.py\<close>. The two tables are lists of rows; UUIDs, lists and
  instants are kept as what their texts denote, and ordering compares the \<open>isoformat\<close> texts as the database does.
  The rule-version log and the feedback to the learning engine are effects of the route, recorded in order.
\<close>

section \<open>Rows\<close>

record alert_row =
  ar_alert_id :: uuid
  ar_created_at :: time
  ar_updated_at :: time
  ar_severity :: severity
  ar_status :: alert_status
  ar_rule_id :: "string option"
  ar_ml_triggered :: bool
  ar_ti_triggered :: bool
  ar_entity_id :: string
  ar_hostname :: string
  ar_trigger_event_id :: uuid
  ar_related_event_ids :: "uuid list"
  ar_incident_chain_id :: "uuid option"
  ar_title :: string
  ar_description :: string
  ar_mitre_techniques :: "string list"
  ar_assigned_to :: "string option"
  ar_false_positive_count :: int
  ar_dst_ip :: "string option"
  ar_pid :: "int option"
  ar_process_name :: string
  ar_rule_type :: rule_type

definition row_to_alert :: "alert_row \<Rightarrow> alert_note list \<Rightarrow> alert" where
  "row_to_alert r notes =
     \<lparr>al_alert_id = ar_alert_id r, al_created_at = ar_created_at r, al_updated_at = ar_updated_at r,
      al_severity = ar_severity r, al_status = ar_status r, al_rule_id = ar_rule_id r, al_rule_type = ar_rule_type r,
      al_ml_triggered = ar_ml_triggered r, al_ti_triggered = ar_ti_triggered r, al_entity_id = ar_entity_id r,
      al_hostname = ar_hostname r, al_trigger_event_id = ar_trigger_event_id r,
      al_related_event_ids = ar_related_event_ids r, al_incident_chain_id = ar_incident_chain_id r, al_title = ar_title r,
      al_description = ar_description r, al_mitre_techniques = ar_mitre_techniques r, al_assigned_to = ar_assigned_to r,
      al_notes = notes, al_false_positive_count = ar_false_positive_count r, al_dst_ip = ar_dst_ip r, al_pid = ar_pid r,
      al_process_name = ar_process_name r\<rparr>"

definition alert_to_row :: "alert \<Rightarrow> alert_row" where
  "alert_to_row a =
     \<lparr>ar_alert_id = al_alert_id a, ar_created_at = al_created_at a, ar_updated_at = al_updated_at a,
      ar_severity = al_severity a, ar_status = al_status a, ar_rule_id = al_rule_id a,
      ar_ml_triggered = al_ml_triggered a, ar_ti_triggered = al_ti_triggered a, ar_entity_id = al_entity_id a,
      ar_hostname = al_hostname a, ar_trigger_event_id = al_trigger_event_id a,
      ar_related_event_ids = al_related_event_ids a, ar_incident_chain_id = al_incident_chain_id a, ar_title = al_title a,
      ar_description = al_description a, ar_mitre_techniques = al_mitre_techniques a, ar_assigned_to = al_assigned_to a,
      ar_false_positive_count = al_false_positive_count a, ar_dst_ip = al_dst_ip a, ar_pid = al_pid a,
      ar_process_name = al_process_name a, ar_rule_type = al_rule_type a\<rparr>"

text \<open>The note rows carry the identifier of their alert.\<close>

record alert_db =
  ad_alerts :: "alert_row list"
  ad_notes :: "(uuid \<times> alert_note) list"

section \<open>The repository\<close>

definition ar_create :: "alert \<Rightarrow> alert_db \<Rightarrow> alert result \<times> alert_db" where
  "ar_create a db =
     (let alerts = ad_alerts db @ [alert_to_row a];
          notes = ad_notes db @ map (\<lambda>n. (al_alert_id a, n)) (al_notes a)
      in if distinct (map ar_alert_id alerts) \<and> distinct (map (an_note_id \<circ> snd) notes)
         then (Inr a, \<lparr>ad_alerts = alerts, ad_notes = notes\<rparr>)
         else (Inl (OtherError ''IntegrityError''), db))"

definition notes_of :: "uuid \<Rightarrow> alert_db \<Rightarrow> alert_note list" where
  "notes_of i db = map snd (filter (\<lambda>p. fst p = i) (ad_notes db))"

definition ar_get :: "uuid \<Rightarrow> alert_db \<Rightarrow> alert option" where
  "ar_get i db =
     (case find (\<lambda>r. ar_alert_id r = i) (ad_alerts db) of
        None \<Rightarrow> None
      | Some r \<Rightarrow> Some (row_to_alert r (notes_of i db)))"

text \<open>An update writes every column but the identifier and the creation time, and no note.\<close>

definition ar_update :: "alert \<Rightarrow> alert_db \<Rightarrow> alert result \<times> alert_db" where
  "ar_update a db =
     (if list_ex (\<lambda>r. ar_alert_id r = al_alert_id a) (ad_alerts db)
      then (Inr a, db\<lparr>ad_alerts := map (\<lambda>r. if ar_alert_id r = al_alert_id a
              then (alert_to_row a)\<lparr>ar_created_at := ar_created_at r\<rparr> else r) (ad_alerts db)\<rparr>)
      else (Inl ValueError, db))"

record alert_filter =
  af_status :: "alert_status option"
  af_severity :: "severity option"
  af_hostname :: "string option"

definition matches_filter :: "alert_filter \<Rightarrow> alert_row \<Rightarrow> bool" where
  "matches_filter f r \<longleftrightarrow>
     (case af_status f of None \<Rightarrow> True | Some s \<Rightarrow> ar_status r = s) \<and>
     (case af_severity f of None \<Rightarrow> True | Some s \<Rightarrow> ar_severity r = s) \<and>
     (case af_hostname f of None \<Rightarrow> True | Some h \<Rightarrow> h = [] \<or> ar_hostname r = h)"

definition newest_first :: "alert_row list \<Rightarrow> alert_row list" where
  "newest_first = sort_desc (\<lambda>r. iso_text (ar_created_at r))"

definition ar_list :: "alert_filter \<Rightarrow> nat \<Rightarrow> nat \<Rightarrow> alert_db \<Rightarrow> alert list \<times> nat" where
  "ar_list f offset limit db =
     (let rows = filter (matches_filter f) (ad_alerts db)
      in (map (\<lambda>r. row_to_alert r []) (page_of offset limit (newest_first rows)), length rows))"

text \<open>The count looks at the status and the severity only.\<close>

definition ar_count :: "alert_filter \<Rightarrow> alert_db \<Rightarrow> nat" where
  "ar_count f db = length (filter (matches_filter (f\<lparr>af_hostname := None\<rparr>)) (ad_alerts db))"

definition list_by_entity :: "string \<Rightarrow> nat \<Rightarrow> alert_db \<Rightarrow> alert list" where
  "list_by_entity entity limit db =
     map (\<lambda>r. row_to_alert r []) (take limit (newest_first (filter (\<lambda>r. ar_entity_id r = entity) (ad_alerts db))))"

definition list_all_alerts :: "string option \<Rightarrow> nat \<Rightarrow> alert_db \<Rightarrow> alert list" where
  "list_all_alerts host limit db =
     map (\<lambda>r. row_to_alert r []) (take limit (newest_first
       (filter (\<lambda>r. host = None \<or> host = Some [] \<or> Some (ar_hostname r) = host) (ad_alerts db))))"

section \<open>The routes\<close>

definition no_filter :: alert_filter where
  "no_filter = \<lparr>af_status = None, af_severity = None, af_hostname = None\<rparr>"

definition list_alerts :: "alert_filter \<Rightarrow> int \<Rightarrow> int \<Rightarrow> identity result \<Rightarrow> alert_db \<Rightarrow> (alert list \<times> nat) result" where
  "list_alerts f limit offset auth db =
     bind_result auth (\<lambda>_.
       if limit < 1 \<or> 500 < limit \<or> offset < 0 \<or> (case af_hostname f of None \<Rightarrow> False | Some h \<Rightarrow> 253 < length h)
       then Inl (HTTPException 422)
       else Inr (ar_list f (nat offset) (nat limit) db))"

definition alerts_stats :: "identity result \<Rightarrow> alert_db \<Rightarrow> ((severity \<times> nat) list \<times> nat) result" where
  "alerts_stats auth db =
     bind_result auth (\<lambda>_.
       Inr (map (\<lambda>s. (s, ar_count (no_filter\<lparr>af_severity := Some s\<rparr>) db)) [Low, Medium, High, Critical],
            ar_count (no_filter\<lparr>af_status := Some AOpen\<rparr>) db))"

definition get_alert :: "uuid \<Rightarrow> identity result \<Rightarrow> alert_db \<Rightarrow> alert result" where
  "get_alert i auth db =
     bind_result auth (\<lambda>_. case ar_get i db of None \<Rightarrow> Inl (HTTPException 404) | Some a \<Rightarrow> Inr a)"

fun parse_status :: "string \<Rightarrow> alert_status option" where
  "parse_status s =
     (if s = ''open'' then Some AOpen else if s = ''acknowledged'' then Some AAcknowledged
      else if s = ''investigating'' then Some AInvestigating else if s = ''resolved'' then Some AResolved
      else if s = ''false_positive'' then Some AFalsePositive else None)"

record alert_patch =
  ap_status :: "string option"
  ap_assigned_to :: "string option"

text \<open>What the handler makes of the alert it has read; \<open>None\<close> for a status that does not exist.\<close>

definition apply_patch :: "time \<Rightarrow> alert_patch \<Rightarrow> alert \<Rightarrow> alert option" where
  "apply_patch now p a =
     (let assigned = (case ap_assigned_to p of None \<Rightarrow> al_assigned_to a | Some u \<Rightarrow> Some u)
      in case ap_status p of
           None \<Rightarrow> Some (a\<lparr>al_assigned_to := assigned, al_updated_at := now\<rparr>)
         | Some s \<Rightarrow>
             (case parse_status s of
                None \<Rightarrow> None
              | Some st \<Rightarrow> Some (a\<lparr>al_status := st, al_assigned_to := assigned, al_updated_at := now\<rparr>)))"

definition store :: "alert \<Rightarrow> alert_db \<Rightarrow> alert result \<times> alert_db" where
  "store a db = (case ar_update a db of (Inl e, db') \<Rightarrow> (Inl e, db') | (Inr _, db') \<Rightarrow> (Inr a, db'))"

definition patch_alert :: "time \<Rightarrow> uuid \<Rightarrow> alert_patch \<Rightarrow> identity result \<Rightarrow> alert_db \<Rightarrow> alert result \<times> alert_db" where
  "patch_alert now i p auth db =
     (case auth of
        Inl e \<Rightarrow> (Inl e, db)
      | Inr _ \<Rightarrow>
          if (case ap_assigned_to p of None \<Rightarrow> False | Some u \<Rightarrow> 200 < length u) then (Inl (HTTPException 422), db)
          else (case ar_get i db of
                  None \<Rightarrow> (Inl (HTTPException 404), db)
                | Some a \<Rightarrow>
                    (case apply_patch now p a of
                       None \<Rightarrow> (Inl (HTTPException 422), db)
                     | Some a' \<Rightarrow> store a' db)))"

text \<open>Acknowledging also tells the live stream, when there is one.\<close>

definition acknowledged :: "time \<Rightarrow> identity \<Rightarrow> alert \<Rightarrow> alert" where
  "acknowledged now i a =
     a\<lparr>al_status := AAcknowledged,
       al_assigned_to := (case al_assigned_to a of
          Some u \<Rightarrow> if u = [] then Some (case identity_sub i of None \<Rightarrow> [] | Some s \<Rightarrow> s) else Some u
        | None \<Rightarrow> Some (case identity_sub i of None \<Rightarrow> [] | Some s \<Rightarrow> s)),
       al_updated_at := now\<rparr>"

definition acknowledge_alert :: "bool \<Rightarrow> time \<Rightarrow> uuid \<Rightarrow> identity result \<Rightarrow> alert_db
    \<Rightarrow> (alert result \<times> json list) \<times> alert_db" where
  "acknowledge_alert has_ws now i auth db =
     (case auth of
        Inl e \<Rightarrow> ((Inl e, []), db)
      | Inr who \<Rightarrow>
          (case ar_get i db of
             None \<Rightarrow> ((Inl (HTTPException 404), []), db)
           | Some a \<Rightarrow>
               (case store (acknowledged now who a) db of
                  (Inl e, db') \<Rightarrow> ((Inl e, []), db')
                | (Inr a', db') \<Rightarrow>
                    ((Inr a', if has_ws then [JObj [(''event'', JStr ''alert_updated''), (''alert_id'', JStr i),
                                                    (''status'', JStr ''acknowledged'')]] else []), db'))))"

text \<open>The effects of a false positive: the line in the rule's history and the negative update of the learning engine.\<close>

datatype fp_effect = LogFalsePositive string uuid string int | NegativeFeedback uuid "string list"

definition marked_false :: "time \<Rightarrow> alert \<Rightarrow> alert" where
  "marked_false now a =
     a\<lparr>al_status := AFalsePositive, al_false_positive_count := al_false_positive_count a + 1, al_updated_at := now\<rparr>"

definition fp_effects :: "bool \<Rightarrow> bool \<Rightarrow> (uuid \<Rightarrow> bool) \<Rightarrow> identity \<Rightarrow> alert \<Rightarrow> fp_effect list" where
  "fp_effects has_log has_ml event_exists who a =
     (case al_rule_id a of
        Some r \<Rightarrow>
          if has_log \<and> r \<noteq> []
          then [LogFalsePositive r (al_alert_id a) (case identity_sub who of None \<Rightarrow> ''unknown'' | Some s \<Rightarrow> s) (al_false_positive_count a)]
          else []
      | None \<Rightarrow> []) @
     (if has_ml \<and> al_mitre_techniques a \<noteq> [] \<and> event_exists (al_trigger_event_id a)
      then [NegativeFeedback (al_trigger_event_id a) (al_mitre_techniques a)] else [])"

definition mark_false_positive :: "bool \<Rightarrow> bool \<Rightarrow> (uuid \<Rightarrow> bool) \<Rightarrow> time \<Rightarrow> uuid \<Rightarrow> identity result \<Rightarrow> alert_db
    \<Rightarrow> (alert result \<times> fp_effect list) \<times> alert_db" where
  "mark_false_positive has_log has_ml event_exists now i auth db =
     (case auth of
        Inl e \<Rightarrow> ((Inl e, []), db)
      | Inr who \<Rightarrow>
          (case ar_get i db of
             None \<Rightarrow> ((Inl (HTTPException 404), []), db)
           | Some a \<Rightarrow>
               (case store (marked_false now a) db of
                  (Inl e, db') \<Rightarrow> ((Inl e, []), db')
                | (Inr a', db') \<Rightarrow> ((Inr a', fp_effects has_log has_ml event_exists who a'), db'))))"

section \<open>Reading back\<close>

lemma row_to_alert_id: "al_alert_id (row_to_alert r ns) = ar_alert_id r" "al_notes (row_to_alert r ns) = ns"
  "al_created_at (row_to_alert r ns) = ar_created_at r"
  by (simp_all add: row_to_alert_def)

lemma alert_row_roundtrip: "row_to_alert (alert_to_row a) (al_notes a) = a"
  by (simp add: row_to_alert_def alert_to_row_def)

lemma row_created: "row_to_alert ((alert_to_row a)\<lparr>ar_created_at := al_created_at a\<rparr>) (al_notes a) = a"
  by (simp add: row_to_alert_def alert_to_row_def)

lemma alert_to_row_id [simp]: "ar_alert_id (alert_to_row a) = al_alert_id a"
  by (simp add: alert_to_row_def)

definition notes_owned :: "alert_db \<Rightarrow> bool" where
  "notes_owned db \<longleftrightarrow> set (map fst (ad_notes db)) \<subseteq> set (map ar_alert_id (ad_alerts db))"

definition empty_alerts :: alert_db where
  "empty_alerts = \<lparr>ad_alerts = [], ad_notes = []\<rparr>"

datatype alert_op =
    ACreate alert
  | APatch time uuid alert_patch "identity result"
  | AAcknowledge bool time uuid "identity result"
  | AFalse time uuid "identity result"

fun alert_step :: "alert_op \<Rightarrow> alert_db \<Rightarrow> alert_db" where
  "alert_step (ACreate a) db = snd (ar_create a db)"
| "alert_step (APatch now i p auth) db = snd (patch_alert now i p auth db)"
| "alert_step (AAcknowledge ws now i auth) db = snd (acknowledge_alert ws now i auth db)"
| "alert_step (AFalse now i auth) db = snd (mark_false_positive True True (\<lambda>_. True) now i auth db)"

lemma notes_owned_create: "notes_owned db \<Longrightarrow> notes_owned (snd (ar_create a db))"
  by (auto simp: notes_owned_def ar_create_def Let_def)

lemma store_ids: "map ar_alert_id (ad_alerts (snd (store a db))) = map ar_alert_id (ad_alerts db)"
  by (simp add: store_def ar_update_def)

lemma store_notes [simp]: "ad_notes (snd (store a db)) = ad_notes db"
  by (simp add: store_def ar_update_def)

lemma notes_owned_store: "notes_owned db \<Longrightarrow> notes_owned (snd (store a db))"
  unfolding notes_owned_def store_ids store_notes .

lemma notes_owned_step: "notes_owned db \<Longrightarrow> notes_owned (alert_step e db)"
proof (cases e)
  case (ACreate a)
  then show "notes_owned db \<Longrightarrow> ?thesis" by (simp add: notes_owned_create)
next
  case (APatch now i p auth)
  then show "notes_owned db \<Longrightarrow> ?thesis"
    by (cases auth) (simp_all add: patch_alert_def notes_owned_store split: option.split)
next
  case (AAcknowledge ws now i auth)
  have "snd (case store a db of (Inl e, db') \<Rightarrow> ((Inl e, []), db') | (Inr a', db') \<Rightarrow> ((Inr a', l), db')) = snd (store a db)"
    for a and l :: "json list"
    by (simp split: prod.split sum.split)
  with AAcknowledge show "notes_owned db \<Longrightarrow> ?thesis"
    by (cases auth) (simp_all add: acknowledge_alert_def notes_owned_store split: option.split)
next
  case (AFalse now i auth)
  have "snd (case store a db of (Inl e, db') \<Rightarrow> ((Inl e, []), db') | (Inr a', db') \<Rightarrow> ((Inr a', f a'), db')) = snd (store a db)"
    for a and f :: "alert \<Rightarrow> fp_effect list"
    by (simp split: prod.split sum.split)
  with AFalse show "notes_owned db \<Longrightarrow> ?thesis"
    by (cases auth) (simp_all add: mark_false_positive_def notes_owned_store split: option.split)
qed

interpretation alert_notes: machine alert_step "\<lambda>db. db = empty_alerts" notes_owned
  by unfold_locales (simp add: notes_owned_def empty_alerts_def, rule notes_owned_step)

lemma find_append_new: "\<forall>x \<in> set xs. \<not> P x \<Longrightarrow> P y \<Longrightarrow> find P (xs @ [y]) = Some y"
  by (induction xs) auto

text \<open>A created alert is read back as it was: after any history of the table, an alert that is inserted comes back from
  \<open>get\<close> with every field and its notes in order.\<close>

theorem alert_read_back:
  "case ar_create a (run alert_step empty_alerts ops) of
     (Inl _, _) \<Rightarrow> True
   | (Inr _, db') \<Rightarrow> ar_get (al_alert_id a) db' = Some a"
proof -
  define db where "db = run alert_step empty_alerts ops"
  have own: "notes_owned db"
    unfolding db_def by (rule alert_notes.reachable_inv) simp
  show ?thesis
  proof (cases "fst (ar_create a db)")
    case (Inr x)
    then have new: "al_alert_id a \<notin> ar_alert_id ` set (ad_alerts db)"
      by (auto simp: ar_create_def Let_def split: if_splits)
    then have "\<forall>r \<in> set (ad_alerts db). ar_alert_id r \<noteq> al_alert_id a"
      by (metis image_eqI)
    then have f: "find (\<lambda>r. ar_alert_id r = al_alert_id a) (ad_alerts db @ [alert_to_row a]) = Some (alert_to_row a)"
      by (intro find_append_new) auto
    have "filter (\<lambda>p. fst p = al_alert_id a) (ad_notes db) = []"
      using own new unfolding notes_owned_def filter_empty_conv by (metis image_eqI list.set_map subsetD)
    then have "notes_of (al_alert_id a) (snd (ar_create a db)) = al_notes a"
      using Inr by (simp add: ar_create_def Let_def notes_of_def filter_map o_def split: if_splits)
    then have "ar_get (al_alert_id a) (snd (ar_create a db)) = Some a"
      using Inr f by (simp add: ar_create_def Let_def ar_get_def alert_row_roundtrip split: if_splits)
    then show ?thesis
      using Inr unfolding db_def [symmetric] by (cases "ar_create a db") auto
  qed (auto simp: db_def [symmetric] split: prod.split sum.split)
qed

section \<open>Order and pages\<close>

lemma sort_desc_sorted: "sorted_wrt (\<lambda>x y. key y \<le> key x) (sort_desc key xs)"
proof -
  have "sorted_wrt (\<lambda>x y. key x \<le> key y) (sort_key key (rev xs))"
    using sorted_sort_key [of key "rev xs"] by (simp add: sorted_map)
  then show ?thesis by (simp add: sort_desc_def sorted_wrt_rev)
qed

lemma newest_first_times:
  assumes "list_all (\<lambda>r. in_range (ar_created_at r)) rs"
  shows "sorted_wrt (\<lambda>x y. ar_created_at y \<le> ar_created_at x) (newest_first rs)"
proof (rule sorted_wrt_mono_rel [OF _ sort_desc_sorted [of "\<lambda>r. iso_text (ar_created_at r)" rs, folded newest_first_def]])
  fix x y
  assume "x \<in> set (newest_first rs)" "y \<in> set (newest_first rs)" and le: "iso_text (ar_created_at y) \<le> iso_text (ar_created_at x)"
  then have "in_range (ar_created_at x)" "in_range (ar_created_at y)"
    using assms by (auto simp: newest_first_def list_all_iff)
  then show "ar_created_at y \<le> ar_created_at x"
    using le iso_text_less_iff [of "ar_created_at x" "ar_created_at y"] by (auto simp: not_less [symmetric])
qed

text \<open>Listing: for alerts dated in the years 1 to 9999 the page is newest first, although the database orders texts; the
  pages cut one and the same list of the matching alerts, whose length is the total.\<close>

theorem pages_newest_first:
  assumes "list_all (\<lambda>r. in_range (ar_created_at r)) (ad_alerts db)"
  shows "case ar_list f 0 (length (ad_alerts db)) db of (full, n) \<Rightarrow>
     ar_list f offset limit db = (take limit (drop offset full), n) \<and> n = length full
     \<and> sorted_wrt (\<lambda>x y. al_created_at y \<le> al_created_at x) full"
proof -
  have "list_all (\<lambda>r. in_range (ar_created_at r)) (filter (matches_filter f) (ad_alerts db))"
    using assms by (auto simp: list_all_iff)
  from newest_first_times [OF this] show ?thesis
    by (simp add: ar_list_def Let_def page_of_def newest_first_def take_map drop_map sorted_wrt_map row_to_alert_id)
qed

section \<open>Changes\<close>

lemma get_store:
  assumes "ar_get i db = Some a" "al_alert_id a' = i" "al_created_at a' = al_created_at a" "al_notes a' = al_notes a"
  shows "fst (store a' db) = Inr a' \<and> ar_get j (snd (store a' db)) = (if j = i then Some a' else ar_get j db)"
proof -
  obtain r where r: "find (\<lambda>r. ar_alert_id r = i) (ad_alerts db) = Some r" and a: "a = row_to_alert r (notes_of i db)"
    using assms(1) by (auto simp: ar_get_def split: option.splits)
  have ex: "list_ex (\<lambda>r. ar_alert_id r = al_alert_id a') (ad_alerts db)"
    using r assms(2) by (auto simp: find_Some_iff list_ex_iff)
  have upd: "find (\<lambda>r. ar_alert_id r = k) (map (\<lambda>r. if ar_alert_id r = i then (alert_to_row a')\<lparr>ar_created_at := ar_created_at r\<rparr> else r) rs) =
      map_option (\<lambda>r. if ar_alert_id r = i then (alert_to_row a')\<lparr>ar_created_at := ar_created_at r\<rparr> else r)
        (find (\<lambda>r. ar_alert_id r = k) rs)" for rs k
    using assms(2) by (induction rs) auto
  have row: "row_to_alert ((alert_to_row a')\<lparr>ar_created_at := ar_created_at r\<rparr>) (notes_of i db) = a'"
    using row_created [of a'] assms(3,4) by (simp add: a row_to_alert_id)
  have st: "store a' db = (Inr a', db\<lparr>ad_alerts := map (\<lambda>r. if ar_alert_id r = i
      then (alert_to_row a')\<lparr>ar_created_at := ar_created_at r\<rparr> else r) (ad_alerts db)\<rparr>)"
    using ex assms(2) by (simp add: store_def ar_update_def)
  have n: "notes_of k (db\<lparr>ad_alerts := x\<rparr>) = notes_of k db" for k x
    by (simp add: notes_of_def)
  have ids: "ar_alert_id s = k" if "find (\<lambda>r. ar_alert_id r = k) (ad_alerts db) = Some s" for s k
    using that by (auto simp: find_Some_iff)
  have "ar_get j (snd (store a' db)) = (if j = i then Some a' else ar_get j db)"
  proof (cases "j = i")
    case True
    then show ?thesis
      using r ids [OF r] row by (simp add: st ar_get_def upd n)
  next
    case False
    then show ?thesis
      using ids [of j] by (cases "find (\<lambda>r. ar_alert_id r = j) (ad_alerts db)") (simp_all add: st ar_get_def upd n)
  qed
  then show ?thesis by (simp add: st)
qed

lemma get_id: "ar_get i db = Some a \<Longrightarrow> al_alert_id a = i"
  by (auto simp: ar_get_def row_to_alert_id find_Some_iff split: option.splits)

lemma apply_patch_keeps:
  "apply_patch now p a = Some a' \<Longrightarrow> al_alert_id a' = al_alert_id a \<and> al_created_at a' = al_created_at a \<and> al_notes a' = al_notes a"
  by (auto simp: apply_patch_def Let_def split: option.splits)

text \<open>A patch changes one alert or nothing: an unknown alert, an unknown status or an over-long name leave the table as
  it was; otherwise exactly the patched alert is stored, with its notes and creation time, and is read back.\<close>

theorem patch_changes_one_alert:
  "case patch_alert now i p auth db of
     (Inl _, db') \<Rightarrow> db' = db
   | (Inr a', db') \<Rightarrow>
       Option.bind (ar_get i db) (apply_patch now p) = Some a' \<and> ar_get j db' = (if j = i then Some a' else ar_get j db)"
proof (cases "\<exists>who a a'. auth = Inr who \<and> ar_get i db = Some a \<and> apply_patch now p a = Some a'
    \<and> \<not> (case ap_assigned_to p of None \<Rightarrow> False | Some u \<Rightarrow> 200 < length u)")
  case True
  then obtain who a a' where h: "auth = Inr who" "ar_get i db = Some a" "apply_patch now p a = Some a'"
      "\<not> (case ap_assigned_to p of None \<Rightarrow> False | Some u \<Rightarrow> 200 < length u)"
    by blast
  have "patch_alert now i p auth db = store a' db"
    using h by (simp add: patch_alert_def)
  moreover have "fst (store a' db) = Inr a' \<and> ar_get j (snd (store a' db)) = (if j = i then Some a' else ar_get j db)"
    using get_store [OF h(2)] apply_patch_keeps [OF h(3)] get_id [OF h(2)] by simp
  ultimately show ?thesis
    using h by (cases "store a' db") simp
next
  case False
  then have "\<exists>e. patch_alert now i p auth db = (Inl e, db)"
    by (cases auth; cases "ar_get i db"; cases "apply_patch now p (the (ar_get i db))") (auto simp: patch_alert_def)
  then show ?thesis by auto
qed

text \<open>Two analysts who mark the same alert at the same time count once: both read the alert before either writes, and
  each writes the whole row with the count it read plus one.\<close>

theorem concurrent_marks_lost:
  assumes "ar_get i db = Some a"
  shows "map_option al_false_positive_count (ar_get i (snd (store (marked_false now2 a) (snd (store (marked_false now1 a) db))))) =
    Some (al_false_positive_count a + 1)"
proof -
  have 1: "ar_get i (snd (store (marked_false now1 a) db)) = Some (marked_false now1 a)"
    using get_store [OF assms, of "marked_false now1 a" i] get_id [OF assms] by (simp add: marked_false_def)
  show ?thesis
    using get_store [OF 1, of "marked_false now2 a" i] get_id [OF assms] by (simp add: marked_false_def)
qed

definition demo_alert :: alert where
  "demo_alert = row_to_alert \<lparr>ar_alert_id = ''a'', ar_created_at = 0, ar_updated_at = 0, ar_severity = High, ar_status = AOpen,
     ar_rule_id = None, ar_ml_triggered = False, ar_ti_triggered = False, ar_entity_id = ''e'', ar_hostname = ''h'',
     ar_trigger_event_id = ''t'', ar_related_event_ids = [], ar_incident_chain_id = None, ar_title = [], ar_description = [],
     ar_mitre_techniques = [], ar_assigned_to = None, ar_false_positive_count = 0, ar_dst_ip = None, ar_pid = None,
     ar_process_name = [], ar_rule_type = Anomaly\<rparr> []"

definition demo_alerts :: alert_db where
  "demo_alerts = \<lparr>ad_alerts = [alert_to_row demo_alert], ad_notes = []\<rparr>"

lemma demo_alert_facts: "al_alert_id demo_alert = ''a''" "al_notes demo_alert = []" "al_false_positive_count demo_alert = 0"
  "al_created_at demo_alert = 0"
  by (simp_all add: demo_alert_def row_to_alert_def)

lemma demo_get: "ar_get ''a'' demo_alerts = Some demo_alert"
  using alert_row_roundtrip [of demo_alert] by (simp add: ar_get_def demo_alerts_def notes_of_def demo_alert_facts)

lemma concurrent_marks_lost_witness:
  "map_option al_false_positive_count (ar_get ''a'' (snd (store (marked_false 2 demo_alert) (snd (store (marked_false 1 demo_alert) demo_alerts))))) =
    Some 1"
  using concurrent_marks_lost [OF demo_get, of 2 1] by (simp add: demo_alert_facts)

lemma pages_newest_first_witness:
  "ar_list no_filter 0 1 demo_alerts = (take 1 (drop 0 (fst (ar_list no_filter 0 1 demo_alerts))), 1)"
  using pages_newest_first [where db = demo_alerts and f = no_filter and offset = 0 and limit = 1]
  by (simp add: demo_alerts_def in_range_def day_us_def alert_to_row_def demo_alert_facts split: prod.splits)
    (simp add: ar_list_def matches_filter_def no_filter_def)

end
