(* ===== verification/Fleet.thy ===== *)
theory Fleet
  imports Ingest Api_Keys Bus Machines
begin

text \<open>
  The agents as the server knows them: \<open>storage/repositories/agents.py\<close>, \<open>storage/repositories/blocked_agents.py\<close>,
  \<open>api/routers/agents.py\<close>, and in \<open>ingest/grpc_service.py\<close> the life of an \<open>IngestEvents\<close> stream (\<open>Ingest\<close> holds what
  happens to its batches) with the registries it shares with other streams. A stream is a sequence of steps: its
  opening, one step per batch, its end. The registries of the servicer (streams, active agents, blocked agents, keys,
  healths) change inside these steps, as in the code. The writes to the agents' table are scheduled there as tasks of the
  event loop; the code does not order these tasks among themselves, and the model runs each one where it is scheduled and
  lets it fail, which is only logged: what is said of the \<open>online\<close> column holds for that order.
\<close>

section \<open>The tables\<close>

record agent_row =
  ag_cn :: string
  ag_first_seen :: time
  ag_last_seen :: time
  ag_version :: "string option"
  ag_active_profile :: string
  ag_ip_address :: "string option"
  ag_online :: bool
  ag_platform :: string
  ag_disconnect_reason :: "string option"

type_synonym agent_table = "(string, agent_row) pydict"

definition upsert :: "time \<Rightarrow> string \<Rightarrow> bool \<Rightarrow> string option \<Rightarrow> string option \<Rightarrow> string \<Rightarrow> string \<Rightarrow> agent_table \<Rightarrow> agent_table" where
  "upsert now cn online ip version profile platform t =
     (case map_of t cn of
        None \<Rightarrow>
          dict_put cn \<lparr>ag_cn = cn, ag_first_seen = now, ag_last_seen = now, ag_version = version, ag_active_profile = profile,
            ag_ip_address = ip, ag_online = online, ag_platform = platform, ag_disconnect_reason = None\<rparr> t
      | Some r \<Rightarrow>
          dict_put cn (r\<lparr>ag_last_seen := now, ag_online := online,
            ag_ip_address := (if ip = None then ag_ip_address r else ip),
            ag_version := (if version = None then ag_version r else version),
            ag_active_profile := (if profile = [] then ag_active_profile r else profile),
            ag_platform := (if platform = [] then ag_platform r else platform)\<rparr>) t)"

definition set_offline :: "string \<Rightarrow> string option \<Rightarrow> agent_table \<Rightarrow> agent_table" where
  "set_offline cn reason t =
     (case map_of t cn of
        None \<Rightarrow> t
      | Some r \<Rightarrow> dict_put cn (r\<lparr>ag_online := False,
          ag_disconnect_reason := (if reason = None then ag_disconnect_reason r else reason)\<rparr>) t)"

definition update_last_seen :: "time \<Rightarrow> string \<Rightarrow> agent_table \<Rightarrow> agent_table" where
  "update_last_seen now cn t = map (\<lambda>(k, r). (k, if k = cn then r\<lparr>ag_last_seen := now\<rparr> else r)) t"

definition reset_all_offline :: "agent_table \<Rightarrow> agent_table" where
  "reset_all_offline t = map (\<lambda>(k, r). (k, r\<lparr>ag_online := False\<rparr>)) t"

definition agent_list :: "agent_table \<Rightarrow> agent_row list" where
  "agent_list t = sort_desc ag_last_seen (map snd t)"

type_synonym blocked_table = "(string, string option) pydict"

definition repo_block :: "string \<Rightarrow> string option \<Rightarrow> blocked_table \<Rightarrow> blocked_table" where
  "repo_block cn reason t = (if dict_has t cn then t else t @ [(cn, reason)])"

definition repo_unblock :: "string \<Rightarrow> blocked_table \<Rightarrow> blocked_table" where
  "repo_unblock = dict_del"

definition is_blocked :: "string \<Rightarrow> blocked_table \<Rightarrow> bool" where
  "is_blocked cn t = dict_has t cn"

definition list_blocked :: "blocked_table \<Rightarrow> string list" where
  "list_blocked t = map fst t"

section \<open>The servicer\<close>

text \<open>An open stream: the agent, the key found when it was opened, and the counters of the handler.\<close>

record agent_stream =
  as_cn :: string
  as_key :: "string option"
  as_batches :: ingest_state

record fleet =
  fl_streams :: "(nat, agent_stream) pydict"
  fl_active :: "string list"
  fl_blocked :: "string list"
  fl_keys :: "(string, string) pydict"
  fl_healths :: "(string, json list) pydict"
  fl_agents :: agent_table
  fl_blocklist :: blocked_table
  fl_bus :: bus_log

definition register_agent_key :: "string \<Rightarrow> string \<Rightarrow> fleet \<Rightarrow> fleet" where
  "register_agent_key cn k f = f\<lparr>fl_keys := dict_put cn k (fl_keys f)\<rparr>"

definition get_collector_healths :: "string \<Rightarrow> fleet \<Rightarrow> json list" where
  "get_collector_healths cn f = (case map_of (fl_healths f) cn of None \<Rightarrow> [] | Some hs \<Rightarrow> hs)"

definition svc_block :: "string \<Rightarrow> fleet \<Rightarrow> fleet" where
  "svc_block cn f = f\<lparr>fl_blocked := append_new cn (fl_blocked f)\<rparr>"

definition svc_unblock :: "string \<Rightarrow> fleet \<Rightarrow> fleet" where
  "svc_unblock cn f = f\<lparr>fl_blocked := filter (\<lambda>c. c \<noteq> cn) (fl_blocked f)\<rparr>"

text \<open>The address in the peer string: up to the next colon after \<open>ipv4:\<close>, between the brackets after \<open>ipv6:[\<close>; without
  a closing bracket the slice drops the last character.\<close>

definition up_to_last :: "char \<Rightarrow> string \<Rightarrow> string" where
  "up_to_last c s = (if c \<in> set s then rev (tl (dropWhile (\<lambda>x. x \<noteq> c) (rev s))) else butlast s)"

definition peer_ip :: "string \<Rightarrow> string option" where
  "peer_ip peer =
     (if starts_with peer ''ipv4:'' then Some (takeWhile (\<lambda>c. c \<noteq> CHR '':'') (drop 5 peer))
      else if starts_with peer ''ipv6:['' then Some (up_to_last (CHR '']'') (drop 6 peer))
      else None)"

definition publish_agent_disconnected :: "(nat \<Rightarrow> bool) \<Rightarrow> string \<Rightarrow> string \<Rightarrow> bus_log \<Rightarrow> bus_log" where
  "publish_agent_disconnected ok cn reason b =
     snd (publish ok ''agent:disconnected'' (JObj [(''agent_cn'', JStr cn), (''reason'', JStr reason)]) b)"

text \<open>The head of \<open>IngestEvents\<close>. The row is written with the default profile and platform of \<open>upsert\<close>.\<close>

definition open_stream :: "nat \<Rightarrow> time \<Rightarrow> bool \<Rightarrow> string option \<Rightarrow> string \<Rightarrow> fleet \<Rightarrow> unit result \<times> fleet" where
  "open_stream sid now db_ok cert peer f =
     (case require_cn cert (fl_blocked f) of
        Inl e \<Rightarrow> (Inl e, f)
      | Inr cn \<Rightarrow>
          (Inr (),
           f\<lparr>fl_streams := dict_put sid \<lparr>as_cn = cn, as_key = map_of (fl_keys f) cn, as_batches = empty_ingest\<rparr> (fl_streams f),
             fl_active := append_new cn (fl_active f),
             fl_agents := (if db_ok then upsert now cn True (peer_ip peer) None ''workstation'' ''linux'' (fl_agents f)
                           else fl_agents f)\<rparr>))"

text \<open>Its end, for end of stream, an error of the transport and any other exception alike.\<close>

definition end_stream :: "(nat \<Rightarrow> bool) \<Rightarrow> bool \<Rightarrow> nat \<Rightarrow> string \<Rightarrow> fleet \<Rightarrow> fleet" where
  "end_stream ok db_ok sid reason f =
     (case map_of (fl_streams f) sid of
        None \<Rightarrow> f
      | Some st \<Rightarrow>
          f\<lparr>fl_streams := dict_del sid (fl_streams f), fl_active := filter (\<lambda>c. c \<noteq> as_cn st) (fl_active f),
            fl_agents := (if db_ok then set_offline (as_cn st) (Some reason) (fl_agents f) else fl_agents f),
            fl_bus := publish_agent_disconnected ok (as_cn st) reason (fl_bus f)\<rparr>)"

text \<open>The class name of an exception; \<open>context.abort\<close> raises a plain \<open>Exception\<close>.\<close>

fun exn_name :: "exn \<Rightarrow> string" where
  "exn_name ValueError = ''ValueError''"
| "exn_name exn.KeyError = ''KeyError''"
| "exn_name TypeError = ''TypeError''"
| "exn_name RuntimeError = ''RuntimeError''"
| "exn_name AttributeError = ''AttributeError''"
| "exn_name ImportError = ''ImportError''"
| "exn_name ValidationError = ''ValidationError''"
| "exn_name CircuitOpenError = ''CircuitOpenError''"
| "exn_name TimeoutError = ''TimeoutError''"
| "exn_name InvalidSignature = ''InvalidSignature''"
| "exn_name (HTTPException n) = ''HTTPException''"
| "exn_name (OtherError s) = (if s = ''UNAUTHENTICATED'' then ''Exception'' else s)"

text \<open>One batch; a batch that raises ends its stream.\<close>

definition stream_batch :: "ingest_env \<Rightarrow> bool \<Rightarrow> (nat \<Rightarrow> bool) \<Rightarrow> bool \<Rightarrow> time \<Rightarrow> nat \<Rightarrow> ingest_request \<Rightarrow> fleet \<Rightarrow> fleet" where
  "stream_batch env require ok db_ok now sid req f =
     (case map_of (fl_streams f) sid of
        None \<Rightarrow> f
      | Some st \<Rightarrow>
          (case ingest_batch env (as_cn st) (as_key st) require req ((as_batches st)\<lparr>is_healths := fl_healths f\<rparr>) of
             (Inl e, b) \<Rightarrow> end_stream ok db_ok sid (exn_name e) (f\<lparr>fl_healths := is_healths b\<rparr>)
           | (Inr _, b) \<Rightarrow>
               f\<lparr>fl_streams := dict_put sid (st\<lparr>as_batches := b\<rparr>) (fl_streams f), fl_healths := is_healths b,
                 fl_agents := (if db_ok then update_last_seen now (as_cn st) (fl_agents f) else fl_agents f)\<rparr>))"

text \<open>A new process: the registries start empty, the blocklist is read back, every agent is set offline.\<close>

definition restart :: "(string, string) pydict \<Rightarrow> fleet \<Rightarrow> fleet" where
  "restart key_files f =
     \<lparr>fl_streams = [], fl_active = [], fl_blocked = append_all_new (list_blocked (fl_blocklist f)) [],
      fl_keys = fold (\<lambda>(cn, k) d. dict_put cn k d) key_files [], fl_healths = [],
      fl_agents = reset_all_offline (fl_agents f), fl_blocklist = fl_blocklist f, fl_bus = empty_bus\<rparr>"

section \<open>The routes\<close>

definition list_agents :: "int \<Rightarrow> int \<Rightarrow> identity result \<Rightarrow> fleet \<Rightarrow> agent_row list result" where
  "list_agents limit offset auth f =
     bind_result auth (\<lambda>_.
       if limit < 1 \<or> 1000 < limit \<or> offset < 0 then Inl (HTTPException 422)
       else Inr (page_of (nat offset) (nat limit) (agent_list (fl_agents f))))"

definition list_blocked_route :: "identity result \<Rightarrow> fleet \<Rightarrow> string list result" where
  "list_blocked_route auth f = bind_result auth (\<lambda>_. Inr (list_blocked (fl_blocklist f)))"

definition get_agent :: "string \<Rightarrow> identity result \<Rightarrow> fleet \<Rightarrow> agent_row result" where
  "get_agent cn auth f =
     bind_result auth (\<lambda>_.
       if 253 < length cn then Inl (HTTPException 422)
       else case map_of (fl_agents f) cn of None \<Rightarrow> Inl (HTTPException 404) | Some r \<Rightarrow> Inr r)"

definition get_agent_collectors :: "string \<Rightarrow> identity result \<Rightarrow> fleet \<Rightarrow> json list result" where
  "get_agent_collectors cn auth f =
     bind_result auth (\<lambda>_. if 253 < length cn then Inl (HTTPException 422) else Inr (get_collector_healths cn f))"

text \<open>The registry in memory changes before the table, so a failed write leaves the two apart.\<close>

definition block_agent :: "bool \<Rightarrow> string \<Rightarrow> identity result \<Rightarrow> fleet \<Rightarrow> unit result \<times> fleet" where
  "block_agent db_ok cn auth f =
     (case auth of
        Inl e \<Rightarrow> (Inl e, f)
      | Inr _ \<Rightarrow>
          if 253 < length cn then (Inl (HTTPException 422), f)
          else if db_ok then (Inr (), (svc_block cn f)\<lparr>fl_blocklist := repo_block cn None (fl_blocklist f)\<rparr>)
          else (Inl (OtherError ''OperationalError''), svc_block cn f))"

definition unblock_agent :: "bool \<Rightarrow> string \<Rightarrow> identity result \<Rightarrow> fleet \<Rightarrow> unit result \<times> fleet" where
  "unblock_agent db_ok cn auth f =
     (case auth of
        Inl e \<Rightarrow> (Inl e, f)
      | Inr _ \<Rightarrow>
          if 253 < length cn then (Inl (HTTPException 422), f)
          else if db_ok then (Inr (), (svc_unblock cn f)\<lparr>fl_blocklist := repo_unblock cn (fl_blocklist f)\<rparr>)
          else (Inl (OtherError ''OperationalError''), svc_unblock cn f))"

section \<open>Everything that happens to the fleet\<close>

datatype fleet_op =
    Opening nat time bool "string option" string
  | Batch time nat ingest_request bool bool
  | Ending nat string bool
  | Blocking string "identity result" bool
  | Unblocking string "identity result" bool
  | Restarting "(string, string) pydict"

text \<open>Streams are numbered; an opening under the number of an open stream does not happen.\<close>

fun fleet_step :: "ingest_env \<Rightarrow> (nat \<Rightarrow> bool) \<Rightarrow> fleet_op \<Rightarrow> fleet \<Rightarrow> fleet" where
  "fleet_step env ok (Opening sid now db_ok cert peer) f =
     (if dict_has (fl_streams f) sid then f else snd (open_stream sid now db_ok cert peer f))"
| "fleet_step env ok (Batch now sid req require db_ok) f = stream_batch env require ok db_ok now sid req f"
| "fleet_step env ok (Ending sid reason db_ok) f = end_stream ok db_ok sid reason f"
| "fleet_step env ok (Blocking cn auth db_ok) f = snd (block_agent db_ok cn auth f)"
| "fleet_step env ok (Unblocking cn auth db_ok) f = snd (unblock_agent db_ok cn auth f)"
| "fleet_step env ok (Restarting key_files) f = restart key_files f"

definition empty_fleet :: fleet where
  "empty_fleet = \<lparr>fl_streams = [], fl_active = [], fl_blocked = [], fl_keys = [], fl_healths = [], fl_agents = [],
     fl_blocklist = [], fl_bus = empty_bus\<rparr>"

text \<open>The agents with an open stream.\<close>

definition streaming :: "fleet \<Rightarrow> string list" where
  "streaming f = map (as_cn \<circ> snd) (fl_streams f)"

section \<open>Addresses\<close>

lemma up_to_last_append: "c \<notin> set t \<Longrightarrow> up_to_last c (s @ c # t) = s"
  unfolding up_to_last_def by (subst rev_append, subst rev.simps, simp, subst dropWhile_append2, auto)

text \<open>The address of a peer string as gRPC writes it.\<close>

lemma peer_ip_forms:
  "CHR '':'' \<notin> set a \<Longrightarrow> peer_ip (''ipv4:'' @ a @ CHR '':'' # p) = Some a"
  "CHR '']'' \<notin> set p \<Longrightarrow> peer_ip (''ipv6:['' @ a @ CHR '']'' # p) = Some a"
  by (simp_all add: peer_ip_def up_to_last_append) (subst takeWhile_append2, auto)

section \<open>Small facts about the steps\<close>

lemma open_stream_streaming:
  "\<not> dict_has (fl_streams f) sid \<Longrightarrow> require_cn cert (fl_blocked f) = Inr cn \<Longrightarrow>
     streaming (snd (open_stream sid now d cert peer f)) = streaming f @ [cn]"
proof -
  assume a: "\<not> dict_has (fl_streams f) sid" "require_cn cert (fl_blocked f) = Inr cn"
  have "dict_put sid x s = s @ [(sid, x)]" if "\<not> dict_has s sid" for x and s :: "(nat, agent_stream) pydict"
    using that by (induction s) (auto simp: dict_has_def)
  with a show ?thesis by (simp add: open_stream_def streaming_def)
qed

lemma map_dict_put_same: "map_of d k = Some x \<Longrightarrow> g x' = g x \<Longrightarrow> map (g \<circ> snd) (dict_put k x' d) = map (g \<circ> snd) d"
  by (induction d) (auto split: if_splits)

lemma require_cn_cert: "require_cn cert bl = Inr cn \<Longrightarrow> cert = Some cn \<and> cn \<notin> set bl"
  by (auto simp: require_cn_def split: option.splits if_splits)

section \<open>Revocation\<close>

text \<open>The operations other than a restoration of \<open>cn\<close>.\<close>

fun stays_blocked :: "string \<Rightarrow> fleet_op \<Rightarrow> bool" where
  "stays_blocked cn (Unblocking c auth d) = (c \<noteq> cn)"
| "stays_blocked cn _ = True"

text \<open>\<open>cn\<close> is blocked in memory and in the table, and has no stream but those numbered in \<open>S\<close>.\<close>

definition locked_out :: "string \<Rightarrow> nat set \<Rightarrow> fleet \<Rightarrow> bool" where
  "locked_out cn S f \<longleftrightarrow> cn \<in> set (fl_blocked f) \<and> dict_has (fl_blocklist f) cn
     \<and> (\<forall>sid st. map_of (fl_streams f) sid = Some st \<longrightarrow> as_cn st = cn \<longrightarrow> sid \<in> S)"

lemma locked_out_end: "locked_out cn S f \<Longrightarrow> locked_out cn S (end_stream ok d sid reason f)"
  by (auto simp: locked_out_def end_stream_def split: option.split)

lemma repo_block_has: "dict_has (repo_block c x t) k \<longleftrightarrow> k = c \<or> dict_has t k"
  by (auto simp: repo_block_def dict_has_def)

lemma locked_out_step: "locked_out cn S f \<Longrightarrow> stays_blocked cn e \<Longrightarrow> locked_out cn S (fleet_step env ok e f)"
proof (induction e)
  case (Opening sid now d cert peer)
  then show ?case
    by (auto simp: open_stream_def locked_out_def split: sum.split dest!: require_cn_cert)
next
  case (Batch now sid req r d)
  have "locked_out cn S (end_stream ok d sid x (f\<lparr>fl_healths := h\<rparr>))" for x h
    using Batch by (intro locked_out_end) (simp add: locked_out_def)
  then show ?case
    using Batch by (auto simp: stream_batch_def locked_out_def split: option.split prod.split sum.split)
next
  case (Ending sid reason d)
  then show ?case by (simp add: locked_out_end)
next
  case (Blocking c auth d)
  then show ?case
    by (auto simp: block_agent_def svc_block_def locked_out_def repo_block_has split: sum.split)
next
  case (Unblocking c auth d)
  then show ?case
    by (auto simp: unblock_agent_def svc_unblock_def repo_unblock_def locked_out_def dict_has_iff split: sum.split)
next
  case (Restarting ks)
  then show ?case
    by (auto simp: restart_def locked_out_def list_blocked_def dict_has_def)
qed

interpretation gate: filtered_machine "fleet_step env ok" "stays_blocked cn" "locked_out cn S" for env ok cn S
  by unfold_locales (rule locked_out_step)

text \<open>C12: revoked agents stay out: once the route has blocked an agent, then over any later operations but its own
  restoration, restarts and failing writes included, it is refused whenever it opens a stream, and it has no
  stream but those that were open when it was blocked.\<close>

theorem revoked_agent_stays_out:
  assumes "block_agent True cn auth f = (Inr (), f')" and "list_all (stays_blocked cn) ops"
  shows "case run (fleet_step env ok) f' ops of g \<Rightarrow>
     \<not> is_ok (fst (open_stream sid now d (Some cn) peer g)) \<and>
     (\<forall>i st. map_of (fl_streams g) i = Some st \<longrightarrow> as_cn st = cn \<longrightarrow>
        map_option as_cn (map_of (fl_streams f) i) = Some cn)"
proof -
  let ?S = "{i. map_option as_cn (map_of (fl_streams f) i) = Some cn}"
  have "locked_out cn ?S f'"
    using assms(1) by (auto simp: block_agent_def svc_block_def locked_out_def repo_block_has split: sum.splits if_splits)
  note lo = gate.run_allowed [OF this assms(2), of env ok]
  then have "\<not> is_ok (require_cn (Some cn) (fl_blocked (run (fleet_step env ok) f' ops)))"
    by (simp add: locked_out_def require_cn_def)
  then have "\<not> is_ok (fst (open_stream sid now d (Some cn) peer (run (fleet_step env ok) f' ops)))"
    by (cases "require_cn (Some cn) (fl_blocked (run (fleet_step env ok) f' ops))") (simp_all add: open_stream_def)
  with lo show ?thesis by (simp add: locked_out_def)
qed

lemma block_then_end:
  "end_stream ok d sid x (snd (block_agent db cn auth f)) = snd (block_agent db cn auth (end_stream ok d sid x f))"
  by (cases auth; cases "map_of (fl_streams f) sid") (simp_all add: block_agent_def svc_block_def end_stream_def)

lemma block_streams: "fl_streams (snd (block_agent db cn auth f)) = fl_streams f"
  "fl_healths (snd (block_agent db cn auth f)) = fl_healths f"
  by (cases auth; simp add: block_agent_def svc_block_def)+

lemma block_then_healths:
  "(snd (block_agent db cn auth f))\<lparr>fl_healths := h\<rparr> = snd (block_agent db cn auth (f\<lparr>fl_healths := h\<rparr>))"
  "(snd (block_agent db cn auth f))\<lparr>fl_streams := s, fl_healths := h, fl_agents := a\<rparr> =
     snd (block_agent db cn auth (f\<lparr>fl_streams := s, fl_healths := h, fl_agents := a\<rparr>))"
  "fl_agents (snd (block_agent db cn auth f)) = fl_agents f"
  by (cases auth; simp add: block_agent_def svc_block_def)+

text \<open>But revocation does not reach a stream that is open: blocking an agent commutes with every batch, so the batches
  of its open streams are accepted, published and counted as if it had not been blocked.\<close>

theorem revocation_spares_open_streams:
  "fleet_step env ok (Batch now sid req r d) (fleet_step env ok (Blocking cn auth d') f) =
   fleet_step env ok (Blocking cn auth d') (fleet_step env ok (Batch now sid req r d) f)"
proof (cases "map_of (fl_streams f) sid")
  case (Some st)
  obtain res b where "ingest_batch env (as_cn st) (as_key st) r req ((as_batches st)\<lparr>is_healths := fl_healths f\<rparr>) = (res, b)"
    by (cases "ingest_batch env (as_cn st) (as_key st) r req ((as_batches st)\<lparr>is_healths := fl_healths f\<rparr>)")
  with Some show ?thesis
    by (cases res) (simp_all add: stream_batch_def block_streams block_then_end block_then_healths)
qed (simp add: stream_batch_def block_streams)

section \<open>The registry of active agents\<close>

definition has_stream :: "fleet \<Rightarrow> string \<Rightarrow> bool" where
  "has_stream f c \<longleftrightarrow> (\<exists>i st. map_of (fl_streams f) i = Some st \<and> as_cn st = c)"

lemma has_stream_cong: "fl_streams g = fl_streams f \<Longrightarrow> has_stream g = has_stream f"
  by (simp add: has_stream_def fun_eq_iff)

lemma has_stream_new:
  "\<not> dict_has (fl_streams f) i \<Longrightarrow> fl_streams g = dict_put i st (fl_streams f) \<Longrightarrow>
     has_stream g c \<longleftrightarrow> c = as_cn st \<or> has_stream f c"
  unfolding has_stream_def dict_has_iff by (auto split: if_splits) (metis option.distinct(1))+

lemma has_stream_same:
  assumes "map_of (fl_streams f) i = Some st" "fl_streams g = dict_put i st' (fl_streams f)" "as_cn st' = as_cn st"
  shows "has_stream g c \<longleftrightarrow> has_stream f c"
proof
  assume "has_stream f c"
  then obtain j x where "map_of (fl_streams f) j = Some x" "as_cn x = c"
    by (auto simp: has_stream_def)
  with assms show "has_stream g c"
    unfolding has_stream_def by (intro exI [of _ j]) (cases "j = i", auto)
qed (use assms in \<open>auto simp: has_stream_def split: if_splits\<close>)

lemma has_stream_del:
  assumes "map_of (fl_streams f) i = Some st" "fl_streams g = dict_del i (fl_streams f)" "has_stream f c" "c \<noteq> as_cn st"
  shows "has_stream g c"
proof -
  obtain j x where "map_of (fl_streams f) j = Some x" "as_cn x = c"
    using assms(3) by (auto simp: has_stream_def)
  then show ?thesis
    using assms unfolding has_stream_def by (intro exI [of _ j] exI [of _ x]) auto
qed

lemma streaming_iff: "wf_dict (fl_streams f) \<Longrightarrow> c \<in> set (streaming f) \<longleftrightarrow> has_stream f c"
  by (force simp: streaming_def has_stream_def wf_dict_def dest: map_of_SomeD)

text \<open>The two outcomes of a batch.\<close>

lemma stream_batch_cases:
  fixes f :: fleet
  obtains (no_stream) "map_of (fl_streams f) sid = None" "stream_batch env r ok d now sid req f = f"
  | (raised) st e h where "map_of (fl_streams f) sid = Some st"
      "stream_batch env r ok d now sid req f = end_stream ok d sid (exn_name e) (f\<lparr>fl_healths := h\<rparr>)"
  | (accepted) st b h where "map_of (fl_streams f) sid = Some st"
      "stream_batch env r ok d now sid req f = f\<lparr>fl_streams := dict_put sid (st\<lparr>as_batches := b\<rparr>) (fl_streams f),
         fl_healths := h,
         fl_agents := (if d then update_last_seen now (as_cn st) (fl_agents f) else fl_agents f)\<rparr>"
proof (cases "map_of (fl_streams f) sid")
  case None
  then show thesis by (intro no_stream) (simp_all add: stream_batch_def)
next
  case (Some st)
  obtain res b where b: "ingest_batch env (as_cn st) (as_key st) r req ((as_batches st)\<lparr>is_healths := fl_healths f\<rparr>) = (res, b)"
    by (cases "ingest_batch env (as_cn st) (as_key st) r req ((as_batches st)\<lparr>is_healths := fl_healths f\<rparr>)")
  show thesis
  proof (cases res)
    case (Inl e)
    with Some b show thesis by (intro raised [of st e "is_healths b"]) (simp_all add: stream_batch_def)
  next
    case (Inr u)
    with Some b show thesis by (intro accepted [where st = st and b = b and h = "is_healths b"]) (simp_all add: stream_batch_def)
  qed
qed

text \<open>Only agents with an open stream are active.\<close>

definition active_ok :: "fleet \<Rightarrow> bool" where
  "active_ok f \<longleftrightarrow> wf_dict (fl_streams f) \<and> (\<forall>c \<in> set (fl_active f). has_stream f c)"

lemma active_ok_keep:
  "active_ok f \<Longrightarrow> fl_streams g = fl_streams f \<Longrightarrow> fl_active g = fl_active f \<Longrightarrow> active_ok g"
  using has_stream_cong [of g f] by (simp add: active_ok_def)

lemma active_ok_end: "active_ok f \<Longrightarrow> active_ok (end_stream ok d sid x f)"
  unfolding active_ok_def end_stream_def
  by (cases "map_of (fl_streams f) sid") (auto intro: has_stream_del [of f sid])

lemma active_ok_open: "active_ok f \<Longrightarrow> \<not> dict_has (fl_streams f) sid \<Longrightarrow> active_ok (snd (open_stream sid now d cert peer f))"
  unfolding open_stream_def active_ok_def
  by (cases "require_cn cert (fl_blocked f)") (auto simp: has_stream_new [of f sid])

lemma active_ok_batch:
  assumes "active_ok f"
  shows "active_ok (stream_batch env r ok d now sid req f)"
proof (cases rule: stream_batch_cases [of f sid env r ok d now req])
  case no_stream
  with assms show ?thesis by simp
next
  case (raised st e h)
  have "active_ok (f\<lparr>fl_healths := h\<rparr>)"
    using assms by (rule active_ok_keep) simp_all
  with raised show ?thesis by (simp add: active_ok_end)
next
  case (accepted st b h)
  then show ?thesis
    using assms has_stream_same [OF accepted(1), of "stream_batch env r ok d now sid req f" "st\<lparr>as_batches := b\<rparr>"]
    by (simp add: active_ok_def)
qed

interpretation fleet_registry: machine "fleet_step env ok" "\<lambda>f. f = empty_fleet" active_ok for env ok
proof unfold_locales
  fix f :: fleet and e assume f: "active_ok f"
  then show "active_ok (fleet_step env ok e f)"
  proof (cases e)
    case (Blocking c auth d)
    with f show ?thesis by (cases auth) (auto simp: block_agent_def svc_block_def intro: active_ok_keep)
  next
    case (Unblocking c auth d)
    with f show ?thesis by (cases auth) (auto simp: unblock_agent_def svc_unblock_def intro: active_ok_keep)
  next
    case (Restarting ks)
    then show ?thesis by (simp add: restart_def active_ok_def)
  qed (simp_all add: active_ok_open active_ok_batch active_ok_end)
qed (simp add: active_ok_def empty_fleet_def)

section \<open>Who is shown online\<close>

definition online :: "agent_table \<Rightarrow> string \<Rightarrow> bool" where
  "online t c = (case map_of t c of None \<Rightarrow> False | Some r \<Rightarrow> ag_online r)"

lemma online_simps:
  "online (upsert now cn True ip v p pl t) c \<longleftrightarrow> c = cn \<or> online t c"
  "online (set_offline cn x t) c \<longleftrightarrow> c \<noteq> cn \<and> online t c"
  "online (update_last_seen now cn t) c = online t c"
  "\<not> online (reset_all_offline t) c"
  by (auto simp: online_def upsert_def set_offline_def update_last_seen_def reset_all_offline_def map_of_map_values split: option.split)

text \<open>A connection is orderly when no agent opens a stream while it has one.\<close>

fun well_behaved :: "fleet_op \<Rightarrow> fleet \<Rightarrow> bool" where
  "well_behaved (Opening sid now d cert peer) f \<longleftrightarrow> (case cert of None \<Rightarrow> True | Some cn \<Rightarrow> cn \<notin> set (streaming f))"
| "well_behaved _ f \<longleftrightarrow> True"

inductive orderly :: "ingest_env \<Rightarrow> (nat \<Rightarrow> bool) \<Rightarrow> fleet \<Rightarrow> bool" for env ok where
  orderly_start: "orderly env ok empty_fleet"
| orderly_step: "orderly env ok f \<Longrightarrow> well_behaved e f \<Longrightarrow> orderly env ok (fleet_step env ok e f)"

definition one_each :: "fleet \<Rightarrow> bool" where
  "one_each f \<longleftrightarrow> (\<forall>i j st st'. map_of (fl_streams f) i = Some st \<longrightarrow> map_of (fl_streams f) j = Some st' \<longrightarrow>
     as_cn st = as_cn st' \<longrightarrow> i = j)"

lemma one_eachD: "one_each f \<Longrightarrow> map_of (fl_streams f) i = Some st \<Longrightarrow> map_of (fl_streams f) j = Some st' \<Longrightarrow>
    as_cn st = as_cn st' \<Longrightarrow> i = j"
  unfolding one_each_def by blast

lemma one_eachI: "(\<And>i j st st'. map_of (fl_streams f) i = Some st \<Longrightarrow> map_of (fl_streams f) j = Some st' \<Longrightarrow>
    as_cn st = as_cn st' \<Longrightarrow> i = j) \<Longrightarrow> one_each f"
  unfolding one_each_def by blast

definition in_step :: "fleet \<Rightarrow> bool" where
  "in_step f \<longleftrightarrow> wf_dict (fl_streams f) \<and> (\<forall>c. c \<in> set (fl_active f) \<longleftrightarrow> has_stream f c) \<and> one_each f"

lemma in_step_keep:
  "in_step f \<Longrightarrow> fl_streams g = fl_streams f \<Longrightarrow> fl_active g = fl_active f \<Longrightarrow> in_step g"
  using has_stream_cong [of g f] by (simp add: in_step_def one_each_def)

lemma in_step_end:
  assumes f: "in_step f"
  shows "in_step (end_stream ok d sid x f)"
proof (cases "map_of (fl_streams f) sid")
  case (Some st)
  let ?g = "end_stream ok d sid x f"
  have g: "fl_streams ?g = dict_del sid (fl_streams f)" "set (fl_active ?g) = set (fl_active f) - {as_cn st}"
    using Some by (auto simp: end_stream_def)
  have "has_stream ?g c \<longleftrightarrow> has_stream f c \<and> c \<noteq> as_cn st" for c
  proof
    assume "has_stream ?g c"
    then obtain i y where "map_of (fl_streams f) i = Some y" "as_cn y = c" "i \<noteq> sid"
      by (auto simp: has_stream_def g split: if_splits)
    with f Some show "has_stream f c \<and> c \<noteq> as_cn st"
      using one_eachD [of f i y sid st] by (auto simp: in_step_def has_stream_def)
  qed (use has_stream_del [OF Some g(1)] in blast)
  moreover have "one_each ?g"
    using f one_eachD [of f] by (intro one_eachI) (simp add: g in_step_def split: if_splits)
  ultimately show ?thesis
    using f unfolding in_step_def g by (simp add: conj_commute)
qed (simp add: end_stream_def f)

lemma in_step_open:
  assumes f: "in_step f" and "\<not> dict_has (fl_streams f) sid" and "well_behaved (Opening sid now d cert peer) f"
  shows "in_step (snd (open_stream sid now d cert peer f))"
proof (cases "require_cn cert (fl_blocked f)")
  case (Inr cn)
  let ?g = "snd (open_stream sid now d cert peer f)"
  have new: "\<not> has_stream f cn"
    using assms(3) require_cn_cert [OF Inr] streaming_iff [of f cn] f by (auto simp: in_step_def)
  have g: "fl_streams ?g = dict_put sid \<lparr>as_cn = cn, as_key = map_of (fl_keys f) cn, as_batches = empty_ingest\<rparr> (fl_streams f)"
      "set (fl_active ?g) = insert cn (set (fl_active f))"
    using Inr by (simp_all add: open_stream_def)
  have "has_stream ?g c \<longleftrightarrow> c = cn \<or> has_stream f c" for c
    using has_stream_new [OF assms(2) g(1)] by simp
  moreover have "one_each ?g"
  proof (rule one_eachI)
    fix i j y z
    assume y: "map_of (fl_streams ?g) i = Some y" and z: "map_of (fl_streams ?g) j = Some z" and eq: "as_cn y = as_cn z"
    have other: "as_cn u \<noteq> cn" if "map_of (fl_streams f) k = Some u" for k u
      using new that by (auto simp: has_stream_def)
    consider "i = sid" "j = sid" | "i = sid" "j \<noteq> sid" | "i \<noteq> sid" "j = sid" | "i \<noteq> sid" "j \<noteq> sid" by blast
    then show "i = j"
    proof cases
      case 2
      then show ?thesis using y z eq other [of j z] by (simp add: g) (metis agent_stream.select_convs(1))
    next
      case 3
      then show ?thesis using y z eq other [of i y] by (simp add: g) (metis agent_stream.select_convs(1))
    next
      case 4
      then show ?thesis using y z eq f one_eachD [of f i y j z] by (simp add: g in_step_def)
    qed simp
  qed
  ultimately show ?thesis
    using f unfolding in_step_def g by simp
qed (simp add: open_stream_def f)

lemma in_step_batch:
  assumes f: "in_step f"
  shows "in_step (stream_batch env r ok d now sid req f)"
proof (cases rule: stream_batch_cases [of f sid env r ok d now req])
  case no_stream
  with f show ?thesis by simp
next
  case (raised st e h)
  have "in_step (f\<lparr>fl_healths := h\<rparr>)"
    using f by (rule in_step_keep) simp_all
  with raised show ?thesis by (simp add: in_step_end)
next
  case (accepted st b h)
  let ?g = "stream_batch env r ok d now sid req f"
  have "has_stream ?g c \<longleftrightarrow> has_stream f c" for c
    using accepted has_stream_same [OF accepted(1), of ?g "st\<lparr>as_batches := b\<rparr>"] by simp
  moreover have "one_each ?g"
  proof (rule one_eachI)
    fix i j y z
    assume y: "map_of (fl_streams ?g) i = Some y" and z: "map_of (fl_streams ?g) j = Some z" and eq: "as_cn y = as_cn z"
    have old: "\<exists>y'. map_of (fl_streams f) k = Some y' \<and> as_cn y' = as_cn u" if "map_of (fl_streams ?g) k = Some u" for k u
      using that accepted by (cases "k = sid") auto
    obtain y' z' where "map_of (fl_streams f) i = Some y'" "as_cn y' = as_cn y" "map_of (fl_streams f) j = Some z'" "as_cn z' = as_cn z"
      using old [OF y] old [OF z] by blast
    with eq f show "i = j" using one_eachD [of f i y' j z'] by (simp add: in_step_def)
  qed
  ultimately show ?thesis
    using f accepted by (simp add: in_step_def)
qed

lemma orderly_in_step: "orderly env ok f \<Longrightarrow> in_step f"
proof (induction rule: orderly.induct)
  case orderly_start
  show ?case by (simp add: in_step_def empty_fleet_def has_stream_def one_each_def)
next
  case (orderly_step f e)
  note f = \<open>in_step f\<close> and e = \<open>well_behaved e f\<close>
  show ?case
  proof (cases e)
    case (Opening sid now d cert peer)
    with f e show ?thesis by (simp add: in_step_open)
  next
    case (Batch now sid req r d)
    with f e show ?thesis by (simp add: in_step_batch)
  next
    case (Ending sid reason d)
    with f e show ?thesis by (simp add: in_step_end)
  next
    case (Blocking c auth d)
    with f show ?thesis by (cases auth) (auto simp: block_agent_def svc_block_def intro: in_step_keep)
  next
    case (Unblocking c auth d)
    with f show ?thesis by (cases auth) (auto simp: unblock_agent_def svc_unblock_def intro: in_step_keep)
  next
    case (Restarting ks)
    then show ?thesis by (simp add: in_step_def restart_def has_stream_def one_each_def)
  qed
qed

text \<open>C21: presence is exact: as long as no agent opens a second stream beside its first, the active agents of the
  servicer are exactly the agents with an open stream, whatever streams open, fail and end, whichever agents are blocked and
  restored, and whether or not the writes to the table succeed. An agent that reconnects before its old stream has ended breaks
  it.\<close>

theorem presence_exact:
  assumes "orderly env ok f"
  shows "cn \<in> set (fl_active f) \<longleftrightarrow> cn \<in> set (streaming f)"
  using orderly_in_step [OF assms] streaming_iff [of f cn] by (auto simp: in_step_def)

fun is_batch :: "fleet_op \<Rightarrow> bool" where
  "is_batch (Batch now sid req r d) = True"
| "is_batch _ = False"

definition hidden :: "string \<Rightarrow> fleet \<Rightarrow> bool" where
  "hidden cn f \<longleftrightarrow> cn \<notin> set (fl_active f) \<and> \<not> online (fl_agents f) cn"

lemma hidden_end: "hidden cn f \<Longrightarrow> hidden cn (end_stream ok d sid x f)"
  by (cases "map_of (fl_streams f) sid") (auto simp: hidden_def end_stream_def online_simps)

interpretation offline_agent: filtered_machine "fleet_step env ok" is_batch "hidden cn" for env ok cn
proof unfold_locales
  fix f e
  assume f: "hidden cn f" and "is_batch e"
  then obtain now sid req r d where e: "e = Batch now sid req r d"
    by (cases e) auto
  have "hidden cn (stream_batch env r ok d now sid req f)"
  proof (cases rule: stream_batch_cases [of f sid env r ok d now req])
    case (raised st x h)
    have "hidden cn (f\<lparr>fl_healths := h\<rparr>)" using f by (simp add: hidden_def)
    with raised show ?thesis by (simp add: hidden_end)
  qed (use f in \<open>auto simp: hidden_def online_simps\<close>)
  then show "hidden cn (fleet_step env ok e f)" by (simp add: e)
qed

text \<open>C37: an agent that reconnects before its old stream has ended disappears: the end of the old stream takes the agent
  out of the active ones and shows it offline although the new stream is open, and no batch of any stream brings it
  back, so the backpressure controller no longer throttles it.\<close>

theorem reconnect_hides_agent:
  assumes "map_of (fl_streams f) sid = Some st" and "\<not> dict_has (fl_streams f) sid'"
    and "require_cn (Some (as_cn st)) (fl_blocked f) = Inr (as_cn st)" and "list_all is_batch ops"
  shows "case run (fleet_step env ok) f [Opening sid' now True (Some (as_cn st)) peer, Ending sid reason True] of g \<Rightarrow>
     as_cn st \<in> set (streaming g) \<and>
     (case run (fleet_step env ok) g ops of h \<Rightarrow> as_cn st \<notin> set (fl_active h) \<and> \<not> online (fl_agents h) (as_cn st))"
proof -
  let ?f = "snd (open_stream sid' now True (Some (as_cn st)) peer f)"
  let ?g = "run (fleet_step env ok) f [Opening sid' now True (Some (as_cn st)) peer, Ending sid reason True]"
  obtain st' where st': "fl_streams ?f = dict_put sid' st' (fl_streams f)" "as_cn st' = as_cn st"
    using assms(3) by (simp add: open_stream_def)
  have "sid \<noteq> sid'"
    using assms(1,2) by (auto simp: dict_has_iff)
  then have g: "?g = end_stream ok True sid reason ?f" "map_of (fl_streams ?f) sid = Some st"
    using assms(1,2) st' by simp_all
  have "sid' \<noteq> sid" and "map_of (fl_streams ?g) sid' = Some st'"
    using \<open>sid \<noteq> sid'\<close> unfolding g(1) end_stream_def g(2) by (auto simp: st')
  then have "(sid', st') \<in> set (fl_streams ?g)"
    by (blast dest: map_of_SomeD)
  then have "as_cn st \<in> set (streaming ?g)"
    using st'(2) by (force simp: streaming_def)
  moreover have "hidden (as_cn st) ?g"
    unfolding g(1) end_stream_def g(2) by (simp add: hidden_def online_simps)
  then have "hidden (as_cn st) (run (fleet_step env ok) ?g ops)"
    using assms(4) by (rule offline_agent.run_allowed)
  ultimately show ?thesis by (simp add: hidden_def)
qed

section \<open>What the rows say\<close>

text \<open>The profile and the platform of an agent are never recorded: in every run every row says \<open>workstation\<close> and \<open>linux\<close>
  and has no version, whatever the agent is and whatever profile was pushed to it, and its key is its name.\<close>

definition rows_fixed :: "fleet \<Rightarrow> bool" where
  "rows_fixed f \<longleftrightarrow> (\<forall>c r. map_of (fl_agents f) c = Some r \<longrightarrow>
     ag_cn r = c \<and> ag_active_profile r = ''workstation'' \<and> ag_platform r = ''linux'' \<and> ag_version r = None)"

lemma rows_fixed_keep: "rows_fixed f \<Longrightarrow> fl_agents g = fl_agents f \<Longrightarrow> rows_fixed g"
  by (simp add: rows_fixed_def)

lemma rows_fixed_end: "rows_fixed f \<Longrightarrow> rows_fixed (end_stream ok d sid x f)"
  by (auto simp: rows_fixed_def end_stream_def set_offline_def split: option.splits if_splits)

interpretation fleet_rows: machine "fleet_step env ok" "\<lambda>f. f = empty_fleet" rows_fixed for env ok
proof unfold_locales
  fix f :: fleet and e assume f: "rows_fixed f"
  then show "rows_fixed (fleet_step env ok e f)"
  proof (cases e)
    case (Opening sid now d cert peer)
    with f show ?thesis
      by (cases "require_cn cert (fl_blocked f)") (auto simp: open_stream_def rows_fixed_def upsert_def split: option.splits if_splits)
  next
    case (Batch now sid req r d)
    have "rows_fixed (stream_batch env r ok d now sid req f)"
    proof (cases rule: stream_batch_cases [of f sid env r ok d now req])
      case (raised st x h)
      have "rows_fixed (f\<lparr>fl_healths := h\<rparr>)" using f by (rule rows_fixed_keep) simp
      with raised show ?thesis by (simp add: rows_fixed_end)
    qed (use f in \<open>auto simp: rows_fixed_def update_last_seen_def map_of_map_values split: if_splits\<close>)
    with Batch show ?thesis by simp
  next
    case (Blocking c auth d)
    with f show ?thesis by (cases auth) (auto simp: block_agent_def svc_block_def intro: rows_fixed_keep)
  next
    case (Unblocking c auth d)
    with f show ?thesis by (cases auth) (auto simp: unblock_agent_def svc_unblock_def intro: rows_fixed_keep)
  next
    case (Restarting ks)
    with f show ?thesis by (auto simp: restart_def rows_fixed_def reset_all_offline_def map_of_map_values)
  qed (simp add: rows_fixed_end)
qed (simp add: rows_fixed_def empty_fleet_def)

theorem profile_never_recorded:
  "case map_of (fl_agents (run (fleet_step env ok) empty_fleet ops)) cn of
     None \<Rightarrow> True
   | Some r \<Rightarrow> ag_cn r = cn \<and> ag_active_profile r = ''workstation'' \<and> ag_platform r = ''linux'' \<and> ag_version r = None"
  using fleet_rows.reachable_inv [of empty_fleet env ok ops] by (auto simp: rows_fixed_def split: option.split)

section \<open>Witnesses\<close>

definition demo_fleet :: fleet where
  "demo_fleet = fleet_step sample_ingest_env (\<lambda>_. True) (Opening 0 0 True (Some ''web1'') ''ipv4:10.0.0.1:5'') empty_fleet"

lemma demo_cn: "require_cn (Some ''web1'') [] = Inr ''web1''"
  by (simp add: require_cn_def safe_id_re_def safe_core_def safe_char_def)

lemma demo_fleet_simps:
  "fl_streams demo_fleet = [(0, \<lparr>as_cn = ''web1'', as_key = None, as_batches = empty_ingest\<rparr>)]" "fl_blocked demo_fleet = []"
  by (simp_all add: demo_fleet_def empty_fleet_def open_stream_def demo_cn dict_has_def)

theorem revoked_agent_stays_out_witness:
  "\<not> is_ok (fst (open_stream 1 5 True (Some ''web1'') ''ipv4:10.0.0.1:5''
      (run (fleet_step sample_ingest_env (\<lambda>_. True))
         (snd (block_agent True ''web1'' (Inr (ByKey ''root'' [''admin''])) empty_fleet)) [Restarting []])))"
proof -
  have "block_agent True ''web1'' (Inr (ByKey ''root'' [''admin''])) empty_fleet =
      (Inr (), snd (block_agent True ''web1'' (Inr (ByKey ''root'' [''admin''])) empty_fleet))"
    by (simp add: block_agent_def)
  from revoked_agent_stays_out [OF this, where ops = "[Restarting []]"] show ?thesis by simp
qed

text \<open>One agent connects, and another's stream ends with a failed write.\<close>

theorem presence_exact_witness:
  "''web1'' \<in> set (fl_active demo_fleet) \<and>
   ''web1'' \<notin> set (fl_active (fleet_step sample_ingest_env (\<lambda>_. True) (Ending 0 ''EOF'' False) demo_fleet))"
proof
  have o: "orderly sample_ingest_env (\<lambda>_. True) demo_fleet"
    unfolding demo_fleet_def by (rule orderly_step [OF orderly_start]) (simp add: streaming_def empty_fleet_def)
  from presence_exact [OF this, of "''web1''"] show "''web1'' \<in> set (fl_active demo_fleet)"
    by (simp add: streaming_def demo_fleet_simps)
  have "orderly sample_ingest_env (\<lambda>_. True) (fleet_step sample_ingest_env (\<lambda>_. True) (Ending 0 ''EOF'' False) demo_fleet)"
    by (rule orderly_step [OF o]) simp
  from presence_exact [OF this, of "''web1''"]
  show "''web1'' \<notin> set (fl_active (fleet_step sample_ingest_env (\<lambda>_. True) (Ending 0 ''EOF'' False) demo_fleet))"
    by (simp add: streaming_def end_stream_def demo_fleet_simps)
qed

theorem reconnect_hides_agent_witness:
  "case run (fleet_step sample_ingest_env (\<lambda>_. True)) demo_fleet
      [Opening 1 7 True (Some ''web1'') ''ipv4:10.0.0.1:6'', Ending 0 ''EOF'' True] of g \<Rightarrow>
     ''web1'' \<in> set (streaming g) \<and> \<not> online (fl_agents g) ''web1''"
  using reconnect_hides_agent [where f = demo_fleet and sid = 0 and sid' = 1 and now = 7 and reason = "''EOF''" and ops = "[]"
      and st = "\<lparr>as_cn = ''web1'', as_key = None, as_batches = empty_ingest\<rparr>" and peer = "''ipv4:10.0.0.1:6''"]
  by (simp add: demo_fleet_simps demo_cn dict_has_def)

end
