(* ===== verification/Agent_Streams.thy ===== *)
theory Agent_Streams
  imports Ingest Memory_Bus Policy Backpressure
begin

text \<open>
  The server-streaming calls of \<open>ingest/grpc_service.py\<close>: \<open>ReceivePolicy\<close> and \<open>StreamCommands\<close>. Each has a subscriber
  on the event loop, which moves messages from the bus to a queue, and a generator on a thread, which turns them into
  protocol buffers; the two and everything else on the bus interleave as steps. Setting a string or integer field of a
  protocol buffer is protobuf's: \<open>text\<close> and \<open>int32\<close> give the field's value or \<open>None\<close> for the exception. Messages are
  the JSON values they encode; a message that is not JSON is not modelled. The calls only schedule the subscription
  on the event loop; a relay starts here when the subscription is in place, and what was published between the call and
  that moment is not received.
\<close>

section \<open>Messages to protocol buffers\<close>

record protobuf =
  as_text :: "json \<Rightarrow> string option"
  as_int32 :: "json \<Rightarrow> int option"

definition field_or :: "string \<Rightarrow> json \<Rightarrow> (string, json) pydict \<Rightarrow> json" where
  "field_or k d kvs = (case map_of kvs k of None \<Rightarrow> d | Some v \<Rightarrow> v)"

record agent_command =
  ac_command_id :: string
  ac_command_type :: string
  ac_payload :: json

fun to_command :: "protobuf \<Rightarrow> json \<Rightarrow> agent_command option" where
  "to_command pb (JObj kvs) =
     (case (as_text pb (field_or ''command_id'' (JStr []) kvs), as_text pb (field_or ''command_type'' (JStr []) kvs)) of
        (Some i, Some t) \<Rightarrow> Some \<lparr>ac_command_id = i, ac_command_type = t, ac_payload = field_or ''payload'' (JObj []) kvs\<rparr>
      | _ \<Rightarrow> None)"
| "to_command pb _ = None"

record profile_pb =
  pp_name :: string
  pp_description :: string
  pp_version :: int
  pp_config :: json

fun to_profile :: "protobuf \<Rightarrow> json \<Rightarrow> profile_pb option" where
  "to_profile pb (JObj kvs) =
     (case (as_text pb (field_or ''name'' (JStr []) kvs), as_text pb (field_or ''description'' (JStr []) kvs),
            as_int32 pb (field_or ''version'' (JInt 1) kvs)) of
        (Some n, Some d, Some v) \<Rightarrow> Some \<lparr>pp_name = n, pp_description = d, pp_version = v, pp_config = JObj kvs\<rparr>
      | _ \<Rightarrow> None)"
| "to_profile pb _ = None"

section \<open>The relay\<close>

text \<open>The queue between the two halves ends with \<open>None\<close> when the subscriber has stopped.\<close>

record 'c relay =
  rl_bus :: "json mem_bus"
  rl_queue :: "json option list"
  rl_cancelled :: bool
  rl_sub_done :: bool
  rl_gen_done :: bool
  rl_out :: "'c list"

definition start_relay :: "nat \<Rightarrow> string \<Rightarrow> json mem_bus \<Rightarrow> 'c relay" where
  "start_relay i topic b =
     \<lparr>rl_bus = mb_subscribe i topic b, rl_queue = [], rl_cancelled = False, rl_sub_done = False, rl_gen_done = False, rl_out = []\<rparr>"

text \<open>One iteration of the subscriber: the message, and the sentinel when the loop ends.\<close>

definition pump :: "nat \<Rightarrow> string \<Rightarrow> 'c relay \<Rightarrow> 'c relay" where
  "pump i topic r =
     (if rl_sub_done r then r
      else case read_bytes i topic (rl_bus r) of
             (Waiting, b) \<Rightarrow> r\<lparr>rl_bus := b\<rparr>
           | (Finished, b) \<Rightarrow> r\<lparr>rl_bus := b, rl_queue := rl_queue r @ [None], rl_sub_done := True\<rparr>
           | (Yielded m, b) \<Rightarrow>
               if rl_cancelled r then r\<lparr>rl_bus := b, rl_queue := rl_queue r @ [Some m, None], rl_sub_done := True\<rparr>
               else r\<lparr>rl_bus := b, rl_queue := rl_queue r @ [Some m]\<rparr>)"

text \<open>One iteration of the generator; what cannot be converted is logged and skipped.\<close>

definition take_one :: "(json \<Rightarrow> 'c option) \<Rightarrow> 'c relay \<Rightarrow> 'c relay" where
  "take_one conv r =
     (if rl_gen_done r then r
      else if rl_cancelled r then r\<lparr>rl_gen_done := True, rl_sub_done := True\<rparr>
      else case rl_queue r of
             [] \<Rightarrow> r
           | None # q \<Rightarrow> r\<lparr>rl_queue := q, rl_gen_done := True, rl_sub_done := True\<rparr>
           | Some m # q \<Rightarrow> r\<lparr>rl_queue := q, rl_out := rl_out r @ (case conv m of None \<Rightarrow> [] | Some c \<Rightarrow> [c])\<rparr>)"

datatype relay_op = Other "json bus_op" | Pump | Take | Cancel

fun relay_step :: "(json \<Rightarrow> 'c option) \<Rightarrow> nat \<Rightarrow> string \<Rightarrow> relay_op \<Rightarrow> 'c relay \<Rightarrow> 'c relay" where
  "relay_step conv i topic (Other e) r = r\<lparr>rl_bus := bus_step e (rl_bus r)\<rparr>"
| "relay_step conv i topic Pump r = pump i topic r"
| "relay_step conv i topic Take r = take_one conv r"
| "relay_step conv i topic Cancel r = r\<lparr>rl_cancelled := True\<rparr>"

section \<open>The calls\<close>

text \<open>The heads of the two calls: the caller's name from its certificate, then the subscription; \<open>ReceivePolicy\<close> also has
  the default profile pushed, after the subscription is in place. A failing push is only logged.\<close>

definition stream_commands :: "string option \<Rightarrow> string list \<Rightarrow> nat \<Rightarrow> json mem_bus \<Rightarrow> agent_command relay result" where
  "stream_commands cert bl i b =
     bind_result (require_cn cert bl) (\<lambda>cn. Inr (start_relay i (''commands:'' @ cn) b))"

text \<open>The default profile as a message, when the engine pushes it.\<close>

definition resync_message :: "policy_engine \<Rightarrow> json result option \<Rightarrow> json option" where
  "resync_message e signer =
     (case get_profile e (pe_default e) of
        None \<Rightarrow> None
      | Some p \<Rightarrow>
          (case signer of
             Some (Inl _) \<Rightarrow> None
           | _ \<Rightarrow> Some (JObj (push_payload (pe_default e) p (map_option projr signer)))))"

definition receive_policy :: "policy_engine option \<Rightarrow> json result option \<Rightarrow> string option \<Rightarrow> string list \<Rightarrow> nat \<Rightarrow> json mem_bus
    \<Rightarrow> profile_pb relay result" where
  "receive_policy engine signer cert bl i b =
     bind_result (require_cn cert bl) (\<lambda>cn.
       let r = start_relay i (push_topic cn) b
       in case Option.bind engine (\<lambda>e. resync_message e signer) of
            None \<Rightarrow> Inr r
          | Some m \<Rightarrow> Inr (r\<lparr>rl_bus := mb_publish (push_topic cn) m (rl_bus r)\<rparr>))"

text \<open>The message is the one \<open>push_default_to_agent\<close> publishes.\<close>

lemma resync_is_push:
  "sent (snd (snd (push_default_to_agent (\<lambda>_. True) signer cn (e, b)))) =
     sent b @ (case resync_message e signer of None \<Rightarrow> [] | Some m \<Rightarrow> [(push_topic cn, m)])"
  by (auto simp: push_default_to_agent_def push_to_agent_def resync_message_def publish_def split: option.split sum.split)

section \<open>Delivery\<close>

definition deliver :: "(json \<Rightarrow> 'c option) \<Rightarrow> json list \<Rightarrow> 'c list" where
  "deliver conv ms = List.map_filter conv ms"

lemma deliver_append: "deliver conv (xs @ ys) = deliver conv xs @ deliver conv ys"
  by (simp add: deliver_def List.map_filter_def)

lemma deliver_simps [simp]: "deliver conv [] = []" "deliver conv (m # ms) = (case conv m of None \<Rightarrow> [] | Some c \<Rightarrow> [c]) @ deliver conv ms"
  by (simp_all add: deliver_def List.map_filter_def split: option.split)

text \<open>The stream lives: nobody cancels it, closes the bus or reads its subscription.\<close>

fun undisturbed :: "nat \<Rightarrow> relay_op \<Rightarrow> bool" where
  "undisturbed i (Other (Read j t)) = (j \<noteq> i)"
| "undisturbed i (Other e) = keeps_sub i e"
| "undisturbed i Cancel = False"
| "undisturbed i _ = True"

fun relay_published :: "string \<Rightarrow> relay_op \<Rightarrow> json list" where
  "relay_published t (Other e) = published t e"
| "relay_published t _ = []"

text \<open>What is on its way: delivered, queued, and waiting on the bus.\<close>

definition live :: "(json \<Rightarrow> 'c option) \<Rightarrow> nat \<Rightarrow> string \<Rightarrow> 'c relay \<Rightarrow> 'c list \<Rightarrow> json list \<Rightarrow> json list \<Rightarrow> bool" where
  "live conv i t r out qs ms \<longleftrightarrow> rl_out r = out \<and> rl_queue r = map Some qs \<and> waiting i t (rl_bus r) ms
     \<and> \<not> rl_cancelled r \<and> \<not> rl_sub_done r \<and> \<not> rl_gen_done r"

lemma read_none: "undisturbed i (Other e) \<Longrightarrow> read_by i t e b = []"
  by (cases e) (simp_all add: read_by_def)

lemma undisturbed_keeps: "undisturbed i (Other e) \<Longrightarrow> keeps_sub i e"
  by (cases e) auto

lemma live_step:
  assumes "live conv i t r out qs ms" and "undisturbed i e"
  shows "\<exists>out' qs' ms'. live conv i t (relay_step conv i t e r) out' qs' ms' \<and>
    out' @ deliver conv (qs' @ ms') = out @ deliver conv (qs @ ms @ relay_published t e)"
proof (cases e)
  case (Other f)
  obtain rest where "ms @ published t f = read_by i t f (rl_bus r) @ rest" "waiting i t (bus_step f (rl_bus r)) rest"
    using waiting_step [of i t "rl_bus r" ms f] undisturbed_keeps assms Other by (auto simp: live_def)
  then have "waiting i t (bus_step f (rl_bus r)) (ms @ published t f)"
    using read_none [of i f t "rl_bus r"] assms(2) Other by simp
  then show ?thesis
    using assms(1) Other by (intro exI [of _ out] exI [of _ qs] exI [of _ "ms @ published t f"]) (simp add: live_def)
next
  case Pump
  show ?thesis
  proof (cases ms)
    case Nil
    then have "live conv i t (pump i t r) out qs []"
      using assms(1) by (simp add: live_def waiting_def pump_def read_bytes_def)
    then show ?thesis
      using Nil Pump by (intro exI [of _ out] exI [of _ qs] exI [of _ "[]"]) simp
  next
    case (Cons m ms')
    then have "live conv i t (pump i t r) out (qs @ [m]) ms'"
      using assms(1) by (simp add: live_def waiting_def pump_def read_bytes_def topic_queues_put)
    then show ?thesis
      using Cons Pump by (intro exI [of _ out] exI [of _ "qs @ [m]"] exI [of _ ms']) simp
  qed
next
  case Take
  show ?thesis
  proof (cases qs)
    case Nil
    then have "live conv i t (take_one conv r) out [] ms"
      using assms(1) by (simp add: live_def take_one_def)
    then show ?thesis
      using Nil Take by (intro exI [of _ out] exI [of _ "[]"] exI [of _ ms]) simp
  next
    case (Cons m qs')
    then have "live conv i t (take_one conv r) (out @ (case conv m of None \<Rightarrow> [] | Some c \<Rightarrow> [c])) qs' ms"
      using assms(1) by (simp add: live_def take_one_def)
    then show ?thesis
      using Cons Take by (intro exI) auto
  qed
next
  case Cancel
  with assms(2) show ?thesis by simp
qed

lemma live_run:
  assumes "live conv i t r out qs ms" and "list_all (undisturbed i) es"
  shows "\<exists>out' qs' ms'. live conv i t (run (relay_step conv i t) r es) out' qs' ms' \<and>
    out' @ deliver conv (qs' @ ms') = out @ deliver conv (qs @ ms @ concat (map (relay_published t) es))"
  using assms
proof (induction es arbitrary: r out qs ms)
  case (Cons e es)
  obtain out1 qs1 ms1 where 1: "live conv i t (relay_step conv i t e r) out1 qs1 ms1"
      "out1 @ deliver conv (qs1 @ ms1) = out @ deliver conv (qs @ ms @ relay_published t e)"
    using live_step [of conv i t r out qs ms e] Cons.prems by auto
  obtain out2 qs2 ms2 where 2: "live conv i t (run (relay_step conv i t) (relay_step conv i t e r) es) out2 qs2 ms2"
      "out2 @ deliver conv (qs2 @ ms2) = out1 @ deliver conv (qs1 @ ms1 @ concat (map (relay_published t) es))"
    using Cons.IH [OF 1(1)] Cons.prems(2) by auto
  have "out2 @ deliver conv (qs2 @ ms2) = out @ deliver conv (qs @ ms @ concat (map (relay_published t) (e # es)))"
    using 1(2) 2(2) by (simp add: deliver_append)
  with 2(1) show ?case by auto
qed auto

lemma live_start: "\<not> mb_closed b \<Longrightarrow> live conv i t (start_relay i t b) [] [] []"
  by (simp add: live_def start_relay_def waiting_def mb_subscribe_def topic_queues_put)

text \<open>Protobuf stores a text as it is.\<close>

definition faithful_text :: "protobuf \<Rightarrow> bool" where
  "faithful_text pb \<longleftrightarrow> (\<forall>s. as_text pb (JStr s) = Some s) \<and> as_int32 pb (JInt 1) = Some 1"

lemma to_command_message:
  "faithful_text pb \<Longrightarrow> to_command pb (command_message cid ctype payload) =
     Some \<lparr>ac_command_id = cid, ac_command_type = ctype, ac_payload = payload\<rparr>"
  by (simp add: faithful_text_def command_message_def field_or_def)

text \<open>C22: commands arrive: while an agent's stream is open, whatever else happens on the bus, the commands it has been
  handed are, once each and in order, a prefix of what was published for it since its subscription; what is missing
  is still in the stream's two queues, and what the server's own senders publish arrives as it was sent.\<close>

theorem commands_delivered:
  assumes "stream_commands cert bl i b = Inr r0" and "\<not> mb_closed b" and "list_all (undisturbed i) es"
  shows "\<exists>cn qs ms. cert = Some cn \<and>
    (case run (relay_step (to_command pb) i (''commands:'' @ cn)) r0 es of r \<Rightarrow>
       rl_queue r = map Some qs \<and> map_of (topic_queues (''commands:'' @ cn) (rl_bus r)) i = Some (map Some ms) \<and>
       deliver (to_command pb) (concat (map (relay_published (''commands:'' @ cn)) es)) = rl_out r @ deliver (to_command pb) (qs @ ms))
    \<and> (faithful_text pb \<longrightarrow> deliver (to_command pb) (map (\<lambda>(c, t, p). command_message c t p) cmds) =
         map (\<lambda>(c, t, p). \<lparr>ac_command_id = c, ac_command_type = t, ac_payload = p\<rparr>) cmds)"
proof -
  obtain cn where cn: "cert = Some cn" "r0 = start_relay i (''commands:'' @ cn) b"
    using assms(1) by (auto simp: stream_commands_def require_cn_def split: option.splits if_splits)
  obtain out qs ms where
    "live (to_command pb) i (''commands:'' @ cn) (run (relay_step (to_command pb) i (''commands:'' @ cn)) r0 es) out qs ms"
    "out @ deliver (to_command pb) (qs @ ms) = deliver (to_command pb) (concat (map (relay_published (''commands:'' @ cn)) es))"
    using live_run [OF live_start [OF assms(2)] assms(3), of "to_command pb" "''commands:'' @ cn"] cn(2) by auto
  moreover have "deliver (to_command pb) (map (\<lambda>(c, t, p). command_message c t p) cmds) =
      map (\<lambda>(c, t, p). \<lparr>ac_command_id = c, ac_command_type = t, ac_payload = p\<rparr>) cmds" if "faithful_text pb"
    using to_command_message [OF that] by (induction cmds) (auto simp: command_message_def)
  ultimately show ?thesis
    using cn(1) by (intro exI [of _ cn] exI [of _ qs] exI [of _ ms]) (simp add: live_def waiting_def)
qed

text \<open>A connecting agent is brought up to date first: if the default profile is loaded and its rules can be built, the
  first message of the stream is that profile, and everything published for the agent follows in order.\<close>

theorem resync_comes_first:
  assumes "receive_policy (Some e) signer cert bl i b = Inr r0" and "\<not> mb_closed b" and "list_all (undisturbed i) es"
    and "resync_message e signer = Some m"
  shows "\<exists>cn rest. cert = Some cn \<and>
    deliver (to_profile pb) (m # concat (map (relay_published (push_topic cn)) es)) =
      rl_out (run (relay_step (to_profile pb) i (push_topic cn)) r0 es) @ rest"
proof -
  obtain cn where cn: "cert = Some cn"
      "r0 = (start_relay i (push_topic cn) b)\<lparr>rl_bus := mb_publish (push_topic cn) m (mb_subscribe i (push_topic cn) b)\<rparr>"
    using assms(1,4) by (auto simp: receive_policy_def require_cn_def Let_def start_relay_def split: option.splits if_splits)
  have "waiting i (push_topic cn) (mb_publish (push_topic cn) m (mb_subscribe i (push_topic cn) b)) ([] @ [m])"
    using waiting_publish [of i "push_topic cn" "mb_subscribe i (push_topic cn) b" "[]" "push_topic cn" m] assms(2)
    by (simp add: waiting_def mb_subscribe_def topic_queues_put)
  then have "live (to_profile pb) i (push_topic cn) r0 [] [] [m]"
    by (simp add: live_def cn(2) start_relay_def)
  from live_run [OF this assms(3)] cn(1) show ?thesis
    by (auto simp: live_def) metis
qed

text \<open>After a cancellation nothing more is handed out, so the commands still queued are lost: the bus has already
  given them up.\<close>

lemma cancelled_step: "rl_cancelled r \<Longrightarrow> rl_cancelled (relay_step conv i t e r) \<and> rl_out (relay_step conv i t e r) = rl_out r"
  by (cases e) (auto simp: pump_def take_one_def split: outcome.split prod.split)

interpretation cancelled: machine "relay_step conv i t" "\<lambda>r. rl_cancelled r \<and> rl_out r = cs" "\<lambda>r. rl_cancelled r \<and> rl_out r = cs"
  for conv i t cs
  by unfold_locales (auto dest: cancelled_step)

lemma cancelled_hands_out_nothing:
  "rl_out (run (relay_step conv i t) (relay_step conv i t Cancel r) es) = rl_out r"
  using cancelled.run_inv [of "relay_step conv i t Cancel r" "rl_out r" conv i t es] by simp

section \<open>A request that is no profile\<close>

text \<open>The decision engine's request for more collection is published where profiles are pushed; the agent's stream hands
  it over as a profile without a name, of version 1, with the request as its configuration.\<close>

theorem collection_request_is_nameless_profile:
  assumes "faithful_text pb" and "safe_id_re (de_entity_id d)"
    and "sent (ex_bus (snd (request_additional_collection env d s))) = sent (ex_bus s) @ [(topic, m)]"
  shows "topic = push_topic (de_entity_id d) \<and>
    to_profile pb m = Some \<lparr>pp_name = [], pp_description = [], pp_version = 1, pp_config = m\<rparr>"
proof -
  have "(topic, m) = (''policy:push:'' @ de_entity_id d, JObj [(''command'', JStr ''collect_more''),
      (''decision_id'', JStr (de_decision_id d)), (''reason'', JStr (de_explanation d))])"
    using assms(2,3) by (auto simp: request_additional_collection_def validate_entity_id_def put_def publish_def split: if_splits)
  then show ?thesis
    using assms(1) by (auto simp: push_topic_def faithful_text_def field_or_def)
qed

section \<open>Witnesses\<close>

fun demo_text :: "json \<Rightarrow> string option" where
  "demo_text (JStr s) = Some s"
| "demo_text _ = None"

fun demo_int :: "json \<Rightarrow> int option" where
  "demo_int (JInt n) = Some n"
| "demo_int _ = None"

definition demo_pb :: protobuf where
  "demo_pb = \<lparr>as_text = demo_text, as_int32 = demo_int\<rparr>"

lemma demo_pb_faithful: "faithful_text demo_pb"
  by (simp add: faithful_text_def demo_pb_def)

lemma demo_streams_cn: "require_cn (Some ''web1'') [] = Inr ''web1''"
  by (simp add: require_cn_def safe_id_re_def safe_core_def safe_char_def)

definition demo_traffic :: "relay_op list" where
  "demo_traffic = [Other (Pub ''commands:web1'' (command_message ''c1'' ''PING'' (JObj []))), Pump, Take, Other (Pub ''commands:db2'' JNull)]"

theorem commands_delivered_witness:
  "rl_out (run (relay_step (to_command demo_pb) 0 ''commands:web1'') (start_relay 0 ''commands:web1'' new_bus) demo_traffic) =
    [\<lparr>ac_command_id = ''c1'', ac_command_type = ''PING'', ac_payload = JObj []\<rparr>]"
proof -
  let ?r = "start_relay 0 ''commands:web1'' new_bus"
  have 1: "stream_commands (Some ''web1'') [] 0 new_bus = Inr ?r"
    by (simp add: stream_commands_def demo_streams_cn)
  have 2: "\<not> mb_closed new_bus" by (simp add: new_bus_def)
  have 3: "list_all (undisturbed 0) demo_traffic" by (simp add: demo_traffic_def)
  have "rl_queue (run (relay_step (to_command demo_pb) 0 ''commands:web1'') ?r demo_traffic) = []
      \<and> map_of (topic_queues ''commands:web1'' (rl_bus (run (relay_step (to_command demo_pb) 0 ''commands:web1'') ?r demo_traffic))) 0 = Some []"
    by (simp add: demo_traffic_def start_relay_def mb_subscribe_def new_bus_def topic_queues_def mb_publish_def pump_def
        read_bytes_def take_one_def command_message_def demo_pb_def field_or_def)
  moreover have "deliver (to_command demo_pb) (concat (map (relay_published ''commands:web1'') demo_traffic)) =
      [\<lparr>ac_command_id = ''c1'', ac_command_type = ''PING'', ac_payload = JObj []\<rparr>]"
    using to_command_message [OF demo_pb_faithful] by (simp add: demo_traffic_def)
  ultimately show ?thesis
    using commands_delivered [OF 1 2 3, of demo_pb "[]"] by auto
qed

definition demo_engine :: policy_engine where
  "demo_engine = \<lparr>pe_profiles = [(''server'', \<lparr>pf_name = ''server'', pf_dump = [(''name'', JStr ''server'')]\<rparr>)], pe_known = [],
     pe_default = ''server'', pe_redis_url = False\<rparr>"

theorem resync_comes_first_witness:
  "\<exists>r rest. map pp_name (rl_out (run (relay_step (to_profile demo_pb) 0 (push_topic ''web1'')) r [Pump, Take]) @ rest) = [''server'']"
proof -
  have 2: "\<not> mb_closed new_bus" by (simp add: new_bus_def)
  have 3: "list_all (undisturbed 0) [Pump, Take]" by simp
  obtain m where 4: "resync_message demo_engine None = Some m" "map_option pp_name (to_profile demo_pb m) = Some ''server''"
    by (simp add: resync_message_def demo_engine_def get_profile_def push_payload_def Let_def demo_pb_def field_or_def)
  obtain r0 where 1: "receive_policy (Some demo_engine) None (Some ''web1'') [] 0 new_bus = Inr r0"
    using 4(1) by (simp add: receive_policy_def demo_streams_cn Let_def)
  from resync_comes_first [OF 1 2 3 4(1), of demo_pb] obtain rest where
    "deliver (to_profile demo_pb) [m] = rl_out (run (relay_step (to_profile demo_pb) 0 (push_topic ''web1'')) r0 [Pump, Take]) @ rest"
    by auto
  moreover have "map pp_name (deliver (to_profile demo_pb) [m]) = [''server'']"
    using 4(2) by auto
  ultimately show ?thesis by metis
qed

theorem collection_request_is_nameless_profile_witness:
  "map_option pp_name (to_profile demo_pb (snd (last (sent (ex_bus (snd
      (request_additional_collection sample_env (sample_decision ''p'' ''h'') \<lparr>ex_bus = empty_bus, ex_ids = 0\<rparr>))))))) = Some []"
proof -
  let ?d = "sample_decision ''p'' ''h''" and ?s = "\<lparr>ex_bus = empty_bus, ex_ids = 0\<rparr>"
  have safe: "safe_id_re (de_entity_id ?d)"
    by (simp add: sample_decision_def safe_id_re_def safe_core_def safe_char_def)
  obtain tm where tm: "sent (ex_bus (snd (request_additional_collection sample_env ?d ?s))) = sent (ex_bus ?s) @ [tm]"
    using safe by (simp add: request_additional_collection_def validate_entity_id_def put_def publish_def sample_env_def)
  then have "sent (ex_bus (snd (request_additional_collection sample_env ?d ?s))) = sent (ex_bus ?s) @ [(fst tm, snd tm)]"
    by simp
  from collection_request_is_nameless_profile [OF demo_pb_faithful safe this] tm show ?thesis by simp
qed

end
