(* ===== verification/Event_Repo.thy ===== *)
theory Event_Repo
  imports Alert_Repo Ingest
begin

text \<open>
  \<open>storage/repositories/events.py\<close>, \<open>storage/router.py\<close> and \<open>api/routers/events.py\<close>: the table of events, the double
  write to two stores, the routes. UUIDs are their texts; the three list columns and the extra column hold JSON texts,
  kept as the value they encode. The batch is not empty (the storage writer never flushes an empty one). The widths the
  columns declare (32- and 64-bit integers, texts of a maximal length) are not modelled: SQLite does not enforce them, and a
  database that does makes the whole insertion fail, which is not a step of this model.
\<close>

section \<open>Rows\<close>

record event_row =
  er_event_id :: uuid
  er_timestamp_ns :: int
  er_hostname :: string
  er_agent_id :: uuid
  er_category :: string
  er_type :: string
  er_severity :: string
  er_collector :: string
  er_os :: string
  er_uid :: int
  er_gid :: int
  er_pid :: int
  er_ppid :: int
  er_process_name :: string
  er_executable :: string
  er_cmdline :: string
  er_cwd :: string
  er_session_id :: "int option"
  er_resource :: string
  er_result :: string
  er_file_hash_before :: "string option"
  er_file_hash_after :: "string option"
  er_src_ip :: "string option"
  er_src_port :: "int option"
  er_dst_ip :: "string option"
  er_dst_port :: "int option"
  er_protocol :: "string option"
  er_bytes_sent :: "int option"
  er_bytes_recv :: "int option"
  er_hash_chain :: string
  er_signature :: "string option"
  er_ml_score :: "pyfloat option"
  er_risk_score :: "pyfloat option"
  er_rule_match_ids :: json
  er_mitre_techniques :: json
  er_ti_tags :: json
  er_incident_chain_id :: "uuid option"
  er_extra :: json

definition json_strs :: "string list \<Rightarrow> json" where
  "json_strs ss = JList (map JStr ss)"

definition event_to_row :: "universal_event \<Rightarrow> event_row" where
  "event_to_row e =
     \<lparr>er_event_id = ev_event_id e, er_timestamp_ns = ev_timestamp_ns e, er_hostname = ev_hostname e,
      er_agent_id = ev_agent_id e, er_category = ev_category e, er_type = ev_type e, er_severity = ev_severity e,
      er_collector = ev_collector e, er_os = ev_os e, er_uid = ev_uid e, er_gid = ev_gid e, er_pid = ev_pid e,
      er_ppid = ev_ppid e, er_process_name = ev_process_name e, er_executable = ev_executable e, er_cmdline = ev_cmdline e,
      er_cwd = ev_cwd e, er_session_id = ev_session_id e, er_resource = ev_resource e, er_result = ev_result e,
      er_file_hash_before = ev_file_hash_before e, er_file_hash_after = ev_file_hash_after e, er_src_ip = ev_src_ip e,
      er_src_port = ev_src_port e, er_dst_ip = ev_dst_ip e, er_dst_port = ev_dst_port e, er_protocol = ev_protocol e,
      er_bytes_sent = ev_bytes_sent e, er_bytes_recv = ev_bytes_recv e, er_hash_chain = ev_hash_chain e,
      er_signature = ev_signature e, er_ml_score = ev_ml_score e, er_risk_score = ev_risk_score e,
      er_rule_match_ids = json_strs (ev_rule_match_ids e), er_mitre_techniques = json_strs (ev_mitre_techniques e),
      er_ti_tags = json_strs (ev_ti_tags e), er_incident_chain_id = ev_incident_chain_id e, er_extra = JObj (ev_extra e)\<rparr>"

text \<open>Reading a row builds the model again, so a damaged row raises.\<close>

definition extra_object :: "json \<Rightarrow> (string, json) pydict result" where
  "extra_object j = (case j of JObj kvs \<Rightarrow> Inr kvs | _ \<Rightarrow> Inl ValidationError)"

definition model_event :: "event_row \<Rightarrow> string list \<Rightarrow> string list \<Rightarrow> string list \<Rightarrow> (string, json) pydict \<Rightarrow> universal_event" where
  "model_event r rules mitre tags extra =
     \<lparr>ev_event_id = er_event_id r, ev_timestamp_ns = er_timestamp_ns r, ev_hostname = er_hostname r,
      ev_agent_id = er_agent_id r, ev_category = er_category r, ev_type = er_type r, ev_severity = er_severity r,
      ev_collector = er_collector r, ev_os = er_os r, ev_uid = er_uid r, ev_gid = er_gid r, ev_pid = er_pid r,
      ev_ppid = er_ppid r, ev_process_name = er_process_name r, ev_executable = er_executable r,
      ev_cmdline = er_cmdline r, ev_cwd = er_cwd r, ev_session_id = er_session_id r, ev_resource = er_resource r,
      ev_result = er_result r, ev_file_hash_before = er_file_hash_before r, ev_file_hash_after = er_file_hash_after r,
      ev_src_ip = er_src_ip r, ev_src_port = er_src_port r, ev_dst_ip = er_dst_ip r, ev_dst_port = er_dst_port r,
      ev_protocol = er_protocol r, ev_bytes_sent = er_bytes_sent r, ev_bytes_recv = er_bytes_recv r,
      ev_hash_chain = er_hash_chain r, ev_signature = er_signature r, ev_ml_score = er_ml_score r,
      ev_risk_score = er_risk_score r, ev_rule_match_ids = rules, ev_mitre_techniques = mitre, ev_ti_tags = tags,
      ev_incident_chain_id = er_incident_chain_id r, ev_extra = extra\<rparr>"

definition row_to_event :: "event_row \<Rightarrow> universal_event result" where
  "row_to_event r =
     bind_result (str_list (er_rule_match_ids r)) (\<lambda>rules.
     bind_result (str_list (er_mitre_techniques r)) (\<lambda>mitre.
     bind_result (str_list (er_ti_tags r)) (\<lambda>tags.
     bind_result (extra_object (er_extra r)) (\<lambda>extra.
       if valid_event (model_event r rules mitre tags extra) then Inr (model_event r rules mitre tags extra)
       else Inl ValidationError))))"

section \<open>The repository\<close>

text \<open>\<open>INSERT OR IGNORE\<close>: a row whose identifier is taken is skipped, also within the batch.\<close>

definition insert_row :: "event_row \<Rightarrow> event_row list \<Rightarrow> event_row list" where
  "insert_row r t = (if list_ex (\<lambda>x. er_event_id x = er_event_id r) t then t else t @ [r])"

definition insert_batch :: "universal_event list \<Rightarrow> event_row list \<Rightarrow> event_row list" where
  "insert_batch es t = fold (\<lambda>e. insert_row (event_to_row e)) es t"

definition er_get :: "uuid \<Rightarrow> event_row list \<Rightarrow> universal_event option result" where
  "er_get i t =
     (case find (\<lambda>r. er_event_id r = i) t of
        None \<Rightarrow> Inr None
      | Some r \<Rightarrow> bind_result (row_to_event r) (\<lambda>e. Inr (Some e)))"

record event_filter =
  ef_hostname :: "string option"
  ef_category :: "string option"
  ef_type :: "string option"
  ef_severity :: "string option"
  ef_uid :: "int option"
  ef_pid :: "int option"
  ef_process_name :: "string option"
  ef_resource :: "string option"
  ef_rule_id :: "string option"
  ef_mitre_technique :: "string option"
  ef_from_ts :: "int option"
  ef_to_ts :: "int option"
  ef_agent_id :: "uuid option"
  ef_incident_chain_id :: "uuid option"

definition same :: "'a option \<Rightarrow> 'a \<Rightarrow> bool" where
  "same f v \<longleftrightarrow> f = None \<or> f = Some v"

text \<open>The rule and the technique of a filter are not applied.\<close>

definition passes :: "event_filter \<Rightarrow> event_row \<Rightarrow> bool" where
  "passes f r \<longleftrightarrow>
     same (ef_hostname f) (er_hostname r) \<and> same (ef_category f) (er_category r) \<and> same (ef_type f) (er_type r) \<and>
     same (ef_severity f) (er_severity r) \<and> same (ef_uid f) (er_uid r) \<and> same (ef_pid f) (er_pid r) \<and>
     same (ef_process_name f) (er_process_name r) \<and> same (ef_resource f) (er_resource r) \<and>
     same (ef_agent_id f) (er_agent_id r) \<and>
     (ef_incident_chain_id f = None \<or> er_incident_chain_id r = ef_incident_chain_id f) \<and>
     (case ef_from_ts f of None \<Rightarrow> True | Some t \<Rightarrow> t \<le> er_timestamp_ns r) \<and>
     (case ef_to_ts f of None \<Rightarrow> True | Some t \<Rightarrow> er_timestamp_ns r \<le> t)"

fun all_results :: "'a result list \<Rightarrow> 'a list result" where
  "all_results [] = Inr []"
| "all_results (r # rs) = bind_result r (\<lambda>a. bind_result (all_results rs) (\<lambda>as. Inr (a # as)))"

definition er_query :: "event_filter \<Rightarrow> nat \<Rightarrow> nat \<Rightarrow> event_row list \<Rightarrow> (universal_event list \<times> nat) result" where
  "er_query f offset limit t =
     (let rows = filter (passes f) t
      in bind_result (all_results (map row_to_event (page_of offset (min limit 10000) (sort_desc er_timestamp_ns rows))))
           (\<lambda>items. Inr (items, length rows)))"

definition er_count :: "event_filter \<Rightarrow> event_row list \<Rightarrow> nat" where
  "er_count f t = length (filter (passes f) t)"

definition update_ml_score :: "uuid \<Rightarrow> pyfloat \<Rightarrow> event_row list \<Rightarrow> event_row list" where
  "update_ml_score i x t = map (\<lambda>r. if er_event_id r = i then r\<lparr>er_ml_score := Some x\<rparr> else r) t"

text \<open>\<open>SELECT DISTINCT\<close>, without the texts that are no UUID.\<close>

definition get_distinct_agent_ids :: "(string \<Rightarrow> bool) \<Rightarrow> event_row list \<Rightarrow> uuid list" where
  "get_distinct_agent_ids is_uuid t = filter is_uuid (append_all_new (map er_agent_id t) [])"

section \<open>Two stores\<close>

text \<open>The writes run side by side; a failed write changes nothing. Only the failure of the first store is raised.\<close>

definition insert_events :: "bool \<Rightarrow> bool \<Rightarrow> universal_event list \<Rightarrow> event_row list \<times> event_row list option
    \<Rightarrow> unit result \<times> (event_row list \<times> event_row list option)" where
  "insert_events pg_ok ch_ok es s =
     (case s of (pg, ch) \<Rightarrow>
        (if pg_ok then Inr () else Inl (OtherError ''OperationalError''),
         (if pg_ok then insert_batch es pg else pg, map_option (\<lambda>c. if ch_ok then insert_batch es c else c) ch)))"

section \<open>The routes\<close>

definition any_filter :: event_filter where
  "any_filter = \<lparr>ef_hostname = None, ef_category = None, ef_type = None, ef_severity = None, ef_uid = None, ef_pid = None,
     ef_process_name = None, ef_resource = None, ef_rule_id = None, ef_mitre_technique = None, ef_from_ts = None,
     ef_to_ts = None, ef_agent_id = None, ef_incident_chain_id = None\<rparr>"

definition list_events :: "event_filter \<Rightarrow> int \<Rightarrow> int \<Rightarrow> identity result \<Rightarrow> event_row list \<Rightarrow> (universal_event list \<times> nat) result" where
  "list_events f limit offset auth t =
     bind_result auth (\<lambda>_.
       if limit < 1 \<or> 500 < limit \<or> offset < 0 \<or> (case ef_hostname f of None \<Rightarrow> False | Some h \<Rightarrow> 253 < length h)
       then Inl (HTTPException 422)
       else er_query (any_filter\<lparr>ef_hostname := ef_hostname f, ef_category := ef_category f, ef_severity := ef_severity f,
              ef_from_ts := ef_from_ts f, ef_to_ts := ef_to_ts f, ef_agent_id := ef_agent_id f\<rparr>) (nat offset) (nat limit) t)"

definition get_event :: "uuid \<Rightarrow> identity result \<Rightarrow> event_row list \<Rightarrow> universal_event result" where
  "get_event i auth t =
     bind_result auth (\<lambda>_. bind_result (er_get i t) (\<lambda>e.
       case e of None \<Rightarrow> Inl (HTTPException 404) | Some ev \<Rightarrow> Inr ev))"

definition get_event_chain :: "uuid \<Rightarrow> int \<Rightarrow> identity result \<Rightarrow> event_row list \<Rightarrow> universal_event list result" where
  "get_event_chain i limit auth t =
     bind_result auth (\<lambda>_.
       if limit < 1 \<or> 1000 < limit then Inl (HTTPException 422)
       else bind_result (er_get i t) (\<lambda>e.
         case e of
           None \<Rightarrow> Inl (HTTPException 404)
         | Some ev \<Rightarrow>
             (case ev_incident_chain_id ev of
                None \<Rightarrow> Inr [ev]
              | Some c \<Rightarrow>
                  bind_result (er_query (any_filter\<lparr>ef_incident_chain_id := Some c\<rparr>) 0 (nat limit) t) (\<lambda>(items, n).
                    Inr (sort_key ev_timestamp_ns items)))))"

section \<open>Reading back\<close>

lemma str_list_json_strs [simp]: "str_list (json_strs ss) = Inr ss"
proof -
  have "str_items (map JStr ss) = Inr ss" by (induction ss) auto
  then show ?thesis by (simp add: json_strs_def)
qed

lemma model_event_row:
  "model_event (event_to_row e) (ev_rule_match_ids e) (ev_mitre_techniques e) (ev_ti_tags e) (ev_extra e) = e"
  by (simp add: model_event_def event_to_row_def)

lemma event_row_columns:
  "er_rule_match_ids (event_to_row e) = json_strs (ev_rule_match_ids e)" "er_mitre_techniques (event_to_row e) = json_strs (ev_mitre_techniques e)"
  "er_ti_tags (event_to_row e) = json_strs (ev_ti_tags e)" "er_extra (event_to_row e) = JObj (ev_extra e)"
  by (simp_all add: event_to_row_def)

lemma event_row_roundtrip: "row_to_event (event_to_row e) = (if valid_event e then Inr e else Inl ValidationError)"
  by (simp add: row_to_event_def event_row_columns extra_object_def model_event_row)

lemma event_to_row_id [simp]: "er_event_id (event_to_row e) = ev_event_id e"
  by (simp add: event_to_row_def)

lemma insert_row_ids: "distinct (map er_event_id t) \<Longrightarrow> distinct (map er_event_id (insert_row r t))"
  by (auto simp: insert_row_def list_ex_iff)

lemma insert_batch_ids: "distinct (map er_event_id t) \<Longrightarrow> distinct (map er_event_id (insert_batch es t))"
  unfolding insert_batch_def by (induction es arbitrary: t) (auto intro: insert_row_ids)

lemma find_insert_row:
  "find (\<lambda>x. er_event_id x = i) (insert_row r t) =
     (case find (\<lambda>x. er_event_id x = i) t of Some x \<Rightarrow> Some x | None \<Rightarrow> if er_event_id r = i then Some r else None)"
proof -
  have "find (\<lambda>x. er_event_id x = er_event_id r) t \<noteq> None" if "list_ex (\<lambda>x. er_event_id x = er_event_id r) t"
    using that by (auto simp: find_None_iff list_ex_iff)
  then show ?thesis
    by (auto simp: insert_row_def find_snoc split: option.split)
qed

lemma find_insert_batch:
  "find (\<lambda>x. er_event_id x = i) (insert_batch es t) =
     (case find (\<lambda>x. er_event_id x = i) t of
        Some x \<Rightarrow> Some x
      | None \<Rightarrow> map_option event_to_row (find (\<lambda>e. ev_event_id e = i) es))"
  unfolding insert_batch_def
  by (induction es arbitrary: t) (auto simp: find_insert_row split: option.split)

text \<open>C28: what an insertion stores: an identifier that was taken keeps its event; otherwise the first event of the batch with
  that identifier is read back with every field, and no other identifier appears.\<close>

theorem event_read_back:
  "er_get i (insert_batch es t) =
     (if list_ex (\<lambda>r. er_event_id r = i) t then er_get i t
      else case find (\<lambda>e. ev_event_id e = i) es of
             None \<Rightarrow> Inr None
           | Some e \<Rightarrow> if valid_event e then Inr (Some e) else Inl ValidationError)"
proof (cases "find (\<lambda>r. er_event_id r = i) t")
  case None
  then have "\<not> list_ex (\<lambda>r. er_event_id r = i) t"
    by (auto simp: find_None_iff list_ex_iff)
  with None show ?thesis
    by (simp add: er_get_def find_insert_batch event_row_roundtrip split: option.split)
next
  case (Some r)
  then have "list_ex (\<lambda>r. er_event_id r = i) t"
    by (auto simp: find_Some_iff list_ex_iff)
  with Some show ?thesis
    by (simp add: er_get_def find_insert_batch)
qed

text \<open>Delivering events again is harmless: a batch whose identifiers are all stored changes nothing, so any batch may be
  repeated after any others.\<close>

lemma insert_known: "list_ex (\<lambda>x. er_event_id x = er_event_id r) t \<Longrightarrow> insert_row r t = t"
  by (simp add: insert_row_def)

lemma insert_batch_known:
  "list_all (\<lambda>e. list_ex (\<lambda>x. er_event_id x = ev_event_id e) t) es \<Longrightarrow> insert_batch es t = t"
  unfolding insert_batch_def by (induction es) (simp_all add: insert_known)

lemma insert_batch_mono: "list_ex P t \<Longrightarrow> list_ex P (insert_batch es t)"
  unfolding insert_batch_def by (induction es arbitrary: t) (auto simp: insert_row_def)

lemma insert_batch_has: "e \<in> set es \<Longrightarrow> list_ex (\<lambda>x. er_event_id x = ev_event_id e) (insert_batch es t)"
proof (induction es arbitrary: t)
  case (Cons a es)
  have "list_ex (\<lambda>x. er_event_id x = ev_event_id a) (insert_row (event_to_row a) t)"
    by (simp add: insert_row_def)
  from insert_batch_mono [OF this, of es] Cons show ?case
    by (auto simp: insert_batch_def)
qed simp

lemma repeated_batch:
  "insert_batch es (fold insert_batch later (insert_batch es t)) = fold insert_batch later (insert_batch es t)"
proof (rule insert_batch_known)
  have "list_ex P (fold insert_batch later t')" if "list_ex P t'" for P t'
    using that by (induction later arbitrary: t') (auto intro: insert_batch_mono)
  then show "list_all (\<lambda>e. list_ex (\<lambda>x. er_event_id x = ev_event_id e) (fold insert_batch later (insert_batch es t))) es"
    using insert_batch_has [of _ es t] by (auto simp: list_all_iff)
qed

section \<open>Pages\<close>

lemma all_results_Inr: "all_results rs = Inr as \<Longrightarrow> rs = map Inr as"
  by (induction rs arbitrary: as) auto

lemma all_results_map_Inr [simp]: "all_results (map Inr as) = Inr as"
  by (induction as) auto

lemma row_timestamp: "row_to_event r = Inr e \<Longrightarrow> ev_timestamp_ns e = er_timestamp_ns r \<and> ev_incident_chain_id e = er_incident_chain_id r
    \<and> ev_event_id e = er_event_id r"
  by (auto simp: row_to_event_def model_event_def split: if_splits)

lemma read_rows: "map row_to_event rs = map Inr es \<Longrightarrow> map ev_timestamp_ns es = map er_timestamp_ns rs"
proof (induction rs arbitrary: es)
  case (Cons r rs)
  then obtain e es' where "es = e # es'" "row_to_event r = Inr e" "map row_to_event rs = map Inr es'"
    by (cases es) auto
  with Cons.IH row_timestamp show ?case by simp
qed simp

text \<open>A page that is answered holds at most the limit, is newest first, and comes with the number of all matching rows.\<close>

theorem event_page:
  assumes "er_query f offset limit t = Inr (items, n)"
  shows "sorted_wrt (\<lambda>x y. ev_timestamp_ns y \<le> ev_timestamp_ns x) items \<and> length items \<le> min limit 10000 \<and> n = er_count f t"
proof -
  let ?rows = "page_of offset (min limit 10000) (sort_desc er_timestamp_ns (filter (passes f) t))"
  have rows: "map row_to_event ?rows = map Inr items" and n: "n = er_count f t"
    using assms all_results_Inr [of "map row_to_event ?rows" items] by (auto simp: er_query_def Let_def er_count_def)
  have "sorted_wrt (\<lambda>x y. er_timestamp_ns y \<le> er_timestamp_ns x) ?rows"
    unfolding page_of_def
    by (intro sorted_wrt_take sorted_wrt_drop) (rule sort_desc_sorted [of er_timestamp_ns])
  then have "sorted_wrt (\<lambda>x y. y \<le> x) (map ev_timestamp_ns items)"
    unfolding read_rows [OF rows] by (simp add: sorted_wrt_map)
  moreover have "length items = length ?rows"
    using rows by (metis length_map)
  ultimately show ?thesis using n by (auto simp: sorted_wrt_map page_of_def)
qed

section \<open>Chains\<close>

text \<open>Events get their chain when they are made, and nothing changes it later.\<close>

datatype event_op = Insert "universal_event list" | Score uuid pyfloat

fun event_step :: "event_op \<Rightarrow> event_row list \<Rightarrow> event_row list" where
  "event_step (Insert es) t = insert_batch es t"
| "event_step (Score i x) t = update_ml_score i x t"

fun unchained :: "event_op \<Rightarrow> bool" where
  "unchained (Insert es) = list_all (\<lambda>e. ev_incident_chain_id e = None) es"
| "unchained (Score i x) = True"

lemma insert_batch_all:
  "list_all P t \<Longrightarrow> list_all (\<lambda>e. P (event_to_row e)) es \<Longrightarrow> list_all P (insert_batch es t)"
  unfolding insert_batch_def by (induction es arbitrary: t) (auto simp: insert_row_def)

definition no_chain :: "event_row \<Rightarrow> bool" where
  "no_chain r \<longleftrightarrow> er_incident_chain_id r = None"

lemma no_chain_simps [simp]: "no_chain (event_to_row e) \<longleftrightarrow> ev_incident_chain_id e = None" "no_chain (r\<lparr>er_ml_score := x\<rparr>) = no_chain r"
  by (simp_all add: no_chain_def event_to_row_def)

interpretation chainless: filtered_machine event_step unchained "list_all no_chain"
proof unfold_locales
  fix t e
  assume t: "list_all no_chain t" and e: "unchained e"
  show "list_all no_chain (event_step e t)"
  proof (cases e)
    case (Insert es)
    with e t show ?thesis by (simp add: insert_batch_all)
  next
    case (Score i x)
    with t show ?thesis by (auto simp: update_ml_score_def list_all_iff)
  qed
qed

lemma ingested_unchained: "pb_to_event env override pb = Inr e \<Longrightarrow> ev_incident_chain_id e = None"
  by (auto simp: pb_to_event_def Let_def split: if_splits)

text \<open>The chain of an event is always the event alone: ingestion gives no event a chain, and no write of the repository
  sets one, so the route never finds the other events of the incident.\<close>

theorem chains_are_single:
  assumes "list_all unchained ops"
  shows "case get_event_chain i limit auth (run event_step [] ops) of
     Inl _ \<Rightarrow> True
   | Inr evs \<Rightarrow> (case er_get i (run event_step [] ops) of Inr (Some e) \<Rightarrow> evs = [e] | _ \<Rightarrow> False)"
proof -
  let ?t = "run event_step [] ops"
  have none: "list_all no_chain ?t"
    using assms by (intro chainless.run_allowed) simp_all
  have "ev_incident_chain_id e = None" if "er_get i ?t = Inr (Some e)" for e
    using that none row_timestamp
    by (auto simp: er_get_def no_chain_def list_all_iff find_Some_iff split: option.splits)
  then show ?thesis
    by (auto simp: get_event_chain_def split: sum.split option.split)
qed

section \<open>Witnesses\<close>

definition demo_event :: universal_event where
  "demo_event = (case pb_to_event sample_ingest_env (Some ''web1'') (sample_pb ''process'') of Inr e \<Rightarrow> e | Inl _ \<Rightarrow> undefined)"

lemma demo_event_ingested: "pb_to_event sample_ingest_env (Some ''web1'') (sample_pb ''process'') = Inr demo_event"
  by (simp add: demo_event_def sample_pb_def sample_ingest_env_def pb_to_event_def valid_event_def event_categories_def
      event_severities_def event_oses_def or_default_def valid_port_def some_if_def Let_def)

lemma demo_event_valid: "valid_event demo_event"
  using pb_to_event_Inr [OF demo_event_ingested] by simp

theorem event_page_witness:
  "case er_query any_filter 0 5 (insert_batch [demo_event] []) of Inr (items, n) \<Rightarrow> items = [demo_event] \<and> n = er_count any_filter (insert_batch [demo_event] []) | _ \<Rightarrow> False"
proof -
  have q: "er_query any_filter 0 5 (insert_batch [demo_event] []) = Inr ([demo_event], 1)"
    by (simp add: er_query_def insert_batch_def insert_row_def any_filter_def passes_def same_def page_of_def sort_desc_def
        event_row_roundtrip demo_event_valid Let_def)
  from event_page [OF this] q show ?thesis by simp
qed

theorem chains_are_single_witness:
  "get_event_chain (ev_event_id demo_event) 200 (Inr (ByKey ''ann'' [''analyst''])) (run event_step [] [Insert [demo_event]]) = Inr [demo_event]"
proof -
  have "list_all unchained [Insert [demo_event]]"
    using ingested_unchained [OF demo_event_ingested] by simp
  from chains_are_single [OF this, of "ev_event_id demo_event" 200 "Inr (ByKey ''ann'' [''analyst''])"]
  show ?thesis
    by (simp add: get_event_chain_def event_read_back demo_event_valid ingested_unchained [OF demo_event_ingested])
qed

end
