(* ===== verification/Entities.thy ===== *)
theory Entities
  imports Alert_Repo
begin

text \<open>
  \<open>api/routers/entities.py\<close>: risk profiles of the entities alerts are about, computed from the stored alerts. The
  logarithm \<open>log1p\<close> is a parameter, as rationals stand for floats; \<open>round(x, 2)\<close> is exact. Fields of a profile that
  always keep their default are left out.
\<close>

fun severity_weight :: "severity \<Rightarrow> rat" where
  "severity_weight Low = 1"
| "severity_weight Medium = 3"
| "severity_weight High = 7"
| "severity_weight Critical = 15"

definition raw_weight :: "alert list \<Rightarrow> rat" where
  "raw_weight alerts = sum_list (map (severity_weight \<circ> al_severity) alerts)"

definition compute_risk :: "(rat \<Rightarrow> rat) \<Rightarrow> alert list \<Rightarrow> rat" where
  "compute_risk log1p alerts = (if alerts = [] then 0 else min 100 (round2 (10 * log1p (raw_weight alerts))))"

text \<open>\<open>str.isdigit\<close> on Latin-1 counts the superscripts.\<close>

definition py_isdigit :: "string \<Rightarrow> bool" where
  "py_isdigit s \<longleftrightarrow> s \<noteq> [] \<and> list_all (\<lambda>c. let n = of_char c :: nat in (48 \<le> n \<and> n \<le> 57) \<or> n \<in> {178, 179, 185}) s"

definition entity_type :: "string \<Rightarrow> string" where
  "entity_type eid =
     (if CHR '':'' \<in> set eid \<and> py_isdigit (rev (takeWhile (\<lambda>c. c \<noteq> CHR '':'') (rev eid))) then ''process''
      else if CHR ''.'' \<in> set eid \<or> CHR '':'' \<in> set eid then ''connection''
      else ''file'')"

record entity_profile =
  en_id :: string
  en_type :: string
  en_hostname :: string
  en_risk :: rat
  en_alerts :: nat
  en_last_seen :: "time option"

definition profile_of :: "(rat \<Rightarrow> rat) \<Rightarrow> string \<Rightarrow> alert list \<Rightarrow> entity_profile" where
  "profile_of log1p eid alerts =
     \<lparr>en_id = eid, en_type = entity_type eid, en_hostname = (case alerts of [] \<Rightarrow> [] | a # _ \<Rightarrow> al_hostname a),
      en_risk = compute_risk log1p alerts, en_alerts = length alerts,
      en_last_seen = (if alerts = [] then None else Some (Max (set (map al_updated_at alerts))))\<rparr>"

definition get_entity :: "(rat \<Rightarrow> rat) \<Rightarrow> string \<Rightarrow> identity result \<Rightarrow> alert_db option \<Rightarrow> entity_profile result" where
  "get_entity log1p eid auth repo =
     bind_result auth (\<lambda>_.
       case repo of
         None \<Rightarrow> Inl (HTTPException 503)
       | Some db \<Rightarrow>
           (let alerts = list_by_entity eid 500 db
            in if alerts = [] then Inl (HTTPException 404) else Inr (profile_of log1p eid alerts)))"

text \<open>\<open>by_entity.setdefault(a.entity_id, []).append(a)\<close>.\<close>

definition add_to_group :: "alert \<Rightarrow> (string, alert list) pydict \<Rightarrow> (string, alert list) pydict" where
  "add_to_group a d =
     dict_put (al_entity_id a) ((case map_of d (al_entity_id a) of None \<Rightarrow> [] | Some as \<Rightarrow> as) @ [a]) d"

definition group_alerts :: "alert list \<Rightarrow> (string, alert list) pydict" where
  "group_alerts alerts = fold add_to_group alerts []"

definition rank_entities :: "(rat \<Rightarrow> rat) \<Rightarrow> nat \<Rightarrow> alert list \<Rightarrow> entity_profile list" where
  "rank_entities log1p limit alerts =
     take limit (sort_desc en_risk (map (\<lambda>(eid, as). profile_of log1p eid as) (group_alerts alerts)))"

definition list_entities :: "(rat \<Rightarrow> rat) \<Rightarrow> string option \<Rightarrow> int \<Rightarrow> identity result \<Rightarrow> alert_db option \<Rightarrow> entity_profile list result" where
  "list_entities log1p host limit auth repo =
     bind_result auth (\<lambda>_.
       if limit < 1 \<or> 100 < limit then Inl (HTTPException 422)
       else case repo of
              None \<Rightarrow> Inl (HTTPException 503)
            | Some db \<Rightarrow> Inr (rank_entities log1p (nat limit) (list_all_alerts host 5000 db)))"

section \<open>Groups\<close>

definition of_entity :: "string \<Rightarrow> alert list \<Rightarrow> alert list" where
  "of_entity eid = filter (\<lambda>a. al_entity_id a = eid)"

lemma group_fold:
  "wf_dict d \<Longrightarrow> (\<And>k. map_of d k \<noteq> Some []) \<Longrightarrow>
   wf_dict (fold add_to_group alerts d) \<and>
   map_of (fold add_to_group alerts d) eid =
     (let as = (case map_of d eid of None \<Rightarrow> [] | Some xs \<Rightarrow> xs) @ of_entity eid alerts in if as = [] then None else Some as)"
proof (induction alerts arbitrary: d)
  case Nil
  then show ?case by (auto simp: of_entity_def split: option.split)
next
  case (Cons a alerts)
  have "wf_dict (add_to_group a d)" and "map_of (add_to_group a d) k \<noteq> Some []" for k
    using Cons.prems by (simp_all add: add_to_group_def)
  from Cons.IH [OF this] show ?case
    by (auto simp: add_to_group_def of_entity_def Let_def split: option.split)
qed

lemma group_alerts_dict:
  "wf_dict (group_alerts alerts)"
  "map_of (group_alerts alerts) eid = (if of_entity eid alerts = [] then None else Some (of_entity eid alerts))"
  using group_fold [of "[]" alerts eid] by (simp_all add: group_alerts_def Let_def)

lemma group_alerts_set:
  "(eid, as) \<in> set (group_alerts alerts) \<longleftrightarrow> as = of_entity eid alerts \<and> as \<noteq> []"
  using group_alerts_dict [of alerts] map_of_eq_Some_iff [of "group_alerts alerts" eid as]
  by (auto simp: wf_dict_def split: if_splits)

text \<open>The ranking: the profiles are the highest risks in falling order, one per entity; a listed profile counts exactly the
  alerts of its entity, and an entity that has alerts and is left out has at most the risk of every listed one.\<close>

theorem ranking_is_top:
  "case rank_entities log1p limit alerts of ps \<Rightarrow>
     length ps \<le> limit \<and> distinct (map en_id ps) \<and> sorted_wrt (\<lambda>p q. en_risk q \<le> en_risk p) ps \<and>
     (\<forall>p \<in> set ps. of_entity (en_id p) alerts \<noteq> [] \<and> p = profile_of log1p (en_id p) (of_entity (en_id p) alerts)) \<and>
     (\<forall>a \<in> set alerts. al_entity_id a \<in> en_id ` set ps \<or>
        length ps = limit \<and> (\<forall>p \<in> set ps. compute_risk log1p (of_entity (al_entity_id a) alerts) \<le> en_risk p))"
proof -
  define all where "all = sort_desc en_risk (map (\<lambda>(eid, as). profile_of log1p eid as) (group_alerts alerts))"
  have id: "en_id (profile_of log1p eid as) = eid" "en_risk (profile_of log1p eid as) = compute_risk log1p as" for eid as
    by (simp_all add: profile_of_def)
  have ps: "rank_entities log1p limit alerts = take limit all"
    by (simp add: rank_entities_def all_def)
  have sorted: "sorted_wrt (\<lambda>p q. en_risk q \<le> en_risk p) all"
    unfolding all_def by (rule sort_desc_sorted)
  let ?profiles = "map (\<lambda>(eid, as). profile_of log1p eid as) (group_alerts alerts)"
  have "mset (map en_id all) = image_mset en_id (mset ?profiles)"
    by (simp add: all_def sort_desc_def)
  also have "\<dots> = mset (map en_id ?profiles)"
    by (simp only: mset_map)
  also have "map en_id ?profiles = map fst (group_alerts alerts)"
    by (simp add: id o_def case_prod_unfold)
  finally have dist: "distinct (map en_id all)"
    using group_alerts_dict(1) [of alerts] mset_eq_imp_distinct_iff unfolding wf_dict_def by blast
  have mem: "p \<in> set all \<longleftrightarrow> of_entity (en_id p) alerts \<noteq> [] \<and> p = profile_of log1p (en_id p) (of_entity (en_id p) alerts)" for p
    unfolding all_def by (auto simp: group_alerts_set id image_iff intro!: bexI [of _ "(en_id p, of_entity (en_id p) alerts)"])
  have rest: "en_risk q \<le> en_risk p" if "q \<in> set (drop limit all)" "p \<in> set (take limit all)" for p q
    using sorted that append_take_drop_id [of limit all] by (metis sorted_wrt_append)
  have out: "al_entity_id a \<in> en_id ` set (take limit all) \<or> (length (take limit all) = limit \<and>
      (\<forall>p \<in> set (take limit all). compute_risk log1p (of_entity (al_entity_id a) alerts) \<le> en_risk p))"
    if a: "a \<in> set alerts" for a
  proof -
    let ?q = "profile_of log1p (al_entity_id a) (of_entity (al_entity_id a) alerts)"
    have "of_entity (al_entity_id a) alerts \<noteq> []"
      using a by (auto simp: of_entity_def filter_empty_conv)
    then have "?q \<in> set all"
      by (simp add: mem id)
    then consider "?q \<in> set (take limit all)" | "?q \<in> set (drop limit all)"
      by (metis Un_iff append_take_drop_id set_append)
    then show ?thesis
    proof cases
      case 1
      then show ?thesis using id(1) by (metis image_eqI)
    next
      case 2
      then have "limit < length all"
        by (metis drop_all empty_iff empty_set not_less)
      then show ?thesis using rest [OF 2] id(2) by simp
    qed
  qed
  show ?thesis
    unfolding ps using sorted dist mem out
    by (auto simp: sorted_wrt_take distinct_take take_map [symmetric] dest: in_set_takeD)
qed

text \<open>Risk scores are between 0 and 100 and never fall when alerts are added, for any increasing logarithm that vanishes at 0.\<close>

lemma round_half_even_mono:
  assumes "x \<le> y"
  shows "round_half_even x \<le> round_half_even y"
proof (cases "\<lfloor>x\<rfloor> = \<lfloor>y\<rfloor>")
  case True
  then show ?thesis using assms by (auto simp: round_half_even_def Let_def)
next
  case False
  then have "\<lfloor>x\<rfloor> + 1 \<le> \<lfloor>y\<rfloor>" using assms floor_mono [OF assms] by linarith
  then show ?thesis by (auto simp: round_half_even_def Let_def)
qed

lemma round2_mono: "x \<le> y \<Longrightarrow> round2 x \<le> round2 y"
  by (simp add: round2_def round_half_even_mono divide_right_mono)

lemma round2_0 [simp]: "round2 0 = 0"
  by (simp add: round2_def round_half_even_def)

lemma severity_weight_nonneg: "0 \<le> severity_weight s"
  by (cases s) simp_all

lemma raw_weight_append: "raw_weight (xs @ ys) = raw_weight xs + raw_weight ys"
  by (simp add: raw_weight_def)

lemma raw_weight_nonneg: "0 \<le> raw_weight xs"
  unfolding raw_weight_def by (intro sum_list_nonneg) (auto simp: severity_weight_nonneg)

theorem risk_bounds:
  assumes "mono log1p" and "log1p 0 = 0"
  shows "0 \<le> compute_risk log1p alerts \<and> compute_risk log1p alerts \<le> 100 \<and>
    compute_risk log1p alerts \<le> compute_risk log1p (alerts @ others)"
proof -
  have le: "round2 (10 * log1p (raw_weight xs)) \<le> round2 (10 * log1p (raw_weight (xs @ ys)))" for xs ys
  proof -
    have "raw_weight xs \<le> raw_weight (xs @ ys)"
      using raw_weight_nonneg [of ys] by (simp add: raw_weight_append)
    then have "log1p (raw_weight xs) \<le> log1p (raw_weight (xs @ ys))"
      using assms(1) by (rule monoD [rotated])
    then show ?thesis by (simp add: round2_mono)
  qed
  have "0 \<le> round2 (10 * log1p (raw_weight xs))" for xs
    using le [of "[]" xs] assms(2) by (simp add: raw_weight_def)
  then show ?thesis
    using le [of alerts others] by (simp add: compute_risk_def min.coboundedI1 min_le_iff_disj)
qed

text \<open>An IPv6 address whose last group has only digits counts as a process.\<close>

lemma ipv6_is_process: "entity_type ''fe80::1'' = ''process''" "entity_type ''fe80::a'' = ''connection''"
  by (simp_all add: entity_type_def py_isdigit_def)

theorem risk_bounds_witness:
  "compute_risk (\<lambda>x. x) [demo_alert] \<le> 100"
  using risk_bounds [of "\<lambda>x. x" "[demo_alert]" "[]"] by (simp add: mono_def)

theorem ranking_is_top_witness:
  "map en_id (rank_entities (\<lambda>x. x) 3 [demo_alert]) = [''e''] \<and> length (rank_entities (\<lambda>x. x) 3 [demo_alert]) \<le> 3"
  using ranking_is_top [of "\<lambda>x. x" 3 "[demo_alert]"]
  by (simp add: rank_entities_def group_alerts_def add_to_group_def profile_of_def sort_desc_def demo_alert_def row_to_alert_def)

end
