(* ===== verification/Rule_Repo.thy ===== *)
theory Rule_Repo
  imports Rule_Engine Api_Keys Iso_Time
begin

text \<open>
  Rules managed through the API: \<open>storage/repositories/rules.py\<close> with its change log, and \<open>api/routers/rules.py\<close>. A
  row's columns are also reached by their names, as \<open>setattr\<close> does, with JSON values. Instants are kept; their
  \<open>isoformat\<close> texts are compared where the database orders by them. The routes over the loaded rules read the engine
  of \<open>Rule_Engine\<close>.
\<close>

section \<open>Rows\<close>

record rule_row =
  rr_rule_id :: string
  rr_name :: string
  rr_rule_type :: string
  rr_severity :: string
  rr_priority :: string
  rr_config_json :: string
  rr_yaml_content :: string
  rr_version :: nat
  rr_profile_id :: "string option"
  rr_enabled :: bool
  rr_created_at :: time
  rr_updated_at :: time
  rr_author :: "string option"

record change_row =
  cl_id :: nat
  cl_rule_id :: string
  cl_version :: nat
  cl_change_type :: string
  cl_diff :: "(string \<times> json \<times> json) list option"
  cl_author :: "string option"
  cl_changed_at :: time
  cl_yaml_snapshot :: "string option"

record rule_db =
  rb_rules :: "rule_row list"
  rb_log :: "change_row list"

text \<open>The columns the routes change.\<close>

definition row_field :: "string \<Rightarrow> rule_row \<Rightarrow> json" where
  "row_field k r =
     (if k = ''name'' then JStr (rr_name r) else if k = ''rule_type'' then JStr (rr_rule_type r)
      else if k = ''severity'' then JStr (rr_severity r) else if k = ''priority'' then JStr (rr_priority r)
      else if k = ''config_json'' then JStr (rr_config_json r) else if k = ''yaml_content'' then JStr (rr_yaml_content r)
      else if k = ''profile_id'' then jopt JStr (rr_profile_id r) else if k = ''enabled'' then JBool (rr_enabled r)
      else if k = ''updated_at'' then JInt (rr_updated_at r) else JNull)"

fun set_column :: "string \<times> json \<Rightarrow> rule_row \<Rightarrow> rule_row" where
  "set_column (k, JStr s) r =
     (if k = ''name'' then r\<lparr>rr_name := s\<rparr> else if k = ''rule_type'' then r\<lparr>rr_rule_type := s\<rparr>
      else if k = ''severity'' then r\<lparr>rr_severity := s\<rparr> else if k = ''priority'' then r\<lparr>rr_priority := s\<rparr>
      else if k = ''config_json'' then r\<lparr>rr_config_json := s\<rparr> else if k = ''yaml_content'' then r\<lparr>rr_yaml_content := s\<rparr>
      else if k = ''profile_id'' then r\<lparr>rr_profile_id := Some s\<rparr> else r)"
| "set_column (k, JBool b) r = (if k = ''enabled'' then r\<lparr>rr_enabled := b\<rparr> else r)"
| "set_column (k, JInt t) r = (if k = ''updated_at'' then r\<lparr>rr_updated_at := t\<rparr> else r)"
| "set_column (k, JNull) r = (if k = ''profile_id'' then r\<lparr>rr_profile_id := None\<rparr> else r)"
| "set_column (k, v) r = r"

definition set_columns :: "(string, json) pydict \<Rightarrow> rule_row \<Rightarrow> rule_row" where
  "set_columns kvs r = fold set_column kvs r"

section \<open>The repository\<close>

definition some_text :: "string \<Rightarrow> string option" where
  "some_text s = (if s = [] then None else Some s)"

definition log_change :: "change_row \<Rightarrow> rule_db \<Rightarrow> rule_db" where
  "log_change c db = db\<lparr>rb_log := rb_log db @ [c\<lparr>cl_id := Suc (length (rb_log db))\<rparr>]\<rparr>"

definition find_row :: "string \<Rightarrow> rule_db \<Rightarrow> rule_row option" where
  "find_row i db = find (\<lambda>r. rr_rule_id r = i) (rb_rules db)"

definition rb_create :: "time \<Rightarrow> rule_row \<Rightarrow> rule_db \<Rightarrow> rule_row result \<times> rule_db" where
  "rb_create now r db =
     (if find_row (rr_rule_id r) db \<noteq> None then (Inl (OtherError ''IntegrityError''), db)
      else (Inr r, log_change \<lparr>cl_id = 0, cl_rule_id = rr_rule_id r, cl_version = rr_version r, cl_change_type = ''created'',
              cl_diff = None, cl_author = rr_author r, cl_changed_at = now, cl_yaml_snapshot = some_text (rr_yaml_content r)\<rparr>
              (db\<lparr>rb_rules := rb_rules db @ [r]\<rparr>)))"

definition rb_list :: "bool \<Rightarrow> rule_db \<Rightarrow> rule_row list" where
  "rb_list enabled_only db =
     sort_desc (\<lambda>r. iso_text (rr_created_at r)) (filter (\<lambda>r. enabled_only \<longrightarrow> rr_enabled r) (rb_rules db))"

definition bumps_version :: "(string, json) pydict \<Rightarrow> bool" where
  "bumps_version kvs \<longleftrightarrow> dict_has kvs ''name'' \<or> dict_has kvs ''config_json'' \<or> dict_has kvs ''yaml_content''"

definition diff_of :: "(string, json) pydict \<Rightarrow> rule_row \<Rightarrow> (string \<times> json \<times> json) list" where
  "diff_of kvs old =
     map (\<lambda>(k, v). (k, row_field k old, v)) (filter (\<lambda>(k, v). row_field k old \<noteq> v) kvs)"

text \<open>The text of the author, and of the snapshot: the new value if it is not empty, else the row's, which is the new one.\<close>

definition text_or :: "json option \<Rightarrow> string \<Rightarrow> string" where
  "text_or v d = (case v of Some (JStr (c # cs)) \<Rightarrow> c # cs | _ \<Rightarrow> d)"

text \<open>The new values of the columns that differ: the ones the commit writes.\<close>

definition diff_to :: "(string \<times> json \<times> json) list \<Rightarrow> (string, json) pydict" where
  "diff_to d = map (\<lambda>(k, f, t). (k, t)) d"

text \<open>An update reads the row (\<open>session.get\<close>, here \<open>find_row\<close>) and commits later: \<open>rb_write\<close> takes the row \<open>r\<close> the
  session read and the row \<open>x\<close> that stands in the table at the commit. The commit writes the columns the session changed,
  and the change entry is made from the row as read. Nothing locks the row and no version is compared in between.\<close>

definition rb_write :: "time \<Rightarrow> (string, json) pydict \<Rightarrow> rule_row \<Rightarrow> rule_row \<Rightarrow> rule_db \<Rightarrow> rule_row \<times> rule_db" where
  "rb_write now kvs0 r x db =
     (let kvs = dict_put ''updated_at'' (JInt now) kvs0;
          r1 = (if bumps_version kvs then r\<lparr>rr_version := Suc (rr_version r)\<rparr> else r);
          r2 = set_columns kvs r1;
          x2 = set_columns (diff_to (diff_of kvs r1)) (if bumps_version kvs then x\<lparr>rr_version := rr_version r1\<rparr> else x)
      in (x2, log_change \<lparr>cl_id = 0, cl_rule_id = rr_rule_id r, cl_version = rr_version r2, cl_change_type = ''updated'',
                 cl_diff = Some (diff_of kvs r1),
                 cl_author = Some (text_or (map_of kvs ''author'') (case rr_author r2 of None \<Rightarrow> [] | Some a \<Rightarrow> a)),
                 cl_changed_at = now, cl_yaml_snapshot = Some (text_or (map_of kvs ''yaml_content'') (rr_yaml_content r2))\<rparr>
                 (db\<lparr>rb_rules := map (\<lambda>y. if rr_rule_id y = rr_rule_id r then x2 else y) (rb_rules db)\<rparr>)))"

text \<open>The commit of a session that read \<open>r\<close>; a row that is gone fails the flush.\<close>

definition rb_finish :: "time \<Rightarrow> (string, json) pydict \<Rightarrow> rule_row \<Rightarrow> rule_db \<Rightarrow> rule_row result \<times> rule_db" where
  "rb_finish now kvs r db =
     (case find_row (rr_rule_id r) db of
        None \<Rightarrow> (Inl (OtherError ''StaleDataError''), db)
      | Some x \<Rightarrow> (case rb_write now kvs r x db of (x2, db') \<Rightarrow> (Inr x2, db')))"

text \<open>An update that no other request overlaps commits on the row it read.\<close>

definition rb_update :: "time \<Rightarrow> string \<Rightarrow> (string, json) pydict \<Rightarrow> rule_db \<Rightarrow> rule_row option \<times> rule_db" where
  "rb_update now i kvs db =
     (case find_row i db of
        None \<Rightarrow> (None, db)
      | Some r \<Rightarrow> (case rb_write now kvs r r db of (r2, db') \<Rightarrow> (Some r2, db')))"

definition rb_delete :: "time \<Rightarrow> string \<Rightarrow> rule_db \<Rightarrow> bool \<times> rule_db" where
  "rb_delete now i db =
     (case find_row i db of
        None \<Rightarrow> (False, db)
      | Some r \<Rightarrow>
          (True, (log_change \<lparr>cl_id = 0, cl_rule_id = i, cl_version = rr_version r, cl_change_type = ''deleted'', cl_diff = None,
             cl_author = rr_author r, cl_changed_at = now, cl_yaml_snapshot = some_text (rr_yaml_content r)\<rparr> db)
             \<lparr>rb_rules := filter (\<lambda>x. rr_rule_id x \<noteq> i) (rb_rules db)\<rparr>))"

definition get_history :: "string \<Rightarrow> rule_db \<Rightarrow> change_row list" where
  "get_history i db = sort_desc cl_id (filter (\<lambda>c. cl_rule_id c = i) (rb_log db))"

section \<open>The routes over the table\<close>

record rule_create =
  rc_name :: string
  rc_rule_type :: string
  rc_severity :: string
  rc_priority :: string
  rc_config_json :: string
  rc_yaml_content :: string
  rc_profile_id :: "string option"
  rc_enabled :: bool
  rc_author :: "string option"

definition severities :: "string list" where
  "severities = [''info'', ''low'', ''medium'', ''high'', ''critical'']"

definition priorities :: "string list" where
  "priorities = [''low'', ''medium'', ''high'', ''critical'']"

definition rule_types :: "string list" where
  "rule_types = [''anomaly'', ''surveillance'']"

definition name_ok :: "string \<Rightarrow> bool" where
  "name_ok s \<longleftrightarrow> 1 \<le> length s \<and> length s \<le> 256"

definition create_ok :: "rule_create \<Rightarrow> bool" where
  "create_ok b \<longleftrightarrow> name_ok (rc_name b) \<and> rc_rule_type b \<in> set rule_types \<and> rc_severity b \<in> set severities
     \<and> rc_priority b \<in> set priorities"

text \<open>A request with a repository; \<open>None\<close> is the answer 503.\<close>

definition with_repo :: "identity result \<Rightarrow> rule_db option \<Rightarrow> (rule_db \<Rightarrow> 'a result \<times> rule_db) \<Rightarrow> 'a result \<times> rule_db option" where
  "with_repo auth repo f =
     (case auth of
        Inl e \<Rightarrow> (Inl e, repo)
      | Inr _ \<Rightarrow>
          (case repo of
             None \<Rightarrow> (Inl (HTTPException 503), None)
           | Some db \<Rightarrow> (case f db of (x, db') \<Rightarrow> (x, Some db'))))"

definition new_row :: "time \<Rightarrow> uuid \<Rightarrow> rule_create \<Rightarrow> rule_row" where
  "new_row now i b = \<lparr>rr_rule_id = i, rr_name = rc_name b, rr_rule_type = rc_rule_type b, rr_severity = rc_severity b,
     rr_priority = rc_priority b, rr_config_json = rc_config_json b, rr_yaml_content = rc_yaml_content b, rr_version = 1,
     rr_profile_id = rc_profile_id b, rr_enabled = rc_enabled b, rr_created_at = now, rr_updated_at = now,
     rr_author = rc_author b\<rparr>"

definition create_rule :: "time \<Rightarrow> uuid \<Rightarrow> rule_create \<Rightarrow> identity result \<Rightarrow> rule_db option \<Rightarrow> rule_row result \<times> rule_db option" where
  "create_rule now i b auth repo =
     (if is_ok auth \<and> \<not> create_ok b then (Inl (HTTPException 422), repo)
      else with_repo auth repo (rb_create now (new_row now i b)))"

record rule_update =
  ru_name :: "string option"
  ru_rule_type :: "string option"
  ru_severity :: "string option"
  ru_priority :: "string option"
  ru_config_json :: "string option"
  ru_yaml_content :: "string option"
  ru_profile_id :: "string option"
  ru_enabled :: "bool option"

definition allowed_in :: "string list \<Rightarrow> string option \<Rightarrow> bool" where
  "allowed_in xs v \<longleftrightarrow> (case v of None \<Rightarrow> True | Some s \<Rightarrow> s \<in> set xs)"

definition update_ok :: "rule_update \<Rightarrow> bool" where
  "update_ok b \<longleftrightarrow> (case ru_name b of None \<Rightarrow> True | Some n \<Rightarrow> name_ok n) \<and> allowed_in rule_types (ru_rule_type b)
     \<and> allowed_in severities (ru_severity b) \<and> allowed_in priorities (ru_priority b)"

text \<open>\<open>{k: v for k, v in body.model_dump().items() if v is not None}\<close>.\<close>

definition update_fields :: "rule_update \<Rightarrow> (string, json) pydict" where
  "update_fields b =
     filter (\<lambda>(k, v). v \<noteq> JNull)
       [(''name'', jopt JStr (ru_name b)), (''rule_type'', jopt JStr (ru_rule_type b)), (''severity'', jopt JStr (ru_severity b)),
        (''priority'', jopt JStr (ru_priority b)), (''config_json'', jopt JStr (ru_config_json b)),
        (''yaml_content'', jopt JStr (ru_yaml_content b)), (''profile_id'', jopt JStr (ru_profile_id b)),
        (''enabled'', jopt JBool (ru_enabled b))]"

definition found_or_404 :: "'a option \<times> 's \<Rightarrow> 'a result \<times> 's" where
  "found_or_404 x = (case x of (None, s) \<Rightarrow> (Inl (HTTPException 404), s) | (Some a, s) \<Rightarrow> (Inr a, s))"

definition update_db_rule :: "time \<Rightarrow> string \<Rightarrow> rule_update \<Rightarrow> identity result \<Rightarrow> rule_db option \<Rightarrow> rule_row result \<times> rule_db option" where
  "update_db_rule now i b auth repo =
     (if is_ok auth \<and> (64 < length i \<or> \<not> update_ok b) then (Inl (HTTPException 422), repo)
      else with_repo auth repo (\<lambda>db.
        if update_fields b = [] then (Inl (HTTPException 422), db) else found_or_404 (rb_update now i (update_fields b) db)))"

definition delete_db_rule :: "time \<Rightarrow> string \<Rightarrow> identity result \<Rightarrow> rule_db option \<Rightarrow> unit result \<times> rule_db option" where
  "delete_db_rule now i auth repo =
     (if is_ok auth \<and> 64 < length i then (Inl (HTTPException 422), repo)
      else with_repo auth repo (\<lambda>db.
        case rb_delete now i db of (True, db') \<Rightarrow> (Inr (), db') | (False, db') \<Rightarrow> (Inl (HTTPException 404), db')))"

definition assign_rule_to_profile :: "time \<Rightarrow> string \<Rightarrow> string \<Rightarrow> identity result \<Rightarrow> rule_db option \<Rightarrow> rule_row result \<times> rule_db option" where
  "assign_rule_to_profile now i p auth repo =
     (if is_ok auth \<and> (64 < length i \<or> p = [] \<or> 64 < length p) then (Inl (HTTPException 422), repo)
      else with_repo auth repo (\<lambda>db. found_or_404 (rb_update now i [(''profile_id'', JStr p)] db)))"

definition list_db_rules :: "bool \<Rightarrow> identity result \<Rightarrow> rule_db option \<Rightarrow> (rule_row list \<times> nat) result" where
  "list_db_rules enabled_only auth repo =
     fst (with_repo auth repo (\<lambda>db. let rows = rb_list enabled_only db in (Inr (rows, length rows), db)))"

definition get_db_rule :: "string \<Rightarrow> identity result \<Rightarrow> rule_db option \<Rightarrow> rule_row result" where
  "get_db_rule i auth repo =
     (if is_ok auth \<and> 64 < length i then Inl (HTTPException 422)
      else fst (with_repo auth repo (\<lambda>db. found_or_404 (find_row i db, db))))"

definition get_rule_history :: "string \<Rightarrow> identity result \<Rightarrow> rule_db option \<Rightarrow> (change_row list \<times> nat) result" where
  "get_rule_history i auth repo =
     (if is_ok auth \<and> 64 < length i then Inl (HTTPException 422)
      else fst (with_repo auth repo (\<lambda>db.
        let h = get_history i db in if h = [] then (Inl (HTTPException 404), db) else (Inr (h, length h), db))))"

section \<open>The routes over the loaded rules\<close>

text \<open>The model of a rule the API answers; the fields that always keep their default are \<open>rule_type\<close> and the counters.\<close>

record schema_rule =
  sr_id :: string
  sr_name :: string
  sr_enabled :: bool
  sr_severity :: string
  sr_condition_yaml :: string
  sr_timeframe :: "int option"
  sr_actions :: "string list"
  sr_tags :: "string list"
  sr_mitre :: "string list"
  sr_explanation :: string
  sr_rule_type :: rule_type
  sr_source :: string

definition rule_def_to_schema :: "rule_definition \<Rightarrow> schema_rule result" where
  "rule_def_to_schema r =
     (if rd_severity r \<in> set severities \<and> rd_source r \<in> set [''builtin'', ''custom'', ''imported'']
      then Inr \<lparr>sr_id = rd_id r, sr_name = rd_name r, sr_enabled = rd_enabled r, sr_severity = rd_severity r,
        sr_condition_yaml = rd_condition r, sr_timeframe = rd_timeframe r, sr_actions = rd_actions r, sr_tags = rd_tags r,
        sr_mitre = rd_mitre r, sr_explanation = rd_explanation r, sr_rule_type = Anomaly, sr_source = rd_source r\<rparr>
      else Inl ValidationError)"

fun schema_rules :: "rule_definition list \<Rightarrow> schema_rule list result" where
  "schema_rules [] = Inr []"
| "schema_rules (r # rs) = bind_result (rule_def_to_schema r) (\<lambda>s. bind_result (schema_rules rs) (\<lambda>ss. Inr (s # ss)))"

definition list_rules_route :: "bool \<Rightarrow> identity result \<Rightarrow> rule_engine option \<Rightarrow> (schema_rule list \<times> nat) result" where
  "list_rules_route enabled_only auth engine =
     bind_result auth (\<lambda>_.
       case engine of
         None \<Rightarrow> Inl (HTTPException 503)
       | Some en \<Rightarrow>
           (let rs = filter (\<lambda>r. enabled_only \<longrightarrow> rd_enabled r) (en_rules en)
            in bind_result (schema_rules rs) (\<lambda>ss. Inr (ss, length rs))))"

definition get_rule_route :: "string \<Rightarrow> identity result \<Rightarrow> rule_engine option \<Rightarrow> schema_rule result" where
  "get_rule_route rid auth engine =
     bind_result auth (\<lambda>_.
       if 100 < length rid then Inl (HTTPException 422)
       else case engine of
              None \<Rightarrow> Inl (HTTPException 503)
            | Some en \<Rightarrow> (case get_rule en rid of None \<Rightarrow> Inl (HTTPException 404) | Some r \<Rightarrow> rule_def_to_schema r))"

text \<open>Reloading at once; \<open>rules\<close> are the rules the loader finds on the disk now.\<close>

definition reload_rules :: "pylib \<Rightarrow> rule_definition list \<Rightarrow> identity result \<Rightarrow> rule_engine option
    \<Rightarrow> nat result \<times> rule_engine option" where
  "reload_rules L rules auth engine =
     (case auth of
        Inl e \<Rightarrow> (Inl e, engine)
      | Inr _ \<Rightarrow>
          (case engine of
             None \<Rightarrow> (Inl (HTTPException 503), None)
           | Some en \<Rightarrow> (let en' = reload L rules in (Inr (rule_count en'), Some en'))))"

text \<open>The trial of a condition on a made-up event. \<open>mentions\<close> says whether the message of an exception contains
  \<open>syntax\<close> or \<open>not allowed\<close>.\<close>

definition dummy_event :: event_dict where
  "dummy_event =
     [(''category'', PStr ''process''), (''type'', PStr ''exec''), (''severity'', PStr ''info''), (''uid'', PInt 0),
      (''pid'', PInt 1), (''executable'', PStr ''/bin/true''), (''resource'', PStr []), (''hostname'', PStr ''test''),
      (''dst_port'', PInt 0), (''result'', PStr ''success''), (''process_name'', PStr []), (''cmdline'', PStr []),
      (''os'', PStr ''linux'')]"

datatype verdict = ValidCondition | SyntaxProblem | Forbidden | TypeProblem | InvalidCondition

definition explain :: "(exn \<Rightarrow> bool \<times> bool) \<Rightarrow> exn \<Rightarrow> verdict" where
  "explain mentions e =
     (if fst (mentions e) then SyntaxProblem
      else if e = OtherError ''NameError'' \<or> snd (mentions e) then Forbidden
      else if e = TypeError then TypeProblem else InvalidCondition)"

definition validate_rule :: "pylib \<Rightarrow> (exn \<Rightarrow> bool \<times> bool) \<Rightarrow> time \<Rightarrow> nat \<Rightarrow> string \<Rightarrow> identity result \<Rightarrow> windows
    \<Rightarrow> verdict result \<times> windows" where
  "validate_rule L mentions now n cond auth w =
     (case auth of
        Inl e \<Rightarrow> (Inl e, w)
      | Inr _ \<Rightarrow>
          (case eval_source L (count_events L now n ''__validate__'' []) (PStr cond) dummy_event w of
             (Inr b, w') \<Rightarrow> (Inr ValidCondition, w')
           | (Inl e, w') \<Rightarrow> (Inr (explain mentions e), w')))"


section \<open>Fields by name\<close>

definition columns :: "string list" where
  "columns = [''name'', ''rule_type'', ''severity'', ''priority'', ''config_json'', ''yaml_content'', ''profile_id'', ''enabled'',
     ''updated_at'']"

text \<open>A value the column can hold.\<close>

fun column_value :: "string \<times> json \<Rightarrow> bool" where
  "column_value (k, JStr s) \<longleftrightarrow> k \<in> set (take 7 columns)"
| "column_value (k, JNull) \<longleftrightarrow> k = ''profile_id''"
| "column_value (k, JBool b) \<longleftrightarrow> k = ''enabled''"
| "column_value (k, JInt t) \<longleftrightarrow> k = ''updated_at''"
| "column_value _ \<longleftrightarrow> False"

lemma row_field_set:
  "column_value (k, v) \<Longrightarrow> row_field k' (set_column (k, v) r) = (if k' = k then v else row_field k' r)"
  by (cases "(k, v)" rule: column_value.cases) (auto simp: row_field_def columns_def)

lemma set_field_rest [simp]:
  "rr_rule_id (set_column kv r) = rr_rule_id r" "rr_version (set_column kv r) = rr_version r"
  "rr_created_at (set_column kv r) = rr_created_at r" "rr_author (set_column kv r) = rr_author r"
  by (induction kv r rule: set_column.induct; simp)+

lemma set_fields_rest [simp]:
  "rr_rule_id (set_columns kvs r) = rr_rule_id r" "rr_version (set_columns kvs r) = rr_version r"
  "rr_created_at (set_columns kvs r) = rr_created_at r" "rr_author (set_columns kvs r) = rr_author r"
  by (induction kvs arbitrary: r) (simp_all add: set_columns_def)

lemma row_field_set_columns:
  "list_all column_value kvs \<Longrightarrow> distinct (map fst kvs) \<Longrightarrow>
   row_field k (set_columns kvs r) = (case map_of kvs k of None \<Rightarrow> row_field k r | Some v \<Rightarrow> v)"
proof (induction kvs arbitrary: r)
  case (Cons kv kvs)
  obtain k' v where kv: "kv = (k', v)" by (cases kv)
  have "k' \<notin> fst ` set kvs" using Cons.prems by (simp add: kv)
  then have "map_of kvs k' = None" by (simp add: map_of_eq_None_iff)
  moreover have "row_field k (set_columns kvs (set_column (k', v) r))
      = (case map_of kvs k of None \<Rightarrow> row_field k (set_column (k', v) r) | Some v \<Rightarrow> v)"
    using Cons by (simp add: kv)
  ultimately show ?case
    using Cons.prems(1) by (auto simp: kv set_columns_def row_field_set split: option.split)
qed (simp add: set_columns_def)

lemma jopt_inj: "jopt JStr x = jopt JStr y \<Longrightarrow> x = y"
  by (cases x; cases y) simp_all

lemma row_ext:
  assumes "list_all (\<lambda>k. row_field k r = row_field k r') columns"
    and "rr_rule_id r = rr_rule_id r'" "rr_version r = rr_version r'" "rr_created_at r = rr_created_at r'" "rr_author r = rr_author r'"
  shows "(r :: rule_row) = r'"
  using assms by (cases r; cases r') (simp add: columns_def row_field_def jopt_inj)

lemma row_field_value: "k \<in> set columns \<Longrightarrow> column_value (k, row_field k r)"
  by (cases "rr_profile_id r") (auto simp: columns_def row_field_def)

lemma column_value_column: "column_value (k, v) \<Longrightarrow> k \<in> set columns"
  by (cases "(k, v)" rule: column_value.cases) (auto simp: columns_def)

section \<open>Changes can be undone\<close>

definition diff_from :: "(string \<times> json \<times> json) list \<Rightarrow> (string, json) pydict" where
  "diff_from d = map (\<lambda>(k, f, t). (k, f)) d"

lemma diff_to_eq: "diff_to (diff_of kvs r) = filter (\<lambda>(k, v). row_field k r \<noteq> v) kvs"
  by (induction kvs) (auto simp: diff_to_def diff_of_def)

lemma diff_from_eq: "diff_from (diff_of kvs r) = map (\<lambda>(k, v). (k, row_field k r)) (filter (\<lambda>(k, v). row_field k r \<noteq> v) kvs)"
  by (induction kvs) (auto simp: diff_from_def diff_of_def)

lemma diff_fields:
  assumes "list_all column_value kvs" and "distinct (map fst kvs)"
  shows "list_all column_value (diff_to (diff_of kvs r))" "distinct (map fst (diff_to (diff_of kvs r)))"
    and "list_all column_value (diff_from (diff_of kvs r))" "distinct (map fst (diff_from (diff_of kvs r)))"
proof -
  have *: "map fst (diff_from (diff_of kvs r)) = map fst (diff_to (diff_of kvs r))"
    by (auto simp: diff_from_eq diff_to_eq)
  show "list_all column_value (diff_to (diff_of kvs r))"
    using assms(1) by (auto simp: diff_to_eq list_all_iff)
  show "distinct (map fst (diff_to (diff_of kvs r)))"
    using assms(2) by (simp add: diff_to_eq distinct_map_filter)
  then show "distinct (map fst (diff_from (diff_of kvs r)))" by (simp only: *)
  show "list_all column_value (diff_from (diff_of kvs r))"
    using assms(1) by (auto simp: diff_from_eq list_all_iff row_field_value column_value_column)
qed

lemma map_of_changed:
  assumes "distinct (map fst kvs)"
  shows "map_of (filter (\<lambda>(k, v). P k v) kvs) k = (case map_of kvs k of None \<Rightarrow> None | Some v \<Rightarrow> if P k v then Some v else None)"
  using assms by (induction kvs) (auto simp: map_of_eq_None_iff split: option.split)

lemma redo_diff:
  assumes "list_all column_value kvs" and "distinct (map fst kvs)"
  shows "set_columns (diff_to (diff_of kvs r)) r = set_columns kvs r"
proof (rule row_ext)
  show "list_all (\<lambda>k. row_field k (set_columns (diff_to (diff_of kvs r)) r) = row_field k (set_columns kvs r)) columns"
    using assms diff_fields [OF assms, of r]
    by (auto simp: list_all_iff row_field_set_columns diff_to_eq map_of_changed split: option.split)
qed simp_all

lemma undo_diff:
  assumes "list_all column_value kvs" and "distinct (map fst kvs)"
  shows "set_columns (diff_from (diff_of kvs r)) (set_columns kvs r) = r"
proof (rule row_ext)
  have m: "map_of (map (\<lambda>(k, v). (k, row_field k r)) xs) k = (if k \<in> fst ` set xs then Some (row_field k r) else None)"
    for k and xs :: "(string, json) pydict"
    by (induction xs) auto
  have dom: "k \<in> fst ` set (filter (\<lambda>(k, v). row_field k r \<noteq> v) kvs)
      \<longleftrightarrow> (case map_of kvs k of None \<Rightarrow> False | Some v \<Rightarrow> row_field k r \<noteq> v)" for k
  proof -
    have "k \<in> fst ` set xs \<longleftrightarrow> map_of xs k \<noteq> None" for xs :: "(string, json) pydict"
      by (simp only: map_of_eq_None_iff not_not)
    then show ?thesis by (simp only: map_of_changed [OF assms(2)]) (simp split: option.split)
  qed
  show "list_all (\<lambda>k. row_field k (set_columns (diff_from (diff_of kvs r)) (set_columns kvs r)) = row_field k r) columns"
    unfolding row_field_set_columns [OF diff_fields(3,4) [OF assms]] row_field_set_columns [OF assms]
    unfolding diff_from_eq m dom
    by (auto simp: list_all_iff split: option.split)
qed simp_all


section \<open>Operations as a machine\<close>

datatype rule_op =
    CreateRule time uuid rule_create
  | UpdateRule time string rule_update
  | AssignProfile time string string
  | DeleteRule time string

fun rule_step :: "identity \<Rightarrow> rule_op \<Rightarrow> rule_db \<Rightarrow> rule_db" where
  "rule_step who (CreateRule now i b) db = the (snd (create_rule now i b (Inr who) (Some db)))"
| "rule_step who (UpdateRule now i b) db = the (snd (update_db_rule now i b (Inr who) (Some db)))"
| "rule_step who (AssignProfile now i p) db = the (snd (assign_rule_to_profile now i p (Inr who) (Some db)))"
| "rule_step who (DeleteRule now i) db = the (snd (delete_db_rule now i (Inr who) (Some db)))"

definition empty_rules :: rule_db where
  "empty_rules = \<lparr>rb_rules = [], rb_log = []\<rparr>"

text \<open>A step is one of three changes of the tables, or none.\<close>

definition api_fields :: "(string, json) pydict \<Rightarrow> bool" where
  "api_fields kvs \<longleftrightarrow> list_all column_value kvs \<and> distinct (map fst kvs) \<and> ''updated_at'' \<notin> fst ` set kvs
     \<and> ''author'' \<notin> fst ` set kvs"

lemma column_value_jopt: "k \<in> set (take 7 columns) \<Longrightarrow> jopt JStr x \<noteq> JNull \<Longrightarrow> column_value (k, jopt JStr x)"
  by (cases x) simp_all

lemma list_all_kept: "list_all (\<lambda>(k, v). v \<noteq> JNull \<longrightarrow> P (k, v)) kvs \<Longrightarrow> list_all P (filter (\<lambda>(k, v). v \<noteq> JNull) kvs)"
  by (induction kvs) auto

lemma update_field_values: "list_all column_value (update_fields b)"
proof -
  have n: "k \<in> set (take 7 columns) \<Longrightarrow> jopt JStr x \<noteq> JNull \<longrightarrow> column_value (k, jopt JStr x)" for k x
    using column_value_jopt by simp
  have e: "jopt JBool e \<noteq> JNull \<longrightarrow> column_value (''enabled'', jopt JBool e)" for e by (cases e) simp_all
  have "list_all (\<lambda>(k, v). v \<noteq> JNull \<longrightarrow> column_value (k, v))
       [(''name'', jopt JStr (ru_name b)), (''rule_type'', jopt JStr (ru_rule_type b)), (''severity'', jopt JStr (ru_severity b)),
        (''priority'', jopt JStr (ru_priority b)), (''config_json'', jopt JStr (ru_config_json b)),
        (''yaml_content'', jopt JStr (ru_yaml_content b)), (''profile_id'', jopt JStr (ru_profile_id b)),
        (''enabled'', jopt JBool (ru_enabled b))]"
    unfolding list.pred_inject prod.case
    by (intro conjI n e list.pred_inject(1)) (simp_all add: columns_def)
  then show ?thesis unfolding update_fields_def by (rule list_all_kept)
qed

lemma update_field_names:
  "distinct (map fst (update_fields b))" "''updated_at'' \<notin> fst ` set (update_fields b)" "''author'' \<notin> fst ` set (update_fields b)"
proof -
  let ?names = "[''name'', ''rule_type'', ''severity'', ''priority'', ''config_json'', ''yaml_content'', ''profile_id'', ''enabled'']"
  have all: "fst ` set (update_fields b) \<subseteq> set ?names"
    unfolding update_fields_def by (rule order_trans [OF image_mono [OF filter_is_subset]]) simp
  show "distinct (map fst (update_fields b))"
    unfolding update_fields_def by (rule distinct_map_filter) simp
  have no: "''updated_at'' \<notin> set ?names" "''author'' \<notin> set ?names" by simp_all
  show "''updated_at'' \<notin> fst ` set (update_fields b)" "''author'' \<notin> fst ` set (update_fields b)"
    by (rule contra_subsetD [OF all no(1)], rule contra_subsetD [OF all no(2)])
qed

lemma api_update_fields [simp]: "api_fields (update_fields b)"
  by (simp add: api_fields_def update_field_values update_field_names)

lemma api_assign [simp]: "api_fields [(''profile_id'', JStr p)]"
  by (simp add: api_fields_def columns_def)

lemma snd_found_or_404 [simp]: "snd (found_or_404 x) = snd x"
  by (cases x; cases "fst x") (auto simp: found_or_404_def)

lemma with_repo_Some: "snd (with_repo (Inr who) (Some db) f) = Some (snd (f db))"
  by (simp add: with_repo_def case_prod_beta)

lemma rule_step_cases:
  obtains (same) "rule_step who op db = db"
  | (create) now b i where "op = CreateRule now i b" "rule_step who op db = snd (rb_create now (new_row now i b) db)"
  | (change) now i kvs where "api_fields kvs" "rule_step who op db = snd (rb_update now i kvs db)"
  | (remove) now i where "op = DeleteRule now i" "rule_step who op db = snd (rb_delete now i db)"
proof (cases op)
  case (CreateRule now i b)
  then show ?thesis using same create by (cases "create_ok b") (simp_all add: create_rule_def with_repo_Some)
next
  case (UpdateRule now i b)
  then show ?thesis
    using same change [OF api_update_fields, of now i b]
    by (cases "64 < length i \<or> \<not> update_ok b"; cases "update_fields b = []") (simp_all add: update_db_rule_def with_repo_Some)
next
  case (AssignProfile now i p)
  then show ?thesis
    using same change [OF api_assign, of now i p]
    by (cases "64 < length i \<or> p = [] \<or> 64 < length p") (simp_all add: assign_rule_to_profile_def with_repo_Some)
next
  case (DeleteRule now i)
  have "snd (case rb_delete now i db of (True, db') \<Rightarrow> (Inr () :: unit result, db') | (False, db') \<Rightarrow> (Inl (HTTPException 404), db'))
      = snd (rb_delete now i db)"
    by (simp split: prod.split bool.split)
  then show ?thesis
    using DeleteRule same remove by (cases "64 < length i") (simp_all add: delete_db_rule_def with_repo_Some)
qed

section \<open>The change log\<close>

definition ids_ok :: "rule_db \<Rightarrow> bool" where
  "ids_ok db \<longleftrightarrow> map cl_id (rb_log db) = [1..<Suc (length (rb_log db))]"

lemma ids_ok_empty: "ids_ok empty_rules"
  by (simp add: ids_ok_def empty_rules_def)

lemma log_change_simps [simp]:
  "rb_rules (log_change c db) = rb_rules db"
  "find_row i (log_change c db) = find_row i db"
  by (simp_all add: log_change_def find_row_def)

lemma ids_ok_log [simp]: "ids_ok (log_change c (db\<lparr>rb_rules := rs\<rparr>)) = ids_ok db" "ids_ok (log_change c db) = ids_ok db"
  "ids_ok (db\<lparr>rb_rules := rs\<rparr>) = ids_ok db"
  by (auto simp: ids_ok_def log_change_def)

lemma history_rev:
  assumes "ids_ok db"
  shows "get_history i db = rev (filter (\<lambda>c. cl_rule_id c = i) (rb_log db))"
proof -
  let ?xs = "filter (\<lambda>c. cl_rule_id c = i) (rb_log db)"
  have "sorted (map cl_id (rb_log db))" "distinct (map cl_id (rb_log db))"
    using assms by (simp_all add: ids_ok_def del: upt_Suc)
  then have "sorted (map cl_id ?xs)" "distinct (map cl_id ?xs)"
    by (simp_all add: sorted_filter distinct_map_filter)
  then have "sort_key cl_id (rev ?xs) = ?xs"
    by (intro sort_key_inj_key_eq) (simp_all add: distinct_map)
  then show ?thesis by (simp add: get_history_def sort_desc_def)
qed

lemma history_log:
  assumes "ids_ok db"
  shows "get_history i (log_change c (db\<lparr>rb_rules := rs\<rparr>)) =
    (if cl_rule_id c = i then [c\<lparr>cl_id := Suc (length (rb_log db))\<rparr>] else []) @ get_history i db"
  using assms by (simp add: history_rev) (simp add: log_change_def)

lemma find_row_map:
  assumes "rr_rule_id r2 = i"
  shows "find (\<lambda>r. rr_rule_id r = j) (map (\<lambda>x. if rr_rule_id x = i then r2 else x) xs) =
    (case find (\<lambda>r. rr_rule_id r = j) xs of None \<Rightarrow> None | Some r \<Rightarrow> Some (if i = j then r2 else r))"
  using assms by (induction xs) auto

lemma find_row_append: "find P (xs @ [r]) = (case find P xs of None \<Rightarrow> if P r then Some r else None | Some x \<Rightarrow> Some x)"
  by (induction xs) auto

lemma find_row_other: "find (\<lambda>r. rr_rule_id r = j) (filter (\<lambda>x. rr_rule_id x \<noteq> i) xs) =
    (if i = j then None else find (\<lambda>r. rr_rule_id r = j) xs)"
  by (induction xs) auto

lemma find_row_id: "find_row i db = Some r \<Longrightarrow> rr_rule_id r = i"
  by (auto simp: find_row_def find_Some_iff)


section \<open>What an update records\<close>

definition stamped :: "time \<Rightarrow> (string, json) pydict \<Rightarrow> (string, json) pydict" where
  "stamped now kvs = dict_put ''updated_at'' (JInt now) kvs"

lemma dict_put_new: "k \<notin> fst ` set d \<Longrightarrow> dict_put k v d = d @ [(k, v)]"
  by (induction d) (auto split: if_splits)

lemma stamped_fields:
  assumes "api_fields kvs"
  shows "list_all column_value (stamped now kvs)" "distinct (map fst (stamped now kvs))" "map_of (stamped now kvs) ''author'' = None"
proof -
  have "stamped now kvs = kvs @ [(''updated_at'', JInt now)]"
    using assms by (simp add: stamped_def api_fields_def dict_put_new)
  with assms show "list_all column_value (stamped now kvs)" "distinct (map fst (stamped now kvs))"
      "map_of (stamped now kvs) ''author'' = None"
    by (simp_all add: api_fields_def map_of_eq_None_iff)
qed

definition updated_row :: "time \<Rightarrow> (string, json) pydict \<Rightarrow> rule_row \<Rightarrow> rule_row" where
  "updated_row now kvs r = set_columns (stamped now kvs) (if bumps_version (stamped now kvs) then r\<lparr>rr_version := Suc (rr_version r)\<rparr> else r)"

definition update_entry :: "time \<Rightarrow> (string, json) pydict \<Rightarrow> rule_row \<Rightarrow> change_row" where
  "update_entry now kvs r = \<lparr>cl_id = 0, cl_rule_id = rr_rule_id r, cl_version = rr_version (updated_row now kvs r),
     cl_change_type = ''updated'', cl_diff = Some (diff_of (stamped now kvs) r),
     cl_author = Some (case rr_author r of None \<Rightarrow> [] | Some a \<Rightarrow> a), cl_changed_at = now,
     cl_yaml_snapshot = Some (rr_yaml_content (updated_row now kvs r))\<rparr>"

lemma row_field_version [simp]: "row_field k (r\<lparr>rr_version := n\<rparr>) = row_field k r"
  by (simp add: row_field_def)

lemma diff_of_version [simp]: "diff_of kvs (r\<lparr>rr_version := n\<rparr>) = diff_of kvs r"
  by (simp add: diff_of_def)

lemma updated_row_rest [simp]:
  "rr_rule_id (updated_row now kvs r) = rr_rule_id r" "rr_author (updated_row now kvs r) = rr_author r"
  "rr_version (updated_row now kvs r) = (if bumps_version (stamped now kvs) then Suc (rr_version r) else rr_version r)"
  by (simp_all add: updated_row_def)

lemma snapshot_text:
  assumes "list_all column_value kvs" and "distinct (map fst kvs)"
  shows "text_or (map_of kvs ''yaml_content'') (rr_yaml_content (set_columns kvs r)) = rr_yaml_content (set_columns kvs r)"
proof (cases "map_of kvs ''yaml_content''")
  case (Some v)
  have "row_field ''yaml_content'' (set_columns kvs r) = v"
    by (simp add: row_field_set_columns [OF assms] Some)
  then have "v = JStr (rr_yaml_content (set_columns kvs r))" by (simp add: row_field_def)
  with Some show ?thesis by (cases "rr_yaml_content (set_columns kvs r)") (simp_all add: text_or_def)
qed (simp add: text_or_def)

lemma set_fields_version: "set_columns kvs (r\<lparr>rr_version := n\<rparr>) = (set_columns kvs r)\<lparr>rr_version := n\<rparr>"
proof (induction kvs arbitrary: r)
  case (Cons kv kvs)
  have "set_column kv (r\<lparr>rr_version := n\<rparr>) = (set_column kv r)\<lparr>rr_version := n\<rparr>"
    by (induction kv r rule: set_column.induct) simp_all
  with Cons.IH [of "set_column kv r"] show ?case by (simp add: set_columns_def)
qed (simp add: set_columns_def)

lemma redo_version:
  assumes "list_all column_value kvs" and "distinct (map fst kvs)"
  shows "set_columns (diff_to (diff_of kvs r)) (r\<lparr>rr_version := n\<rparr>) = set_columns kvs (r\<lparr>rr_version := n\<rparr>)"
  using redo_diff [OF assms, of r] by (simp add: set_fields_version)

lemma rb_update_hit:
  assumes "find_row i db = Some r" and "api_fields kvs"
  shows "rb_update now i kvs db = (Some (updated_row now kvs r),
    log_change (update_entry now kvs r)
      (db\<lparr>rb_rules := map (\<lambda>x. if rr_rule_id x = i then updated_row now kvs r else x) (rb_rules db)\<rparr>))"
proof -
  note f = stamped_fields [OF assms(2), of now]
  show ?thesis
    using assms(1) find_row_id [OF assms(1)]
    by (cases "bumps_version (stamped now kvs)")
      (simp_all add: rb_update_def rb_write_def Let_def stamped_def [symmetric] update_entry_def updated_row_def
        redo_diff [OF f(1,2)] redo_version [OF f(1,2)] snapshot_text [OF f(1,2)] f(3) cong del: if_weak_cong,
       simp_all add: text_or_def)
qed

lemma rb_update_miss: "find_row i db = None \<Longrightarrow> rb_update now i kvs db = (None, db)"
  by (simp add: rb_update_def)

lemma updated_row_version:
  "updated_row now kvs r = (set_columns (stamped now kvs) r)\<lparr>rr_version := rr_version (updated_row now kvs r)\<rparr>"
  by (simp add: updated_row_def set_fields_version)

section \<open>Going back to the row as created\<close>

text \<open>Undoing the differences of the entries of a history, newest first. The differences do not hold the version: it is
  the one of the creation entry.\<close>

definition undo :: "change_row \<Rightarrow> rule_row \<Rightarrow> rule_row" where
  "undo c r = (case cl_diff c of None \<Rightarrow> r | Some d \<Rightarrow> set_columns (diff_from d) r)"

definition rewind :: "change_row list \<Rightarrow> rule_row \<Rightarrow> rule_row" where
  "rewind cs r = fold undo (takeWhile (\<lambda>c. cl_change_type c \<noteq> ''created'') cs) r"

definition origin :: "string \<Rightarrow> rule_db \<Rightarrow> rule_row option" where
  "origin i db =
     (case (find_row i db, find (\<lambda>c. cl_change_type c = ''created'') (get_history i db)) of
        (Some r, Some c) \<Rightarrow> Some ((rewind (get_history i db) r)\<lparr>rr_version := cl_version c\<rparr>)
      | _ \<Rightarrow> None)"

lemma undo_version: "undo c (r\<lparr>rr_version := n\<rparr>) = (undo c r)\<lparr>rr_version := n\<rparr>"
  by (simp add: undo_def set_fields_version split: option.split)

lemma rewind_version: "rewind cs (r\<lparr>rr_version := n\<rparr>) = (rewind cs r)\<lparr>rr_version := n\<rparr>"
proof -
  have "fold undo cs (r\<lparr>rr_version := n\<rparr>) = (fold undo cs r)\<lparr>rr_version := n\<rparr>" for cs
    by (induction cs arbitrary: r) (simp_all add: undo_version)
  then show ?thesis by (simp add: rewind_def)
qed

lemma undo_update:
  assumes "api_fields kvs"
  shows "undo (update_entry now kvs r\<lparr>cl_id := n\<rparr>) (updated_row now kvs r) = r\<lparr>rr_version := rr_version (updated_row now kvs r)\<rparr>"
proof -
  have "undo (update_entry now kvs r\<lparr>cl_id := n\<rparr>) (updated_row now kvs r)
      = (undo (update_entry now kvs r\<lparr>cl_id := n\<rparr>) (set_columns (stamped now kvs) r))\<lparr>rr_version := rr_version (updated_row now kvs r)\<rparr>"
    by (subst updated_row_version) (rule undo_version)
  also have "undo (update_entry now kvs r\<lparr>cl_id := n\<rparr>) (set_columns (stamped now kvs) r) = r"
    using stamped_fields [OF assms] by (simp add: undo_def update_entry_def undo_diff)
  finally show ?thesis by simp
qed


section \<open>The log and the rows agree\<close>

text \<open>What each repository operation does to one rule's row and history.\<close>

lemma create_view:
  assumes "ids_ok db"
  shows "find_row j (snd (rb_create now r db)) =
      (if find_row (rr_rule_id r) db = None \<and> rr_rule_id r = j then Some r else find_row j db)"
    and "get_history j (snd (rb_create now r db)) =
      (if find_row (rr_rule_id r) db = None \<and> rr_rule_id r = j
       then [\<lparr>cl_id = Suc (length (rb_log db)), cl_rule_id = j, cl_version = rr_version r, cl_change_type = ''created'',
          cl_diff = None, cl_author = rr_author r, cl_changed_at = now, cl_yaml_snapshot = some_text (rr_yaml_content r)\<rparr>]
       else []) @ get_history j db"
    and "ids_ok (snd (rb_create now r db))"
  using assms by (auto simp: rb_create_def history_log find_row_def find_row_append split: option.split)

lemma find_row_changed:
  "find_row i db = Some r \<Longrightarrow> rr_rule_id r2 = i \<Longrightarrow>
   find_row j (db\<lparr>rb_rules := map (\<lambda>x. if rr_rule_id x = i then r2 else x) (rb_rules db)\<rparr>) =
     (if i = j then Some r2 else find_row j db)"
  using find_row_map [of r2 i j "rb_rules db"] by (auto simp: find_row_def split: option.splits)

lemma update_view:
  assumes "ids_ok db" and "api_fields kvs"
  shows "find_row j (snd (rb_update now i kvs db)) =
      (if i = j then map_option (updated_row now kvs) (find_row i db) else find_row j db)"
    and "get_history j (snd (rb_update now i kvs db)) =
      (case find_row i db of
         Some r \<Rightarrow> if i = j then [update_entry now kvs r\<lparr>cl_id := Suc (length (rb_log db))\<rparr>] else []
       | None \<Rightarrow> []) @ get_history j db"
    and "ids_ok (snd (rb_update now i kvs db))"
proof (atomize (full), cases "find_row i db")
  case None
  then show "(find_row j (snd (rb_update now i kvs db)) =
      (if i = j then map_option (updated_row now kvs) (find_row i db) else find_row j db))
    \<and> (get_history j (snd (rb_update now i kvs db)) =
      (case find_row i db of
         Some r \<Rightarrow> if i = j then [update_entry now kvs r\<lparr>cl_id := Suc (length (rb_log db))\<rparr>] else []
       | None \<Rightarrow> []) @ get_history j db)
    \<and> ids_ok (snd (rb_update now i kvs db))"
    using assms(1) by (auto simp: rb_update_miss)
next
  case (Some r)
  have i: "rr_rule_id r = i" by (rule find_row_id [OF Some])
  then have "cl_rule_id (update_entry now kvs r) = i" by (simp add: update_entry_def)
  with i Some assms(1) show "(find_row j (snd (rb_update now i kvs db)) =
      (if i = j then map_option (updated_row now kvs) (find_row i db) else find_row j db))
    \<and> (get_history j (snd (rb_update now i kvs db)) =
      (case find_row i db of
         Some r \<Rightarrow> if i = j then [update_entry now kvs r\<lparr>cl_id := Suc (length (rb_log db))\<rparr>] else []
       | None \<Rightarrow> []) @ get_history j db)
    \<and> ids_ok (snd (rb_update now i kvs db))"
    by (auto simp: rb_update_hit [OF Some assms(2)] history_log find_row_changed)
qed

lemma delete_view:
  assumes "ids_ok db"
  shows "find_row j (snd (rb_delete now i db)) = (if i = j then None else find_row j db)"
    and "get_history j (snd (rb_delete now i db)) =
      (case find_row i db of
         Some r \<Rightarrow> if i = j then [\<lparr>cl_id = Suc (length (rb_log db)), cl_rule_id = i, cl_version = rr_version r,
           cl_change_type = ''deleted'', cl_diff = None, cl_author = rr_author r, cl_changed_at = now,
           cl_yaml_snapshot = some_text (rr_yaml_content r)\<rparr>] else []
       | None \<Rightarrow> []) @ get_history j db"
    and "ids_ok (snd (rb_delete now i db))"
proof -
  have rules: "get_history j (db\<lparr>rb_rules := rs\<rparr>) = get_history j db" for rs db by (simp add: get_history_def)
  have log: "get_history j (log_change c db) =
      (if cl_rule_id c = j then [c\<lparr>cl_id := Suc (length (rb_log db))\<rparr>] else []) @ get_history j db" for c
    using history_log [OF assms, of j c "rb_rules db"] by simp
  show "find_row j (snd (rb_delete now i db)) = (if i = j then None else find_row j db)"
    by (auto simp: rb_delete_def find_row_def find_row_other split: option.split)
  show "get_history j (snd (rb_delete now i db)) =
      (case find_row i db of
         Some r \<Rightarrow> if i = j then [\<lparr>cl_id = Suc (length (rb_log db)), cl_rule_id = i, cl_version = rr_version r,
           cl_change_type = ''deleted'', cl_diff = None, cl_author = rr_author r, cl_changed_at = now,
           cl_yaml_snapshot = some_text (rr_yaml_content r)\<rparr>] else []
       | None \<Rightarrow> []) @ get_history j db"
    by (cases "find_row i db") (simp_all add: rb_delete_def rules log)
  show "ids_ok (snd (rb_delete now i db))"
    using assms by (simp add: rb_delete_def split: option.split)
qed

lemmas table_views = create_view update_view delete_view

lemma step_ids_ok: "ids_ok db \<Longrightarrow> ids_ok (rule_step who op db)"
  by (cases rule: rule_step_cases [of who op db]) (simp_all add: table_views)

interpretation rule_log: machine "rule_step who" "\<lambda>db. db = empty_rules" ids_ok
  by unfold_locales (simp_all add: ids_ok_empty step_ids_ok)

text \<open>The newest entry of a rule's history against its row.\<close>

definition newest :: "string \<Rightarrow> rule_db \<Rightarrow> change_row option" where
  "newest i db = (case get_history i db of [] \<Rightarrow> None | c # cs \<Rightarrow> Some c)"

definition log_current :: "string \<Rightarrow> rule_db \<Rightarrow> bool" where
  "log_current i db \<longleftrightarrow>
     (case (find_row i db, newest i db) of
        (None, None) \<Rightarrow> True
      | (None, Some c) \<Rightarrow> cl_change_type c = ''deleted''
      | (Some r, None) \<Rightarrow> False
      | (Some r, Some c) \<Rightarrow> cl_change_type c \<in> {''created'', ''updated''} \<and> cl_version c = rr_version r
          \<and> (case cl_yaml_snapshot c of None \<Rightarrow> [] | Some s \<Rightarrow> s) = rr_yaml_content r)"

lemma some_text_value: "(case some_text s of None \<Rightarrow> [] | Some x \<Rightarrow> x) = s"
  by (simp add: some_text_def)

lemma newest_append:
  "get_history j db' = (if b then [c] else []) @ get_history j db \<Longrightarrow> newest j db' = (if b then Some c else newest j db)"
  by (simp add: newest_def)

lemma log_current_same:
  "find_row j db' = find_row j db \<Longrightarrow> newest j db' = newest j db \<Longrightarrow> log_current j db' = log_current j db"
  by (simp add: log_current_def)

lemma new_row_simps [simp]:
  "rr_rule_id (new_row now i b) = i" "rr_version (new_row now i b) = 1" "rr_author (new_row now i b) = rc_author b"
  by (simp_all add: new_row_def)

lemma step_log_current:
  assumes "ids_ok db" and "log_current j db"
  shows "log_current j (rule_step who op db)"
proof (cases rule: rule_step_cases [of who op db])
  case (create now b i)
  let ?db = "snd (rb_create now (new_row now i b) db)"
  note v = create_view(1) [OF assms(1), of j now "new_row now i b"]
    newest_append [OF create_view(2) [OF assms(1), of j now "new_row now i b"]]
  show ?thesis
  proof (cases "find_row i db = None \<and> i = j")
    case True
    then have "i = j" "find_row j db = None" by auto
    with v show ?thesis unfolding create(2) log_current_def by (simp add: some_text_value)
  next
    case False
    then have "\<not> (find_row (rr_rule_id (new_row now i b)) db = None \<and> rr_rule_id (new_row now i b) = j)" by simp
    note same = v [unfolded if_not_P [OF this]]
    show ?thesis using assms(2) unfolding create(2) by (simp only: log_current_same [OF same])
  qed
next
  case (change now i kvs)
  let ?db = "snd (rb_update now i kvs db)"
  note v = update_view(1,2) [OF assms(1) change(1), of j now i]
  show ?thesis
  proof (cases "find_row i db")
    case None
    show ?thesis unfolding change(2) rb_update_miss [OF None] snd_conv by (rule assms(2))
  next
    case (Some r)
    show ?thesis
    proof (cases "i = j")
      case True
      have "find_row j ?db = Some (updated_row now kvs r)" using v(1) Some True by simp
      moreover have "newest j ?db = Some (update_entry now kvs r\<lparr>cl_id := Suc (length (rb_log db))\<rparr>)"
        unfolding newest_def v(2) Some using True by simp
      ultimately show ?thesis unfolding change(2) log_current_def by (simp add: update_entry_def)
    next
      case False
      have "find_row j ?db = find_row j db" using v(1) False by simp
      moreover have "newest j ?db = newest j db" unfolding newest_def v(2) Some using False by simp
      ultimately show ?thesis unfolding change(2) using assms(2) by (rule log_current_same [THEN iffD2])
    qed
  qed
next
  case (remove now i)
  let ?db = "snd (rb_delete now i db)"
  note v = delete_view(1,2) [OF assms(1), of j now i]
  show ?thesis
  proof (cases "find_row i db")
    case None
    then show ?thesis unfolding remove(2) rb_delete_def using assms(2) by simp
  next
    case (Some r)
    show ?thesis
    proof (cases "i = j")
      case True
      have "find_row j ?db = None" using v(1) True by simp
      moreover have "\<exists>c. newest j ?db = Some c \<and> cl_change_type c = ''deleted''"
        unfolding newest_def v(2) Some using True by simp
      ultimately show ?thesis unfolding remove(2) log_current_def by auto
    next
      case False
      have "find_row j ?db = find_row j db" using v(1) False by simp
      moreover have "newest j ?db = newest j db" unfolding newest_def v(2) Some using False by simp
      ultimately show ?thesis unfolding remove(2) using assms(2) by (rule log_current_same [THEN iffD2])
    qed
  qed
qed (use assms in simp)

interpretation rule_history: machine "rule_step who" "\<lambda>db. db = empty_rules" "\<lambda>db. ids_ok db \<and> log_current j db"
proof unfold_locales
  fix db :: rule_db
  assume "db = empty_rules"
  then show "ids_ok db \<and> log_current j db"
    by (simp add: ids_ok_empty) (simp add: empty_rules_def log_current_def newest_def find_row_def get_history_def sort_desc_def)
qed (simp add: step_ids_ok step_log_current)


fun removes :: "string \<Rightarrow> rule_op \<Rightarrow> bool" where
  "removes i (DeleteRule now j) \<longleftrightarrow> i = j"
| "removes i _ \<longleftrightarrow> False"

lemma origin_same:
  "find_row i db' = find_row i db \<Longrightarrow> get_history i db' = get_history i db \<Longrightarrow> origin i db' = origin i db"
  by (simp only: origin_def)

lemma step_origin:
  assumes "ids_ok db" and "find_row i db = Some r" and "\<not> removes i op"
  shows "origin i (rule_step who op db) = origin i db"
proof (cases rule: rule_step_cases [of who op db])
  case (create now b j)
  have "\<not> (find_row (rr_rule_id (new_row now j b)) db = None \<and> rr_rule_id (new_row now j b) = i)"
    using assms(2) by auto
  then show ?thesis
    unfolding create(2) by (intro origin_same) (simp_all only: create_view [OF assms(1)] if_not_P append_Nil if_False)
next
  case (change now j kvs)
  note v = update_view(1,2) [OF assms(1) change(1), of i now j]
  show ?thesis
  proof (cases "j = i")
    case True
    let ?e = "update_entry now kvs r\<lparr>cl_id := Suc (length (rb_log db))\<rparr>"
    have "cl_change_type ?e \<noteq> ''created''" by (simp add: update_entry_def)
    then have "rewind (?e # get_history i db) (updated_row now kvs r)
        = rewind (get_history i db) (undo ?e (updated_row now kvs r))"
      by (simp add: rewind_def)
    then show ?thesis
      unfolding change(2) origin_def v using True assms(2) \<open>cl_change_type ?e \<noteq> ''created''\<close>
      by (simp add: undo_update [OF change(1)] rewind_version split: option.split)
  next
    case False
    then show ?thesis
      unfolding change(2) by (intro origin_same) (simp_all add: v split: option.split)
  qed
next
  case (remove now j)
  then have "j \<noteq> i" using assms(3) by auto
  then show ?thesis
    unfolding remove(2) by (intro origin_same) (simp_all add: delete_view [OF assms(1)] split: option.split)
qed simp

text \<open>The rules that are not deleted keep the row they were created with, as their history tells it.\<close>

interpretation lineage: filtered_machine "rule_step who" "\<lambda>op. \<not> removes i op" "\<lambda>db. ids_ok db \<and> origin i db = Some r"
proof unfold_locales
  fix db op
  assume *: "ids_ok db \<and> origin i db = Some r" and "\<not> removes i op"
  moreover from * obtain r' where "find_row i db = Some r'" by (auto simp: origin_def split: option.splits)
  ultimately show "ids_ok (rule_step who op db) \<and> origin i (rule_step who op db) = Some r"
    by (simp add: step_ids_ok step_origin)
qed

section \<open>Properties\<close>

text \<open>C13: when requests over the managed rules run one after another, the change log never disagrees with the table: the
  newest entry of an existing rule says what made its current version and snapshots its current text, and a rule that is
  gone has either no history or a newest entry that says it was deleted. Overlapping updates break it
  (\<open>overlapping_updates_disagree\<close>).\<close>

theorem history_current: "log_current i (run (rule_step who) empty_rules ops)"
  using rule_history.reachable_inv [OF refl] by blast

text \<open>C14: whatever updates and other rules' creations and deletions follow, one after another, the change log leads back to
  the row as it was created: undoing the recorded differences newest first gives its columns, and its version is the one of
  the creation entry.\<close>

theorem created_rule_recoverable:
  assumes "create_rule now i b (Inr who) (Some (run (rule_step who) empty_rules ops)) = (Inr r, Some db)"
    and "list_all (\<lambda>op. \<not> removes i op) ops'"
  shows "origin i (run (rule_step who) db ops') = Some r"
proof -
  let ?db = "run (rule_step who) empty_rules ops"
  have ids: "ids_ok ?db" by (rule rule_log.reachable_inv) simp
  have c: "rb_create now (new_row now i b) ?db = (Inr r, db)"
    using assms(1) by (simp add: create_rule_def with_repo_def split: if_splits prod.splits)
  then have "find_row i ?db = None" "r = new_row now i b"
    by (simp_all add: rb_create_def split: if_splits)
  moreover have "snd (rb_create now (new_row now i b) ?db) = db" by (simp add: c)
  ultimately have "ids_ok db" "origin i db = Some r"
    using create_view(1,2) [OF ids, of _ now "new_row now i b"] create_view(3) [OF ids, of now "new_row now i b"] by (auto simp: origin_def rewind_def new_row_def)
  then show ?thesis using lineage.run_allowed assms(2) by blast
qed

definition sample_create :: rule_create where
  "sample_create = \<lparr>rc_name = ''ssh'', rc_rule_type = ''anomaly'', rc_severity = ''medium'', rc_priority = ''medium'',
     rc_config_json = ''{}'', rc_yaml_content = ''a'', rc_profile_id = None, rc_enabled = True, rc_author = Some ''ana''\<rparr>"

definition rename :: "string \<Rightarrow> rule_update" where
  "rename n = \<lparr>ru_name = Some n, ru_rule_type = None, ru_severity = Some ''high'', ru_priority = None, ru_config_json = None,
     ru_yaml_content = Some [], ru_profile_id = None, ru_enabled = Some False\<rparr>"

definition boss :: identity where
  "boss = ByKey ''root'' [''admin'']"

lemma created_rule_recoverable_witness:
  "origin ''r1'' (run (rule_step boss) (the (snd (create_rule 1 ''r1'' sample_create (Inr boss) (Some empty_rules))))
       [UpdateRule 2 ''r1'' (rename ''sshd''), AssignProfile 3 ''r1'' ''p1'', DeleteRule 4 ''r2''])
     = Some (new_row 1 ''r1'' sample_create)
   \<and> map cl_change_type (get_history ''r1'' (run (rule_step boss) (the (snd (create_rule 1 ''r1'' sample_create (Inr boss) (Some empty_rules))))
       [UpdateRule 2 ''r1'' (rename ''sshd'')])) = [''updated'', ''created'']"
proof (intro conjI)
  let ?db = "the (snd (create_rule 1 ''r1'' sample_create (Inr boss) (Some empty_rules)))"
  have ok: "create_ok sample_create"
    by (simp add: create_ok_def sample_create_def name_ok_def rule_types_def severities_def priorities_def)
  have "create_rule 1 ''r1'' sample_create (Inr boss) (Some (run (rule_step boss) empty_rules []))
      = (Inr (new_row 1 ''r1'' sample_create), Some ?db)"
    by (simp add: create_rule_def with_repo_def ok rb_create_def find_row_def empty_rules_def)
  then show "origin ''r1'' (run (rule_step boss) ?db
       [UpdateRule 2 ''r1'' (rename ''sshd''), AssignProfile 3 ''r1'' ''p1'', DeleteRule 4 ''r2''])
     = Some (new_row 1 ''r1'' sample_create)"
    by (rule created_rule_recoverable) simp
  have db: "?db = \<lparr>rb_rules = [new_row 1 ''r1'' sample_create], rb_log = [\<lparr>cl_id = 1, cl_rule_id = ''r1'', cl_version = 1,
      cl_change_type = ''created'', cl_diff = None, cl_author = Some ''ana'', cl_changed_at = 1,
      cl_yaml_snapshot = Some ''a''\<rparr>]\<rparr>"
    by (simp add: create_rule_def with_repo_def ok rb_create_def find_row_def empty_rules_def log_change_def some_text_def
        new_row_def) (simp add: sample_create_def)
  have "update_ok (rename ''sshd'')"
    by (simp add: update_ok_def rename_def name_ok_def allowed_in_def severities_def)
  moreover have "update_fields (rename ''sshd'') \<noteq> []" by (simp add: update_fields_def rename_def)
  ultimately have step: "rule_step boss (UpdateRule 2 ''r1'' (rename ''sshd'')) ?db
      = snd (rb_update 2 ''r1'' (update_fields (rename ''sshd'')) ?db)"
    by (simp add: update_db_rule_def with_repo_Some)
  have "find_row ''r1'' ?db = Some (new_row 1 ''r1'' sample_create)" unfolding db by (simp add: find_row_def)
  moreover have ids: "ids_ok ?db" unfolding db by (simp add: ids_ok_def)
  moreover have "get_history ''r1'' ?db = rb_log ?db" unfolding history_rev [OF ids] by (simp add: db)
  ultimately show "map cl_change_type (get_history ''r1'' (run (rule_step boss) ?db [UpdateRule 2 ''r1'' (rename ''sshd'')]))
      = [''updated'', ''created'']"
    unfolding run_simps step by (simp add: update_view(2) update_entry_def) (simp add: db)
qed

text \<open>Two updates that overlap: both read the row, the first commits a new text, the second a new name. Its change entry is
  made from the row it read, so the newest entry snapshots the old text while the table holds the new one; and both entries
  have version 2.\<close>

definition first_row :: rule_row where
  "first_row = new_row 1 ''r1'' sample_create"

definition overlapped :: rule_db where
  "overlapped = snd (rb_finish 3 [(''name'', JStr ''sshd'')] first_row
     (snd (rb_finish 2 [(''yaml_content'', JStr ''b'')] first_row (snd (rb_create 1 first_row empty_rules)))))"

lemmas overlap_eval = first_row_def new_row_def sample_create_def rb_create_def rb_finish_def rb_write_def find_row_def
  empty_rules_def log_change_def some_text_def bumps_version_def dict_has_def diff_of_def diff_to_def row_field_def
  set_columns_def text_or_def

lemma overlapping_updates_disagree:
  "map rr_yaml_content (rb_rules overlapped) = [''b''] \<and> map rr_name (rb_rules overlapped) = [''sshd'']
   \<and> map cl_yaml_snapshot (rb_log overlapped) = [Some ''a'', Some ''b'', Some ''a'']
   \<and> map cl_version (rb_log overlapped) = [1, 2, 2] \<and> \<not> log_current ''r1'' overlapped"
proof (intro conjI)
  have ids: "ids_ok overlapped"
    by (simp add: overlapped_def overlap_eval ids_ok_def Let_def)
  show "\<not> log_current ''r1'' overlapped"
    unfolding log_current_def newest_def history_rev [OF ids]
    by (simp add: overlapped_def overlap_eval Let_def)
qed (simp_all add: overlapped_def overlap_eval Let_def)

text \<open>The log is the same whoever makes a change: an entry's author is the author of the row, chosen when it was created.\<close>

lemma editor_not_recorded: "rule_step who op db = rule_step who' op db"
  by (cases op) (simp_all add: create_rule_def update_db_rule_def assign_rule_to_profile_def delete_db_rule_def with_repo_def)

text \<open>The version counts the changes of the name, the configuration and the text only.\<close>

lemma severity_keeps_version:
  assumes "find_row i db = Some r" and "\<not> bumps_version (update_fields b)"
  shows "map_option rr_version (fst (rb_update now i (update_fields b) db)) = Some (rr_version r)"
  using assms by (simp add: rb_update_hit) (simp add: bumps_version_def stamped_def)

text \<open>Every rule is answered as an anomaly rule.\<close>

lemma surveillance_shown_as_anomaly: "rule_def_to_schema r = Inr s \<Longrightarrow> sr_rule_type s = Anomaly"
  by (auto simp: rule_def_to_schema_def split: if_splits)

section \<open>The trial of a condition\<close>

text \<open>A condition that is judged valid compiles.\<close>

lemma valid_condition_compiles:
  "fst (validate_rule L mentions now n cond (Inr who) w) = Inr ValidCondition \<Longrightarrow> compile_rule_condition L cond \<noteq> None"
  by (auto simp: validate_rule_def eval_source_def explain_def split: option.splits sum.splits prod.splits if_splits)

text \<open>The made-up event lacks most fields of an event. A comparison of the parent's process number has a type, so it
  returns on every real event, and is still refused.\<close>

definition ppid_expr :: expr where
  "ppid_expr = ECompare (EAttr (EName ''event'') ''ppid'') [(CGt, EConst (PInt 1))]"

theorem typed_condition_refused:
  assumes "lb_parse L (preprocess_expr cond) = Some ppid_expr"
  shows "expr_ty ppid_expr = Some TBool
    \<and> fst (validate_rule L mentions now n cond (Inr who) w) \<noteq> Inr ValidCondition"
proof
  show "expr_ty ppid_expr = Some TBool"
    by (simp add: ppid_expr_def is_private_def field_ty_def event_schema_def ordered_tys_def)
  have ok: "compile_rule_condition L cond = Some ppid_expr"
    using assms by (simp add: compile_rule_condition_def) (simp add: ppid_expr_def is_private_def)
  have simple: "simple_expr ppid_expr" "data_dict dummy_event"
    by (simp_all add: ppid_expr_def dummy_event_def data_dict_def)
  have "eval_pure L dummy_event ppid_expr = Inl TypeError"
    by (simp add: ppid_expr_def eval_pure_def lookup_name_def get_attr_def event_attr_def is_private_def dummy_event_def)
  then have "eval_source L cnt (PStr cond) dummy_event w = (Inl TypeError, w)" for cnt
    by (simp add: eval_source_simple [OF simple(2,1) ok] cond_result_def)
  then show "fst (validate_rule L mentions now n cond (Inr who) w) \<noteq> Inr ValidCondition"
    by (simp add: validate_rule_def explain_def)
qed

lemma typed_condition_refused_witness:
  "fst (validate_rule (probe_lib\<lparr>lb_parse := (\<lambda>s. Some ppid_expr)\<rparr>) (\<lambda>e. (False, False)) 0 5 ''event.ppid > 1'' (Inr boss) [])
     \<noteq> Inr ValidCondition"
  using typed_condition_refused [of "probe_lib\<lparr>lb_parse := (\<lambda>s. Some ppid_expr)\<rparr>" "''event.ppid > 1''"] by simp

end
