(* ===== verification/Ml_Engine.thy ===== *)
theory Ml_Engine
  imports Machines Schema "HOL-Library.Word"
begin

text \<open>
  The learning engine: \<open>ml_engine/features.py\<close>, \<open>ml_engine/anomaly.py\<close> (without its files), \<open>ml_engine/classifier.py\<close> and
  \<open>ml_engine/engine.py\<close>. The estimators of River are parameters, of which the code uses a constructor, a score that changes
  nothing and an update; so are the logarithm, the seed of an entity (SHA-256) and the order in which Python iterates over a
  set. A model lives in its store only, so an update of the shared object is a write to the store.
\<close>

unbundle bit_operations_syntax

section \<open>Features\<close>

record feature_vector =
  fv_category_ord :: pyfloat
  fv_severity_ord :: pyfloat
  fv_uid_norm :: pyfloat
  fv_is_root :: pyfloat
  fv_hour_norm :: pyfloat
  fv_dst_port_norm :: pyfloat
  fv_bytes_sent_log :: pyfloat
  fv_bytes_recv_log :: pyfloat
  fv_result_ok :: pyfloat
  fv_proc_hash :: pyfloat

definition feature_category :: "(string \<times> pyfloat) list" where
  "feature_category = [(''file'', 0), (''process'', 1), (''network'', 2), (''user'', 3), (''device'', 4), (''log'', 5), (''audit'', 6)]"

definition feature_severity :: "(string \<times> pyfloat) list" where
  "feature_severity = [(''info'', 0), (''low'', 1), (''medium'', 2), (''high'', 3), (''critical'', 4)]"

definition clamp_unit :: "pyfloat \<Rightarrow> pyfloat" where
  "clamp_unit x = min (max x 0) 1"

text \<open>\<open>str.encode\<close> on the characters of the model.\<close>

definition utf8 :: "char \<Rightarrow> nat list" where
  "utf8 c = (let n = of_char c in if n < 128 then [n] else [192 + n div 64, 128 + n mod 64])"

definition fnv_step :: "nat \<Rightarrow> 32 word \<Rightarrow> 32 word" where
  "fnv_step ch h = (h XOR of_nat ch) * 16777619"

definition stable_hash_norm :: "string \<Rightarrow> pyfloat" where
  "stable_hash_norm s = of_nat (unat (fold fnv_step (concat (map utf8 s)) 2166136261)) / 4294967295"

text \<open>\<open>math.log1p\<close> of a count, \<open>None\<close> being zero.\<close>

definition log_count :: "(int \<Rightarrow> pyfloat) \<Rightarrow> int option \<Rightarrow> pyfloat result" where
  "log_count log1p n =
     (let x = (case n of None \<Rightarrow> 0 | Some v \<Rightarrow> v) in if x \<le> -1 then Inl ValueError else Inr (clamp_unit (log1p x / 40)))"

definition hour_of :: "int \<Rightarrow> int" where
  "hour_of ns = (ns div 3600000000000) mod 24"

definition extract_features :: "(int \<Rightarrow> pyfloat) \<Rightarrow> universal_event \<Rightarrow> feature_vector result" where
  "extract_features log1p e =
     bind_result (log_count log1p (ev_bytes_sent e)) (\<lambda>sent.
     bind_result (log_count log1p (ev_bytes_recv e)) (\<lambda>recv.
       Inr \<lparr>fv_category_ord = clamp_unit ((case map_of feature_category (ev_category e) of None \<Rightarrow> 0 | Some x \<Rightarrow> x) / 6),
         fv_severity_ord = clamp_unit ((case map_of feature_severity (ev_severity e) of None \<Rightarrow> 0 | Some x \<Rightarrow> x) / 4),
         fv_uid_norm = clamp_unit (of_int (ev_uid e) / 65535),
         fv_is_root = (if ev_uid e = 0 then 1 else 0),
         fv_hour_norm = clamp_unit (of_int (hour_of (ev_timestamp_ns e)) / 23),
         fv_dst_port_norm = clamp_unit (of_int (case ev_dst_port e of None \<Rightarrow> 0 | Some p \<Rightarrow> p) / 65535),
         fv_bytes_sent_log = sent, fv_bytes_recv_log = recv,
         fv_result_ok = (if ev_result e = ''success'' then 1 else 0),
         fv_proc_hash = stable_hash_norm (ev_process_name e)\<rparr>))"

section \<open>River\<close>

record ('h, 'l) river =
  rv_log1p :: "int \<Rightarrow> pyfloat"
  rv_seed :: "string \<Rightarrow> nat"
  rv_trees :: "nat \<Rightarrow> nat \<Rightarrow> int \<Rightarrow> nat \<Rightarrow> 'h"
  rv_score_one :: "'h \<Rightarrow> feature_vector \<Rightarrow> pyfloat"
  rv_learn_tree :: "feature_vector \<Rightarrow> 'h \<Rightarrow> 'h"
  rv_regression :: "pyfloat \<Rightarrow> 'l"
  rv_proba :: "'l \<Rightarrow> feature_vector \<Rightarrow> pyfloat"
  rv_learn_label :: "feature_vector \<Rightarrow> bool \<Rightarrow> 'l \<Rightarrow> 'l"
  rv_set_order :: "string list \<Rightarrow> string list"

section \<open>The store of the models\<close>

definition lru_get :: "string \<Rightarrow> (string, 'v) pydict \<Rightarrow> 'v option \<times> (string, 'v) pydict" where
  "lru_get k d = (case map_of d k of None \<Rightarrow> (None, d) | Some v \<Rightarrow> (Some v, dict_move_to_end k d))"

text \<open>\<open>popitem\<close> on an empty dictionary, that is with a capacity of zero, raises.\<close>

definition lru_put :: "nat \<Rightarrow> string \<Rightarrow> 'v \<Rightarrow> (string, 'v) pydict \<Rightarrow> unit result \<times> (string, 'v) pydict" where
  "lru_put cap k v d =
     (if dict_has d k then (Inr (), dict_put k v (dict_move_to_end k d))
      else if cap \<le> length d then (if d = [] then (Inl exn.KeyError, d) else (Inr (), dict_put k v (dict_popfirst d)))
      else (Inr (), dict_put k v d))"

section \<open>The anomaly detector\<close>

record 'h model_state =
  ms_model :: 'h
  ms_count :: nat
  ms_decaying_max :: pyfloat

record 'h detector =
  dt_n_trees :: nat
  dt_height :: nat
  dt_window_size :: int
  dt_window_by_cat :: "(string, int) pydict"
  dt_min_samples :: nat
  dt_max_models :: nat
  dt_store :: "(string, 'h model_state) pydict"

definition new_detector :: "nat \<Rightarrow> nat \<Rightarrow> int \<Rightarrow> (string, int) pydict \<Rightarrow> nat \<Rightarrow> nat \<Rightarrow> 'h detector" where
  "new_detector trees height window by_cat samples cap =
     \<lparr>dt_n_trees = trees, dt_height = height, dt_window_size = window, dt_window_by_cat = by_cat, dt_min_samples = samples,
      dt_max_models = cap, dt_store = []\<rparr>"

definition default_detector :: "'h detector" where
  "default_detector = new_detector 10 8 250 [] 50 10000"

definition window_for :: "'h detector \<Rightarrow> string \<Rightarrow> int" where
  "window_for d cat = (case map_of (dt_window_by_cat d) cat of None \<Rightarrow> dt_window_size d | Some w \<Rightarrow> w)"

definition entity_key :: "universal_event \<Rightarrow> string" where
  "entity_key e = ev_hostname e @ ''::'' @ ev_category e"

definition get_or_create :: "('h, 'l) river \<Rightarrow> string \<Rightarrow> string \<Rightarrow> 'h detector \<Rightarrow> 'h model_state result \<times> 'h detector" where
  "get_or_create R key cat d =
     (case lru_get key (dt_store d) of
        (Some s, st) \<Rightarrow> (Inr s, d\<lparr>dt_store := st\<rparr>)
      | (None, st) \<Rightarrow>
          (let s = \<lparr>ms_model = rv_trees R (dt_n_trees d) (dt_height d) (window_for d cat) (rv_seed R key), ms_count = 0,
                    ms_decaying_max = 0\<rparr>
           in case lru_put (dt_max_models d) key s st of
                (Inl e, st') \<Rightarrow> (Inl e, d\<lparr>dt_store := st'\<rparr>)
              | (Inr _, st') \<Rightarrow> (Inr s, d\<lparr>dt_store := st'\<rparr>)))"

definition normalised :: "pyfloat \<Rightarrow> pyfloat \<Rightarrow> pyfloat" where
  "normalised raw m = (if m = 0 then 0 else min (raw / m) 1 * 100)"

text \<open>One event: the state after it, and the score.\<close>

definition observe :: "('h, 'l) river \<Rightarrow> nat \<Rightarrow> feature_vector \<Rightarrow> 'h model_state \<Rightarrow> pyfloat \<times> 'h model_state" where
  "observe R samples x s =
     (let raw = rv_score_one R (ms_model s) x;
          s1 = s\<lparr>ms_model := rv_learn_tree R x (ms_model s), ms_count := Suc (ms_count s)\<rparr>
      in if ms_count s1 < samples then (0, s1)
         else let m = max (ms_decaying_max s * (1 - 1/1000)) raw in (normalised raw m, s1\<lparr>ms_decaying_max := m\<rparr>))"

definition learn_and_score :: "('h, 'l) river \<Rightarrow> universal_event \<Rightarrow> 'h detector \<Rightarrow> pyfloat result \<times> 'h detector" where
  "learn_and_score R e d =
     (case get_or_create R (entity_key e) (ev_category e) d of
        (Inl x, d1) \<Rightarrow> (Inl x, d1)
      | (Inr s, d1) \<Rightarrow>
          (case extract_features (rv_log1p R) e of
             Inl x \<Rightarrow> (Inl x, d1)
           | Inr fv \<Rightarrow>
               (case observe R (dt_min_samples d) fv s of
                  (score, s') \<Rightarrow> (Inr score, d1\<lparr>dt_store := dict_put (entity_key e) s' (dt_store d1)\<rparr>))))"

definition score_only :: "('h, 'l) river \<Rightarrow> string \<Rightarrow> feature_vector \<Rightarrow> 'h detector \<Rightarrow> pyfloat \<times> 'h detector" where
  "score_only R key fv d =
     (case lru_get key (dt_store d) of
        (None, st) \<Rightarrow> (0, d\<lparr>dt_store := st\<rparr>)
      | (Some s, st) \<Rightarrow>
          (if ms_count s < dt_min_samples d then 0 else normalised (rv_score_one R (ms_model s) fv) (ms_decaying_max s),
           d\<lparr>dt_store := st\<rparr>))"

section \<open>The classifier\<close>

record 'l classifier =
  mc_lr :: pyfloat
  mc_models :: "(string, 'l) pydict"

definition new_classifier :: "pyfloat \<Rightarrow> 'l classifier" where
  "new_classifier lr = \<lparr>mc_lr = lr, mc_models = []\<rparr>"

definition max_technique_models :: nat where
  "max_technique_models = 500"

definition ascii_digit :: "char \<Rightarrow> bool" where
  "ascii_digit c \<longleftrightarrow> c \<in> set ''0123456789''"

text \<open>\<open>$\<close> also matches before a final line feed.\<close>

definition technique_form :: "string \<Rightarrow> bool" where
  "technique_form s \<longleftrightarrow>
     take 1 s = ''T'' \<and> length s \<in> {5, 9} \<and> list_all ascii_digit (take 4 (drop 1 s))
     \<and> (length s = 9 \<longrightarrow> s ! 5 = CHR ''.'' \<and> list_all ascii_digit (drop 6 s))"

definition is_valid_technique :: "string \<Rightarrow> bool" where
  "is_valid_technique t \<longleftrightarrow>
     (technique_form t \<or> (t \<noteq> [] \<and> last t = CHR 0x0A \<and> technique_form (butlast t))) \<and> length t \<le> 10"

definition technique_model :: "('h, 'l) river \<Rightarrow> string \<Rightarrow> 'l classifier \<Rightarrow> 'l classifier" where
  "technique_model R t c =
     (if dict_has (mc_models c) t then c\<lparr>mc_models := dict_move_to_end t (mc_models c)\<rparr>
      else c\<lparr>mc_models := dict_put t (rv_regression R (mc_lr c))
             (if max_technique_models \<le> length (mc_models c) then dict_popfirst (mc_models c) else mc_models c)\<rparr>)"

definition update_model :: "(string, 'l) pydict \<Rightarrow> string \<Rightarrow> ('l \<Rightarrow> 'l) \<Rightarrow> (string, 'l) pydict" where
  "update_model d t f = map (\<lambda>(k, m). (k, if k = t then f m else m)) d"

definition learn_positive :: "('h, 'l) river \<Rightarrow> feature_vector \<Rightarrow> string \<Rightarrow> 'l classifier \<Rightarrow> 'l classifier" where
  "learn_positive R fv t c =
     (let c1 = technique_model R t c in c1\<lparr>mc_models := update_model (mc_models c1) t (rv_learn_label R fv True)\<rparr>)"

definition clf_learn :: "('h, 'l) river \<Rightarrow> universal_event \<Rightarrow> string list \<Rightarrow> 'l classifier \<Rightarrow> unit result \<times> 'l classifier" where
  "clf_learn R e ts0 c =
     (let ts = filter is_valid_technique ts0
      in if ts = [] then (Inr (), c)
         else case extract_features (rv_log1p R) e of
                Inl x \<Rightarrow> (Inl x, c)
              | Inr fv \<Rightarrow>
                  (let c1 = fold (learn_positive R fv) (rv_set_order R (remdups ts)) c
                   in (Inr (), c1\<lparr>mc_models := map (\<lambda>(t, m). (t, if t \<in> set ts then m else rv_learn_label R fv False m))
                         (mc_models c1)\<rparr>)))"

definition max_proba :: "('h, 'l) river \<Rightarrow> feature_vector \<Rightarrow> (string, 'l) pydict \<Rightarrow> pyfloat" where
  "max_proba R fv ms = fold (\<lambda>(t, m) best. let p = rv_proba R m fv in if best < p then p else best) ms 0"

definition clf_score :: "('h, 'l) river \<Rightarrow> universal_event \<Rightarrow> 'l classifier \<Rightarrow> pyfloat result" where
  "clf_score R e c =
     (if mc_models c = [] then Inr 0
      else bind_result (extract_features (rv_log1p R) e) (\<lambda>fv. Inr (max_proba R fv (mc_models c) * 100)))"

text \<open>False positives: a technique listed twice is updated twice; without techniques, all are updated.\<close>

definition clf_feedback :: "('h, 'l) river \<Rightarrow> universal_event \<Rightarrow> string list option \<Rightarrow> 'l classifier \<Rightarrow> unit result \<times> 'l classifier" where
  "clf_feedback R e ts c =
     (if mc_models c = [] then (Inr (), c)
      else case extract_features (rv_log1p R) e of
             Inl x \<Rightarrow> (Inl x, c)
           | Inr fv \<Rightarrow>
               (let targets = (case ts of Some (x # xs) \<Rightarrow> filter (\<lambda>t. is_valid_technique t \<and> dict_has (mc_models c) t) (x # xs)
                               | _ \<Rightarrow> map fst (mc_models c))
                in (Inr (), c\<lparr>mc_models := fold (\<lambda>t d. update_model d t (rv_learn_label R fv False)) targets (mc_models c)\<rparr>)))"

section \<open>The engine\<close>

record ('h, 'l) ml_engine =
  me_key :: string
  me_anomaly :: "'h detector"
  me_classifier :: "'l classifier"

definition hex_digit :: "char \<Rightarrow> nat option" where
  "hex_digit c =
     (let n = of_char c :: nat
      in if 48 \<le> n \<and> n \<le> 57 then Some (n - 48) else if 65 \<le> n \<and> n \<le> 70 then Some (n - 55)
         else if 97 \<le> n \<and> n \<le> 102 then Some (n - 87) else None)"

definition ascii_space :: "char \<Rightarrow> bool" where
  "ascii_space c \<longleftrightarrow> (of_char c :: nat) \<in> {9, 10, 11, 12, 13, 32}"

text \<open>\<open>bytes.fromhex\<close>: white space may stand between the bytes.\<close>

fun from_hex :: "string \<Rightarrow> string option" where
  "from_hex [] = Some []"
| "from_hex (a # s) =
     (if ascii_space a then from_hex s
      else case s of
             [] \<Rightarrow> None
           | b # s' \<Rightarrow>
               (case (hex_digit a, hex_digit b) of
                  (Some x, Some y) \<Rightarrow> map_option (\<lambda>bs. char_of (16 * x + y) # bs) (from_hex s')
                | _ \<Rightarrow> None))"

definition engine_key :: "string option \<Rightarrow> string option \<Rightarrow> string result" where
  "engine_key key env =
     (case key of
        Some k \<Rightarrow> Inr k
      | None \<Rightarrow>
          (case env of
             None \<Rightarrow> Inl RuntimeError
           | Some raw \<Rightarrow> if raw = [] then Inl RuntimeError
                         else (case from_hex raw of None \<Rightarrow> Inl RuntimeError | Some k \<Rightarrow> Inr k)))"

definition new_engine :: "'h detector option \<Rightarrow> 'l classifier option \<Rightarrow> string option \<Rightarrow> string option \<Rightarrow> ('h, 'l) ml_engine result" where
  "new_engine det clf key env =
     bind_result (engine_key key env) (\<lambda>k.
       Inr \<lparr>me_key = k, me_anomaly = (case det of None \<Rightarrow> default_detector | Some d \<Rightarrow> d),
            me_classifier = (case clf of None \<Rightarrow> new_classifier (1/100) | Some c \<Rightarrow> c)\<rparr>)"

definition combine :: "pyfloat \<Rightarrow> pyfloat \<Rightarrow> pyfloat" where
  "combine anomaly clf = 7/10 * anomaly + 3/10 * clf"

definition score_event :: "('h, 'l) river \<Rightarrow> universal_event \<Rightarrow> ('h, 'l) ml_engine \<Rightarrow> pyfloat result \<times> ('h, 'l) ml_engine" where
  "score_event R e g =
     (case learn_and_score R e (me_anomaly g) of
        (Inl x, d) \<Rightarrow> (Inl x, g\<lparr>me_anomaly := d\<rparr>)
      | (Inr a, d) \<Rightarrow> (bind_result (clf_score R e (me_classifier g)) (\<lambda>c. Inr (combine a c)), g\<lparr>me_anomaly := d\<rparr>))"

definition score_event_readonly :: "('h, 'l) river \<Rightarrow> universal_event \<Rightarrow> ('h, 'l) ml_engine \<Rightarrow> pyfloat result \<times> ('h, 'l) ml_engine" where
  "score_event_readonly R e g =
     (case extract_features (rv_log1p R) e of
        Inl x \<Rightarrow> (Inl x, g)
      | Inr fv \<Rightarrow>
          (case score_only R (entity_key e) fv (me_anomaly g) of
             (a, d) \<Rightarrow> (bind_result (clf_score R e (me_classifier g)) (\<lambda>c. Inr (combine a c)), g\<lparr>me_anomaly := d\<rparr>)))"

definition learn_from_alert :: "('h, 'l) river \<Rightarrow> universal_event \<Rightarrow> string list \<Rightarrow> ('h, 'l) ml_engine \<Rightarrow> unit result \<times> ('h, 'l) ml_engine" where
  "learn_from_alert R e ts g = (case clf_learn R e ts (me_classifier g) of (r, c) \<Rightarrow> (r, g\<lparr>me_classifier := c\<rparr>))"

definition negative_feedback :: "('h, 'l) river \<Rightarrow> universal_event \<Rightarrow> string list option \<Rightarrow> ('h, 'l) ml_engine
    \<Rightarrow> unit result \<times> ('h, 'l) ml_engine" where
  "negative_feedback R e ts g = (case clf_feedback R e ts (me_classifier g) of (r, c) \<Rightarrow> (r, g\<lparr>me_classifier := c\<rparr>))"


section \<open>Features lie in the unit interval\<close>

definition feature_list :: "feature_vector \<Rightarrow> pyfloat list" where
  "feature_list fv = [fv_category_ord fv, fv_severity_ord fv, fv_uid_norm fv, fv_is_root fv, fv_hour_norm fv, fv_dst_port_norm fv,
     fv_bytes_sent_log fv, fv_bytes_recv_log fv, fv_result_ok fv, fv_proc_hash fv]"

definition in_unit :: "pyfloat \<Rightarrow> bool" where
  "in_unit x \<longleftrightarrow> 0 \<le> x \<and> x \<le> 1"

lemma in_unit_simps [simp]: "in_unit (clamp_unit x)" "in_unit 0" "in_unit 1"
  by (auto simp: in_unit_def clamp_unit_def)

lemma in_unit_hash [simp]: "in_unit (stable_hash_norm s)"
proof -
  have "in_unit (of_nat n / 4294967295)" if "n \<le> 4294967295" for n
    using that of_nat_mono [OF that, where 'a = rat] by (simp add: in_unit_def)
  moreover have "unat (h :: 32 word) \<le> 4294967295" for h
    using unsigned_less [of h, where 'a = nat] by simp
  ultimately show ?thesis by (simp only: stable_hash_norm_def)
qed

lemma log_count_cases:
  "log_count f n = Inr x \<Longrightarrow> in_unit x"
  "(case n of None \<Rightarrow> False | Some v \<Rightarrow> v < 0) \<Longrightarrow> log_count f n = Inl ValueError"
  "(case n of None \<Rightarrow> True | Some v \<Rightarrow> 0 \<le> v) \<Longrightarrow> \<exists>x. log_count f n = Inr x"
  by (auto simp: log_count_def Let_def split: if_splits option.splits)

text \<open>Whatever the fields of the event, its features are in the unit interval, or the extraction raises; it raises exactly
  when a byte count is negative.\<close>

theorem features_bounded:
  "case extract_features log1p e of
     Inl x \<Rightarrow> x = ValueError \<and> (\<exists>v < 0. ev_bytes_sent e = Some v \<or> ev_bytes_recv e = Some v)
   | Inr fv \<Rightarrow> list_all in_unit (feature_list fv)"
proof (cases "log_count log1p (ev_bytes_sent e)")
  case (Inl x)
  then have "x = ValueError \<and> (\<exists>v < 0. ev_bytes_sent e = Some v)"
    by (auto simp: log_count_def Let_def split: option.splits if_splits)
  with Inl show ?thesis by (auto simp: extract_features_def)
next
  case sent: (Inr a)
  show ?thesis
  proof (cases "log_count log1p (ev_bytes_recv e)")
    case (Inl x)
    then have "x = ValueError \<and> (\<exists>v < 0. ev_bytes_recv e = Some v)"
      by (auto simp: log_count_def Let_def split: option.splits if_splits)
    with sent Inl show ?thesis by (auto simp: extract_features_def)
  next
    case (Inr b)
    have "in_unit a" "in_unit b" using sent Inr by (simp_all add: log_count_cases(1))
    with sent Inr show ?thesis by (simp add: extract_features_def feature_list_def)
  qed
qed

lemma extract_negative: "ev_bytes_sent e = Some v \<Longrightarrow> v < 0 \<Longrightarrow> extract_features log1p e = Inl ValueError"
  by (simp add: extract_features_def log_count_cases(2))

section \<open>The store is bounded\<close>

lemma lru_get_store:
  "wf_dict d \<Longrightarrow> wf_dict (snd (lru_get k d)) \<and> length (snd (lru_get k d)) = length d"
  "map_of (snd (lru_get k d)) = map_of d"
  "fst (lru_get k d) = map_of d k"
  by (auto simp: lru_get_def length_move_to_end split: option.split)

lemma map_of_evicted: "wf_dict d \<Longrightarrow> map_of (dict_popfirst d) k = (if d \<noteq> [] \<and> k = fst (hd d) then None else map_of d k)"
  by (cases d) (auto simp: dict_popfirst_def wf_dict_def map_of_eq_None_iff)

lemma lru_put_store:
  assumes "wf_dict d" and "length d \<le> cap"
  shows "wf_dict (snd (lru_put cap k v d))" "length (snd (lru_put cap k v d)) \<le> cap"
    and "fst (lru_put cap k v d) = Inr () \<Longrightarrow> map_of (snd (lru_put cap k v d)) k = Some v"
    and "fst (lru_put cap k v d) \<noteq> Inr () \<Longrightarrow> snd (lru_put cap k v d) = d"
    and "k' \<noteq> k \<Longrightarrow> map_of (snd (lru_put cap k v d)) k' \<in> {None, map_of d k'}"
proof -
  have "length (dict_popfirst d) = length d - 1" by (simp add: dict_popfirst_def)
  moreover have "dict_has (dict_popfirst d) k \<Longrightarrow> dict_has d k"
    by (cases d) (auto simp: dict_has_def dict_popfirst_def)
  ultimately show "length (snd (lru_put cap k v d)) \<le> cap"
    using assms by (cases d) (auto simp: lru_put_def length_dict_put length_move_to_end dict_has_iff)
  show "wf_dict (snd (lru_put cap k v d))" using assms by (simp add: lru_put_def)
  show "fst (lru_put cap k v d) = Inr () \<Longrightarrow> map_of (snd (lru_put cap k v d)) k = Some v"
    by (auto simp: lru_put_def split: if_splits)
  show "fst (lru_put cap k v d) \<noteq> Inr () \<Longrightarrow> snd (lru_put cap k v d) = d"
    by (auto simp: lru_put_def split: if_splits)
  show "k' \<noteq> k \<Longrightarrow> map_of (snd (lru_put cap k v d)) k' \<in> {None, map_of d k'}"
    using assms by (auto simp: lru_put_def map_of_evicted)
qed

definition detector_ok :: "'h detector \<Rightarrow> bool" where
  "detector_ok d \<longleftrightarrow> wf_dict (dt_store d) \<and> length (dt_store d) \<le> dt_max_models d
     \<and> list_all (\<lambda>(k, s). 0 \<le> ms_decaying_max s) (dt_store d)"

lemma detector_ok_iff:
  "detector_ok d \<longleftrightarrow> wf_dict (dt_store d) \<and> length (dt_store d) \<le> dt_max_models d
     \<and> (\<forall>k s. map_of (dt_store d) k = Some s \<longrightarrow> 0 \<le> ms_decaying_max s)"
  by (auto simp: detector_ok_def list_all_iff wf_dict_def dest: map_of_SomeD)

lemma get_or_create_ok:
  assumes "detector_ok d" and "get_or_create R key cat d = (r, d')"
  shows "detector_ok d'" "dt_max_models d' = dt_max_models d" "dt_min_samples d' = dt_min_samples d"
    and "r = Inr s \<Longrightarrow> map_of (dt_store d') key = Some s"
    and "k \<noteq> key \<Longrightarrow> map_of (dt_store d') k \<in> {None, map_of (dt_store d) k}"
    and "r = Inl x \<Longrightarrow> map_of (dt_store d') = map_of (dt_store d)"
proof -
  let ?st = "snd (lru_get key (dt_store d))"
  have st: "wf_dict ?st" "length ?st = length (dt_store d)" "map_of ?st = map_of (dt_store d)"
    using assms(1) lru_get_store [where d = "dt_store d" and k = key] by (simp_all add: detector_ok_iff)
  have *: "detector_ok d' \<and> dt_max_models d' = dt_max_models d \<and> dt_min_samples d' = dt_min_samples d
    \<and> (\<forall>s. r = Inr s \<longrightarrow> map_of (dt_store d') key = Some s) \<and> (k \<noteq> key \<longrightarrow> map_of (dt_store d') k \<in> {None, map_of (dt_store d) k})
    \<and> (\<forall>x. r = Inl x \<longrightarrow> map_of (dt_store d') = map_of (dt_store d))"
  proof (cases "map_of (dt_store d) key")
    case (Some s)
    then obtain st where got: "lru_get key (dt_store d) = (Some s, st)" by (simp add: lru_get_def)
    then have "r = Inr s" "d' = d\<lparr>dt_store := st\<rparr>" using assms(2) by (simp_all add: get_or_create_def)
    with st Some assms(1) show ?thesis by (simp add: got detector_ok_iff)
  next
    case None
    let ?s = "\<lparr>ms_model = rv_trees R (dt_n_trees d) (dt_height d) (window_for d cat) (rv_seed R key), ms_count = 0,
                    ms_decaying_max = 0\<rparr> :: 'a model_state"
    let ?p = "lru_put (dt_max_models d) key ?s (dt_store d)"
    have p: "lru_get key (dt_store d) = (None, dt_store d)" using None by (simp add: lru_get_def)
    have ok: "wf_dict (dt_store d)" "length (dt_store d) \<le> dt_max_models d" using assms(1) by (simp_all add: detector_ok_iff)
    note put = lru_put_store [OF ok, where k = key and v = ?s]
    show ?thesis
    proof (cases "fst ?p")
      case (Inl x)
      then have "r = Inl x" "d' = d\<lparr>dt_store := snd ?p\<rparr>"
        using assms(2) by (auto simp: get_or_create_def p Let_def split: prod.splits)
      with put(4) Inl assms(1) show ?thesis by simp
    next
      case (Inr u)
      then have r: "r = Inr ?s" "d' = d\<lparr>dt_store := snd ?p\<rparr>"
        using assms(2) by (auto simp: get_or_create_def p Let_def split: prod.splits)
      have key: "map_of (snd ?p) key = Some ?s" using put(3) Inr by simp
      have "0 \<le> ms_decaying_max s" if "map_of (snd ?p) k = Some s" for k s
        using that key put(5) [where k' = k] assms(1) by (cases "k = key") (auto simp: detector_ok_iff)
      with r put(1,2,5) key show ?thesis by (simp add: detector_ok_iff)
    qed
  qed
  then show "detector_ok d'" "dt_max_models d' = dt_max_models d" "dt_min_samples d' = dt_min_samples d"
    and "r = Inr s \<Longrightarrow> map_of (dt_store d') key = Some s"
    and "k \<noteq> key \<Longrightarrow> map_of (dt_store d') k \<in> {None, map_of (dt_store d) k}"
    and "r = Inl x \<Longrightarrow> map_of (dt_store d') = map_of (dt_store d)" by blast+
qed


section \<open>Scoring keeps the bounds\<close>

text \<open>What River documents of its scores: an anomaly score and a probability are in the unit interval.\<close>

definition river_scores :: "('h, 'l) river \<Rightarrow> bool" where
  "river_scores R \<longleftrightarrow> (\<forall>h x. in_unit (rv_score_one R h x)) \<and> (\<forall>l x. in_unit (rv_proba R l x))"

definition percent :: "pyfloat \<Rightarrow> bool" where
  "percent x \<longleftrightarrow> 0 \<le> x \<and> x \<le> 100"

lemma normalised_percent: "0 \<le> raw \<Longrightarrow> 0 \<le> m \<Longrightarrow> percent (normalised raw m)"
  by (simp add: normalised_def percent_def min_def)

lemma observe_ok:
  assumes "0 \<le> ms_decaying_max s" and "observe R n fv s = (x, s')"
  shows "0 \<le> ms_decaying_max s'" "river_scores R \<Longrightarrow> percent x"
    and "ms_count s' = Suc (ms_count s)" "ms_model s' = rv_learn_tree R fv (ms_model s)"
    and "Suc (ms_count s) < n \<Longrightarrow> x = 0"
  using assms
  by (auto simp: observe_def Let_def percent_def le_max_iff_disj split: if_splits
      intro!: normalised_percent [unfolded percent_def, THEN conjunct1] normalised_percent [unfolded percent_def, THEN conjunct2]
      simp: river_scores_def in_unit_def)

lemma learn_and_score_ok:
  assumes "detector_ok d" and "learn_and_score R e d = (r, d')"
  shows "detector_ok d'" "dt_max_models d' = dt_max_models d"
    and "river_scores R \<Longrightarrow> r = Inr x \<Longrightarrow> percent x"
    and "k \<noteq> entity_key e \<Longrightarrow> map_of (dt_store d') k \<in> {None, map_of (dt_store d) k}"
proof -
  obtain g d1 where g: "get_or_create R (entity_key e) (ev_category e) d = (g, d1)" by force
  note ok = get_or_create_ok [OF assms(1) g]
  have *: "detector_ok d' \<and> dt_max_models d' = dt_max_models d \<and> (river_scores R \<longrightarrow> (\<forall>x. r = Inr x \<longrightarrow> percent x))
    \<and> (\<forall>k. k \<noteq> entity_key e \<longrightarrow> map_of (dt_store d') k \<in> {None, map_of (dt_store d) k})"
  proof (cases "\<exists>s fv. g = Inr s \<and> extract_features (rv_log1p R) e = Inr fv")
    case False
    then have "d' = d1" "\<exists>y. r = Inl y"
      using assms(2) by (auto simp: learn_and_score_def g split: sum.splits)
    with ok show ?thesis by auto
  next
    case True
    then obtain s fv where s: "g = Inr s" "extract_features (rv_log1p R) e = Inr fv" by auto
    obtain y s' where o: "observe R (dt_min_samples d) fv s = (y, s')" by force
    have d': "r = Inr y" "d' = d1\<lparr>dt_store := dict_put (entity_key e) s' (dt_store d1)\<rparr>"
      using assms(2) by (simp_all add: learn_and_score_def g s o)
    have has: "map_of (dt_store d1) (entity_key e) = Some s" using ok(4) s by simp
    with ok(1) have "0 \<le> ms_decaying_max s" by (simp add: detector_ok_iff)
    note obs = observe_ok [OF this o]
    have "dict_has (dt_store d1) (entity_key e)" using has by (simp add: dict_has_iff)
    with ok(1) obs(1) have "detector_ok d'" by (simp add: d' detector_ok_iff length_dict_put)
    with ok obs(2) d' show ?thesis by simp
  qed
  then show "detector_ok d'" "dt_max_models d' = dt_max_models d"
    and "river_scores R \<Longrightarrow> r = Inr x \<Longrightarrow> percent x"
    and "k \<noteq> entity_key e \<Longrightarrow> map_of (dt_store d') k \<in> {None, map_of (dt_store d) k}" by blast+
qed

lemma score_only_ok:
  assumes "detector_ok d" and "score_only R key fv d = (x, d')"
  shows "detector_ok d'" "map_of (dt_store d') = map_of (dt_store d)" "dt_max_models d' = dt_max_models d"
    and "river_scores R \<Longrightarrow> percent x"
proof -
  have st: "wf_dict (snd (lru_get key (dt_store d)))" "length (snd (lru_get key (dt_store d))) = length (dt_store d)"
      "map_of (snd (lru_get key (dt_store d))) = map_of (dt_store d)"
    using assms(1) lru_get_store [where d = "dt_store d" and k = key] by (simp_all add: detector_ok_iff)
  have d': "d' = d\<lparr>dt_store := snd (lru_get key (dt_store d))\<rparr>"
    using assms(2) by (auto simp: score_only_def split: prod.splits option.splits)
  then show "detector_ok d'" "map_of (dt_store d') = map_of (dt_store d)" "dt_max_models d' = dt_max_models d"
    using st assms(1) by (simp_all add: detector_ok_iff)
  assume R: "river_scores R"
  show "percent x"
  proof (cases "map_of (dt_store d) key")
    case None
    then show ?thesis using assms(2) by (simp add: score_only_def lru_get_def percent_def)
  next
    case (Some s)
    then have "x = (if ms_count s < dt_min_samples d then 0 else normalised (rv_score_one R (ms_model s) fv) (ms_decaying_max s))"
      using assms(2) by (simp add: score_only_def lru_get_def)
    moreover have "0 \<le> ms_decaying_max s" using assms(1) Some by (simp add: detector_ok_iff)
    moreover have "0 \<le> rv_score_one R (ms_model s) fv" using R by (simp add: river_scores_def in_unit_def)
    ultimately show ?thesis using normalised_percent by (simp add: percent_def)
  qed
qed

lemma max_proba_unit: "river_scores R \<Longrightarrow> in_unit (max_proba R fv ms)"
proof -
  assume R: "river_scores R"
  have "in_unit b \<Longrightarrow> in_unit (fold (\<lambda>(t, m) best. let p = rv_proba R m fv in if best < p then p else best) ms b)" for b
    using R by (induction ms arbitrary: b) (auto simp: Let_def river_scores_def)
  then show ?thesis by (simp add: max_proba_def)
qed

lemma clf_score_percent: "river_scores R \<Longrightarrow> clf_score R e c = Inr x \<Longrightarrow> percent x"
  using max_proba_unit [of R] by (auto simp: clf_score_def percent_def in_unit_def split: if_splits)

lemma combine_percent: "percent a \<Longrightarrow> percent c \<Longrightarrow> percent (combine a c)"
  by (auto simp: percent_def combine_def)

section \<open>The classifier is bounded\<close>

definition classifier_ok :: "'l classifier \<Rightarrow> bool" where
  "classifier_ok c \<longleftrightarrow> wf_dict (mc_models c) \<and> length (mc_models c) \<le> max_technique_models"

lemma wf_map_values [simp]: "wf_dict (map (\<lambda>(k, m). (k, f k m)) d) = wf_dict d"
proof -
  have "map fst (map (\<lambda>(k, m). (k, f k m)) d) = map fst d" by (induction d) auto
  then show ?thesis by (simp only: wf_dict_def)
qed

lemma update_model_simps [simp]: "wf_dict (update_model d t f) = wf_dict d" "length (update_model d t f) = length d"
  by (simp_all add: update_model_def)

lemma technique_model_ok: "classifier_ok c \<Longrightarrow> classifier_ok (technique_model R t c)"
proof -
  assume c: "classifier_ok c"
  have "length (dict_popfirst (mc_models c)) = length (mc_models c) - 1" by (simp add: dict_popfirst_def)
  moreover have "0 < max_technique_models" by (simp add: max_technique_models_def)
  ultimately show ?thesis
    using c by (auto simp: technique_model_def classifier_ok_def length_move_to_end length_dict_put)
qed

lemma learn_positive_ok: "classifier_ok c \<Longrightarrow> classifier_ok (learn_positive R fv t c)"
  using technique_model_ok [of c R t] by (simp add: learn_positive_def Let_def classifier_ok_def)

lemma clf_learn_ok: "classifier_ok c \<Longrightarrow> classifier_ok (snd (clf_learn R e ts c))"
proof -
  assume c: "classifier_ok c"
  have "classifier_ok (fold (learn_positive R fv) xs c)" for fv xs
    using c by (induction xs arbitrary: c) (simp_all add: learn_positive_ok)
  then show ?thesis using c by (simp add: clf_learn_def Let_def classifier_ok_def split: sum.split)
qed

lemma clf_feedback_ok: "classifier_ok c \<Longrightarrow> classifier_ok (snd (clf_feedback R e ts c))"
proof -
  assume c: "classifier_ok c"
  have "wf_dict (fold (\<lambda>t d. update_model d t f) xs d) = wf_dict d \<and> length (fold (\<lambda>t d. update_model d t f) xs d) = length d"
    for f :: "'a \<Rightarrow> 'a" and xs d
    by (induction xs arbitrary: d) simp_all
  then show ?thesis using c by (simp add: clf_feedback_def Let_def classifier_ok_def split: sum.split)
qed


section \<open>The engine as a machine\<close>

datatype ml_op =
    Scoring universal_event
  | Reading universal_event
  | Learning universal_event "string list"
  | Correcting universal_event "string list option"

fun ml_step :: "('h, 'l) river \<Rightarrow> ml_op \<Rightarrow> ('h, 'l) ml_engine \<Rightarrow> ('h, 'l) ml_engine" where
  "ml_step R (Scoring e) g = snd (score_event R e g)"
| "ml_step R (Reading e) g = snd (score_event_readonly R e g)"
| "ml_step R (Learning e ts) g = snd (learn_from_alert R e ts g)"
| "ml_step R (Correcting e ts) g = snd (negative_feedback R e ts g)"

definition engine_ok :: "nat \<Rightarrow> ('h, 'l) ml_engine \<Rightarrow> bool" where
  "engine_ok cap g \<longleftrightarrow> detector_ok (me_anomaly g) \<and> dt_max_models (me_anomaly g) = cap \<and> classifier_ok (me_classifier g)"

lemma score_event_ok:
  assumes "engine_ok cap g" and "score_event R e g = (r, g')"
  shows "engine_ok cap g'" "river_scores R \<Longrightarrow> r = Inr x \<Longrightarrow> percent x" "me_key g' = me_key g" "me_classifier g' = me_classifier g"
proof -
  obtain a d where l: "learn_and_score R e (me_anomaly g) = (a, d)" by force
  have det: "detector_ok (me_anomaly g)" using assms(1) by (simp add: engine_ok_def)
  note ok = learn_and_score_ok [OF det l]
  have g': "g' = g\<lparr>me_anomaly := d\<rparr>" using assms(2) by (auto simp: score_event_def l split: sum.splits)
  with ok(1,2) assms(1) show "engine_ok cap g'" "me_key g' = me_key g" "me_classifier g' = me_classifier g"
    by (simp_all add: engine_ok_def)
  assume "river_scores R" "r = Inr x"
  with assms(2) ok(3) show "percent x"
    by (auto simp: score_event_def l split: sum.splits intro!: combine_percent dest: clf_score_percent)
qed

lemma score_event_readonly_ok:
  assumes "engine_ok cap g" and "score_event_readonly R e g = (r, g')"
  shows "engine_ok cap g'" "river_scores R \<Longrightarrow> r = Inr x \<Longrightarrow> percent x"
proof -
  have det: "detector_ok (me_anomaly g)" using assms(1) by (simp add: engine_ok_def)
  have "engine_ok cap g' \<and> (river_scores R \<longrightarrow> (\<forall>x. r = Inr x \<longrightarrow> percent x))"
  proof (cases "extract_features (rv_log1p R) e")
    case (Inl y)
    then show ?thesis using assms by (auto simp: score_event_readonly_def)
  next
    case (Inr fv)
    obtain a d where l: "score_only R (entity_key e) fv (me_anomaly g) = (a, d)" by force
    note ok = score_only_ok [OF det l]
    show ?thesis
      using assms ok by (auto simp: score_event_readonly_def Inr l engine_ok_def intro!: combine_percent dest: clf_score_percent)
  qed
  then show "engine_ok cap g'" "river_scores R \<Longrightarrow> r = Inr x \<Longrightarrow> percent x" by blast+
qed

lemma ml_step_ok: "engine_ok cap g \<Longrightarrow> engine_ok cap (ml_step R op g)"
proof (cases op)
  case (Scoring e)
  then show "engine_ok cap g \<Longrightarrow> engine_ok cap (ml_step R op g)"
    using score_event_ok(1) [of cap g R e "fst (score_event R e g)" "snd (score_event R e g)"] by simp
next
  case (Reading e)
  then show "engine_ok cap g \<Longrightarrow> engine_ok cap (ml_step R op g)"
    using score_event_readonly_ok(1) [of cap g R e "fst (score_event_readonly R e g)" "snd (score_event_readonly R e g)"] by simp
next
  case (Learning e ts)
  then show "engine_ok cap g \<Longrightarrow> engine_ok cap (ml_step R op g)"
    using clf_learn_ok [of "me_classifier g" R e ts] by (simp add: learn_from_alert_def engine_ok_def case_prod_beta)
next
  case (Correcting e ts)
  then show "engine_ok cap g \<Longrightarrow> engine_ok cap (ml_step R op g)"
    using clf_feedback_ok [of "me_classifier g" R e ts] by (simp add: negative_feedback_def engine_ok_def case_prod_beta)
qed

lemma new_engine_ok: "new_engine None None key env = Inr g \<Longrightarrow> engine_ok 10000 g"
  by (auto simp: new_engine_def engine_ok_def default_detector_def new_detector_def detector_ok_def new_classifier_def
      classifier_ok_def max_technique_models_def)

interpretation learner: machine "ml_step R" "\<lambda>g. new_engine None None key env = Inr g" "engine_ok 10000" for R key env
  by unfold_locales (rule new_engine_ok, assumption, rule ml_step_ok)

section \<open>Properties\<close>

text \<open>C27: whatever a new engine scores, learns and unlearns, it holds at most 10000 entity models and 500 technique models, and
  every score it gives, with training or without, is between 0 and 100.\<close>

theorem engine_bounded:
  assumes "new_engine None None key env = Inr g0" and "river_scores R"
  shows "case run (ml_step R) g0 ops of g \<Rightarrow>
    length (dt_store (me_anomaly g)) \<le> 10000 \<and> length (mc_models (me_classifier g)) \<le> 500 \<and>
    (case fst (score_event R e g) of Inl x \<Rightarrow> True | Inr x \<Rightarrow> 0 \<le> x \<and> x \<le> 100) \<and>
    (case fst (score_event_readonly R e g) of Inl x \<Rightarrow> True | Inr x \<Rightarrow> 0 \<le> x \<and> x \<le> 100)"
proof -
  let ?g = "run (ml_step R) g0 ops"
  have ok: "engine_ok 10000 ?g" using learner.reachable_inv [OF assms(1)] .
  have "case fst (score_event R e ?g) of Inl x \<Rightarrow> True | Inr x \<Rightarrow> 0 \<le> x \<and> x \<le> 100"
    using score_event_ok(2) [OF ok prod.collapse [symmetric] assms(2)] by (auto simp: percent_def split: sum.split)
  moreover have "case fst (score_event_readonly R e ?g) of Inl x \<Rightarrow> True | Inr x \<Rightarrow> 0 \<le> x \<and> x \<le> 100"
    using score_event_readonly_ok(2) [OF ok prod.collapse [symmetric] assms(2)] by (auto simp: percent_def split: sum.split)
  ultimately show ?thesis
    using ok by (simp add: engine_ok_def detector_ok_iff classifier_ok_def max_technique_models_def)
qed

text \<open>A tree that counts its events, a regression that remembers its last label.\<close>

definition toy_river :: "(nat, bool) river" where
  "toy_river = \<lparr>rv_log1p = (\<lambda>n. of_int n), rv_seed = length, rv_trees = (\<lambda>n h w s. 0), rv_score_one = (\<lambda>h x. if h = 0 then 0 else 1),
     rv_learn_tree = (\<lambda>x h. Suc h), rv_regression = (\<lambda>lr. False), rv_proba = (\<lambda>l x. if l then 1 else 0),
     rv_learn_label = (\<lambda>x b l. b), rv_set_order = (\<lambda>xs. xs)\<rparr>"

definition toy_event :: universal_event where
  "toy_event = \<lparr>ev_event_id = ''e1'', ev_timestamp_ns = 7200000000000, ev_hostname = ''web1'', ev_agent_id = ''a1'',
     ev_category = ''network'', ev_type = ''new'', ev_severity = ''info'', ev_collector = ''netlink'', ev_os = ''linux'',
     ev_uid = 0, ev_gid = 0, ev_pid = 7, ev_ppid = 1, ev_process_name = [], ev_executable = [], ev_cmdline = [],
     ev_cwd = [], ev_session_id = None, ev_resource = [], ev_result = ''success'', ev_file_hash_before = None,
     ev_file_hash_after = None, ev_src_ip = None, ev_src_port = None, ev_dst_ip = None, ev_dst_port = None,
     ev_protocol = Some ''tcp'', ev_bytes_sent = Some 80, ev_bytes_recv = None, ev_hash_chain = [], ev_signature = None,
     ev_ml_score = None, ev_risk_score = None, ev_rule_match_ids = [], ev_mitre_techniques = [], ev_ti_tags = [],
     ev_incident_chain_id = None, ev_extra = []\<rparr>"

lemma toy_river_scores: "river_scores toy_river"
  by (simp add: river_scores_def toy_river_def)

lemma engine_bounded_witness:
  "length (dt_store (me_anomaly (run (ml_step toy_river) \<lparr>me_key = [CHR 0x0A], me_anomaly = default_detector, me_classifier = new_classifier (1/100)\<rparr>
     [Scoring toy_event, Learning toy_event [''T1059'']]))) \<le> 10000"
proof -
  have "new_engine None None None (Some ''0a'') =
      Inr (\<lparr>me_key = [CHR 0x0A], me_anomaly = default_detector, me_classifier = new_classifier (1/100)\<rparr> :: (nat, bool) ml_engine)"
    by (simp add: new_engine_def engine_key_def hex_digit_def ascii_space_def char_of_def bit_0)
  from engine_bounded [OF this toy_river_scores, of "[Scoring toy_event, Learning toy_event [''T1059'']]"]
  show ?thesis by simp
qed

text \<open>Scoring for a decision trains nothing: it leaves the classifier and the model, the count and the normalisation of
  every entity as they are.\<close>

theorem readonly_trains_nothing:
  "case snd (score_event_readonly R e g) of g' \<Rightarrow>
     me_classifier g' = me_classifier g \<and> map_of (dt_store (me_anomaly g')) = map_of (dt_store (me_anomaly g))"
proof -
  have "map_of (dt_store (snd (score_only R k fv d))) = map_of (dt_store d)" for k fv d
    using lru_get_store(2) [of k "dt_store d"] by (auto simp: score_only_def split: prod.splits option.splits)
  then show ?thesis by (auto simp: score_event_readonly_def split: sum.split prod.split)
      (metis snd_conv)+
qed

text \<open>A line feed at the end of a technique's name passes the check.\<close>

lemma newline_technique_accepted:
  "is_valid_technique (''T1059'' @ [CHR 0x0A])" "is_valid_technique ''T1059.001''" "\<not> is_valid_technique ''T105''"
  by (simp_all add: is_valid_technique_def technique_form_def ascii_digit_def)

end
