(* ===== verification/Ml_Checkpoint.thy ===== *)
theory Ml_Checkpoint
  imports Ml_Engine
begin

text \<open>
  The files of the learning engine: \<open>save\<close> and \<open>load\<close> of \<open>ml_engine/anomaly.py\<close>, \<open>save_checkpoint\<close> and
  \<open>load_checkpoint\<close> of \<open>ml_engine/engine.py\<close>. Pickling and HMAC-SHA256 are parameters; a file's content is a text. The
  writes of a save are a list of steps, so that a crash is a prefix of it; \<open>os.replace\<close> and each single write of a file are
  atomic, and one save runs at a time (in the worker the last save may overlap a periodic one, which is not modelled).
\<close>

section \<open>Files\<close>

text \<open>The checkpoint's path and the names derived from it, which are distinct for a path that ends in \<open>.pkl\<close>.\<close>

datatype ckpt_file = Pkl | PklMac | PklTmp | PklTmpMac | Clf | ClfMac | ClfTmp

type_synonym disk = "ckpt_file \<Rightarrow> string option"

record 'h saved_detector =
  pl_n_trees :: nat
  pl_height :: nat
  pl_window_size :: int
  pl_window_by_cat :: "(string, int) pydict"
  pl_min_samples :: nat
  pl_max_models :: nat
  pl_states :: "(string \<times> 'h model_state) list"

record ('h, 'l) pickler =
  pk_hmac :: "string \<Rightarrow> string \<Rightarrow> string"
  pk_dump :: "'h saved_detector \<Rightarrow> string"
  pk_load :: "string \<Rightarrow> 'h saved_detector result"
  pk_dump_clf :: "'l classifier \<Rightarrow> string"
  pk_load_clf :: "string \<Rightarrow> 'l classifier result"

definition write_file :: "ckpt_file \<Rightarrow> string \<Rightarrow> disk \<Rightarrow> disk" where
  "write_file f s k = k(f \<mapsto> s)"

definition replace_file :: "ckpt_file \<Rightarrow> ckpt_file \<Rightarrow> disk \<Rightarrow> disk" where
  "replace_file a b k = k(b := k a, a := None)"

definition unlink_file :: "ckpt_file \<Rightarrow> disk \<Rightarrow> disk" where
  "unlink_file f k = k(f := None)"

section \<open>Saving\<close>

definition payload_of :: "'h detector \<Rightarrow> 'h saved_detector" where
  "payload_of d =
     \<lparr>pl_n_trees = dt_n_trees d, pl_height = dt_height d, pl_window_size = dt_window_size d,
      pl_window_by_cat = dt_window_by_cat d, pl_min_samples = dt_min_samples d, pl_max_models = dt_max_models d,
      pl_states = dt_store d\<rparr>"

definition compute_mac :: "('h, 'l) pickler \<Rightarrow> string \<Rightarrow> string \<Rightarrow> string" where
  "compute_mac P key data = pk_hmac P key data"

text \<open>The detector's four steps: the pickle and its code beside the checkpoint, then both are moved over it.\<close>

definition save_steps :: "('h, 'l) pickler \<Rightarrow> string option \<Rightarrow> 'h detector \<Rightarrow> (disk \<Rightarrow> disk) list" where
  "save_steps P key d =
     (let s = pk_dump P (payload_of d)
      in case key of
           None \<Rightarrow> [write_file PklTmp s, replace_file PklTmp Pkl]
         | Some k \<Rightarrow> [write_file PklTmp s, write_file PklTmpMac (compute_mac P k s), replace_file PklTmp Pkl,
                      replace_file PklTmpMac PklMac])"

definition clf_steps :: "('h, 'l) pickler \<Rightarrow> string \<Rightarrow> 'l classifier \<Rightarrow> (disk \<Rightarrow> disk) list" where
  "clf_steps P key c =
     (let s = pk_dump_clf P c in [write_file ClfTmp s, write_file ClfMac (compute_mac P key s), replace_file ClfTmp Clf])"

definition checkpoint_steps :: "('h, 'l) pickler \<Rightarrow> ('h, 'l) ml_engine \<Rightarrow> (disk \<Rightarrow> disk) list" where
  "checkpoint_steps P g = save_steps P (Some (me_key g)) (me_anomaly g) @ clf_steps P (me_key g) (me_classifier g)"

text \<open>The process dies after \<open>n\<close> steps.\<close>

definition crash_after :: "nat \<Rightarrow> (disk \<Rightarrow> disk) list \<Rightarrow> disk \<Rightarrow> disk" where
  "crash_after n steps k = fold (\<lambda>f. f) (take n steps) k"

text \<open>Step \<open>n\<close> raises, if there is one: the handlers remove the temporary files.\<close>

definition save_checkpoint :: "('h, 'l) pickler \<Rightarrow> nat option \<Rightarrow> ('h, 'l) ml_engine \<Rightarrow> disk \<Rightarrow> unit result \<times> disk" where
  "save_checkpoint P fail_at g k =
     (case fail_at of
        None \<Rightarrow> (Inr (), fold (\<lambda>f. f) (checkpoint_steps P g) k)
      | Some n \<Rightarrow>
          if n < 4 then (Inl (OtherError ''OSError''), unlink_file PklTmpMac (unlink_file PklTmp (crash_after n (checkpoint_steps P g) k)))
          else if n < 7 then (Inl (OtherError ''OSError''), unlink_file ClfTmp (crash_after n (checkpoint_steps P g) k))
          else (Inr (), fold (\<lambda>f. f) (checkpoint_steps P g) k))"

section \<open>Loading\<close>

definition verify_mac :: "('h, 'l) pickler \<Rightarrow> string \<Rightarrow> ckpt_file \<Rightarrow> ckpt_file \<Rightarrow> disk \<Rightarrow> unit result" where
  "verify_mac P key f mac k =
     (case k mac of
        None \<Rightarrow> Inl ValueError
      | Some expected \<Rightarrow>
          (case k f of
             None \<Rightarrow> Inl (OtherError ''FileNotFoundError'')
           | Some data \<Rightarrow> if expected = compute_mac P key data then Inr () else Inl ValueError))"

fun restore_states :: "nat \<Rightarrow> (string \<times> 'v) list \<Rightarrow> (string, 'v) pydict \<Rightarrow> (string, 'v) pydict result" where
  "restore_states cap [] d = Inr d"
| "restore_states cap ((k, s) # xs) d =
     (case lru_put cap k s d of (Inl e, d') \<Rightarrow> Inl e | (Inr _, d') \<Rightarrow> restore_states cap xs d')"

definition detector_load :: "('h, 'l) pickler \<Rightarrow> string option \<Rightarrow> disk \<Rightarrow> 'h detector result" where
  "detector_load P key k =
     bind_result (case key of None \<Rightarrow> Inr () | Some ky \<Rightarrow> verify_mac P ky Pkl PklMac k) (\<lambda>_.
       case k Pkl of
         None \<Rightarrow> Inl (OtherError ''FileNotFoundError'')
       | Some data \<Rightarrow>
           bind_result (pk_load P data) (\<lambda>p.
           bind_result (restore_states (pl_max_models p) (pl_states p) []) (\<lambda>st.
             Inr ((new_detector (pl_n_trees p) (pl_height p) (pl_window_size p) (pl_window_by_cat p) (pl_min_samples p)
                    (pl_max_models p))\<lparr>dt_store := st\<rparr>))))"

definition load_checkpoint :: "('h, 'l) pickler \<Rightarrow> disk \<Rightarrow> ('h, 'l) ml_engine \<Rightarrow> unit result \<times> ('h, 'l) ml_engine" where
  "load_checkpoint P k g =
     (case detector_load P (Some (me_key g)) k of
        Inl e \<Rightarrow> (Inl e, g)
      | Inr d \<Rightarrow>
          (let g1 = g\<lparr>me_anomaly := d\<rparr>
           in case k Clf of
                None \<Rightarrow> (Inr (), g1)
              | Some data \<Rightarrow>
                  (case bind_result (verify_mac P (me_key g) Clf ClfMac k) (\<lambda>_. pk_load_clf P data) of
                     Inl e \<Rightarrow> (Inl e, g1)
                   | Inr c \<Rightarrow> (Inr (), g1\<lparr>me_classifier := c\<rparr>))))"

section \<open>Round trip\<close>

text \<open>What is documented of pickle, for the two objects of an engine: loading what was dumped gives it back.\<close>

definition pickles :: "('h, 'l) pickler \<Rightarrow> ('h, 'l) ml_engine \<Rightarrow> bool" where
  "pickles P g \<longleftrightarrow> pk_load P (pk_dump P (payload_of (me_anomaly g))) = Inr (payload_of (me_anomaly g))
     \<and> pk_load_clf P (pk_dump_clf P (me_classifier g)) = Inr (me_classifier g)"

lemma restore_append:
  "wf_dict (d @ xs) \<Longrightarrow> length (d @ xs) \<le> cap \<Longrightarrow> restore_states cap xs d = Inr (d @ xs)"
proof (induction xs arbitrary: d)
  case (Cons x xs)
  obtain k s where x: "x = (k, s)" by (cases x)
  have no: "\<not> dict_has d k" using Cons.prems(1) by (simp add: x wf_dict_def dict_has_def)
  have "dict_put k s d = d @ [(k, s)]" using no by (induction d) (auto simp: dict_has_def)
  then have "lru_put cap k s d = (Inr (), d @ [(k, s)])"
    using no Cons.prems(2) by (simp add: lru_put_def x)
  then show ?case using Cons by (simp add: x)
qed simp

lemma restore_store: "detector_ok d \<Longrightarrow> restore_states (dt_max_models d) (dt_store d) [] = Inr (dt_store d)"
  using restore_append [of "[]" "dt_store d"] by (simp add: detector_ok_iff)

text \<open>What the disk holds of an engine: its two pickles with their codes.\<close>

definition holds_detector :: "('h, 'l) pickler \<Rightarrow> string \<Rightarrow> 'h detector \<Rightarrow> disk \<Rightarrow> bool" where
  "holds_detector P key d k \<longleftrightarrow> (let s = pk_dump P (payload_of d) in k Pkl = Some s \<and> k PklMac = Some (compute_mac P key s))"

definition holds_classifier :: "('h, 'l) pickler \<Rightarrow> string \<Rightarrow> 'l classifier \<Rightarrow> disk \<Rightarrow> bool" where
  "holds_classifier P key c k \<longleftrightarrow> (let s = pk_dump_clf P c in k Clf = Some s \<and> k ClfMac = Some (compute_mac P key s))"

lemma load_detector:
  assumes "pickles P h" and "engine_ok cap h" and "holds_detector P key (me_anomaly h) k"
  shows "detector_load P (Some key) k = Inr (me_anomaly h)"
proof -
  let ?d = "me_anomaly h"
  have "new_detector (dt_n_trees ?d) (dt_height ?d) (dt_window_size ?d) (dt_window_by_cat ?d) (dt_min_samples ?d) (dt_max_models ?d)
      \<lparr>dt_store := dt_store ?d\<rparr> = ?d"
    by (simp add: new_detector_def)
  moreover have "restore_states (dt_max_models ?d) (dt_store ?d) [] = Inr (dt_store ?d)"
    using assms(2) by (intro restore_store) (simp add: engine_ok_def)
  ultimately show ?thesis
    using assms(1,3) by (simp add: detector_load_def holds_detector_def Let_def verify_mac_def pickles_def)
      (simp add: payload_of_def)
qed

lemma load_both:
  assumes "pickles P h" and "engine_ok cap h" and "holds_detector P (me_key g) (me_anomaly h) k"
    and "pickles P h'" and "holds_classifier P (me_key g) (me_classifier h') k"
  shows "load_checkpoint P k g = (Inr (), g\<lparr>me_anomaly := me_anomaly h, me_classifier := me_classifier h'\<rparr>)"
  using assms(4,5) load_detector [OF assms(1-3)]
  by (simp add: load_checkpoint_def holds_classifier_def Let_def verify_mac_def pickles_def)

lemmas file_steps = write_file_def replace_file_def unlink_file_def

lemma saved_holds:
  "holds_detector P (me_key g) (me_anomaly g) (fold (\<lambda>f. f) (checkpoint_steps P g) k)"
  "holds_classifier P (me_key g) (me_classifier g) (fold (\<lambda>f. f) (checkpoint_steps P g) k)"
  by (simp_all add: checkpoint_steps_def save_steps_def clf_steps_def Let_def file_steps holds_detector_def holds_classifier_def)

text \<open>A saved engine is loaded back into any engine with its key: the detector with its models in the order of their use,
  and the classifier.\<close>

theorem checkpoint_roundtrip:
  assumes "pickles P g" and "engine_ok cap g" and "me_key g' = me_key g"
  shows "load_checkpoint P (snd (save_checkpoint P None g k)) g' = (Inr (), g)"
  using load_both [OF assms(1,2) _ assms(1), of g' "snd (save_checkpoint P None g k)"] assms(3) saved_holds [of P g k]
  by (simp add: save_checkpoint_def)

section \<open>Crashes\<close>

text \<open>C16: where a crash leaves the checkpoint: before the first replacement the old one is loaded; after the first, nothing is;
  after the second, the new detector with the old classifier; after the classifier's code is written and before its
  pickle is replaced, loading fails with the new detector in place; then the new checkpoint is loaded. The codes of the
  old and the new files differ.\<close>

theorem crash_points:
  assumes "pickles P old" and "pickles P new" and "engine_ok cap old" and "engine_ok cap' new"
    and "me_key old = key" and "me_key new = key" and "me_key g = key"
    and "holds_detector P key (me_anomaly old) k" and "holds_classifier P key (me_classifier old) k"
    and "compute_mac P key (pk_dump P (payload_of (me_anomaly new))) \<noteq> compute_mac P key (pk_dump P (payload_of (me_anomaly old)))"
    and "compute_mac P key (pk_dump_clf P (me_classifier new)) \<noteq> compute_mac P key (pk_dump_clf P (me_classifier old))"
  shows "load_checkpoint P (crash_after n (checkpoint_steps P new) k) g =
    (if n \<le> 2 then (Inr (), old)
     else if n = 3 then (Inl ValueError, g)
     else if n \<le> 5 then (Inr (), old\<lparr>me_anomaly := me_anomaly new\<rparr>)
     else if n = 6 then (Inl ValueError, g\<lparr>me_anomaly := me_anomaly new\<rparr>)
     else (Inr (), new))"
proof -
  let ?k = "\<lambda>n. crash_after n (checkpoint_steps P new) k"
  have od: "k Pkl = Some (pk_dump P (payload_of (me_anomaly old)))"
      "k PklMac = Some (compute_mac P key (pk_dump P (payload_of (me_anomaly old))))"
      "k Clf = Some (pk_dump_clf P (me_classifier old))"
      "k ClfMac = Some (compute_mac P key (pk_dump_clf P (me_classifier old)))"
    using assms(8,9) by (simp_all add: holds_detector_def holds_classifier_def Let_def)
  note crash = crash_after_def checkpoint_steps_def save_steps_def clf_steps_def Let_def file_steps
  note holds = holds_detector_def holds_classifier_def
  consider "n \<le> 2" | "n = 3" | "n = 4 \<or> n = 5" | "n = 6" | "7 \<le> n" by linarith
  then show ?thesis
  proof cases
    case 1
    then have "n = 0 \<or> n = 1 \<or> n = 2" by linarith
    then have "holds_detector P (me_key g) (me_anomaly old) (?k n)" "holds_classifier P (me_key g) (me_classifier old) (?k n)"
      using assms(6,7) od by (auto simp: crash holds)
    from load_both [OF assms(1,3) this(1) assms(1) this(2)] show ?thesis using 1 assms(5,7) by simp
  next
    case 2
    have "?k 3 Pkl = Some (pk_dump P (payload_of (me_anomaly new)))"
        "?k 3 PklMac = Some (compute_mac P key (pk_dump P (payload_of (me_anomaly old))))"
      using assms(6) od by (simp_all add: crash)
    then have "detector_load P (Some (me_key g)) (?k 3) = Inl ValueError"
      using assms(7,10) by (simp add: detector_load_def verify_mac_def)
    then show ?thesis using 2 by (simp add: load_checkpoint_def)
  next
    case 3
    then have "holds_detector P (me_key g) (me_anomaly new) (?k n)" "holds_classifier P (me_key g) (me_classifier old) (?k n)"
      using assms(6,7) od by (auto simp: crash holds)
    from load_both [OF assms(2,4) this(1) assms(1) this(2)] show ?thesis using 3 assms(5,7) by auto
  next
    case 4
    have h: "holds_detector P (me_key g) (me_anomaly new) (?k 6)" using assms(6,7) by (simp add: crash holds)
    have c: "?k 6 Clf = Some (pk_dump_clf P (me_classifier old))"
        "?k 6 ClfMac = Some (compute_mac P key (pk_dump_clf P (me_classifier new)))"
      using assms(6) od by (simp_all add: crash)
    have "verify_mac P (me_key g) Clf ClfMac (?k 6) = Inl ValueError"
      using assms(7,11) c by (simp add: verify_mac_def)
    then show ?thesis
      using 4 load_detector [OF assms(2,4) h] c(1) by (simp add: load_checkpoint_def Let_def)
  next
    case 5
    then have "?k n = fold (\<lambda>f. f) (checkpoint_steps P new) k"
      by (simp add: crash_after_def checkpoint_steps_def save_steps_def clf_steps_def Let_def)
    then have "holds_detector P (me_key g) (me_anomaly new) (?k n)" "holds_classifier P (me_key g) (me_classifier new) (?k n)"
      using saved_holds [of P new k] assms(6,7) by simp_all
    from load_both [OF assms(2,4) this(1) assms(2) this(2)] show ?thesis using 5 assms(6,7) by simp
  qed
qed

section \<open>Examples\<close>

definition trained :: "(nat, bool) ml_engine" where
  "trained = \<lparr>me_key = ''k'', me_anomaly = default_detector\<lparr>dt_store := [(''web1::network'', \<lparr>ms_model = 1, ms_count = 1,
     ms_decaying_max = 0\<rparr>)]\<rparr>, me_classifier = (new_classifier (1/100))\<lparr>mc_models := [(''T1059'', True)]\<rparr>\<rparr>"

definition untrained :: "(nat, bool) ml_engine" where
  "untrained = \<lparr>me_key = ''k'', me_anomaly = default_detector, me_classifier = new_classifier (1/100)\<rparr>"

text \<open>A pickler that tells these two engines apart.\<close>

definition toy_pickler :: "(nat, bool) pickler" where
  "toy_pickler = \<lparr>pk_hmac = (\<lambda>k s. k @ s), pk_dump = (\<lambda>p. if pl_states p = [] then ''u'' else ''t''),
     pk_load = (\<lambda>s. Inr (payload_of (me_anomaly (if s = ''u'' then untrained else trained)))),
     pk_dump_clf = (\<lambda>c. if mc_models c = [] then ''u'' else ''t''),
     pk_load_clf = (\<lambda>s. Inr (me_classifier (if s = ''u'' then untrained else trained)))\<rparr>"

lemma toy_pickles: "pickles toy_pickler trained" "pickles toy_pickler untrained"
  by (simp_all add: pickles_def toy_pickler_def payload_of_def trained_def untrained_def default_detector_def new_detector_def
      new_classifier_def)

lemma toy_engines_ok: "engine_ok 10000 trained" "engine_ok 10000 untrained"
  by (simp_all add: engine_ok_def trained_def untrained_def default_detector_def new_detector_def detector_ok_def new_classifier_def
      classifier_ok_def max_technique_models_def wf_dict_def)

lemma checkpoint_roundtrip_witness:
  "load_checkpoint toy_pickler (snd (save_checkpoint toy_pickler None trained Map.empty)) untrained = (Inr (), trained)"
  using checkpoint_roundtrip [OF toy_pickles(1) toy_engines_ok(1)] by (simp add: trained_def untrained_def)

lemma crash_points_witness:
  "fst (load_checkpoint toy_pickler (crash_after 3 (checkpoint_steps toy_pickler trained)
     (snd (save_checkpoint toy_pickler None untrained Map.empty))) untrained) = Inl ValueError"
  using crash_points [OF toy_pickles(2,1) toy_engines_ok(2,1), where key = "''k''" and g = untrained and n = 3
      and k = "snd (save_checkpoint toy_pickler None untrained Map.empty)"] saved_holds [of toy_pickler untrained Map.empty]
  by (simp add: save_checkpoint_def)
    (simp add: trained_def untrained_def toy_pickler_def compute_mac_def payload_of_def default_detector_def new_detector_def
      new_classifier_def)

end
