(* ===== verification/Ml_Worker.thy ===== *)
theory Ml_Worker
  imports Ml_Checkpoint Event_Repo Bus
begin

text \<open>
  \<open>ml_engine/ab_test.py\<close> and \<open>workers/ml_worker.py\<close>: the comparison of two engines, and the worker that scores the
  normalised events, publishes and stores the scores and saves the engine. The engines of a session and the worker's own are
  distinct objects (with one object for two of them an event would train it twice), and one task scores at a time; the
  parser of messages is a parameter.
\<close>

section \<open>Comparing two engines\<close>

record ('h, 'l) ab_session =
  ab_champion :: "('h, 'l) ml_engine"
  ab_challenger :: "('h, 'l) ml_engine"
  ab_n_min :: nat
  ab_threshold :: pyfloat
  ab_max_stored :: nat
  ab_champion_scores :: "pyfloat list"
  ab_challenger_scores :: "pyfloat list"
  ab_deltas :: "pyfloat list"

definition new_session :: "('h, 'l) ml_engine \<Rightarrow> ('h, 'l) ml_engine \<Rightarrow> nat \<Rightarrow> pyfloat \<Rightarrow> nat \<Rightarrow> ('h, 'l) ab_session" where
  "new_session champ chal n_min threshold stored =
     \<lparr>ab_champion = champ, ab_challenger = chal, ab_n_min = n_min, ab_threshold = threshold, ab_max_stored = stored,
      ab_champion_scores = [], ab_challenger_scores = [], ab_deltas = []\<rparr>"

text \<open>Appending to a \<open>deque(maxlen=n)\<close>.\<close>

definition push_capped :: "nat \<Rightarrow> 'a \<Rightarrow> 'a list \<Rightarrow> 'a list" where
  "push_capped n x xs = drop (Suc (length xs) - n) (xs @ [x])"

definition ab_score :: "('h, 'l) river \<Rightarrow> universal_event \<Rightarrow> ('h, 'l) ab_session \<Rightarrow> pyfloat result \<times> ('h, 'l) ab_session" where
  "ab_score R e s =
     (case score_event R e (ab_champion s) of
        (Inl x, g) \<Rightarrow> (Inl x, s\<lparr>ab_champion := g\<rparr>)
      | (Inr a, g) \<Rightarrow>
          (case score_event R e (ab_challenger s) of
             (Inl x, h) \<Rightarrow> (Inl x, s\<lparr>ab_champion := g, ab_challenger := h\<rparr>)
           | (Inr b, h) \<Rightarrow>
               (Inr a, s\<lparr>ab_champion := g, ab_challenger := h,
                  ab_champion_scores := push_capped (ab_max_stored s) a (ab_champion_scores s),
                  ab_challenger_scores := push_capped (ab_max_stored s) b (ab_challenger_scores s),
                  ab_deltas := push_capped (ab_max_stored s) \<bar>b - a\<bar> (ab_deltas s)\<rparr>)))"

record ab_report =
  rp_n_events :: nat
  rp_champion_mean :: pyfloat
  rp_challenger_mean :: pyfloat
  rp_mean_delta :: pyfloat
  rp_p95_delta :: pyfloat
  rp_disagreement_rate :: pyfloat
  rp_relative_improvement :: pyfloat
  rp_ready :: bool

definition mean_of :: "pyfloat list \<Rightarrow> pyfloat" where
  "mean_of xs = sum_list xs / of_nat (length xs)"

definition round_digits :: "nat \<Rightarrow> pyfloat \<Rightarrow> pyfloat" where
  "round_digits k x = of_int (round_half_even (x * 10 ^ k)) / 10 ^ k"

definition p95_index :: "nat \<Rightarrow> nat" where
  "p95_index n = n * 95 div 100 - 1"

definition report :: "('h, 'l) ab_session \<Rightarrow> ab_report" where
  "report s =
     (let n = length (ab_deltas s)
      in if n = 0 then \<lparr>rp_n_events = 0, rp_champion_mean = 0, rp_challenger_mean = 0, rp_mean_delta = 0, rp_p95_delta = 0,
           rp_disagreement_rate = 0, rp_relative_improvement = 0, rp_ready = False\<rparr>
         else let a = mean_of (ab_champion_scores s); b = mean_of (ab_challenger_scores s)
              in \<lparr>rp_n_events = n, rp_champion_mean = round_digits 3 a, rp_challenger_mean = round_digits 3 b,
                  rp_mean_delta = round_digits 3 (b - a), rp_p95_delta = round_digits 3 (sort (ab_deltas s) ! p95_index n),
                  rp_disagreement_rate =
                    round_digits 4 (of_nat (length (filter (\<lambda>d. ab_threshold s < d) (ab_deltas s))) / of_nat n),
                  rp_relative_improvement = round_digits 4 ((b - a) / max a 1), rp_ready = ab_n_min s \<le> n\<rparr>)"

text \<open>A cold engine with the settings of another; \<open>env\<close> is the variable with the key.\<close>

definition clone_champion :: "string option \<Rightarrow> ('h, 'l) ml_engine \<Rightarrow> ('h, 'l) ml_engine result" where
  "clone_champion env g =
     (let d = me_anomaly g
      in new_engine (Some (new_detector (dt_n_trees d) (dt_height d) (dt_window_size d) (dt_window_by_cat d) (dt_min_samples d)
             (dt_max_models d))) (Some (new_classifier (mc_lr (me_classifier g)))) None env)"

text \<open>The promotion; if the new challenger cannot be built, the champion has been replaced and the statistics stay.\<close>

definition promote :: "string option \<Rightarrow> ('h, 'l) ab_session \<Rightarrow> ('h, 'l) ml_engine result \<times> ('h, 'l) ab_session" where
  "promote env s =
     (let s1 = s\<lparr>ab_champion := ab_challenger s\<rparr>
      in case clone_champion env (ab_champion s1) of
           Inl x \<Rightarrow> (Inl x, s1)
         | Inr c \<Rightarrow> (Inr (ab_champion s1),
             s1\<lparr>ab_challenger := c, ab_champion_scores := [], ab_challenger_scores := [], ab_deltas := []\<rparr>))"

section \<open>The worker\<close>

record ('h, 'l) ml_worker =
  mw_engine :: "('h, 'l) ml_engine"
  mw_session :: "('h, 'l) ab_session option"
  mw_running :: bool
  mw_scored :: nat
  mw_published :: nat
  mw_bus :: bus_log
  mw_events :: "event_row list option"
  mw_disk :: disk

definition try_save :: "('h, 'l) pickler \<Rightarrow> nat option \<Rightarrow> ('h, 'l) ml_worker \<Rightarrow> ('h, 'l) ml_worker" where
  "try_save P fail_at w = w\<lparr>mw_disk := snd (save_checkpoint P fail_at (mw_engine w) (mw_disk w))\<rparr>"

definition try_load :: "('h, 'l) pickler \<Rightarrow> ('h, 'l) ml_worker \<Rightarrow> ('h, 'l) ml_worker" where
  "try_load P w =
     (if mw_disk w Pkl = None then w else w\<lparr>mw_engine := snd (load_checkpoint P (mw_disk w) (mw_engine w))\<rparr>)"

definition start_worker :: "('h, 'l) pickler \<Rightarrow> ('h, 'l) ml_engine \<Rightarrow> ('h, 'l) ab_session option \<Rightarrow> event_row list option \<Rightarrow> disk
    \<Rightarrow> ('h, 'l) ml_worker" where
  "start_worker P g ab events k =
     try_load P \<lparr>mw_engine = g, mw_session = ab, mw_running = True, mw_scored = 0, mw_published = 0, mw_bus = empty_bus,
       mw_events = events, mw_disk = k\<rparr>"

definition worker_score :: "('h, 'l) river \<Rightarrow> universal_event \<Rightarrow> ('h, 'l) ml_worker \<Rightarrow> pyfloat result \<times> ('h, 'l) ml_worker" where
  "worker_score R e w =
     (let own = (\<lambda>v. case score_event R e (mw_engine v) of (r, g) \<Rightarrow> (r, v\<lparr>mw_engine := g\<rparr>))
      in case mw_session w of
           None \<Rightarrow> own w
         | Some s \<Rightarrow>
             (case ab_score R e s of
                (Inr x, s') \<Rightarrow> (Inr x, w\<lparr>mw_session := Some s'\<rparr>)
              | (Inl _, s') \<Rightarrow> own (w\<lparr>mw_session := Some s'\<rparr>)))"

definition analysis_message :: "universal_event \<Rightarrow> pyfloat \<Rightarrow> json" where
  "analysis_message e x =
     JObj [(''event_id'', JStr (ev_event_id e)), (''hostname'', JStr (ev_hostname e)), (''category'', JStr (ev_category e)),
           (''ml_score'', JNum (round_digits 3 x))]"

text \<open>\<open>_process\<close>: only the publication and the update of the table are guarded.\<close>

definition worker_process :: "('h, 'l) river \<Rightarrow> (nat \<Rightarrow> bool) \<Rightarrow> bool \<Rightarrow> universal_event \<Rightarrow> ('h, 'l) ml_worker
    \<Rightarrow> unit result \<times> ('h, 'l) ml_worker" where
  "worker_process R ok db_ok e w =
     (case worker_score R e w of
        (Inl x, w1) \<Rightarrow> (Inl x, w1)
      | (Inr x, w1) \<Rightarrow>
          (case publish ok ''analysis:ml'' (analysis_message e x) (mw_bus w1) of
             (b, bus) \<Rightarrow>
               (Inr (), w1\<lparr>mw_scored := Suc (mw_scored w1), mw_bus := bus,
                  mw_published := (if b then Suc (mw_published w1) else mw_published w1),
                  mw_events := map_option (\<lambda>t. if 0 < x \<and> db_ok then update_ml_score (ev_event_id e) (round_digits 3 x) t else t)
                    (mw_events w1)\<rparr>)))"

text \<open>One message of the loop; an exception and the stop event end it, with a last checkpoint.\<close>

definition worker_message :: "('h, 'l) river \<Rightarrow> ('h, 'l) pickler \<Rightarrow> (json \<Rightarrow> universal_event result) \<Rightarrow> (nat \<Rightarrow> bool) \<Rightarrow> bool
    \<Rightarrow> nat option \<Rightarrow> bool \<Rightarrow> json \<Rightarrow> ('h, 'l) ml_worker \<Rightarrow> ('h, 'l) ml_worker" where
  "worker_message R P parse ok db_ok fail_at stop m w =
     (if \<not> mw_running w then w
      else case parse m of
             Inl _ \<Rightarrow> w
           | Inr e \<Rightarrow>
               (case worker_process R ok db_ok e w of
                  (Inl _, w1) \<Rightarrow> try_save P fail_at (w1\<lparr>mw_running := False\<rparr>)
                | (Inr _, w1) \<Rightarrow> if stop then try_save P fail_at (w1\<lparr>mw_running := False\<rparr>) else w1))"

datatype ml_worker_op = Message json bool "nat option" bool | Periodic "nat option" | Told ml_op

fun ml_worker_step :: "('h, 'l) river \<Rightarrow> ('h, 'l) pickler \<Rightarrow> (json \<Rightarrow> universal_event result) \<Rightarrow> (nat \<Rightarrow> bool) \<Rightarrow> ml_worker_op
    \<Rightarrow> ('h, 'l) ml_worker \<Rightarrow> ('h, 'l) ml_worker" where
  "ml_worker_step R P parse ok (Message m db_ok fail_at stop) w = worker_message R P parse ok db_ok fail_at stop m w"
| "ml_worker_step R P parse ok (Periodic fail_at) w = (if mw_running w then try_save P fail_at w else w)"
| "ml_worker_step R P parse ok (Told op) w = w\<lparr>mw_engine := ml_step R op (mw_engine w)\<rparr>"

section \<open>The challenger is only watched\<close>

lemma ab_score_champion:
  "ab_champion (snd (ab_score R e s)) = snd (score_event R e (ab_champion s))"
  "fst (ab_score R e s) = Inr x \<Longrightarrow> fst (score_event R e (ab_champion s)) = Inr x"
  by (auto simp: ab_score_def split: prod.splits sum.splits)

definition session_ok :: "('h, 'l) ab_session \<Rightarrow> bool" where
  "session_ok s \<longleftrightarrow> length (ab_champion_scores s) = length (ab_deltas s) \<and> length (ab_challenger_scores s) = length (ab_deltas s)
     \<and> length (ab_deltas s) \<le> ab_max_stored s"

lemma length_push_capped: "length xs \<le> n \<Longrightarrow> length (push_capped n x xs) = min n (Suc (length xs))"
  by (simp add: push_capped_def)

lemma ab_score_answer:
  "fst (ab_score R e s) =
     (case fst (score_event R e (ab_champion s)) of
        Inl x \<Rightarrow> Inl x
      | Inr a \<Rightarrow> (case fst (score_event R e (ab_challenger s)) of Inl x \<Rightarrow> Inl x | Inr _ \<Rightarrow> Inr a))"
  by (simp add: ab_score_def split: prod.split sum.split)

lemma ab_score_session_ok: "session_ok s \<Longrightarrow> session_ok (snd (ab_score R e s))"
  by (auto simp: ab_score_def session_ok_def length_push_capped split: prod.split sum.split)

text \<open>C33: the champion is trained by exactly the events of the session, as it would be alone, whatever the challenger does.
  The next score is the champion's own answer, its error included, unless the challenger raises on the event: then the
  session raises the challenger's error and the champion's score is lost. The three records of scores stay equally long
  and within their bound.\<close>

theorem challenger_only_watched:
  "case run (\<lambda>e s. snd (ab_score R e s)) (new_session champ chal n_min threshold stored) es of s \<Rightarrow>
     ab_champion s = run (ml_step R) champ (map Scoring es) \<and> session_ok s \<and>
     fst (ab_score R e s) =
       (case fst (score_event R e (run (ml_step R) champ (map Scoring es))) of
          Inl x \<Rightarrow> Inl x
        | Inr a \<Rightarrow> (case fst (score_event R e (ab_challenger s)) of Inl x \<Rightarrow> Inl x | Inr _ \<Rightarrow> Inr a))"
proof -
  have "session_ok s \<Longrightarrow> session_ok (run (\<lambda>e s. snd (ab_score R e s)) s es) \<and>
      ab_champion (run (\<lambda>e s. snd (ab_score R e s)) s es) = run (ml_step R) (ab_champion s) (map Scoring es)" for s
    by (induction es arbitrary: s) (simp_all add: ab_score_champion ab_score_session_ok)
  moreover have "session_ok (new_session champ chal n_min threshold stored)"
    by (simp add: session_ok_def new_session_def)
  moreover have "ab_champion (new_session champ chal n_min threshold stored) = champ"
    by (simp add: new_session_def)
  ultimately show ?thesis
    by (simp add: ab_score_answer)
qed

text \<open>A promotion without the key in the environment raises after it has replaced the champion.\<close>

lemma failed_promotion_swaps:
  "promote None s = (Inl RuntimeError, s\<lparr>ab_champion := ab_challenger s\<rparr>)"
  by (simp add: promote_def clone_champion_def new_engine_def engine_key_def Let_def)


section \<open>What the worker publishes\<close>

definition sound_message :: "string \<times> json \<Rightarrow> bool" where
  "sound_message m \<longleftrightarrow> (\<exists>e x. m = (''analysis:ml'', analysis_message e x) \<and> percent x \<and> percent (round_digits 3 x))"

lemma round_digits_percent: "percent x \<Longrightarrow> percent (round_digits k x)"
proof -
  assume x: "percent x"
  have "0 \<le> round_half_even (x * 10 ^ k) \<and> round_half_even (x * 10 ^ k) \<le> 100 * 10 ^ k"
  proof -
    have "0 \<le> x * 10 ^ k" "x * 10 ^ k \<le> 100 * 10 ^ k"
      using x by (simp_all add: percent_def)
    then show ?thesis
      using round_half_even_bounds [of 0 "x * 10 ^ k" "100 * 10 ^ k"] by simp
  qed
  then have "(of_int 0 :: rat) \<le> of_int (round_half_even (x * 10 ^ k))"
      "(of_int (round_half_even (x * 10 ^ k)) :: rat) \<le> of_int (100 * 10 ^ k)"
    by (simp_all only: of_int_le_iff)
  then show ?thesis by (simp add: percent_def round_digits_def divide_le_eq)
qed

definition worker_ok :: "('h, 'l) ml_worker \<Rightarrow> bool" where
  "worker_ok w \<longleftrightarrow> engine_ok 10000 (mw_engine w)
     \<and> (case mw_session w of None \<Rightarrow> True | Some s \<Rightarrow> engine_ok 10000 (ab_champion s))
     \<and> list_all sound_message (sent (mw_bus w)) \<and> length (sent (mw_bus w)) = mw_published w \<and> mw_published w \<le> mw_scored w"


lemma publish_sound:
  "sound_message m \<Longrightarrow> list_all sound_message (sent b) \<Longrightarrow> list_all sound_message (sent (snd (publish ok (fst m) (snd m) b)))"
  by (simp add: publish_sent)

lemma worker_score_ok:
  assumes "river_scores R" and "engine_ok 10000 (mw_engine w)"
    and "case mw_session w of None \<Rightarrow> True | Some s \<Rightarrow> engine_ok 10000 (ab_champion s)"
    and "worker_score R e w = (r, w')"
  shows "engine_ok 10000 (mw_engine w')" "case mw_session w' of None \<Rightarrow> True | Some s \<Rightarrow> engine_ok 10000 (ab_champion s)"
    and "r = Inr x \<Longrightarrow> percent x"
    and "mw_bus w' = mw_bus w" "mw_published w' = mw_published w" "mw_scored w' = mw_scored w" "mw_running w' = mw_running w"
proof -
  have own: "engine_ok 10000 (snd (score_event R e (mw_engine w)))"
    "fst (score_event R e (mw_engine w)) = Inr y \<Longrightarrow> percent y" for y
    using score_event_ok(1,2) [OF assms(2) prod.collapse [symmetric]] assms(1) by blast+
  have champ: "engine_ok 10000 (ab_champion (snd (ab_score R e s)))"
    "fst (ab_score R e s) = Inr y \<Longrightarrow> percent y" if "mw_session w = Some s" for s y
  proof -
    have "engine_ok 10000 (ab_champion s)" using assms(3) that by simp
    note ok = score_event_ok(1,2) [OF this prod.collapse [symmetric]]
    show "engine_ok 10000 (ab_champion (snd (ab_score R e s)))" by (simp add: ab_score_champion ok(1))
    show "fst (ab_score R e s) = Inr y \<Longrightarrow> percent y"
      using ok(2) [OF assms(1)] ab_score_champion(2) by blast
  qed
  have *: "engine_ok 10000 (mw_engine w') \<and> (case mw_session w' of None \<Rightarrow> True | Some s \<Rightarrow> engine_ok 10000 (ab_champion s))
    \<and> (\<forall>x. r = Inr x \<longrightarrow> percent x) \<and> mw_bus w' = mw_bus w \<and> mw_published w' = mw_published w \<and> mw_scored w' = mw_scored w
    \<and> mw_running w' = mw_running w"
  proof (cases "mw_session w")
    case None
    then have "w' = w\<lparr>mw_engine := snd (score_event R e (mw_engine w))\<rparr>" "r = fst (score_event R e (mw_engine w))"
      using assms(4) by (auto simp: worker_score_def split: prod.splits)
    with own None show ?thesis by simp
  next
    case (Some s)
    show ?thesis
    proof (cases "fst (ab_score R e s)")
      case (Inr y)
      then have "w' = w\<lparr>mw_session := Some (snd (ab_score R e s))\<rparr>" "r = Inr y"
        using assms(4) Some by (auto simp: worker_score_def split: prod.splits)
      with champ Some Inr assms(2) show ?thesis by simp
    next
      case (Inl y)
      then have "w' = w\<lparr>mw_session := Some (snd (ab_score R e s)), mw_engine := snd (score_event R e (mw_engine w))\<rparr>"
          "r = fst (score_event R e (mw_engine w))"
        using assms(4) Some by (auto simp: worker_score_def split: prod.splits)
      with own champ Some show ?thesis by simp
    qed
  qed
  then show "engine_ok 10000 (mw_engine w')" "case mw_session w' of None \<Rightarrow> True | Some s \<Rightarrow> engine_ok 10000 (ab_champion s)"
    and "r = Inr x \<Longrightarrow> percent x"
    and "mw_bus w' = mw_bus w" "mw_published w' = mw_published w" "mw_scored w' = mw_scored w" "mw_running w' = mw_running w"
    by blast+
qed

lemma worker_process_ok:
  assumes "river_scores R" and "worker_ok w" and "worker_process R ok db_ok e w = (r, w')"
  shows "worker_ok w'"
proof -
  obtain a w1 where sc: "worker_score R e w = (a, w1)" by force
  have eng: "engine_ok 10000 (mw_engine w)" "case mw_session w of None \<Rightarrow> True | Some s \<Rightarrow> engine_ok 10000 (ab_champion s)"
    using assms(2) by (simp_all add: worker_ok_def)
  note ok = worker_score_ok [OF assms(1) eng sc]
  have w1: "worker_ok w1" using assms(2) ok by (simp add: worker_ok_def)
  show ?thesis
  proof (cases a)
    case (Inl x)
    then show ?thesis using assms(3) w1 by (simp add: worker_process_def sc)
  next
    case (Inr x)
    let ?m = "(''analysis:ml'', analysis_message e x)"
    have "percent x" using ok(3) Inr by simp
    then have "sound_message ?m" using round_digits_percent unfolding sound_message_def by blast
    then have "list_all sound_message (sent (snd (publish ok (fst ?m) (snd ?m) (mw_bus w1))))"
      using w1 by (intro publish_sound) (simp_all add: worker_ok_def)
    then show ?thesis
      using assms(3) w1 Inr by (auto simp: worker_process_def sc worker_ok_def publish_def split: if_splits)
  qed
qed

lemma worker_ok_save [simp]: "worker_ok (try_save P f w) = worker_ok w" "worker_ok (w\<lparr>mw_running := b\<rparr>) = worker_ok w"
  by (simp_all add: worker_ok_def try_save_def)

lemma ml_worker_step_ok:
  assumes "river_scores R" and "worker_ok w"
  shows "worker_ok (ml_worker_step R P parse ok op w)"
proof (cases op)
  case (Message m db_ok fail_at stop)
  have "worker_ok w1" if "worker_process R ok db_ok e w = (r, w1)" for r w1 e
    using worker_process_ok [OF assms that] .
  then show ?thesis
    using assms(2) by (auto simp: Message worker_message_def split: sum.split prod.split)
next
  case (Periodic f)
  then show ?thesis using assms(2) by simp
next
  case (Told o')
  then show ?thesis using assms(2) ml_step_ok [of 10000 "mw_engine w"] by (simp add: worker_ok_def)
qed

interpretation scorer: filtered_machine "ml_worker_step R P parse ok" "\<lambda>op. river_scores R" worker_ok for R P parse ok
  by unfold_locales (rule ml_worker_step_ok)

text \<open>Everything the worker publishes, over any messages, failures, saves and feedback, is an analysis of an event with a score
  between 0 and 100, once per counted publication.\<close>

theorem analyses_sound:
  assumes "river_scores R" and "new_engine None None key env = Inr g"
  shows "case run (ml_worker_step R P parse ok) (start_worker P g None events Map.empty) ops of w \<Rightarrow>
    list_all sound_message (sent (mw_bus w)) \<and> length (sent (mw_bus w)) = mw_published w \<and> mw_published w \<le> mw_scored w"
proof -
  have "worker_ok (start_worker P g None events Map.empty)"
    using new_engine_ok [OF assms(2)] by (simp add: start_worker_def try_load_def worker_ok_def empty_bus_def)
  moreover have "list_all (\<lambda>op. river_scores R) ops" using assms(1) by (simp add: list_all_iff)
  ultimately have "worker_ok (run (ml_worker_step R P parse ok) (start_worker P g None events Map.empty) ops)"
    by (rule scorer.run_allowed)
  then show ?thesis by (simp add: worker_ok_def)
qed

lemma analyses_sound_witness:
  "list_all sound_message (sent (mw_bus (run (ml_worker_step toy_river toy_pickler (\<lambda>m. Inr toy_event) (\<lambda>n. True))
     (start_worker toy_pickler \<lparr>me_key = ''k'', me_anomaly = default_detector, me_classifier = new_classifier (1/100)\<rparr> None None
       Map.empty) [Message JNull True None False])))"
proof -
  let ?g = "\<lparr>me_key = ''k'', me_anomaly = default_detector, me_classifier = new_classifier (1/100)\<rparr> :: (nat, bool) ml_engine"
  have "new_engine None None (Some ''k'') None = Inr ?g" by (simp add: new_engine_def engine_key_def)
  from analyses_sound [OF toy_river_scores this] show ?thesis by (simp only:)
qed

section \<open>One negative count ends the learning\<close>

lemma negative_raises:
  assumes "ev_bytes_sent e = Some v" and "v < 0"
  shows "\<exists>x g'. score_event R e g = (Inl x, g')"
proof -
  have "\<exists>x d'. learn_and_score R e d = (Inl x, d')" for d
    using extract_negative [OF assms] by (auto simp: learn_and_score_def split: prod.split sum.split)
  then obtain x d' where "learn_and_score R e (me_anomaly g) = (Inl x, d')" by blast
  then show ?thesis by (simp add: score_event_def)
qed

lemma negative_stops:
  assumes "ev_bytes_sent e = Some v" and "v < 0"
  shows "\<exists>x w'. worker_process R ok db_ok e w = (Inl x, w') \<and> mw_scored w' = mw_scored w \<and> mw_bus w' = mw_bus w"
proof -
  have "\<exists>x w'. worker_score R e w = (Inl x, w') \<and> mw_scored w' = mw_scored w \<and> mw_bus w' = mw_bus w"
  proof (cases "mw_session w")
    case None
    then show ?thesis using negative_raises [OF assms, of R "mw_engine w"] by (auto simp: worker_score_def)
  next
    case (Some s)
    obtain x g where "score_event R e (ab_champion s) = (Inl x, g)" using negative_raises [OF assms] by blast
    then show ?thesis
      using Some negative_raises [OF assms, of R "mw_engine w"] by (auto simp: worker_score_def ab_score_def)
  qed
  then show ?thesis by (auto simp: worker_process_def)
qed

lemma stopped_stays: "\<not> mw_running w \<Longrightarrow>
    \<not> mw_running (ml_worker_step R P parse ok op w) \<and> mw_scored (ml_worker_step R P parse ok op w) = mw_scored w
      \<and> mw_bus (ml_worker_step R P parse ok op w) = mw_bus w"
  by (cases op) (simp_all add: worker_message_def)

interpretation halted: filtered_machine "ml_worker_step R P parse ok" "\<lambda>op. True"
    "\<lambda>w. \<not> mw_running w \<and> mw_scored w = n \<and> mw_bus w = b" for R P parse ok n b
  by unfold_locales (simp add: stopped_stays)

text \<open>An event with a negative count of bytes, which is a valid event, ends the worker: whatever follows, no event is scored and no
  analysis published any more.\<close>

theorem negative_bytes_stop_worker:
  assumes "parse m = Inr e" and "valid_event e" and "ev_bytes_sent e = Some v" and "v < 0"
  shows "case run (ml_worker_step R P parse ok) w (Message m db_ok fail_at stop # ops) of w' \<Rightarrow>
    \<not> mw_running w' \<and> mw_scored w' = mw_scored w \<and> sent (mw_bus w') = sent (mw_bus w)"
proof -
  let ?w = "worker_message R P parse ok db_ok fail_at stop m w"
  have "\<not> mw_running ?w \<and> mw_scored ?w = mw_scored w \<and> mw_bus ?w = mw_bus w"
    using negative_stops [OF assms(3,4), of R ok db_ok w] assms(1) by (auto simp: worker_message_def try_save_def)
  moreover have "list_all (\<lambda>op. True) ops" by (simp add: list_all_iff)
  ultimately have "\<not> mw_running (run (ml_worker_step R P parse ok) ?w ops) \<and> mw_scored (run (ml_worker_step R P parse ok) ?w ops) = mw_scored w
      \<and> mw_bus (run (ml_worker_step R P parse ok) ?w ops) = mw_bus w"
    by (rule halted.run_allowed)
  then show ?thesis by simp
qed

lemma negative_bytes_stop_worker_witness:
  "valid_event (toy_event\<lparr>ev_bytes_sent := Some (-1)\<rparr>) \<and>
   \<not> mw_running (run (ml_worker_step toy_river toy_pickler (\<lambda>m. Inr (toy_event\<lparr>ev_bytes_sent := Some (-1)\<rparr>)) (\<lambda>n. True))
     (start_worker toy_pickler untrained None None Map.empty) [Message JNull True None False, Message JNull True None False])"
proof -
  have v: "valid_event (toy_event\<lparr>ev_bytes_sent := Some (-1)\<rparr>)"
    by (simp add: valid_event_def toy_event_def event_categories_def event_severities_def event_oses_def valid_port_def)
  with negative_bytes_stop_worker [where m = JNull and parse = "\<lambda>m. Inr (toy_event\<lparr>ev_bytes_sent := Some (-1)\<rparr>)"
      and e = "toy_event\<lparr>ev_bytes_sent := Some (-1)\<rparr>" and v = "-1" and ops = "[Message JNull True None False]" and R = toy_river and P = toy_pickler]
  show ?thesis by simp
qed

section \<open>A score that comes before its event\<close>

text \<open>The storage writer inserts events in batches, the worker updates their scores at once: an update before the insertion
  changes nothing, and the row is written without the score.\<close>

lemma early_score_lost:
  "\<not> list_ex (\<lambda>r. er_event_id r = i) t \<Longrightarrow> insert_batch es (update_ml_score i x t) = insert_batch es t"
proof -
  assume "\<not> list_ex (\<lambda>r. er_event_id r = i) t"
  then have "update_ml_score i x t = t" by (induction t) (auto simp: update_ml_score_def)
  then show ?thesis by simp
qed

end
