(* ===== verification/Spec2Isabelle.thy ===== *)
theory Spec2Isabelle
  imports Decision_Worker Correlation TI_Client Response_Actions Ingest Case_Manager Forensics Storage_Writer Backpressure Rule_Worker
    Auth Enrollment Ws_Manager Memory_Bus Policy Plugins Normalizer Alert_Repo Fleet Agent_Streams Event_Repo Entities Rule_Repo Ml_Worker
begin

text \<open>
  OSEye server: a verification development of its detection and response pipeline, the Python code under
  \<open>src/server/oseye/\<close>.

  \<^bold>\<open>The system.\<close> An agent enrols with a one-time token and gets a certificate (\<open>api/routers/enrollment.py\<close>),
  receives policy profiles with the signed rule set (\<open>policy/\<close>) and streams event batches over mTLS
  (\<open>ingest/\<close>); rules turn events into alerts (\<open>rule_engine/\<close>, \<open>workers/rule_worker.py\<close>);
  the correlation worker groups alerts into incidents (\<open>correlation/\<close>, \<open>workers/correlation_worker.py\<close>)
  and announces new ones; the decision worker scores an incident, signs the decision into a hash-chained
  journal, stores it and executes its actions (\<open>decision/\<close>, \<open>workers/decision_worker.py\<close>); a human
  approves or rejects the decisions that need one (\<open>decision/human_queue.py\<close>); agents report on the
  commands they were sent, which an administrator can roll back (\<open>api/routers/response_actions.py\<close>);
  indicators are looked up at remote providers behind a cache, retries and circuit breakers
  (\<open>threat_intel/\<close>). Users log in with a password or present an API key (\<open>api/auth/\<close>,
  \<open>api/routers/auth.py\<close>) and watch alerts and decisions over WebSockets (\<open>api/ws/\<close>). The components talk
  over a bus (\<open>bus/memory_bus.py\<close>) and share the tables of a SQL database.

  \<^bold>\<open>The theories.\<close>
  \<^item> \<open>Prelude\<close>: results, JSON values, insertion-ordered dictionaries, list and text helpers.
  \<^item> \<open>Machines\<close>: the interfaces of the development as locales: a \<open>machine\<close> (step function, initial
    states, invariant kept by every step), a \<open>filtered_machine\<close> (an invariant kept by the events a predicate admits),
    a \<open>monitored_machine\<close> (with a level that never drops) and a \<open>guarded_row\<close> (a table whose rows change only by a compare-and-set). \<open>Hash_Chain\<close> holds
    \<open>hash_chain\<close> and its extension \<open>linked_chain\<close>; \<open>TI_Cache\<close> holds \<open>ti_cache\<close>. Each is interpreted on
    the model's own definitions in the theory that provides them: \<open>jc\<close>, \<open>rc\<close> and \<open>cc\<close> (the journal's
    entries, the stored rows, the custody log), \<open>dec\<close> and \<open>act\<close> (the decisions and response actions
    tables), \<open>dw\<close>, \<open>dwc\<close>, \<open>cw\<close>, \<open>br\<close>, \<open>pv\<close>, \<open>cm\<close>, \<open>sw\<close>, \<open>bp\<close>, \<open>wn\<close>, \<open>ruw\<close>, \<open>rub\<close> (the workers, the
    breaker and a provider around it, the case manager, the storage writer, the backpressure controller,
    the temporal windows, the rule worker), \<open>mem\<close> (the memory cache), \<open>dead_tokens\<close>, \<open>dead_keys\<close>,
    \<open>key_roles\<close>, \<open>refresh_rate\<close>, \<open>ws_slots\<close>, \<open>alert_notes\<close> (revoked tokens and API keys, the roles of keys, the
    rate limiter, the slots of the WebSockets, the notes of the alerts), \<open>gate\<close>, \<open>fleet_registry\<close>, \<open>offline_agent\<close>,
    \<open>fleet_rows\<close> (revoked agents, active names, a hidden agent, the columns of the agents table), \<open>cancelled\<close> (a cancelled
    stream), \<open>chainless\<close> (events without a chain), \<open>rule_log\<close>, \<open>rule_history\<close>, \<open>lineage\<close> (the change log of the rules),
    \<open>learner\<close>, \<open>scorer\<close>, \<open>halted\<close> (the learning engine, its worker, a worker that has stopped), \<open>stays_open\<close> (an open circuit
    before its timeout).
  \<^item> \<open>Schema\<close> (\<open>core/schema.py\<close>): the data models the components exchange, with the constraints
    pydantic checks when a model is built.
  \<^item> \<open>Bus\<close> (\<open>bus/interface.py\<close>): what a publisher sees; \<open>emits\<close> says what a step may add to the bus.
  \<^item> \<open>Journal\<close> (\<open>decision/journal.py\<close>): commit, rollback, verify_chain; tamper evidence up to a concrete
    collision of the digest or of the encoder.
  \<^item> \<open>Decision_Engine\<close> (\<open>decision/engine.py\<close>): signals, weights, overrides, risk matrix, leader check,
    \<open>decide\<close>.
  \<^item> \<open>Decision_Repo\<close> (\<open>storage/repositories/decisions.py\<close>): the decisions table, its guarded human
    update, the journal restored at startup (\<open>main.py\<close>).
  \<^item> \<open>Executor\<close> (\<open>decision/action_executor.py\<close>): the actions of a decision and the commands to agents.
  \<^item> \<open>Human_Queue\<close> (\<open>decision/human_queue.py\<close>, \<open>api/routers/decisions.py\<close>): approvals, rejections,
    the timeout sweep, the routes over the decisions.
  \<^item> \<open>Decision_Worker\<close> (\<open>workers/decision_worker.py\<close>): one message from the bus to the stored decision,
    with every failure on the way.
  \<^item> \<open>Linkers\<close>, \<open>Incident_Repo\<close>, \<open>Correlation\<close> (\<open>correlation/\<close>, \<open>storage/repositories/incidents.py\<close>,
    \<open>workers/correlation_worker.py\<close>): scores, the two incident tables, the choice of an incident, the
    worker with its periodic sweep.
  \<^item> \<open>Breaker\<close>, \<open>TI_Cache\<close>, \<open>TI_Client\<close> (\<open>threat_intel/\<close>, \<open>workers/ti_worker.py\<close>): the circuit breaker
    under interleaved calls, retries, the cache, the aggregated lookup.
  \<^item> \<open>Response_Actions\<close> (\<open>storage/repositories/response_actions.py\<close>, \<open>api/routers/response_actions.py\<close>,
    \<open>ReportActions\<close> of \<open>ingest/grpc_service.py\<close>): the life cycle of a command.
  \<^item> \<open>Ingest\<close> (\<open>ingest/validator.py\<close>, \<open>ingest/normalizer_bridge.py\<close>, \<open>IngestEvents\<close>): batch
    validation, conversion and publication. \<open>Backpressure\<close> (\<open>ingest/backpressure.py\<close>): the throttle
    factor sent to the agents. \<open>Storage_Writer\<close> (\<open>workers/storage_writer.py\<close>): batches, retries, dead
    letters, and where each received event is.
  \<^item> \<open>Case_Repo\<close>, \<open>Case_Manager\<close>, \<open>Forensics\<close> (\<open>storage/repositories/cases.py\<close>, \<open>forensic/\<close>,
    \<open>api/routers/cases.py\<close>): forensic cases with their custody log, timelines, differences of snapshots.
  \<^item> \<open>Rule_Expr\<close>, \<open>Rule_Types\<close> (\<open>rule_engine/evaluator.py\<close>): the condition language: rewriting of the
    text, syntax check, sandbox, evaluation, and a type system under which conditions do not raise.
    \<open>Rule_Windows\<close>, \<open>Rule_Temporal\<close> (same file): the temporal windows, \<open>count_events\<close>, \<open>evaluate\<close>, and
    the specification over the whole history that the pruned windows refine. \<open>Rule_Engine\<close>
    (\<open>rule_engine/engine.py\<close>): index, dispatch, entity keys, saved windows. \<open>Rule_Parser\<close>
    (\<open>rule_engine/parser.py\<close>, over \<open>Py_Int\<close>, Python's reading of integers): rules from YAML documents.
    \<open>Rule_Worker\<close> (\<open>workers/rule_worker.py\<close>): from an event to its alerts and announcements.
  \<^item> \<open>Jwt\<close> (\<open>api/auth/jwt.py\<close>): tokens and the blocklist in memory, in its file and in Redis, over restarts:
    which starts find a revocation again and which forget it.
    \<open>Api_Keys\<close> (\<open>storage/repositories/api_keys.py\<close>, \<open>api/auth/rbac.py\<close>, \<open>api/routers/api_keys.py\<close>): keys,
    roles, and how a request gets its identity. \<open>Auth\<close> (\<open>api/routers/auth.py\<close>): login, refresh, logout, the
    user cache, the rate limiter. \<open>Enrollment\<close> (\<open>storage/repositories/enrollment_tokens.py\<close>,
    \<open>api/routers/enrollment.py\<close>): tokens and certificates; \<open>Iso_Time\<close> shows when the order of ISO texts in the
    database is the order of the instants.
  \<^item> \<open>Policy\<close> (\<open>policy/\<close>, \<open>api/routers/policies.py\<close>): profiles, the signed rule set, pushes to agents.
    \<open>Plugins\<close> (\<open>plugin/manager.py\<close>, \<open>plugin/verifier.py\<close>, \<open>api/routers/plugins.py\<close>): installation,
    discovery, starting and stopping.
  \<^item> \<open>Ws_Manager\<close> (\<open>api/ws/\<close>): connection slots, broadcasts, admission to the streams. \<open>Memory_Bus\<close>
    (\<open>bus/memory_bus.py\<close>): the queues of topics and patterns.
  \<^item> \<open>Secret_Masker\<close>, \<open>Adapters\<close>, \<open>Desktop_Adapters\<close>, \<open>Normalizer\<close> (\<open>normalizer/\<close>): masking of credentials,
    one adapter per collector, the registry with its built-in adapters and the engine. \<open>Alert_Repo\<close>
    (\<open>storage/repositories/alerts.py\<close>, \<open>api/routers/alerts.py\<close>): alerts with their notes, and their routes.
    \<open>Event_Repo\<close> (\<open>storage/repositories/events.py\<close>, \<open>storage/router.py\<close>, \<open>api/routers/events.py\<close>): events, stored and
    read back. \<open>Entities\<close> (\<open>api/routers/entities.py\<close>): risk profiles. \<open>Rule_Repo\<close> (\<open>storage/repositories/rules.py\<close>,
    \<open>api/routers/rules.py\<close>): managed rules with their change log, which leads back to the row as created; an update is its read and its
    commit, and requests run one after another except where overlapping updates are shown to disagree.
  \<^item> \<open>Fleet\<close> (\<open>storage/repositories/agents.py\<close>, \<open>storage/repositories/blocked_agents.py\<close>, \<open>api/routers/agents.py\<close>,
    the start and end of \<open>IngestEvents\<close>): who streams, who is active, who is blocked, over restarts (writes to the
    agents' table run in the order they are scheduled, which the code does not ensure).
    \<open>Agent_Streams\<close> (\<open>StreamCommands\<close>, \<open>ReceivePolicy\<close>): what an agent is handed from the bus.
  \<^item> \<open>Ml_Engine\<close> (\<open>ml_engine/features.py\<close>, \<open>anomaly.py\<close>, \<open>classifier.py\<close>, \<open>engine.py\<close>): features, the bounded stores of
    models, scores. \<open>Ml_Checkpoint\<close> (their files): saving, loading, and what every interrupted save leaves.
    \<open>Ml_Worker\<close> (\<open>ml_engine/ab_test.py\<close>, \<open>workers/ml_worker.py\<close>): comparing engines, the worker that scores events.

  \<^bold>\<open>Conventions.\<close> A class with state is a \<open>record\<close>, passed and returned; an operation that can raise
  returns \<open>exn + 'a\<close>, \<open>Inl\<close> the exception, beside the state it leaves behind. A coroutine is one function
  when nothing the property is about can happen between its awaits, and several steps when it can (the
  breaker, the human queue around its database updates, the updates of managed rules); operations on the tokens have no
  await inside. Times are integers in microseconds, and one
  clock reading serves one handler. Floats are exact rationals: rounding, infinities and NaN are not
  modelled. JSON texts are the values they encode, and UUIDs their texts. Code that is not in the
  repository is an argument of the definitions that use it: BLAKE3 and the JSON encoder (a collision is
  a conclusion, never excluded by assumption), Ed25519, IP and UUID parsing, the estimators of
  River and pickle, the score the decision engine reads, the replies of Redis and of the remote providers, the success of each bus publication
  and of each database transaction. A transaction that fails leaves its tables unchanged.

  \<^bold>\<open>Loops.\<close> Every loop of the modelled code runs over a finite collection and is structural recursion;
  the retry loop terminates by the attempts left. The only fuel is the depth of Python's stack in
  \<open>count_events\<close>, whose exhaustion is the \<open>RecursionError\<close>; \<open>counting_terminates\<close> shows that two levels are enough.

  \<^bold>\<open>Not modelled\<close>: the transports (HTTP, gRPC, SQL, Redis), the bus over Redis, logging and metrics, the
  subscription loops that feed messages to the workers, start-up and configuration, Python's parser and regular
  expressions (the patterns of the secret masker are scanners written out), the estimators of River, the sandbox process of a
  plugin, the exporters, the updater and the command line tools.
\<close>

end
